(* ===== verification/Go_Prelude.thy ===== *)
theory Go_Prelude
  imports Main "HOL-Library.List_Lexorder" "HOL-Library.Char_ord" "HOL-Library.AList"
    "HOL-Library.Multiset" "HOL-Library.Sublist"
begin

text \<open>
  What the components of Fabrin use of Go and of its standard library.

  A Go string is its bytes: a \<open>string\<close> is a list of 8-bit characters, and Go's comparison of
  strings is the lexicographic order of the bytes, which is the order the library theories
  \<open>List_Lexorder\<close> and \<open>Char_ord\<close> give the type. The functions of Go's package
  \<open>strings\<close> that the sources call are defined here, byte for byte, including the treatment
  of the multi-byte white space that \<open>strings.TrimSpace\<close> removes. A Go map is an association
  list with distinct keys, read by \<open>map_of\<close>; its list order stands for nothing, and where the
  sources range over a map the iteration order is a parameter of the model.

  A time is the number of nanoseconds since the zero time of Go, so that \<open>t = 0\<close> is
  \<open>t.IsZero()\<close>; a duration is a number of nanoseconds that \<open>Time.Sub\<close> clamps to 64 bits.
\<close>

named_theorems ok_iff \<open>when a result is \<open>Ok\<close>\<close>
named_theorems gomap_simps \<open>reading Go maps after an update\<close>
named_theorems gomap_keys \<open>the keys of a Go map stay distinct\<close>
named_theorems gomap_all \<open>a property of every entry is kept\<close>

type_synonym ('e, 'a) result = "'e + 'a"

abbreviation Ok :: "'a \<Rightarrow> ('e, 'a) result" where
  "Ok \<equiv> Inr"

abbreviation Err :: "'e \<Rightarrow> ('e, 'a) result" where
  "Err \<equiv> Inl"

fun is_ok :: "('e, 'a) result \<Rightarrow> bool" where
  "is_ok (Inr _) = True"
| "is_ok (Inl _) = False"

lemma is_ok_iff: "is_ok r \<longleftrightarrow> (\<exists>a. r = Ok a)"
  by (cases r) auto

lemma case_sum_Ok [ok_iff]: "(case r of Err e \<Rightarrow> Err e | Ok x \<Rightarrow> f x) = Ok y \<longleftrightarrow> (\<exists>x. r = Ok x \<and> f x = Ok y)"
  by (cases r) auto

lemma Ok_inject [ok_iff]: "(Ok a :: ('e, 'a) result) = Ok b \<longleftrightarrow> b = a"
  by auto

lemma map_sum_Ok [ok_iff]: "map_sum f g r = Ok y \<longleftrightarrow> (\<exists>x. r = Ok x \<and> y = g x)"
  by (cases r) auto

section \<open>Strings\<close>

definition HasPrefix :: "string \<Rightarrow> string \<Rightarrow> bool" where
  "HasPrefix s p = (take (length p) s = p)"

definition HasSuffix :: "string \<Rightarrow> string \<Rightarrow> bool" where
  "HasSuffix s p = (length p \<le> length s \<and> drop (length s - length p) s = p)"

lemma HasPrefix_iff: "HasPrefix s p \<longleftrightarrow> (\<exists>r. s = p @ r)"
  by (auto simp: HasPrefix_def) (metis append_take_drop_id)

lemma HasSuffix_iff: "HasSuffix s p \<longleftrightarrow> (\<exists>r. s = r @ p)"
  by (auto simp: HasSuffix_def) (metis append_take_drop_id)

definition TrimPrefix :: "string \<Rightarrow> string \<Rightarrow> string" where
  "TrimPrefix s p = (if HasPrefix s p then drop (length p) s else s)"

text \<open>The UTF-8 encodings of the code points for which \<open>unicode.IsSpace\<close> holds.\<close>

definition white_space :: "string list" where
  "white_space =
     [[CHR 0x09], [CHR 0x0A], [CHR 0x0B], [CHR 0x0C], [CHR 0x0D], [CHR 0x20],
      [CHR 0xC2, CHR 0x85], [CHR 0xC2, CHR 0xA0], [CHR 0xE1, CHR 0x9A, CHR 0x80],
      [CHR 0xE2, CHR 0x80, CHR 0x80], [CHR 0xE2, CHR 0x80, CHR 0x81],
      [CHR 0xE2, CHR 0x80, CHR 0x82], [CHR 0xE2, CHR 0x80, CHR 0x83],
      [CHR 0xE2, CHR 0x80, CHR 0x84], [CHR 0xE2, CHR 0x80, CHR 0x85],
      [CHR 0xE2, CHR 0x80, CHR 0x86], [CHR 0xE2, CHR 0x80, CHR 0x87],
      [CHR 0xE2, CHR 0x80, CHR 0x88], [CHR 0xE2, CHR 0x80, CHR 0x89],
      [CHR 0xE2, CHR 0x80, CHR 0x8A], [CHR 0xE2, CHR 0x80, CHR 0xA8],
      [CHR 0xE2, CHR 0x80, CHR 0xA9], [CHR 0xE2, CHR 0x80, CHR 0xAF],
      [CHR 0xE2, CHR 0x81, CHR 0x9F], [CHR 0xE3, CHR 0x80, CHR 0x80]]"

lemma white_space_nonempty: "w \<in> set white_space \<Longrightarrow> w \<noteq> []"
  by (auto simp: white_space_def)

definition space_prefix :: "string \<Rightarrow> string option" where
  "space_prefix s = find (HasPrefix s) white_space"

definition space_suffix :: "string \<Rightarrow> string option" where
  "space_suffix s = find (HasSuffix s) white_space"

lemma space_prefix_SomeD: "space_prefix s = Some w \<Longrightarrow> w \<noteq> [] \<and> (\<exists>r. s = w @ r)"
  by (auto simp: space_prefix_def find_Some_iff HasPrefix_iff dest: nth_mem white_space_nonempty)

lemma space_suffix_SomeD: "space_suffix s = Some w \<Longrightarrow> w \<noteq> [] \<and> (\<exists>r. s = r @ w)"
  by (auto simp: space_suffix_def find_Some_iff HasSuffix_iff dest: nth_mem white_space_nonempty)

function trim_left_space :: "string \<Rightarrow> string" where
  "trim_left_space s =
     (case space_prefix s of None \<Rightarrow> s | Some w \<Rightarrow> trim_left_space (drop (length w) s))"
  by pat_completeness auto
termination
  by (relation "measure length") (auto dest!: space_prefix_SomeD)

function trim_right_space :: "string \<Rightarrow> string" where
  "trim_right_space s =
     (case space_suffix s of None \<Rightarrow> s
      | Some w \<Rightarrow> trim_right_space (take (length s - length w) s))"
  by pat_completeness auto
termination
  by (relation "measure length") (auto dest!: space_suffix_SomeD)

declare trim_left_space.simps [simp del] trim_right_space.simps [simp del]

definition TrimSpace :: "string \<Rightarrow> string" where
  "TrimSpace s = trim_right_space (trim_left_space s)"

lemma trim_left_space_suffix: "\<exists>p. s = p @ trim_left_space s"
proof (induction s rule: trim_left_space.induct)
  case (1 s)
  show ?case
  proof (cases "space_prefix s")
    case None
    then show ?thesis by (simp add: trim_left_space.simps [of s])
  next
    case (Some w)
    then obtain r where r: "s = w @ r" by (auto dest: space_prefix_SomeD)
    from 1 [OF Some] obtain p where "drop (length w) s = p @ trim_left_space (drop (length w) s)"
      by blast
    moreover have "trim_left_space s = trim_left_space (drop (length w) s)"
      using Some by (simp add: trim_left_space.simps [of s])
    ultimately have "s = (w @ p) @ trim_left_space s" using r by simp
    then show ?thesis by blast
  qed
qed

lemma trim_right_space_prefix: "\<exists>p. s = trim_right_space s @ p"
proof (induction s rule: trim_right_space.induct)
  case (1 s)
  show ?case
  proof (cases "space_suffix s")
    case None
    then show ?thesis by (simp add: trim_right_space.simps [of s])
  next
    case (Some w)
    then obtain r where r: "s = r @ w" by (auto dest: space_suffix_SomeD)
    have "trim_right_space s = trim_right_space (take (length s - length w) s)"
      using Some by (simp add: trim_right_space.simps [of s])
    then have eq: "trim_right_space s = trim_right_space r" using r by simp
    from 1 [OF Some] r obtain p where "r = trim_right_space r @ p" by auto
    then have "s = trim_right_space r @ (p @ w)" using r by (metis append.assoc)
    with eq show ?thesis by auto
  qed
qed

lemma trim_left_space_None: "space_prefix (trim_left_space s) = None"
  by (induction s rule: trim_left_space.induct)
    (subst trim_left_space.simps, auto split: option.splits)

lemma trim_right_space_None: "space_suffix (trim_right_space s) = None"
  by (induction s rule: trim_right_space.induct)
    (subst trim_right_space.simps, auto split: option.splits)

lemma TrimSpace_infix: "\<exists>p q. s = p @ TrimSpace s @ q"
  by (metis TrimSpace_def trim_left_space_suffix trim_right_space_prefix)

lemma set_TrimSpace: "set (TrimSpace s) \<subseteq> set s"
proof -
  obtain p q where "s = p @ TrimSpace s @ q" using TrimSpace_infix by blast
  then have "set s = set p \<union> set (TrimSpace s) \<union> set q"
    by (metis set_append Un_assoc)
  then show ?thesis by blast
qed

lemma TrimSpace_id: "space_prefix s = None \<Longrightarrow> space_suffix s = None \<Longrightarrow> TrimSpace s = s"
  by (simp add: TrimSpace_def trim_left_space.simps trim_right_space.simps)

lemma space_prefix_prefix: "space_prefix (s @ t) = None \<Longrightarrow> space_prefix s = None"
  by (auto simp: space_prefix_def find_None_iff HasPrefix_iff)

lemma TrimSpace_idem: "TrimSpace (TrimSpace s) = TrimSpace s"
proof -
  have "space_prefix (trim_left_space s) = None" by (rule trim_left_space_None)
  moreover obtain p where "trim_left_space s = TrimSpace s @ p"
    using trim_right_space_prefix by (auto simp: TrimSpace_def)
  ultimately have "space_prefix (TrimSpace s) = None" by (metis space_prefix_prefix)
  moreover have "space_suffix (TrimSpace s) = None"
    by (simp add: TrimSpace_def trim_right_space_None)
  ultimately show ?thesis by (rule TrimSpace_id)
qed

lemma TrimSpace_Nil [simp]: "TrimSpace [] = []"
  using set_TrimSpace [of "[]"] by simp

text \<open>\<open>strings.Cut\<close>, \<open>strings.Split\<close> and \<open>strings.ReplaceAll\<close> at a one-byte separator.\<close>

fun Cut :: "char \<Rightarrow> string \<Rightarrow> string \<times> string \<times> bool" where
  "Cut c [] = ([], [], False)"
| "Cut c (x # xs) =
     (if x = c then ([], xs, True)
      else let (a, b, f) = Cut c xs in (x # a, b, f))"

lemma Cut_foundD: "Cut c s = (a, b, True) \<Longrightarrow> s = a @ c # b \<and> c \<notin> set a"
  by (induction s arbitrary: a b) (auto split: if_splits prod.splits)

lemma Cut_absent: "c \<notin> set s \<Longrightarrow> Cut c s = (s, [], False)"
  by (induction s) auto

lemma Cut_not_found: "Cut c s = (a, b, False) \<Longrightarrow> a = s \<and> b = [] \<and> c \<notin> set s"
  by (induction s arbitrary: a b) (auto split: if_splits prod.splits)

lemma Cut_append [simp]: "c \<notin> set a \<Longrightarrow> Cut c (a @ c # b) = (a, b, True)"
  by (induction a) auto

fun Split :: "char \<Rightarrow> string \<Rightarrow> string list" where
  "Split c [] = [[]]"
| "Split c (x # xs) =
     (if x = c then [] # Split c xs
      else (case Split c xs of [] \<Rightarrow> [[x]] | y # ys \<Rightarrow> (x # y) # ys))"

lemma Split_nonempty: "Split c s \<noteq> []"
  by (cases s) (auto split: list.splits)

lemma Split_no_sep: "p \<in> set (Split c s) \<Longrightarrow> c \<notin> set p"
  by (induction s arbitrary: p) (auto split: if_splits list.splits)

definition ReplaceAll :: "char \<Rightarrow> string \<Rightarrow> string \<Rightarrow> string" where
  "ReplaceAll c r s = concat (map (\<lambda>x. if x = c then r else [x]) s)"

lemma ReplaceAll_simps [simp]:
  "ReplaceAll c r [] = []"
  "ReplaceAll c r (x # xs) = (if x = c then r else [x]) @ ReplaceAll c r xs"
  by (simp_all add: ReplaceAll_def)

definition Trim :: "char \<Rightarrow> string \<Rightarrow> string" where
  "Trim c s = rev (dropWhile (\<lambda>x. x = c) (rev (dropWhile (\<lambda>x. x = c) s)))"

lemma length_Trim: "length (Trim c s) \<le> length s"
  unfolding Trim_def by (metis length_dropWhile_le length_rev order_trans)

lemma set_Trim: "set (Trim c s) \<subseteq> set s"
  by (auto simp: Trim_def dest!: set_dropWhileD)

fun Join :: "string \<Rightarrow> string list \<Rightarrow> string" where
  "Join sep [] = []"
| "Join sep [x] = x"
| "Join sep (x # y # ys) = x @ sep @ Join sep (y # ys)"

fun Contains :: "string \<Rightarrow> string \<Rightarrow> bool" where
  "Contains [] t = (t = [])"
| "Contains (c # s) t = (HasPrefix (c # s) t \<or> Contains s t)"

lemma Contains_iff: "Contains s t \<longleftrightarrow> (\<exists>a b. s = a @ t @ b)"
proof (induction s)
  case (Cons c s)
  have "(\<exists>a b. c # s = a @ t @ b) \<longleftrightarrow> (\<exists>b. c # s = t @ b) \<or> (\<exists>a b. s = a @ t @ b)"
    by (metis append_Cons append_Nil list.exhaust list.inject)
  then show ?case by (simp add: Cons.IH HasPrefix_iff)
qed simp

declare Contains.simps [simp del]

text \<open>\<open>strconv.Itoa\<close> on the lengths and counts the sources print.\<close>

definition digit_char :: "nat \<Rightarrow> char" where
  "digit_char d = char_of (48 + d)"

fun Itoa :: "nat \<Rightarrow> string" where
  "Itoa n = (if n < 10 then [digit_char n] else Itoa (n div 10) @ [digit_char (n mod 10)])"

declare Itoa.simps [simp del]

lemma Itoa_code [code]:
  "Itoa n = (case n < 10 of True \<Rightarrow> [digit_char n] | False \<Rightarrow> Itoa (n div 10) @ [digit_char (n mod 10)])"
  by (simp add: Itoa.simps)

definition is_digit :: "char \<Rightarrow> bool" where
  "is_digit c = (CHR ''0'' \<le> c \<and> c \<le> CHR ''9'')"

definition is_lower :: "char \<Rightarrow> bool" where
  "is_lower c = (CHR ''a'' \<le> c \<and> c \<le> CHR ''z'')"

definition is_upper :: "char \<Rightarrow> bool" where
  "is_upper c = (CHR ''A'' \<le> c \<and> c \<le> CHR ''Z'')"

definition ascii_lower :: "char \<Rightarrow> char" where
  "ascii_lower c = (if is_upper c then char_of (of_char c + 32 :: nat) else c)"

definition ascii_upper :: "char \<Rightarrow> char" where
  "ascii_upper c = (if is_lower c then char_of (of_char c - 32 :: nat) else c)"

section \<open>Go maps\<close>

type_synonym ('k, 'v) gomap = "('k \<times> 'v) list"

text \<open>
  The iteration order of \<open>range\<close> over a map is unspecified in Go: a loop over a map takes the
  order as a parameter, a function that returns the entries in some order.
\<close>

type_synonym ('k, 'v) map_order = "('k, 'v) gomap \<Rightarrow> ('k, 'v) gomap"

definition any_order :: "('k, 'v) map_order \<Rightarrow> bool" where
  "any_order it \<longleftrightarrow> (\<forall>m. mset (it m) = mset m)"

abbreviation gm_ok :: "('k, 'v) gomap \<Rightarrow> bool" where
  "gm_ok m \<equiv> distinct (map fst m)"

definition gm_set :: "'k \<Rightarrow> 'v \<Rightarrow> ('k, 'v) gomap \<Rightarrow> ('k, 'v) gomap" where
  "gm_set k v m = AList.update k v m"

definition gm_delete :: "'k \<Rightarrow> ('k, 'v) gomap \<Rightarrow> ('k, 'v) gomap" where
  "gm_delete k m = filter (\<lambda>(k', _). k' \<noteq> k) m"

definition gm_mapv :: "('k \<Rightarrow> 'v \<Rightarrow> 'w) \<Rightarrow> ('k, 'v) gomap \<Rightarrow> ('k, 'w) gomap" where
  "gm_mapv f m = map (\<lambda>(k, v). (k, f k v)) m"

definition gm_filterv :: "('v \<Rightarrow> bool) \<Rightarrow> ('k, 'v) gomap \<Rightarrow> ('k, 'v) gomap" where
  "gm_filterv P m = filter (\<lambda>(_, v). P v) m"

lemma gm_set_lookup [gomap_simps]: "map_of (gm_set k v m) = (map_of m)(k \<mapsto> v)"
  by (simp add: gm_set_def update_conv')

lemma gm_delete_lookup [gomap_simps]: "map_of (gm_delete k m) = (map_of m)(k := None)"
  by (induction m) (auto simp: gm_delete_def fun_eq_iff)

lemma gm_mapv_lookup [gomap_simps]: "map_of (gm_mapv f m) k = map_option (f k) (map_of m k)"
  by (induction m) (auto simp: gm_mapv_def)

lemma gm_filterv_lookup [gomap_simps]:
  "gm_ok m \<Longrightarrow> map_of (gm_filterv P m) k
    = (case map_of m k of None \<Rightarrow> None | Some v \<Rightarrow> if P v then Some v else None)"
  by (induction m) (auto simp: gm_filterv_def map_of_eq_None_iff image_iff split: option.splits)

lemma gm_ok_set [gomap_keys]: "gm_ok m \<Longrightarrow> gm_ok (gm_set k v m)"
  by (simp add: gm_set_def distinct_update)

lemma gm_ok_filter: "gm_ok m \<Longrightarrow> gm_ok (filter P m)"
  by (induction m) (auto simp: image_iff)

lemma gm_ok_delete [gomap_keys]: "gm_ok m \<Longrightarrow> gm_ok (gm_delete k m)"
  by (simp add: gm_delete_def gm_ok_filter)

lemma gm_ok_filterv [gomap_keys]: "gm_ok m \<Longrightarrow> gm_ok (gm_filterv P m)"
  by (simp add: gm_filterv_def gm_ok_filter)

lemma gm_all_set [gomap_all]:
  "list_all P m \<Longrightarrow> P (k, v) \<Longrightarrow> list_all P (gm_set k v m)"
  by (induction m) (auto simp: gm_set_def)

lemma gm_all_delete [gomap_all]: "list_all P m \<Longrightarrow> list_all P (gm_delete k m)"
  by (auto simp: gm_delete_def list_all_iff)

lemma gm_all_filterv [gomap_all]: "list_all P m \<Longrightarrow> list_all P (gm_filterv Q m)"
  by (auto simp: gm_filterv_def list_all_iff)

lemma gm_all_mapv [gomap_all]:
  "list_all (\<lambda>(k, v). P (k, f k v)) m \<Longrightarrow> list_all P (gm_mapv f m)"
  by (auto simp: gm_mapv_def list_all_iff)

lemma gm_all_lookup: "list_all P m \<Longrightarrow> map_of m k = Some v \<Longrightarrow> P (k, v)"
  by (auto simp: list_all_iff dest: map_of_SomeD)

lemma keys_mapv [gomap_simps]: "map fst (gm_mapv f m) = map fst m"
  by (induction m) (auto simp: gm_mapv_def)

lemma length_mapv [gomap_simps]: "length (gm_mapv f m) = length m"
  by (simp add: gm_mapv_def)

lemma length_gm_set:
  "length (gm_set k v m) = (if map_of m k = None then Suc (length m) else length m)"
  by (induction m) (auto simp: gm_set_def)

lemma length_gm_delete_le: "length (gm_delete k m) \<le> length m"
  by (simp add: gm_delete_def)

lemma length_gm_delete:
  "gm_ok m \<Longrightarrow> map_of m k \<noteq> None \<Longrightarrow> Suc (length (gm_delete k m)) = length m"
proof (induction m)
  case (Cons kv m)
  then show ?case
  proof (cases "fst kv = k")
    case True
    with Cons.prems have "\<forall>kv' \<in> set m. fst kv' \<noteq> k" by (force simp: image_iff)
    then have "filter (\<lambda>(k', _). k' \<noteq> k) m = m" by (auto simp: filter_id_conv)
    with True show ?thesis by (auto simp: gm_delete_def)
  next
    case False
    with Cons show ?thesis by (auto simp: gm_delete_def)
  qed
qed simp

lemma length_gm_filterv_le: "length (gm_filterv P m) \<le> length m"
  by (simp add: gm_filterv_def)

lemma any_order_set: "any_order it \<Longrightarrow> set (it m) = set m"
  by (metis any_order_def mset_eq_setD)

lemma gm_in_iff: "gm_ok m \<Longrightarrow> (k, v) \<in> set m \<longleftrightarrow> map_of m k = Some v"
  by (metis map_of_eq_Some_iff)

lemma foldl_gm_set_lookup:
  "distinct (map key xs) \<Longrightarrow>
     map_of (foldl (\<lambda>out x. gm_set (key x) x out) m xs) k =
     (case map_of (map (\<lambda>x. (key x, x)) xs) k of None \<Rightarrow> map_of m k | Some x \<Rightarrow> Some x)"
  by (induction xs arbitrary: m)
    (auto simp: gomap_simps map_of_eq_None_iff image_iff split: option.splits dest: map_of_SomeD)

section \<open>Sorting by a key\<close>

lemma sort_key_any_order:
  "mset xs = mset ys \<Longrightarrow> distinct (map f ys) \<Longrightarrow> sort_key f xs = sort_key f ys"
  by (rule sort_key_eq_sort_key) (auto simp: distinct_map dest: mset_eq_setD)

lemma distinct_map_sort_key: "distinct (map f (sort_key g xs)) \<longleftrightarrow> distinct (map f xs)"
  by (rule mset_eq_imp_distinct_iff) simp

lemma sorted_strict:
  fixes xs :: "'a :: linorder list"
  shows "sorted xs \<Longrightarrow> distinct xs \<Longrightarrow> sorted_wrt (<) xs"
  by (simp add: strict_sorted_iff)

section \<open>Time\<close>

type_synonym gotime = int
type_synonym duration = int

abbreviation Second :: duration where "Second \<equiv> 1000000000"
abbreviation Minute :: duration where "Minute \<equiv> 60 * Second"
abbreviation Hour :: duration where "Hour \<equiv> 60 * Minute"

definition minDuration :: duration where "minDuration = - (2 ^ 63)"
definition maxDuration :: duration where "maxDuration = 2 ^ 63 - 1"

definition time_sub :: "gotime \<Rightarrow> gotime \<Rightarrow> duration" where
  "time_sub t u = max minDuration (min maxDuration (t - u))"

lemma time_sub_less: "d \<le> maxDuration \<Longrightarrow> minDuration < d \<Longrightarrow> time_sub t u < d \<longleftrightarrow> t - u < d"
  by (auto simp: time_sub_def min_def max_def)

lemma time_sub_eq:
  "minDuration < d \<Longrightarrow> d < maxDuration \<Longrightarrow> time_sub t u = d \<longleftrightarrow> t - u = d"
  by (auto simp: time_sub_def min_def max_def)

section \<open>Writers, readers and paths\<close>

text \<open>
  An \<open>io.Writer\<close>: what was written, and after how many writes it starts to fail (\<open>None\<close>: never).
\<close>

record writer =
  wrText :: string
  wrCap :: "nat option"

definition Fprint :: "string \<Rightarrow> writer \<Rightarrow> writer \<times> bool" where
  "Fprint s w =
     (case wrCap w of
        None \<Rightarrow> (w\<lparr>wrText := wrText w @ s\<rparr>, True)
      | Some n \<Rightarrow>
          if n = 0 then (w, False)
          else (w\<lparr>wrText := wrText w @ s, wrCap := Some (n - 1)\<rparr>, True))"

text \<open>A buffered reader: the bytes still to come, and whether the stream ends in an error.\<close>

record reader =
  rdData :: string
  rdFails :: bool

datatype read_end = EOF | ReadError

definition ReadLine :: "reader \<Rightarrow> string \<times> reader \<times> read_end option" where
  "ReadLine rd =
     (case Cut (CHR 0x0A) (rdData rd) of
        (a, b, True) \<Rightarrow> (a @ [CHR 0x0A], rd\<lparr>rdData := b\<rparr>, None)
      | (a, b, False) \<Rightarrow> (a, rd\<lparr>rdData := []\<rparr>, Some (if rdFails rd then ReadError else EOF)))"

lemma ReadLine_shorter:
  "ReadLine rd = (a, rd', None) \<Longrightarrow> length (rdData rd') < length (rdData rd)"
  by (auto simp: ReadLine_def split: prod.splits bool.splits dest!: Cut_foundD)

text \<open>\<open>filepath.Join\<close> on a Unix system: the non-empty elements joined by a slash, then cleaned.\<close>

fun clean_parts :: "bool \<Rightarrow> string list \<Rightarrow> string list \<Rightarrow> string list" where
  "clean_parts rooted out [] = rev out"
| "clean_parts rooted out (p # ps) =
     (if p = [] \<or> p = ''.'' then clean_parts rooted out ps
      else if p = ''..'' then
        (case out of
           [] \<Rightarrow> clean_parts rooted (if rooted then [] else [''..'']) ps
         | x # xs \<Rightarrow> clean_parts rooted (if x = ''..'' then ''..'' # out else xs) ps)
      else clean_parts rooted (p # out) ps)"

definition filepath_Clean :: "string \<Rightarrow> string" where
  "filepath_Clean s =
     (let rooted = HasPrefix s ''/'';
          body = Join ''/'' (clean_parts rooted [] (Split (CHR ''/'') s))
      in if rooted then ''/'' @ body else if body = [] then ''.'' else body)"

definition filepath_Join :: "string list \<Rightarrow> string" where
  "filepath_Join elems =
     (let es = filter (\<lambda>e. e \<noteq> []) elems
      in if es = [] then [] else filepath_Clean (Join ''/'' es))"

end
