(* ===== verification/Orm.thy ===== *)
theory Orm
  imports Go_Prelude
begin

text \<open>
  The package \<open>orm\<close>: model metadata (orm/orm.go) and recorded schema state (orm/state.go).

  The structs \<open>Field\<close>, \<open>Model\<close>, \<open>Registered\<close> and \<open>Snapshot\<close> are records; a column type is
  the string it is in Go, because a field may carry a string that is none of the declared types.
  \<open>validate\<close> returns the error of the first check that fails. \<open>Register\<close> returns the registry
  beside the error, since the models before the failing one stay registered. JSON text is a
  parameter of the state codec: the model goes as far as the wire structs.

  Lemmas: \<open>validate\<close> accepts exactly the well-formed models; registry and snapshot keep their
  invariants and list their models by table, whatever the iteration order of the map; encoding
  and parsing a snapshot is the identity; replay returns the last recorded state.
\<close>

section \<open>Metadata\<close>

type_synonym orm_type = string

definition TypeString :: orm_type where "TypeString = ''string''"
definition TypeInt :: orm_type where "TypeInt = ''int''"
definition TypeInt64 :: orm_type where "TypeInt64 = ''int64''"
definition TypeFloat :: orm_type where "TypeFloat = ''float''"
definition TypeBool :: orm_type where "TypeBool = ''bool''"
definition TypeTime :: orm_type where "TypeTime = ''time''"
definition TypeBytes :: orm_type where "TypeBytes = ''bytes''"

lemmas orm_type_defs =
  TypeString_def TypeInt_def TypeInt64_def TypeFloat_def TypeBool_def TypeTime_def TypeBytes_def

definition Valid :: "orm_type \<Rightarrow> bool" where
  "Valid t = (t \<in> {TypeString, TypeInt, TypeInt64, TypeFloat, TypeBool, TypeTime, TypeBytes})"

record field =
  fName :: string
  fType :: orm_type
  fMaxLen :: int
  fNullable :: bool
  fPrimaryKey :: bool
  fUnique :: bool
  fIndex :: bool

record model =
  mTable :: string
  mFields :: "field list"

record registered =
  rModule :: string
  rModel :: model

abbreviation rTable :: "registered \<Rightarrow> string" where
  "rTable r \<equiv> mTable (rModel r)"

datatype field_fault =
    NoName nat
  | UnknownType string orm_type
  | DeclaredTwice string
  | LengthOnNonString string orm_type int
  | NegativeMaxLen string
  | PrimaryNullable string
  | PrimaryUnique string
  | PrimaryIndex string
  | UniqueWithIndex string

datatype orm_err =
    InvalidModel_no_table
  | InvalidModel_no_fields string
  | InvalidModel_no_primary string
  | InvalidModel_primaries string nat
  | InvalidField string field_fault
  | DuplicateTable string string string

text \<open>The \<open>switch\<close> of the loop in \<open>validate\<close>: its cases in order, the first that holds wins.\<close>

definition field_check :: "string list \<Rightarrow> nat \<Rightarrow> field \<Rightarrow> field_fault option" where
  "field_check seen i f =
     (if TrimSpace (fName f) = [] then Some (NoName i)
      else if \<not> Valid (fType f) then Some (UnknownType (fName f) (fType f))
      else if fName f \<in> set seen then Some (DeclaredTwice (fName f))
      else if fMaxLen f \<noteq> 0 \<and> fType f \<noteq> TypeString
        then Some (LengthOnNonString (fName f) (fType f) (fMaxLen f))
      else if fMaxLen f < 0 then Some (NegativeMaxLen (fName f))
      else if fPrimaryKey f \<and> fNullable f then Some (PrimaryNullable (fName f))
      else if fPrimaryKey f \<and> fUnique f then Some (PrimaryUnique (fName f))
      else if fPrimaryKey f \<and> fIndex f then Some (PrimaryIndex (fName f))
      else if fUnique f \<and> fIndex f then Some (UniqueWithIndex (fName f))
      else None)"

text \<open>The loop over the fields: \<open>seen\<close> holds the names so far, \<open>primaries\<close> counts the keys.\<close>

fun validate_fields ::
    "string \<Rightarrow> nat \<Rightarrow> string list \<Rightarrow> nat \<Rightarrow> field list \<Rightarrow> (orm_err, nat) result" where
  "validate_fields t i seen primaries [] = Ok primaries"
| "validate_fields t i seen primaries (f # fs) =
     (case field_check seen i f of
        Some e \<Rightarrow> Err (InvalidField t e)
      | None \<Rightarrow> validate_fields t (Suc i) (fName f # seen)
                  (if fPrimaryKey f then Suc primaries else primaries) fs)"

definition validate :: "model \<Rightarrow> orm_err option" where
  "validate m =
     (if TrimSpace (mTable m) = [] then Some InvalidModel_no_table
      else if mFields m = [] then Some (InvalidModel_no_fields (mTable m))
      else case validate_fields (mTable m) 0 [] 0 (mFields m) of
             Err e \<Rightarrow> Some e
           | Ok primaries \<Rightarrow>
               if primaries = 0 then Some (InvalidModel_no_primary (mTable m))
               else if primaries > 1 then Some (InvalidModel_primaries (mTable m) primaries)
               else None)"

definition clone :: "model \<Rightarrow> model" where
  "clone m = \<lparr>mTable = mTable m, mFields = mFields m\<rparr>"

section \<open>The registry\<close>

record registry =
  byTable :: "(string, registered) gomap"

definition NewRegistry :: registry where
  "NewRegistry = \<lparr>byTable = []\<rparr>"

fun Register :: "registry \<Rightarrow> string \<Rightarrow> model list \<Rightarrow> registry \<times> orm_err option" where
  "Register r module [] = (r, None)"
| "Register r module (m # ms) =
     (case validate m of
        Some e \<Rightarrow> (r, Some e)
      | None \<Rightarrow>
          (case map_of (byTable r) (mTable m) of
             Some prev \<Rightarrow> (r, Some (DuplicateTable (mTable m) (rModule prev) module))
           | None \<Rightarrow>
               Register
                 (r\<lparr>byTable := gm_set (mTable m) \<lparr>rModule = module, rModel = clone m\<rparr> (byTable r)\<rparr>)
                 module ms))"

definition Models :: "(string, registered) map_order \<Rightarrow> registry \<Rightarrow> registered list" where
  "Models it r =
     sort_key rTable
       (map (\<lambda>(_, reg). \<lparr>rModule = rModule reg, rModel = clone (rModel reg)\<rparr>) (it (byTable r)))"

section \<open>Snapshots\<close>

record snapshot =
  snapModels :: "registered list"

definition snapshotRegistered :: "registered \<Rightarrow> registered" where
  "snapshotRegistered reg =
     \<lparr>rModule = rModule reg,
      rModel = \<lparr>mTable = rTable reg,
        mFields = map (\<lambda>f. \<lparr>fName = fName f, fType = fType f, fMaxLen = fMaxLen f,
          fNullable = fNullable f, fPrimaryKey = fPrimaryKey f, fUnique = fUnique f,
          fIndex = fIndex f\<rparr>) (mFields (rModel reg))\<rparr>\<rparr>"

definition cloneRegistered :: "registered \<Rightarrow> registered" where
  "cloneRegistered reg = \<lparr>rModule = rModule reg, rModel = clone (rModel reg)\<rparr>"

fun findByTable :: "registered list \<Rightarrow> string \<Rightarrow> registered option" where
  "findByTable [] t = None"
| "findByTable (reg # regs) t = (if rTable reg = t then Some reg else findByTable regs t)"

fun collect_models :: "registered list \<Rightarrow> registered list \<Rightarrow> (orm_err, registered list) result" where
  "collect_models out [] = Ok out"
| "collect_models out (reg # regs) =
     (case validate (rModel reg) of
        Some e \<Rightarrow> Err e
      | None \<Rightarrow>
          (case findByTable out (rTable reg) of
             Some prev \<Rightarrow> Err (DuplicateTable (rTable reg) (rModule prev) (rModule reg))
           | None \<Rightarrow> collect_models (out @ [snapshotRegistered reg]) regs))"

definition NewSnapshot :: "registered list \<Rightarrow> (orm_err, snapshot) result" where
  "NewSnapshot ms =
     (case collect_models [] ms of
        Err e \<Rightarrow> Err e
      | Ok out \<Rightarrow> Ok \<lparr>snapModels = sort_key rTable out\<rparr>)"

definition Snapshot_Models :: "snapshot \<Rightarrow> registered list" where
  "Snapshot_Models s = map cloneRegistered (snapModels s)"

section \<open>The state codec\<close>

record wireField =
  wName :: string
  wType :: orm_type
  wMaxLen :: int
  wNullable :: bool
  wPrimaryKey :: bool
  wUnique :: bool
  wIndex :: bool

record wireModel =
  wModule :: string
  wTable :: string
  wFields :: "wireField list"

record wireState =
  wV :: int
  wModels :: "wireModel list"

definition stateFormatVersion :: int where
  "stateFormatVersion = 1"

definition to_wireField :: "field \<Rightarrow> wireField" where
  "to_wireField f =
     \<lparr>wName = fName f, wType = fType f, wMaxLen = fMaxLen f, wNullable = fNullable f,
      wPrimaryKey = fPrimaryKey f, wUnique = fUnique f, wIndex = fIndex f\<rparr>"

definition of_wireField :: "wireField \<Rightarrow> field" where
  "of_wireField w =
     \<lparr>fName = wName w, fType = wType w, fMaxLen = wMaxLen w, fNullable = wNullable w,
      fPrimaryKey = wPrimaryKey w, fUnique = wUnique w, fIndex = wIndex w\<rparr>"

definition snapshot_wire :: "snapshot \<Rightarrow> wireState" where
  "snapshot_wire s =
     \<lparr>wV = stateFormatVersion,
      wModels = map (\<lambda>reg. \<lparr>wModule = rModule reg, wTable = rTable reg,
        wFields = map to_wireField (mFields (rModel reg))\<rparr>) (snapModels s)\<rparr>"

datatype state_err =
    BadState_encode
  | BadState_decode string
  | BadState_version string int
  | BadState_model string orm_err
  | BadState_twice string string

text \<open>\<open>marshal\<close> is the JSON encoder of the standard library; it returns \<open>None\<close> when it fails.\<close>

definition EncodeSnapshot :: "(wireState \<Rightarrow> 'b option) \<Rightarrow> snapshot \<Rightarrow> (state_err, 'b) result" where
  "EncodeSnapshot marshal s =
     (case marshal (snapshot_wire s) of None \<Rightarrow> Err BadState_encode | Some b \<Rightarrow> Ok b)"

definition legacy_field :: "bool \<Rightarrow> wireField \<Rightarrow> field" where
  "legacy_field legacy w =
     (let f = of_wireField w
      in if legacy \<and> \<not> fPrimaryKey f then f\<lparr>fNullable := True\<rparr> else f)"

definition wire_registered :: "bool \<Rightarrow> wireModel \<Rightarrow> registered" where
  "wire_registered legacy wm =
     \<lparr>rModule = wModule wm,
      rModel = \<lparr>mTable = wTable wm, mFields = map (legacy_field legacy) (wFields wm)\<rparr>\<rparr>"

fun parse_models ::
    "string \<Rightarrow> bool \<Rightarrow> registered list \<Rightarrow> wireModel list \<Rightarrow> (state_err, registered list) result" where
  "parse_models src legacy out [] = Ok out"
| "parse_models src legacy out (wm # wms) =
     (let reg = wire_registered legacy wm
      in case validate (rModel reg) of
           Some e \<Rightarrow> Err (BadState_model src e)
         | None \<Rightarrow>
             (case findByTable out (rTable reg) of
                Some _ \<Rightarrow> Err (BadState_twice src (rTable reg))
              | None \<Rightarrow> parse_models src legacy (out @ [reg]) wms))"

text \<open>\<open>unmarshal\<close> is the strict JSON decoder: \<open>None\<close> for text it rejects, unknown keys included.\<close>

definition ParseSnapshot ::
    "('b \<Rightarrow> wireState option) \<Rightarrow> 'b \<Rightarrow> string \<Rightarrow> (state_err, snapshot) result" where
  "ParseSnapshot unmarshal data src =
     (case unmarshal data of
        None \<Rightarrow> Err (BadState_decode src)
      | Some wire \<Rightarrow>
          (let legacy = (wV wire = 0)
           in if \<not> legacy \<and> wV wire \<noteq> stateFormatVersion
              then Err (BadState_version src (wV wire))
              else case parse_models src legacy [] (wModels wire) of
                     Err e \<Rightarrow> Err e
                   | Ok out \<Rightarrow> Ok \<lparr>snapModels = sort_key rTable out\<rparr>))"

section \<open>Replay\<close>

record stateStep =
  stepVersion :: string
  stepState :: "snapshot option"

datatype steps_err =
    BadSteps_no_version
  | BadSteps_twice string
  | BadSteps_backwards string string

fun replay_loop ::
    "registered list \<Rightarrow> string \<Rightarrow> stateStep list \<Rightarrow> (steps_err, registered list) result" where
  "replay_loop cur prev [] = Ok cur"
| "replay_loop cur prev (st # sts) =
     (if stepVersion st = [] then Err BadSteps_no_version
      else if prev \<noteq> [] \<and> stepVersion st = prev then Err (BadSteps_twice (stepVersion st))
      else if prev \<noteq> [] \<and> stepVersion st < prev
        then Err (BadSteps_backwards (stepVersion st) prev)
      else replay_loop
             (case stepState st of None \<Rightarrow> cur | Some s \<Rightarrow> map cloneRegistered (snapModels s))
             (stepVersion st) sts)"

definition ReplayState :: "stateStep list \<Rightarrow> (steps_err, snapshot) result" where
  "ReplayState steps =
     (case replay_loop [] [] steps of Err e \<Rightarrow> Err e | Ok cur \<Rightarrow> Ok \<lparr>snapModels = cur\<rparr>)"

section \<open>Well-formed models and snapshots\<close>

definition wf_field :: "field \<Rightarrow> bool" where
  "wf_field f \<longleftrightarrow>
     TrimSpace (fName f) \<noteq> [] \<and> Valid (fType f) \<and> 0 \<le> fMaxLen f \<and>
     (fMaxLen f \<noteq> 0 \<longrightarrow> fType f = TypeString) \<and>
     \<not> (fPrimaryKey f \<and> fNullable f) \<and> \<not> (fPrimaryKey f \<and> fUnique f) \<and>
     \<not> (fPrimaryKey f \<and> fIndex f) \<and> \<not> (fUnique f \<and> fIndex f)"

definition wf_model :: "model \<Rightarrow> bool" where
  "wf_model m \<longleftrightarrow>
     TrimSpace (mTable m) \<noteq> [] \<and> list_all wf_field (mFields m) \<and>
     distinct (map fName (mFields m)) \<and> length (filter fPrimaryKey (mFields m)) = 1"

definition registry_ok :: "registry \<Rightarrow> bool" where
  "registry_ok r \<longleftrightarrow> gm_ok (byTable r) \<and>
     list_all (\<lambda>(t, reg). rTable reg = t \<and> wf_model (rModel reg)) (byTable r)"

definition snapshot_ok :: "snapshot \<Rightarrow> bool" where
  "snapshot_ok s \<longleftrightarrow> sorted_wrt (<) (map rTable (snapModels s)) \<and>
     list_all (wf_model \<circ> rModel) (snapModels s)"

text \<open>
  What the readers of a schema rely on, whoever holds it: a list of registered models, strictly
  ascending by table, every model well-formed.
\<close>

locale schema_source =
  fixes models_of :: "'s \<Rightarrow> registered list"
    and schema_ok :: "'s \<Rightarrow> bool"
  assumes ascending: "schema_ok s \<Longrightarrow> sorted_wrt (<) (map rTable (models_of s))"
    and well_formed: "schema_ok s \<Longrightarrow> reg \<in> set (models_of s) \<Longrightarrow> wf_model (rModel reg)"
begin

lemma tables_distinct: "schema_ok s \<Longrightarrow> distinct (map rTable (models_of s))"
  using ascending strict_sorted_iff by blast

lemma table_unique:
  "schema_ok s \<Longrightarrow> reg \<in> set (models_of s) \<Longrightarrow> reg' \<in> set (models_of s) \<Longrightarrow>
    rTable reg = rTable reg' \<Longrightarrow> reg = reg'"
  using tables_distinct by (auto simp: distinct_map inj_on_def)

end

section \<open>Lemmas\<close>

lemma clone_id [simp]: "clone m = m"
  by (simp add: clone_def)

lemma snapshotRegistered_id [simp]: "snapshotRegistered reg = reg"
proof -
  have "map (\<lambda>f. \<lparr>fName = fName f, fType = fType f, fMaxLen = fMaxLen f,
      fNullable = fNullable f, fPrimaryKey = fPrimaryKey f, fUnique = fUnique f,
      fIndex = fIndex f\<rparr>) fs = fs" for fs :: "field list"
    by (rule map_idI) simp
  then show ?thesis by (simp add: snapshotRegistered_def)
qed

lemma cloneRegistered_id [simp]: "cloneRegistered reg = reg"
  by (simp add: cloneRegistered_def)

lemma Snapshot_Models_eq [simp]: "Snapshot_Models s = snapModels s"
  by (simp add: Snapshot_Models_def map_idI)

lemma of_to_wireField [simp]: "of_wireField (to_wireField f) = f"
  by (simp add: of_wireField_def to_wireField_def)

lemma field_check_None:
  "field_check seen i f = None \<longleftrightarrow> wf_field f \<and> fName f \<notin> set seen"
  by (auto simp: field_check_def wf_field_def)

lemma validate_fields_Ok:
  "validate_fields t i seen p fs = Ok n \<longleftrightarrow>
     list_all wf_field fs \<and> distinct (map fName fs) \<and> set (map fName fs) \<inter> set seen = {} \<and>
     n = p + length (filter fPrimaryKey fs)"
  by (induction fs arbitrary: i seen p)
    (auto simp: field_check_None[THEN iffD2] split: option.splits, auto simp: field_check_None)

lemma validate_None: "validate m = None \<longleftrightarrow> wf_model m"
proof (cases "validate_fields (mTable m) 0 [] 0 (mFields m)")
  case (Inl e)
  then have "\<nexists>n. validate_fields (mTable m) 0 [] 0 (mFields m) = Ok n" by simp
  then have "\<not> (list_all wf_field (mFields m) \<and> distinct (map fName (mFields m)))"
    by (simp add: validate_fields_Ok)
  with Inl show ?thesis by (auto simp: validate_def wf_model_def)
next
  case (Inr n)
  then have "list_all wf_field (mFields m)" "distinct (map fName (mFields m))"
    "n = length (filter fPrimaryKey (mFields m))"
    by (simp_all add: validate_fields_Ok)
  with Inr show ?thesis
    by (cases "length (filter fPrimaryKey (mFields m))"; cases "mFields m")
      (auto simp: validate_def wf_model_def)
qed

lemma findByTable_None: "findByTable regs t = None \<longleftrightarrow> t \<notin> rTable ` set regs"
  by (induction regs) auto

lemma findByTable_Some: "findByTable regs t = Some reg \<Longrightarrow> reg \<in> set regs \<and> rTable reg = t"
  by (induction regs) (auto split: if_splits)

lemma collect_models_Ok:
  "collect_models out regs = Ok res \<longleftrightarrow>
     list_all (wf_model \<circ> rModel) regs \<and> distinct (map rTable regs) \<and>
     rTable ` set regs \<inter> rTable ` set out = {} \<and> res = out @ regs"
proof (induction regs arbitrary: out)
  case (Cons reg regs)
  show ?case
  proof (cases "wf_model (rModel reg) \<and> findByTable out (rTable reg) = None")
    case True
    then have "collect_models out (reg # regs) = collect_models (out @ [reg]) regs"
      by (simp add: validate_None [THEN iffD2])
    with True Cons show ?thesis by (auto simp: findByTable_None)
  next
    case False
    then have "\<not> (\<exists>res. collect_models out (reg # regs) = Ok res)"
      by (auto simp: validate_None split: option.splits)
    with False show ?thesis by (auto simp: findByTable_None)
  qed
qed auto

lemma parse_models_Ok:
  "parse_models src legacy out wms = Ok res \<longleftrightarrow>
     collect_models out (map (wire_registered legacy) wms) = Ok res"
  by (induction wms arbitrary: out) (auto simp: Let_def split: option.splits)

lemma sort_tables_ascending:
  "distinct (map rTable regs) \<Longrightarrow> sorted_wrt (<) (map rTable (sort_key rTable regs))"
proof (rule sorted_strict)
  assume d: "distinct (map rTable regs)"
  have "mset (map rTable (sort_key rTable regs)) = mset (map rTable regs)" by simp
  with d show "distinct (map rTable (sort_key rTable regs))"
    by (metis mset_eq_imp_distinct_iff)
qed simp

lemma snapshot_ok_sorted:
  "list_all (wf_model \<circ> rModel) regs \<Longrightarrow> distinct (map rTable regs) \<Longrightarrow>
    snapshot_ok \<lparr>snapModels = sort_key rTable regs\<rparr>"
  by (auto simp: snapshot_ok_def sort_tables_ascending list_all_iff)

lemma sort_key_ascending_id:
  "sorted_wrt (<) (map rTable regs) \<Longrightarrow> sort_key rTable regs = regs"
  by (rule sort_key_id_if_sorted) (simp add: strict_sorted_iff)

lemma NewSnapshot_Ok:
  "NewSnapshot ms = Ok s \<longleftrightarrow>
     list_all (wf_model \<circ> rModel) ms \<and> distinct (map rTable ms) \<and>
     s = \<lparr>snapModels = sort_key rTable ms\<rparr>"
proof (cases "collect_models [] ms")
  case (Inl e)
  then have "\<nexists>res. collect_models [] ms = Ok res" by simp
  then have "\<not> (list_all (wf_model \<circ> rModel) ms \<and> distinct (map rTable ms))"
    by (simp add: collect_models_Ok)
  with Inl show ?thesis by (auto simp: NewSnapshot_def)
next
  case (Inr out)
  then have "list_all (wf_model \<circ> rModel) ms" "distinct (map rTable ms)" "out = ms"
    by (auto simp: collect_models_Ok)
  with Inr show ?thesis by (auto simp: NewSnapshot_def)
qed

lemma NewSnapshot_snapshot_ok: "NewSnapshot ms = Ok s \<Longrightarrow> snapshot_ok s"
  by (auto simp: NewSnapshot_Ok intro: snapshot_ok_sorted)

interpretation snap: schema_source Snapshot_Models snapshot_ok
  by unfold_locales (auto simp: snapshot_ok_def list_all_iff)

lemma Register_steps:
  "registry_ok r \<Longrightarrow> Register r module ms = (r', e) \<Longrightarrow>
     registry_ok r' \<and>
     (e = None \<longleftrightarrow> list_all wf_model ms \<and> distinct (map mTable ms) \<and>
        set (map mTable ms) \<inter> dom (map_of (byTable r)) = {}) \<and>
     (e = None \<longrightarrow> map_of (byTable r') =
        map_of (byTable r) ++ map_of (map (\<lambda>m. (mTable m, \<lparr>rModule = module, rModel = m\<rparr>)) ms))"
proof (induction ms arbitrary: r)
  case (Cons m ms)
  let ?r = "r\<lparr>byTable := gm_set (mTable m) \<lparr>rModule = module, rModel = m\<rparr> (byTable r)\<rparr>"
  show ?case
  proof (cases "wf_model m \<and> map_of (byTable r) (mTable m) = None")
    case False
    then have "validate m \<noteq> None \<or> map_of (byTable r) (mTable m) \<noteq> None"
      by (auto simp: validate_None)
    then have "\<exists>x. Register r module (m # ms) = (r, Some x)"
      by (cases "validate m"; cases "map_of (byTable r) (mTable m)") simp_all
    with Cons.prems(2) have "r' = r \<and> e \<noteq> None" by force
    with False Cons.prems(1) show ?thesis by auto
  next
    case True
    then have step: "Register ?r module ms = (r', e)"
      using Cons.prems(2) by (simp add: validate_None [THEN iffD2])
    have "registry_ok ?r"
      using Cons.prems(1) True
      by (auto simp: registry_ok_def intro!: gomap_keys gomap_all)
    note ih = Cons.IH [OF this step]
    have dom: "dom (map_of (byTable ?r)) = insert (mTable m) (dom (map_of (byTable r)))"
      by (simp add: gomap_simps)
    have claimed: "e = None \<longleftrightarrow> list_all wf_model (m # ms) \<and> distinct (map mTable (m # ms)) \<and>
        set (map mTable (m # ms)) \<inter> dom (map_of (byTable r)) = {}"
      using ih True unfolding dom by auto
    have shift: "map_of (byTable ?r) ++ map_of (map (\<lambda>m. (mTable m, \<lparr>rModule = module, rModel = m\<rparr>)) ms) =
        map_of (byTable r) ++
        map_of (map (\<lambda>m. (mTable m, \<lparr>rModule = module, rModel = m\<rparr>)) (m # ms))"
      if "e = None"
    proof -
      from claimed that have "mTable m \<notin> mTable ` set ms" by simp
      then have "mTable m \<notin> dom (map_of (map (\<lambda>m. (mTable m, \<lparr>rModule = module, rModel = m\<rparr>)) ms))"
        by (simp add: dom_map_of_conv_image_fst image_image)
      then show ?thesis by (simp add: gomap_simps map_add_upd_left)
    qed
    from ih have "e = None \<Longrightarrow> map_of (byTable r') = map_of (byTable ?r) ++
        map_of (map (\<lambda>m. (mTable m, \<lparr>rModule = module, rModel = m\<rparr>)) ms)" by blast
    with shift have "e = None \<Longrightarrow> map_of (byTable r') = map_of (byTable r) ++
        map_of (map (\<lambda>m. (mTable m, \<lparr>rModule = module, rModel = m\<rparr>)) (m # ms))" by metis
    with ih claimed show ?thesis by blast
  qed
qed auto

lemma registered_eta: "\<lparr>rModule = rModule reg, rModel = rModel reg\<rparr> = (reg :: registered)"
  by simp

lemma Models_entries:
  "Models it r = sort_key rTable (map snd (it (byTable r)))"
  by (simp add: Models_def case_prod_unfold registered_eta)

lemma registry_tables: "registry_ok r \<Longrightarrow> map rTable (map snd (byTable r)) = map fst (byTable r)"
  by (auto simp: registry_ok_def list_all_iff)

lemma Models_any_order:
  assumes "registry_ok r" and "any_order it" and "any_order it'"
  shows "Models it r = Models it' r"
  unfolding Models_entries
proof (rule sort_key_any_order)
  have m: "mset (map snd (it (byTable r))) = mset (map snd (byTable r))"
    "mset (map snd (it' (byTable r))) = mset (map snd (byTable r))"
    using assms(2,3) by (simp_all add: any_order_def)
  then show "mset (map snd (it (byTable r))) = mset (map snd (it' (byTable r)))" by simp
  have "distinct (map rTable (map snd (byTable r)))"
    using assms(1) by (simp only: registry_tables) (simp add: registry_ok_def)
  then show "distinct (map rTable (map snd (it' (byTable r))))"
    using m(2) by (metis mset_eq_imp_distinct_iff mset_map)
qed

lemma Models_id: "registry_ok r \<Longrightarrow> any_order it \<Longrightarrow> Models it r = sort_key rTable (map snd (byTable r))"
  using Models_any_order [of r it "\<lambda>m. m"] by (simp add: Models_entries any_order_def)

lemma Models_ascending:
  "registry_ok r \<Longrightarrow> any_order it \<Longrightarrow> sorted_wrt (<) (map rTable (Models it r))"
  by (simp only: Models_id, rule sort_tables_ascending)
    (simp only: registry_tables, simp add: registry_ok_def)

lemma Models_wf: "registry_ok r \<Longrightarrow> any_order it \<Longrightarrow> list_all (wf_model \<circ> rModel) (Models it r)"
  by (auto simp: Models_id registry_ok_def list_all_iff)

lemma Models_ran: "registry_ok r \<Longrightarrow> any_order it \<Longrightarrow> set (Models it r) = ran (map_of (byTable r))"
  by (simp add: Models_id ran_distinct registry_ok_def)

interpretation live: schema_source "Models id" registry_ok
  by unfold_locales (auto simp: Models_ascending Models_wf any_order_def list_all_iff
    dest!: Models_wf [where it = id])

lemma wire_registered_snapshot:
  "map (wire_registered False) (wModels (snapshot_wire s)) = snapModels s"
  by (simp add: snapshot_wire_def wire_registered_def legacy_field_def comp_def map_idI)

lemma replay_loop_Ok:
  "replay_loop cur prev steps = Ok res \<longleftrightarrow>
     list_all (\<lambda>st. stepVersion st \<noteq> []) steps \<and>
     sorted_wrt (<) ((if prev = [] then [] else [prev]) @ map stepVersion steps) \<and>
     res = last (cur # map snapModels (List.map_filter stepState steps))"
proof (induction steps arbitrary: cur prev)
  case (Cons st steps)
  show ?case
  proof (cases "stepVersion st \<noteq> [] \<and> (prev = [] \<or> prev < stepVersion st)")
    case True
    then have "replay_loop cur prev (st # steps) =
        replay_loop (case stepState st of None \<Rightarrow> cur | Some s \<Rightarrow> snapModels s) (stepVersion st) steps"
      by (auto simp: map_idI split: option.splits)
    with True show ?thesis
      by (auto simp: Cons.IH List.map_filter_def split: option.splits)
  next
    case False
    then have "\<not> (\<exists>res. replay_loop cur prev (st # steps) = Ok res)" by auto
    with False show ?thesis by auto
  qed
qed (auto simp: List.map_filter_def)

lemma snapshot_eq_iff: "s = s' \<longleftrightarrow> snapModels s = snapModels (s' :: snapshot)"
  by (cases s; cases s') simp

text \<open>A small schema the examples use.\<close>

definition ex_field :: "string \<Rightarrow> bool \<Rightarrow> field" where
  "ex_field n pk = \<lparr>fName = n, fType = TypeInt64, fMaxLen = 0, fNullable = False,
     fPrimaryKey = pk, fUnique = False, fIndex = False\<rparr>"

definition ex_model :: "string \<Rightarrow> model" where
  "ex_model t = \<lparr>mTable = t, mFields = [ex_field ''id'' True, ex_field ''n'' False]\<rparr>"

section \<open>Properties\<close>

text \<open>\<open>validate\<close> accepts exactly the well-formed models: a name, at least one field, every
  field named, typed and with consistent flags, no field declared twice, one primary key.\<close>

theorem validate_accepts_wf_models: "validate m = None \<longleftrightarrow> wf_model m"
  by (rule validate_None)

text \<open>\<open>NewSnapshot\<close> succeeds exactly on well-formed models with distinct tables, and then
  the snapshot holds the same models, strictly ascending by table.\<close>

theorem NewSnapshot_characterised:
  "(\<exists>s. NewSnapshot ms = Ok s) = (list_all (wf_model \<circ> rModel) ms \<and> distinct (map rTable ms)) \<and>
   (case NewSnapshot ms of
      Inl _ \<Rightarrow> True
    | Inr s \<Rightarrow> snapshot_ok s \<and> mset (Snapshot_Models s) = mset ms)"
proof
  show "(\<exists>s. NewSnapshot ms = Ok s) = (list_all (wf_model \<circ> rModel) ms \<and> distinct (map rTable ms))"
    by (simp add: NewSnapshot_Ok)
  show "case NewSnapshot ms of
      Inl _ \<Rightarrow> True
    | Inr s \<Rightarrow> snapshot_ok s \<and> mset (Snapshot_Models s) = mset ms"
    by (auto simp: NewSnapshot_snapshot_ok split: sum.split)
      (auto simp: NewSnapshot_Ok)
qed

text \<open>\<open>Register\<close> keeps the registry's invariant whatever it is given; it reports no error
  exactly when every model is well-formed and no table is claimed twice, and then every given
  model is found under its table, with the module that declared it.\<close>

theorem Register_correct:
  assumes "registry_ok r" and "Register r module ms = (r', e)"
  shows "registry_ok r' \<and>
    (e = None \<longleftrightarrow> list_all wf_model ms \<and> distinct (map mTable ms) \<and>
      set (map mTable ms) \<inter> dom (map_of (byTable r)) = {}) \<and>
    (e = None \<longrightarrow> map_of (byTable r') = map_of (byTable r) ++
      map_of (map (\<lambda>m. (mTable m, \<lparr>rModule = module, rModel = m\<rparr>)) ms))"
  using assms by (rule Register_steps)

theorem Register_correct_witness:
  "registry_ok (fst (Register NewRegistry ''shop'' [ex_model ''orders'']))"
proof -
  have "registry_ok NewRegistry" by code_simp
  then show ?thesis
    using Register_correct [OF _ prod.collapse [symmetric]] by blast
qed

text \<open>\<open>Registry.Models\<close> is a function of the schema alone: for any two iteration orders of
  the map it returns the same list, which is strictly ascending by table, holds exactly the
  registered models and only well-formed ones.\<close>

theorem Models_deterministic:
  assumes "registry_ok r" and "any_order it" and "any_order it'"
  shows "Models it r = Models it' r \<and> sorted_wrt (<) (map rTable (Models it r)) \<and>
    set (Models it r) = ran (map_of (byTable r)) \<and> list_all (wf_model \<circ> rModel) (Models it r)"
  using Models_any_order [OF assms] Models_ascending [OF assms(1,2)] Models_ran [OF assms(1,2)]
    Models_wf [OF assms(1,2)] by simp

theorem Models_deterministic_witness:
  "Models id (fst (Register NewRegistry ''shop'' [ex_model ''orders'', ex_model ''carts''])) =
   Models rev (fst (Register NewRegistry ''shop'' [ex_model ''orders'', ex_model ''carts'']))"
proof -
  have "registry_ok (fst (Register NewRegistry ''shop'' [ex_model ''orders'', ex_model ''carts'']))"
    by code_simp
  moreover have "any_order id" "any_order rev" by (simp_all add: any_order_def)
  ultimately show ?thesis using Models_deterministic by blast
qed

text \<open>C3: recorded state survives its file: parsing what \<open>EncodeSnapshot\<close> wrote returns the
  snapshot that was encoded, for every valid snapshot and every JSON codec that decodes its own
  encoding of that snapshot's wire value.\<close>

theorem snapshot_roundtrip:
  assumes "snapshot_ok s" and "EncodeSnapshot marshal s = Ok data"
    and "unmarshal data = Some (snapshot_wire s)"
  shows "ParseSnapshot unmarshal data src = Ok s"
proof -
  have "parse_models src False [] (wModels (snapshot_wire s)) = Ok (snapModels s)"
    using assms(1) snap.tables_distinct [OF assms(1)]
    by (simp add: parse_models_Ok wire_registered_snapshot collect_models_Ok snapshot_ok_def)
  moreover have "sort_key rTable (snapModels s) = snapModels s"
    using assms(1) by (simp add: snapshot_ok_def sort_key_ascending_id)
  ultimately show ?thesis
    using assms(3) by (simp add: ParseSnapshot_def snapshot_wire_def stateFormatVersion_def)
qed

theorem snapshot_roundtrip_witness:
  "ParseSnapshot Some (snapshot_wire \<lparr>snapModels = [\<lparr>rModule = ''shop'', rModel = ex_model ''orders''\<rparr>]\<rparr>)
     ''x.state.json'' = Ok \<lparr>snapModels = [\<lparr>rModule = ''shop'', rModel = ex_model ''orders''\<rparr>]\<rparr>"
proof -
  let ?s = "\<lparr>snapModels = [\<lparr>rModule = ''shop'', rModel = ex_model ''orders''\<rparr>]\<rparr>"
  have "snapshot_ok ?s" by code_simp
  moreover have "EncodeSnapshot Some ?s = Ok (snapshot_wire ?s)" by (simp add: EncodeSnapshot_def)
  ultimately show ?thesis by (rule snapshot_roundtrip) simp
qed

text \<open>whatever bytes \<open>ParseSnapshot\<close> accepts describe a valid snapshot, with one model per
  wire model; under the unversioned legacy format every column that is not a primary key is
  nullable.\<close>

theorem ParseSnapshot_sound:
  assumes "ParseSnapshot unmarshal data src = Ok s"
  shows "snapshot_ok s \<and> (\<exists>wire. unmarshal data = Some wire \<and> (wV wire = 0 \<or> wV wire = 1) \<and>
    mset (snapModels s) = mset (map (wire_registered (wV wire = 0)) (wModels wire)) \<and>
    (wV wire = 0 \<longrightarrow> (\<forall>reg \<in> set (snapModels s). \<forall>f \<in> set (mFields (rModel reg)).
       fNullable f \<longleftrightarrow> \<not> fPrimaryKey f)))"
proof -
  from assms obtain wire out where w: "unmarshal data = Some wire" "wV wire = 0 \<or> wV wire = 1"
    and out: "parse_models src (wV wire = 0) [] (wModels wire) = Ok out"
    and s: "s = \<lparr>snapModels = sort_key rTable out\<rparr>"
    by (auto simp: ParseSnapshot_def stateFormatVersion_def Let_def split: option.splits if_splits sum.splits)
  from out have regs: "out = map (wire_registered (wV wire = 0)) (wModels wire)"
    and ok: "list_all (wf_model \<circ> rModel) out" "distinct (map rTable out)"
    by (simp_all add: parse_models_Ok collect_models_Ok)
  have "fNullable f \<longleftrightarrow> \<not> fPrimaryKey f"
    if "wV wire = 0" "reg \<in> set out" "f \<in> set (mFields (rModel reg))" for reg f
  proof -
    from that obtain wm w where "wm \<in> set (wModels wire)" "f = legacy_field True w"
      by (auto simp: regs wire_registered_def)
    moreover from that ok(1) have "wf_field f"
      by (auto simp: list_all_iff wf_model_def)
    ultimately show ?thesis by (auto simp: legacy_field_def wf_field_def Let_def)
  qed
  with w s ok regs show ?thesis by (auto simp: snapshot_ok_sorted)
qed

theorem ParseSnapshot_sound_witness:
  "\<exists>s. ParseSnapshot Some \<lparr>wV = 0, wModels = []\<rparr> ''f'' = Ok s \<and> snapshot_ok s"
proof -
  have "ParseSnapshot Some \<lparr>wV = 0, wModels = []\<rparr> ''f'' = Ok \<lparr>snapModels = []\<rparr>"
    by (simp add: ParseSnapshot_def)
  with ParseSnapshot_sound [OF this] show ?thesis by blast
qed

text \<open>\<open>ReplayState\<close> accepts exactly the chains whose versions are non-empty and strictly
  ascending, and returns the last recorded state (the empty schema when none is recorded).\<close>

theorem ReplayState_characterised:
  "ReplayState steps = Ok s \<longleftrightarrow>
     list_all (\<lambda>st. stepVersion st \<noteq> []) steps \<and> sorted_wrt (<) (map stepVersion steps) \<and>
     snapModels s = last ([] # map snapModels (List.map_filter stepState steps))"
  unfolding ReplayState_def using replay_loop_Ok [of "[]" "[]" steps]
  by (cases "replay_loop [] [] steps") (auto simp: snapshot_eq_iff)

end
