(* ===== verification/Migratediff.thy ===== *)
theory Migratediff
  imports Orm "HOL-Library.Product_Lexorder"
begin

text \<open>
  The package \<open>migratediff\<close>, first part (migratediff/migratediff.go): schema operations, their
  one-line descriptions and \<open>Diff\<close>, which compares two snapshots and lists the operations that
  turn the first into the second.

  \<open>Operation\<close> is an interface in Go; its thirteen implementations in the package are the
  constructors of a datatype, and \<open>OtherOperation\<close> stands for any implementation from outside
  (and for the nil pointers the dialects refuse), carrying its description. The pointer forms of
  an operation behave as the value and are not distinguished.
\<close>

datatype operation =
    CreateTable model
  | DropTable string
  | AddColumn string field
  | DropColumn string string
  | RenameColumn string string string
  | ChangeType string string field
  | ChangeNullability string string bool
  | AddUnique string string
  | DropUnique string string
  | AddIndex string string
  | DropIndex string string
  | AddPrimaryKey string string
  | DropPrimaryKey string string
  | OtherOperation string

fun Describe :: "operation \<Rightarrow> string" where
  "Describe (CreateTable m) = ''create table '' @ mTable m"
| "Describe (DropTable t) = ''drop table '' @ t"
| "Describe (AddColumn t f) = ''add column '' @ t @ ''.'' @ fName f"
| "Describe (DropColumn t c) = ''drop column '' @ t @ ''.'' @ c"
| "Describe (RenameColumn t a b) = ''rename column '' @ t @ ''.'' @ a @ '' to '' @ b"
| "Describe (ChangeType t c _) = ''change type of '' @ t @ ''.'' @ c"
| "Describe (ChangeNullability t c _) = ''change nullability of '' @ t @ ''.'' @ c"
| "Describe (AddUnique t c) = ''add unique '' @ t @ ''.'' @ c"
| "Describe (DropUnique t c) = ''drop unique '' @ t @ ''.'' @ c"
| "Describe (AddIndex t c) = ''add index '' @ t @ ''.'' @ c"
| "Describe (DropIndex t c) = ''drop index '' @ t @ ''.'' @ c"
| "Describe (AddPrimaryKey t c) = ''add primary key '' @ t @ ''.'' @ c"
| "Describe (DropPrimaryKey t c) = ''drop primary key '' @ t @ ''.'' @ c"
| "Describe (OtherOperation d) = d"

definition index :: "registered list \<Rightarrow> (string, registered) gomap" where
  "index regs = foldl (\<lambda>out reg. gm_set (rTable reg) reg out) [] regs"

definition indexFields :: "field list \<Rightarrow> (string, field) gomap" where
  "indexFields fs = foldl (\<lambda>out f. gm_set (fName f) f out) [] fs"

record ranked =
  rkColumn :: string
  rkRank :: nat
  rkOp :: operation

definition rk :: "string \<Rightarrow> nat \<Rightarrow> operation \<Rightarrow> ranked" where
  "rk column rank op = \<lparr>rkColumn = column, rkRank = rank, rkOp = op\<rparr>"

text \<open>The body of the loop over the fields of a surviving table: what it appends for one field.\<close>

definition field_alters :: "string \<Rightarrow> field option \<Rightarrow> field \<Rightarrow> ranked list" where
  "field_alters t before f =
     (case before of
        None \<Rightarrow> [rk (fName f) 6 (AddColumn t f)]
      | Some prev \<Rightarrow>
          (if fIndex prev \<and> \<not> fIndex f then [rk (fName f) 0 (DropIndex t (fName f))] else []) @
          (if fUnique prev \<and> \<not> fUnique f then [rk (fName f) 1 (DropUnique t (fName f))] else []) @
          (if fPrimaryKey prev \<and> \<not> fPrimaryKey f
             then [rk (fName f) 2 (DropPrimaryKey t (fName f))] else []) @
          (if fType prev \<noteq> fType f \<or> fMaxLen prev \<noteq> fMaxLen f
             then [rk (fName f) 4 (ChangeType t (fName f) f)] else []) @
          (if fNullable prev \<noteq> fNullable f
             then [rk (fName f) 5 (ChangeNullability t (fName f) (fNullable f))] else []) @
          (if \<not> fPrimaryKey prev \<and> fPrimaryKey f
             then [rk (fName f) 7 (AddPrimaryKey t (fName f))] else []) @
          (if \<not> fUnique prev \<and> fUnique f then [rk (fName f) 8 (AddUnique t (fName f))] else []) @
          (if \<not> fIndex prev \<and> fIndex f then [rk (fName f) 9 (AddIndex t (fName f))] else []))"

definition table_alters :: "registered \<Rightarrow> registered \<Rightarrow> ranked list" where
  "table_alters was reg =
     concat (map (\<lambda>f. field_alters (rTable reg)
                   (map_of (indexFields (mFields (rModel was))) (fName f)) f)
              (mFields (rModel reg))) @
     map (\<lambda>f. rk (fName f) 3 (DropColumn (rTable reg) (fName f)))
       (filter (\<lambda>f. map_of (indexFields (mFields (rModel reg))) (fName f) = None)
         (mFields (rModel was)))"

text \<open>\<open>slices.SortFunc\<close> by rank, then by column.\<close>

definition sorted_alters :: "registered \<Rightarrow> registered \<Rightarrow> operation list" where
  "sorted_alters was reg =
     map rkOp (sort_key (\<lambda>a. (rkRank a, rkColumn a)) (table_alters was reg))"

definition Diff :: "snapshot \<Rightarrow> snapshot \<Rightarrow> operation list" where
  "Diff before after =
     (let beforeByTable = index (Snapshot_Models before);
          afterModels = Snapshot_Models after;
          afterByTable = index afterModels
      in map (\<lambda>reg. CreateTable (rModel reg))
           (filter (\<lambda>reg. map_of beforeByTable (rTable reg) = None) afterModels) @
         concat (map (\<lambda>reg. case map_of beforeByTable (rTable reg) of
                        None \<Rightarrow> []
                      | Some was \<Rightarrow> sorted_alters was reg) afterModels) @
         map (\<lambda>reg. DropTable (rTable reg))
           (filter (\<lambda>reg. map_of afterByTable (rTable reg) = None) (Snapshot_Models before)))"

section \<open>What an operation means\<close>

text \<open>
  The specification the differ is measured against: a schema is a partial map from tables to
  columns, and an operation is a partial function on schemas. It fails (\<open>None\<close>) when a server
  must refuse it or when it would leave an inconsistent table: a table created twice, a missing
  column, a second primary key, a nullable primary key, a redundant index.
\<close>

type_synonym columns = "string \<rightharpoonup> field"
type_synonym schema_state = "string \<rightharpoonup> columns"

definition flags_ok :: "field \<Rightarrow> bool" where
  "flags_ok f \<longleftrightarrow> \<not> (fPrimaryKey f \<and> (fNullable f \<or> fUnique f \<or> fIndex f)) \<and>
     \<not> (fUnique f \<and> fIndex f)"

definition no_primary :: "columns \<Rightarrow> bool" where
  "no_primary T \<longleftrightarrow> (\<forall>c f. T c = Some f \<longrightarrow> \<not> fPrimaryKey f)"

definition upd_col :: "string \<Rightarrow> (field \<Rightarrow> bool) \<Rightarrow> (field \<Rightarrow> field) \<Rightarrow> columns \<Rightarrow> columns option" where
  "upd_col c guard upd T =
     (case T c of
        None \<Rightarrow> None
      | Some f \<Rightarrow> if guard f \<and> flags_ok (upd f) then Some (T(c \<mapsto> upd f)) else None)"

fun col_op :: "operation \<Rightarrow> columns \<Rightarrow> columns option" where
  "col_op (AddColumn t f) T =
     (if T (fName f) = None \<and> flags_ok f \<and> (fPrimaryKey f \<longrightarrow> no_primary T)
      then Some (T(fName f \<mapsto> f)) else None)"
| "col_op (DropColumn t c) T = (if T c = None then None else Some (T(c := None)))"
| "col_op (RenameColumn t a b) T =
     (case T a of
        None \<Rightarrow> None
      | Some f \<Rightarrow> if T b = None then Some (T(a := None, b \<mapsto> f\<lparr>fName := b\<rparr>)) else None)"
| "col_op (ChangeType t c g) T =
     upd_col c (\<lambda>_. True) (\<lambda>f. f\<lparr>fType := fType g, fMaxLen := fMaxLen g\<rparr>) T"
| "col_op (ChangeNullability t c n) T = upd_col c (\<lambda>_. True) (\<lambda>f. f\<lparr>fNullable := n\<rparr>) T"
| "col_op (AddUnique t c) T = upd_col c (\<lambda>f. \<not> fUnique f) (\<lambda>f. f\<lparr>fUnique := True\<rparr>) T"
| "col_op (DropUnique t c) T = upd_col c fUnique (\<lambda>f. f\<lparr>fUnique := False\<rparr>) T"
| "col_op (AddIndex t c) T = upd_col c (\<lambda>f. \<not> fIndex f) (\<lambda>f. f\<lparr>fIndex := True\<rparr>) T"
| "col_op (DropIndex t c) T = upd_col c fIndex (\<lambda>f. f\<lparr>fIndex := False\<rparr>) T"
| "col_op (AddPrimaryKey t c) T =
     upd_col c (\<lambda>f. no_primary T) (\<lambda>f. f\<lparr>fPrimaryKey := True\<rparr>) T"
| "col_op (DropPrimaryKey t c) T = upd_col c fPrimaryKey (\<lambda>f. f\<lparr>fPrimaryKey := False\<rparr>) T"
| "col_op _ T = None"

text \<open>\<open>operationTable\<close> of makemigrations.go: the table an operation is about.\<close>

fun operationTable :: "operation \<Rightarrow> string" where
  "operationTable (CreateTable m) = mTable m"
| "operationTable (DropTable t) = t"
| "operationTable (AddColumn t _) = t"
| "operationTable (DropColumn t _) = t"
| "operationTable (RenameColumn t _ _) = t"
| "operationTable (ChangeType t _ _) = t"
| "operationTable (ChangeNullability t _ _) = t"
| "operationTable (AddUnique t _) = t"
| "operationTable (DropUnique t _) = t"
| "operationTable (AddIndex t _) = t"
| "operationTable (DropIndex t _) = t"
| "operationTable (AddPrimaryKey t _) = t"
| "operationTable (DropPrimaryKey t _) = t"
| "operationTable (OtherOperation _) = []"

definition columns_of :: "model \<Rightarrow> columns" where
  "columns_of m = map_of (map (\<lambda>f. (fName f, f)) (mFields m))"

definition schema_of :: "registered list \<Rightarrow> schema_state" where
  "schema_of regs = map_of (map (\<lambda>reg. (rTable reg, columns_of (rModel reg))) regs)"

definition exec_op :: "operation \<Rightarrow> schema_state \<Rightarrow> schema_state option" where
  "exec_op op S =
     (case op of
        CreateTable m \<Rightarrow>
          if S (mTable m) = None then Some (S(mTable m \<mapsto> columns_of m)) else None
      | DropTable t \<Rightarrow> if S t = None then None else Some (S(t := None))
      | _ \<Rightarrow> (case S (operationTable op) of
                None \<Rightarrow> None
              | Some T \<Rightarrow> map_option (\<lambda>T'. S(operationTable op \<mapsto> T')) (col_op op T)))"

fun run_ops :: "(operation \<Rightarrow> 's \<Rightarrow> 's option) \<Rightarrow> operation list \<Rightarrow> 's \<Rightarrow> 's option" where
  "run_ops f [] S = Some S"
| "run_ops f (op # ops) S = (case f op S of None \<Rightarrow> None | Some S' \<Rightarrow> run_ops f ops S')"

lemma run_ops_append:
  "run_ops f (xs @ ys) S = (case run_ops f xs S of None \<Rightarrow> None | Some S' \<Rightarrow> run_ops f ys S')"
  by (induction xs arbitrary: S) (auto split: option.splits)

section \<open>Lookups\<close>

lemma index_lookup:
  "distinct (map rTable regs) \<Longrightarrow> map_of (index regs) = map_of (map (\<lambda>reg. (rTable reg, reg)) regs)"
  by (auto simp: index_def foldl_gm_set_lookup fun_eq_iff split: option.splits)

lemma indexFields_lookup:
  "distinct (map fName fs) \<Longrightarrow> map_of (indexFields fs) = map_of (map (\<lambda>f. (fName f, f)) fs)"
  by (auto simp: indexFields_def foldl_gm_set_lookup fun_eq_iff split: option.splits)

lemma wf_model_index:
  "wf_model m \<Longrightarrow> map_of (indexFields (mFields m)) = columns_of m"
  by (simp add: wf_model_def indexFields_lookup columns_of_def)

lemma columns_of_Some:
  "columns_of m c = Some f \<Longrightarrow> f \<in> set (mFields m) \<and> fName f = c"
  by (auto simp: columns_of_def dest: map_of_SomeD)

lemma columns_of_mem:
  "wf_model m \<Longrightarrow> f \<in> set (mFields m) \<Longrightarrow> columns_of m (fName f) = Some f"
  by (auto simp: columns_of_def wf_model_def comp_def intro!: map_of_is_SomeI)

lemma columns_of_flags: "wf_model m \<Longrightarrow> columns_of m c = Some f \<Longrightarrow> flags_ok f \<and> fName f = c"
  by (auto simp: wf_model_def list_all_iff wf_field_def flags_ok_def dest!: columns_of_Some)

lemma filter_one_unique:
  "length (filter P xs) = 1 \<Longrightarrow> x \<in> set xs \<Longrightarrow> y \<in> set xs \<Longrightarrow> P x \<Longrightarrow> P y \<Longrightarrow> x = y"
proof -
  assume "length (filter P xs) = 1" "x \<in> set xs" "y \<in> set xs" "P x" "P y"
  then obtain z where "filter P xs = [z]" by (auto simp: length_Suc_conv)
  then have "{u \<in> set xs. P u} = {z}" by (metis list.set(1,2) set_filter)
  moreover have "x \<in> {u \<in> set xs. P u}" "y \<in> {u \<in> set xs. P u}"
    using \<open>x \<in> set xs\<close> \<open>y \<in> set xs\<close> \<open>P x\<close> \<open>P y\<close> by simp_all
  ultimately show "x = y" by simp
qed

lemma columns_of_primary_unique:
  "wf_model m \<Longrightarrow> columns_of m c = Some f \<Longrightarrow> columns_of m d = Some g \<Longrightarrow>
     fPrimaryKey f \<Longrightarrow> fPrimaryKey g \<Longrightarrow> c = d"
  by (metis columns_of_Some filter_one_unique wf_model_def)

end
