(* ===== verification/Migratediff_Correct.thy ===== *)
theory Migratediff_Correct
  imports Migratediff
begin

text \<open>
  Correctness of \<open>Diff\<close>: run in order on the schema of the first snapshot, its operations all
  succeed and end in the schema of the second; run in reverse, their inverses lead back.

  The ranks of the differ cut the life of a column into ten steps. \<open>stage r\<close> is the column before
  the operations of rank \<open>r\<close>: stage 0 is the old column, stage 10 the new one. \<open>entry r\<close> is the
  operation of rank \<open>r\<close>, if the column has one, and \<open>entry_inv r\<close> its inverse. A table is
  altered along the grid of all ranks and columns, one row of the grid per rank.
\<close>

section \<open>Stages of a column\<close>

definition stage :: "nat \<Rightarrow> field option \<Rightarrow> field option \<Rightarrow> field option" where
  "stage r p q =
     (case p of
        None \<Rightarrow> (if r \<le> 6 then None else q)
      | Some a \<Rightarrow>
         (case q of
            None \<Rightarrow> (if r \<le> 3 then Some a else None)
          | Some b \<Rightarrow> Some
             \<lparr>fName = fName a,
              fType = (if r \<le> 4 then fType a else fType b),
              fMaxLen = (if r \<le> 4 then fMaxLen a else fMaxLen b),
              fNullable = (if r \<le> 5 then fNullable a else fNullable b),
              fPrimaryKey = (if r \<le> 2 then fPrimaryKey a
                 else if r \<le> 7 then fPrimaryKey a \<and> fPrimaryKey b else fPrimaryKey b),
              fUnique = (if r \<le> 1 then fUnique a
                 else if r \<le> 8 then fUnique a \<and> fUnique b else fUnique b),
              fIndex = (if r \<le> 0 then fIndex a
                 else if r \<le> 9 then fIndex a \<and> fIndex b else fIndex b)\<rparr>))"

definition entry :: "string \<Rightarrow> nat \<Rightarrow> string \<Rightarrow> field option \<Rightarrow> field option \<Rightarrow> operation option" where
  "entry t r c p q =
     (case p of
        None \<Rightarrow> (case q of None \<Rightarrow> None | Some b \<Rightarrow> if r = 6 then Some (AddColumn t b) else None)
      | Some a \<Rightarrow>
         (case q of
            None \<Rightarrow> (if r = 3 then Some (DropColumn t c) else None)
          | Some b \<Rightarrow>
             if r = 0 \<and> fIndex a \<and> \<not> fIndex b then Some (DropIndex t c)
             else if r = 1 \<and> fUnique a \<and> \<not> fUnique b then Some (DropUnique t c)
             else if r = 2 \<and> fPrimaryKey a \<and> \<not> fPrimaryKey b then Some (DropPrimaryKey t c)
             else if r = 4 \<and> (fType a \<noteq> fType b \<or> fMaxLen a \<noteq> fMaxLen b) then Some (ChangeType t c b)
             else if r = 5 \<and> fNullable a \<noteq> fNullable b then Some (ChangeNullability t c (fNullable b))
             else if r = 7 \<and> \<not> fPrimaryKey a \<and> fPrimaryKey b then Some (AddPrimaryKey t c)
             else if r = 8 \<and> \<not> fUnique a \<and> fUnique b then Some (AddUnique t c)
             else if r = 9 \<and> \<not> fIndex a \<and> fIndex b then Some (AddIndex t c)
             else None))"

text \<open>The inverse of a column operation, given the old column.\<close>

fun undo_col :: "field option \<Rightarrow> operation \<Rightarrow> operation option" where
  "undo_col p (AddColumn t f) = Some (DropColumn t (fName f))"
| "undo_col p (DropColumn t c) = map_option (AddColumn t) p"
| "undo_col p (ChangeType t c g) = map_option (ChangeType t c) p"
| "undo_col p (ChangeNullability t c n) = map_option (\<lambda>f. ChangeNullability t c (fNullable f)) p"
| "undo_col p (AddUnique t c) = Some (DropUnique t c)"
| "undo_col p (DropUnique t c) = Some (AddUnique t c)"
| "undo_col p (AddIndex t c) = Some (DropIndex t c)"
| "undo_col p (DropIndex t c) = Some (AddIndex t c)"
| "undo_col p (AddPrimaryKey t c) = Some (DropPrimaryKey t c)"
| "undo_col p (DropPrimaryKey t c) = Some (AddPrimaryKey t c)"
| "undo_col p _ = None"

definition entry_inv :: "string \<Rightarrow> nat \<Rightarrow> string \<Rightarrow> field option \<Rightarrow> field option \<Rightarrow> operation option" where
  "entry_inv t r c p q = Option.bind (entry t r c p q) (undo_col p)"

definition sane_col :: "string \<Rightarrow> field option \<Rightarrow> bool" where
  "sane_col c p \<longleftrightarrow> (case p of None \<Rightarrow> True | Some f \<Rightarrow> flags_ok f \<and> fName f = c)"

lemma sane_col_simps [simp]:
  "sane_col c None" "sane_col c (Some f) \<longleftrightarrow> flags_ok f \<and> fName f = c"
  by (simp_all add: sane_col_def)

lemma stage_0 [simp]: "stage 0 p q = p"
  by (auto simp: stage_def split: option.splits)

lemma stage_10: "sane_col c p \<Longrightarrow> sane_col c q \<Longrightarrow> stage 10 p q = q"
  by (auto simp: stage_def split: option.splits)

lemma stage_none [simp]: "stage r None None = None"
  by (simp add: stage_def)

lemma stage_sane: "sane_col c p \<Longrightarrow> sane_col c q \<Longrightarrow> sane_col c (stage r p q)"
  by (auto simp: stage_def flags_ok_def split: option.splits if_splits)

lemma rank_cases:
  "r < 10 \<Longrightarrow> r = 0 \<or> r = 1 \<or> r = 2 \<or> r = 3 \<or> r = 4 \<or> r = 5 \<or> r = 6 \<or> r = 7 \<or> r = 8 \<or> r = (9::nat)"
  by presburger

lemma stage_no_entry:
  "r < 10 \<Longrightarrow> entry t r c p q = None \<Longrightarrow> stage (Suc r) p q = stage r p q"
  by (drule rank_cases, elim disjE)
    (auto simp: entry_def stage_def split: option.splits if_splits)

lemma stage_primary_new:
  "6 \<le> r \<Longrightarrow> stage r p q = Some f \<Longrightarrow> fPrimaryKey f \<Longrightarrow> \<exists>b. q = Some b \<and> fPrimaryKey b"
  by (auto simp: stage_def split: option.splits if_splits)

lemma stage_primary_old:
  "r \<le> 4 \<Longrightarrow> stage r p q = Some f \<Longrightarrow> fPrimaryKey f \<Longrightarrow> \<exists>a. p = Some a \<and> fPrimaryKey a"
  by (auto simp: stage_def split: option.splits if_splits)

text \<open>One step of the grid, forwards and backwards. The side conditions say that no other column
  holds the primary key where the operation is about to add it.\<close>

lemma no_primaryI:
  "(\<And>d f. d \<noteq> c \<Longrightarrow> T d = Some f \<Longrightarrow> \<not> fPrimaryKey f) \<Longrightarrow>
   (\<And>f. T c = Some f \<Longrightarrow> \<not> fPrimaryKey f) \<Longrightarrow> no_primary T"
  unfolding no_primary_def by metis

lemma entry_step:
  assumes "r < 10" and "sane_col c p" and "sane_col c q" and "entry t r c p q = Some op"
    and "T c = stage r p q"
    and "\<And>d f b. 6 \<le> r \<Longrightarrow> d \<noteq> c \<Longrightarrow> T d = Some f \<Longrightarrow> q = Some b \<Longrightarrow> fPrimaryKey b \<Longrightarrow> \<not> fPrimaryKey f"
  shows "col_op op T = Some (T(c := stage (Suc r) p q))"
proof -
  have sane: "sane_col c (stage (Suc r) p q)" by (rule stage_sane [OF assms(2,3)])
  have np: "no_primary T"
    if "6 \<le> r" "pred_option fPrimaryKey q" "q \<noteq> None" "pred_option (\<lambda>f. \<not> fPrimaryKey f) (T c)"
    using that assms(6) by (auto simp: option.pred_set intro: no_primaryI [of c])
  show ?thesis
    using rank_cases [OF assms(1)] assms(2-5) sane
    by (elim disjE) (auto simp: entry_def stage_def upd_col_def intro!: np split: option.splits if_splits)
qed

lemma entry_inv_step:
  assumes "r < 10" and "sane_col c p" and "sane_col c q" and "entry_inv t r c p q = Some op"
    and "T c = stage (Suc r) p q"
    and "\<And>d f a. r \<le> 3 \<Longrightarrow> d \<noteq> c \<Longrightarrow> T d = Some f \<Longrightarrow> p = Some a \<Longrightarrow> fPrimaryKey a \<Longrightarrow> \<not> fPrimaryKey f"
  shows "col_op op T = Some (T(c := stage r p q))"
proof -
  have sane: "sane_col c (stage r p q)" by (rule stage_sane [OF assms(2,3)])
  have np: "no_primary T"
    if "r \<le> 3" "pred_option fPrimaryKey p" "p \<noteq> None" "pred_option (\<lambda>f. \<not> fPrimaryKey f) (T c)"
    using that assms(6) by (auto simp: option.pred_set intro: no_primaryI [of c])
  show ?thesis
    using rank_cases [OF assms(1)] assms(2-5) sane
    by (elim disjE)
      (auto simp: entry_inv_def entry_def stage_def upd_col_def intro!: np split: option.splits if_splits)
qed

lemma entry_inv_None: "entry_inv t r c p q = None \<longleftrightarrow> entry t r c p q = None"
  by (auto simp: entry_inv_def entry_def bind_eq_None_conv split: option.splits if_splits)

section \<open>A table along the grid\<close>

text \<open>The columns of one table before (\<open>P\<close>) and after (\<open>Q\<close>), and its state at a rank.\<close>

definition same_table :: "columns \<Rightarrow> columns \<Rightarrow> bool" where
  "same_table P Q \<longleftrightarrow>
     (\<forall>c. sane_col c (P c) \<and> sane_col c (Q c)) \<and>
     (\<forall>c d f g. P c = Some f \<longrightarrow> P d = Some g \<longrightarrow> fPrimaryKey f \<longrightarrow> fPrimaryKey g \<longrightarrow> c = d) \<and>
     (\<forall>c d f g. Q c = Some f \<longrightarrow> Q d = Some g \<longrightarrow> fPrimaryKey f \<longrightarrow> fPrimaryKey g \<longrightarrow> c = d)"

definition row_state :: "columns \<Rightarrow> columns \<Rightarrow> nat \<Rightarrow> string set \<Rightarrow> columns" where
  "row_state P Q r D = (\<lambda>d. stage (if d \<in> D then Suc r else r) (P d) (Q d))"

definition row :: "string \<Rightarrow> columns \<Rightarrow> columns \<Rightarrow> nat \<Rightarrow> string list \<Rightarrow> operation list" where
  "row t P Q r cs = List.map_filter (\<lambda>c. entry t r c (P c) (Q c)) cs"

definition row_inv :: "string \<Rightarrow> columns \<Rightarrow> columns \<Rightarrow> nat \<Rightarrow> string list \<Rightarrow> operation list" where
  "row_inv t P Q r cs = List.map_filter (\<lambda>c. entry_inv t r c (P c) (Q c)) cs"

lemma map_filter_Cons:
  "List.map_filter f (x # xs) = (case f x of None \<Rightarrow> [] | Some y \<Rightarrow> [y]) @ List.map_filter f xs"
  by (simp add: List.map_filter_def split: option.splits)

lemma map_filter_Nil [simp]: "List.map_filter f [] = []"
  by (simp add: List.map_filter_def)

lemma row_state_upd:
  "c \<notin> D \<Longrightarrow> (row_state P Q r D)(c := stage (Suc r) (P c) (Q c)) = row_state P Q r (insert c D)"
  "c \<notin> D \<Longrightarrow> (row_state P Q r (insert c D))(c := stage r (P c) (Q c)) = row_state P Q r D"
  by (auto simp: row_state_def)

lemma row_state_same:
  "stage (Suc r) (P c) (Q c) = stage r (P c) (Q c) \<Longrightarrow> row_state P Q r (insert c D) = row_state P Q r D"
  by (auto simp: row_state_def)

lemma row_state_primary:
  assumes "same_table P Q" and "row_state P Q r D d = Some f" and "fPrimaryKey f" and "d \<noteq> c"
  shows "6 \<le> r \<Longrightarrow> Q c = Some b \<Longrightarrow> \<not> fPrimaryKey b"
    and "r \<le> 3 \<Longrightarrow> P c = Some a \<Longrightarrow> \<not> fPrimaryKey a"
proof -
  define k where "k = (if d \<in> D then Suc r else r)"
  have st: "stage k (P d) (Q d) = Some f" using assms(2) by (simp add: row_state_def k_def)
  have k: "r \<le> k" "k \<le> Suc r" by (simp_all add: k_def)
  have uniq: "\<And>f g. Q c = Some f \<Longrightarrow> Q d = Some g \<Longrightarrow> fPrimaryKey f \<Longrightarrow> fPrimaryKey g \<Longrightarrow> c = d"
    "\<And>f g. P c = Some f \<Longrightarrow> P d = Some g \<Longrightarrow> fPrimaryKey f \<Longrightarrow> fPrimaryKey g \<Longrightarrow> c = d"
    using assms(1) by (auto simp: same_table_def)
  show "\<not> fPrimaryKey b" if "6 \<le> r" "Q c = Some b"
    using stage_primary_new [OF _ st assms(3)] that k uniq(1) assms(4) by force
  show "\<not> fPrimaryKey a" if "r \<le> 3" "P c = Some a"
    using stage_primary_old [OF _ st assms(3)] that k uniq(2) assms(4) by force
qed

lemma row_run:
  assumes "same_table P Q" and "r < 10"
  shows "distinct cs \<Longrightarrow> set cs \<inter> D = {} \<Longrightarrow>
    run_ops col_op (row t P Q r cs) (row_state P Q r D) = Some (row_state P Q r (set cs \<union> D))"
proof (induction cs arbitrary: D)
  case (Cons c cs)
  have fwd: "run_ops col_op (row t P Q r cs) (row_state P Q r (insert c D)) =
      Some (row_state P Q r (set (c # cs) \<union> D))"
    using Cons by (simp add: insert_absorb)
  show ?case
  proof (cases "entry t r c (P c) (Q c)")
    case None
    then show ?thesis
      using fwd stage_no_entry [OF assms(2) None]
      by (simp add: row_def map_filter_Cons row_state_same)
  next
    case (Some op)
    have "col_op op (row_state P Q r D) = Some ((row_state P Q r D)(c := stage (Suc r) (P c) (Q c)))"
    proof (rule entry_step [OF assms(2) _ _ Some])
      show "sane_col c (P c)" "sane_col c (Q c)" using assms(1) by (simp_all add: same_table_def)
      show "row_state P Q r D c = stage r (P c) (Q c)" using Cons.prems by (simp add: row_state_def)
    qed (use row_state_primary(1) [OF assms(1)] in blast)
    then show ?thesis
      using fwd Some Cons.prems by (simp add: row_def map_filter_Cons row_state_upd)
  qed
qed (simp add: row_def)


lemma row_inv_run:
  assumes "same_table P Q" and "r < 10"
  shows "distinct cs \<Longrightarrow> set cs \<inter> D = {} \<Longrightarrow>
    run_ops col_op (rev (row_inv t P Q r cs)) (row_state P Q r (set cs \<union> D)) =
    Some (row_state P Q r D)"
proof (induction cs arbitrary: D)
  case (Cons c cs)
  have bwd: "run_ops col_op (rev (row_inv t P Q r cs)) (row_state P Q r (set (c # cs) \<union> D)) =
      Some (row_state P Q r (insert c D))"
    using Cons.IH [of "insert c D"] Cons.prems by (simp add: insert_absorb)
  show ?case
  proof (cases "entry_inv t r c (P c) (Q c)")
    case None
    then have "stage (Suc r) (P c) (Q c) = stage r (P c) (Q c)"
      using stage_no_entry [OF assms(2)] by (metis entry_inv_None)
    with None show ?thesis
      using bwd by (simp add: row_inv_def map_filter_Cons row_state_same)
  next
    case (Some op)
    have "col_op op (row_state P Q r (insert c D)) =
        Some ((row_state P Q r (insert c D))(c := stage r (P c) (Q c)))"
    proof (rule entry_inv_step [OF assms(2) _ _ Some])
      show "sane_col c (P c)" "sane_col c (Q c)" using assms(1) by (simp_all add: same_table_def)
      show "row_state P Q r (insert c D) c = stage (Suc r) (P c) (Q c)" by (simp add: row_state_def)
    qed (use row_state_primary(2) [OF assms(1)] in blast)
    then show ?thesis
      using bwd Some Cons.prems
      by (simp add: row_inv_def map_filter_Cons row_state_upd run_ops_append)
  qed
qed (simp add: row_inv_def)

definition grid :: "string \<Rightarrow> columns \<Rightarrow> columns \<Rightarrow> nat \<Rightarrow> string list \<Rightarrow> operation list" where
  "grid t P Q n cs = concat (map (\<lambda>r. row t P Q r cs) [0..<n])"

definition grid_inv :: "string \<Rightarrow> columns \<Rightarrow> columns \<Rightarrow> nat \<Rightarrow> string list \<Rightarrow> operation list" where
  "grid_inv t P Q n cs = concat (map (\<lambda>r. row_inv t P Q r cs) [0..<n])"

lemma row_state_full:
  "dom P \<union> dom Q \<subseteq> D \<Longrightarrow> row_state P Q r D = row_state P Q (Suc r) {}"
  unfolding row_state_def by (rule ext) (auto simp: domIff, metis domIff in_mono stage_none)

lemma grid_run:
  assumes "same_table P Q" and "distinct cs" and "dom P \<union> dom Q \<subseteq> set cs"
  shows "n \<le> 10 \<Longrightarrow> run_ops col_op (grid t P Q n cs) P = Some (row_state P Q n {})"
proof (induction n)
  case (Suc n)
  then show ?case
    using row_run [OF assms(1) _ assms(2), of n "{}" t] row_state_full [OF assms(3)]
    by (simp add: grid_def run_ops_append)
qed (simp add: grid_def row_state_def)

lemma grid_inv_run:
  assumes "same_table P Q" and "distinct cs" and "dom P \<union> dom Q \<subseteq> set cs"
  shows "n \<le> 10 \<Longrightarrow> run_ops col_op (rev (grid_inv t P Q n cs)) (row_state P Q n {}) = Some P"
proof (induction n)
  case (Suc n)
  then show ?case
    using row_inv_run [OF assms(1) _ assms(2), of n "{}" t] row_state_full [OF assms(3)]
    by (simp add: grid_inv_def run_ops_append)
qed (simp add: grid_inv_def row_state_def)

lemma row_state_end: "same_table P Q \<Longrightarrow> row_state P Q 10 {} = Q"
  by (auto simp: row_state_def same_table_def intro!: ext stage_10)


section \<open>The differ walks the grid\<close>

abbreviation rkKey :: "ranked \<Rightarrow> nat \<times> string" where
  "rkKey a \<equiv> (rkRank a, rkColumn a)"

definition rrow :: "string \<Rightarrow> columns \<Rightarrow> columns \<Rightarrow> nat \<Rightarrow> string list \<Rightarrow> ranked list" where
  "rrow t P Q r cs = List.map_filter (\<lambda>c. map_option (rk c r) (entry t r c (P c) (Q c))) cs"

definition rgrid :: "string \<Rightarrow> columns \<Rightarrow> columns \<Rightarrow> nat \<Rightarrow> string list \<Rightarrow> ranked list" where
  "rgrid t P Q n cs = concat (map (\<lambda>r. rrow t P Q r cs) [0..<n])"

lemma rk_sel [simp]: "rkColumn (rk c r op) = c" "rkRank (rk c r op) = r" "rkOp (rk c r op) = op"
  by (simp_all add: rk_def)

lemma rk_eqI: "x = rk c r op \<longleftrightarrow> rkColumn x = c \<and> rkRank x = r \<and> rkOp x = op"
  by (cases x) (auto simp: rk_def)

lemma map_rrow: "map rkOp (rrow t P Q r cs) = row t P Q r cs"
  by (induction cs) (auto simp: rrow_def row_def map_filter_Cons split: option.splits)

lemma map_rgrid: "map rkOp (rgrid t P Q n cs) = grid t P Q n cs"
  by (simp add: rgrid_def grid_def map_concat comp_def map_rrow)

lemma set_rrow:
  "x \<in> set (rrow t P Q r cs) \<longleftrightarrow>
     rkRank x = r \<and> rkColumn x \<in> set cs \<and>
     entry t r (rkColumn x) (P (rkColumn x)) (Q (rkColumn x)) = Some (rkOp x)"
proof (induction cs)
  case (Cons c cs)
  have "rrow t P Q r (c # cs) =
      (case entry t r c (P c) (Q c) of None \<Rightarrow> [] | Some op \<Rightarrow> [rk c r op]) @ rrow t P Q r cs"
    by (simp add: rrow_def map_filter_Cons split: option.splits)
  then show ?case
    using Cons.IH
    by (cases "entry t r c (P c) (Q c)"; cases "rkColumn x = c") (simp_all add: rk_eqI, metis)
qed (simp add: rrow_def)

lemma set_rgrid:
  "x \<in> set (rgrid t P Q n cs) \<longleftrightarrow>
     rkRank x < n \<and> rkColumn x \<in> set cs \<and>
     entry t (rkRank x) (rkColumn x) (P (rkColumn x)) (Q (rkColumn x)) = Some (rkOp x)"
  by (auto simp: rgrid_def set_rrow)

lemma rrow_sorted: "sorted_wrt (<) cs \<Longrightarrow> sorted_wrt (<) (map rkKey (rrow t P Q r cs))"
proof (induction cs)
  case (Cons c cs)
  have "x \<in> set (rrow t P Q r cs) \<Longrightarrow> (r, c) < rkKey x" for x
    using Cons.prems by (auto simp: set_rrow)
  with Cons show ?case
    by (auto simp: rrow_def map_filter_Cons split: option.splits)
qed (simp add: rrow_def)

lemma rgrid_sorted: "sorted_wrt (<) cs \<Longrightarrow> sorted_wrt (<) (map rkKey (rgrid t P Q n cs))"
proof (induction n)
  case (Suc n)
  have "rgrid t P Q (Suc n) cs = rgrid t P Q n cs @ rrow t P Q n cs" by (simp add: rgrid_def)
  with Suc rrow_sorted [OF Suc.prems, of t P Q n] show ?case
    by (auto simp: sorted_wrt_append set_rgrid set_rrow)
qed (simp add: rgrid_def)

lemma set_field_alters:
  "x \<in> set (field_alters t p f) \<longleftrightarrow>
     rkColumn x = fName f \<and> entry t (rkRank x) (fName f) p (Some f) = Some (rkOp x)"
proof (cases p)
  case (Some a)
  have single: "y \<in> set (if b then [z] else []) \<longleftrightarrow> b \<and> y = z" for b and y z :: ranked
    by auto
  show ?thesis
  proof (cases "rkRank x < 10")
    case True
    then show ?thesis
      using Some unfolding field_alters_def entry_def
      by (simp only: option.case set_append Un_iff single rk_eqI) (drule rank_cases, elim disjE; auto)
  next
    case False
    then show ?thesis
      using Some unfolding field_alters_def entry_def
      by (simp only: option.case set_append Un_iff single rk_eqI) auto
  qed
qed (auto simp: field_alters_def entry_def rk_eqI)

lemma field_alters_distinct: "distinct (map rkKey (field_alters t p f))"
  by (cases p) (simp_all add: field_alters_def)

lemma concat_field_alters_distinct:
  "distinct (map fName fs) \<Longrightarrow>
     distinct (map rkKey (concat (map (\<lambda>f. field_alters t (P (fName f)) f) fs)))"
proof (induction fs)
  case (Cons f fs)
  then show ?case
    using field_alters_distinct [of t "P (fName f)" f]
    by (auto simp: set_field_alters)
qed simp

lemma table_alters_columns:
  assumes "wf_model (rModel was)" and "wf_model (rModel reg)"
  defines "P \<equiv> columns_of (rModel was)" and "Q \<equiv> columns_of (rModel reg)"
  shows "table_alters was reg =
     concat (map (\<lambda>f. field_alters (rTable reg) (P (fName f)) f) (mFields (rModel reg))) @
     map (\<lambda>f. rk (fName f) 3 (DropColumn (rTable reg) (fName f)))
       (filter (\<lambda>f. Q (fName f) = None) (mFields (rModel was)))"
  using assms by (simp add: table_alters_def wf_model_index)

lemma field_alters_absent:
  "wf_model (rModel reg) \<Longrightarrow> columns_of (rModel reg) (rkColumn x) = None \<Longrightarrow>
     f \<in> set (mFields (rModel reg)) \<Longrightarrow> x \<notin> set (field_alters t p f)"
  using columns_of_mem by (fastforce simp: set_field_alters)

lemma set_table_alters:
  assumes "wf_model (rModel was)" and "wf_model (rModel reg)"
  shows "x \<in> set (table_alters was reg) \<longleftrightarrow>
    entry (rTable reg) (rkRank x) (rkColumn x) (columns_of (rModel was) (rkColumn x))
      (columns_of (rModel reg) (rkColumn x)) = Some (rkOp x)"
proof -
  let ?P = "columns_of (rModel was)" and ?Q = "columns_of (rModel reg)"
  have split: "x \<in> set (table_alters was reg) \<longleftrightarrow>
      (\<exists>f \<in> set (mFields (rModel reg)). x \<in> set (field_alters (rTable reg) (?P (fName f)) f)) \<or>
      (\<exists>f \<in> set (mFields (rModel was)). ?Q (fName f) = None \<and>
         rkColumn x = fName f \<and> rkRank x = 3 \<and> rkOp x = DropColumn (rTable reg) (fName f))"
    by (simp add: table_alters_columns [OF assms] image_iff rk_eqI) blast
  show ?thesis
  proof (cases "?Q (rkColumn x)")
    case None
    have was: "(\<exists>f \<in> set (mFields (rModel was)). rkColumn x = fName f) \<longleftrightarrow> ?P (rkColumn x) \<noteq> None"
      using columns_of_mem [OF assms(1)] columns_of_Some by (metis option.distinct(1) option.exhaust)
    have "x \<in> set (table_alters was reg) \<longleftrightarrow>
        ?P (rkColumn x) \<noteq> None \<and> rkRank x = 3 \<and> rkOp x = DropColumn (rTable reg) (rkColumn x)"
      using None field_alters_absent [OF assms(2) None] was unfolding split by metis
    also have "\<dots> \<longleftrightarrow> entry (rTable reg) (rkRank x) (rkColumn x) (?P (rkColumn x)) (?Q (rkColumn x)) = Some (rkOp x)"
      using None by (auto simp: entry_def split: option.splits)
    finally show ?thesis .
  next
    case (Some b)
    then have b: "b \<in> set (mFields (rModel reg))" "fName b = rkColumn x" by (auto dest: columns_of_Some)
    have "f = b" if "f \<in> set (mFields (rModel reg))" "fName f = rkColumn x" for f
      using columns_of_mem [OF assms(2) that(1)] that Some by simp
    then have "(\<exists>f \<in> set (mFields (rModel reg)). x \<in> set (field_alters (rTable reg) (?P (fName f)) f)) \<longleftrightarrow>
        x \<in> set (field_alters (rTable reg) (?P (rkColumn x)) b)"
      using b by (metis set_field_alters)
    then show ?thesis using Some b unfolding split by (auto simp: set_field_alters)
  qed
qed

lemma table_alters_distinct:
  assumes "wf_model (rModel was)" and "wf_model (rModel reg)"
  shows "distinct (map rkKey (table_alters was reg))"
proof -
  let ?Q = "columns_of (rModel reg)"
  let ?as = "concat (map (\<lambda>f. field_alters (rTable reg) (columns_of (rModel was) (fName f)) f) (mFields (rModel reg)))"
  let ?ds = "filter (\<lambda>f. ?Q (fName f) = None) (mFields (rModel was))"
  have "distinct (map rkKey ?as)"
    using assms(2) by (intro concat_field_alters_distinct) (simp add: wf_model_def)
  moreover have "distinct (map (\<lambda>f. (3::nat, fName f)) ?ds)"
    using assms(1) by (auto simp: wf_model_def distinct_map inj_on_def)
  moreover have "?Q (snd k) \<noteq> None" if "k \<in> rkKey ` set ?as" for k
    using that columns_of_mem [OF assms(2)] by (auto simp: set_field_alters)
  moreover have "?Q (snd k) = None" if "k \<in> (\<lambda>f. (3::nat, fName f)) ` set ?ds" for k
    using that by auto
  ultimately have "distinct (map rkKey ?as @ map (\<lambda>f. (3, fName f)) ?ds)"
    unfolding distinct_append set_map by blast
  then show ?thesis by (simp add: table_alters_columns [OF assms] comp_def)
qed

definition all_columns :: "columns \<Rightarrow> columns \<Rightarrow> string list" where
  "all_columns P Q = sorted_list_of_set (dom P \<union> dom Q)"

lemma finite_columns [simp]: "finite (dom (columns_of m))"
  by (simp add: columns_of_def finite_dom_map_of)

lemma entry_Some_grid:
  "entry t r c (P c) (Q c) = Some op \<Longrightarrow> r < 10 \<and> c \<in> dom P \<union> dom Q"
  by (auto simp: entry_def split: option.splits if_splits)

lemma sorted_alters_grid:
  assumes "wf_model (rModel was)" and "wf_model (rModel reg)"
  defines "P \<equiv> columns_of (rModel was)" and "Q \<equiv> columns_of (rModel reg)"
  shows "sorted_alters was reg = grid (rTable reg) P Q 10 (all_columns P Q)"
proof -
  let ?g = "rgrid (rTable reg) P Q 10 (all_columns P Q)"
  let ?s = "sort_key rkKey (table_alters was reg)"
  have "sorted_wrt (<) (all_columns P Q)"
    by (simp add: all_columns_def strict_sorted_list_of_set)
  then have g: "sorted_wrt (<) (map rkKey ?g)" by (rule rgrid_sorted)
  have "set (all_columns P Q) = dom P \<union> dom Q"
    by (simp add: all_columns_def P_def Q_def)
  then have "x \<in> set ?s \<longleftrightarrow> x \<in> set ?g" for x
    using set_table_alters [OF assms(1,2), of x] entry_Some_grid [of "rTable reg" "rkRank x" "rkColumn x" P Q]
    unfolding set_rgrid set_sort P_def Q_def by metis
  then have sets: "set ?s = set ?g" by blast
  have d: "distinct (map rkKey ?s)"
    unfolding distinct_map_sort_key by (rule table_alters_distinct [OF assms(1,2)])
  have "inj_on rkKey (set ?s \<union> set ?g)" using d by (simp only: sets [symmetric] Un_absorb distinct_map)
  then have "?s = ?g"
    using d g sets by (intro map_sorted_distinct_set_unique [of rkKey]) (simp_all only: strict_sorted_iff sorted_sort_key)
  then show ?thesis by (simp add: sorted_alters_def map_rgrid)
qed

section \<open>From a table to the schema\<close>

definition on_table :: "string \<Rightarrow> operation \<Rightarrow> bool" where
  "on_table t op \<longleftrightarrow> operationTable op = t \<and>
     (case op of CreateTable _ \<Rightarrow> False | DropTable _ \<Rightarrow> False | _ \<Rightarrow> True)"

lemma exec_on_table:
  "on_table t op \<Longrightarrow> S t = Some T \<Longrightarrow> exec_op op S = map_option (\<lambda>T'. S(t \<mapsto> T')) (col_op op T)"
  by (cases op) (auto simp: on_table_def exec_op_def)

lemma run_on_table:
  "list_all (on_table t) ops \<Longrightarrow> S t = Some T \<Longrightarrow>
     run_ops exec_op ops S = map_option (\<lambda>T'. S(t \<mapsto> T')) (run_ops col_op ops T)"
proof (induction ops arbitrary: S T)
  case (Cons op ops)
  show ?case
  proof (cases "col_op op T")
    case None
    with Cons.prems exec_on_table [of t op S T] show ?thesis by simp
  next
    case (Some T')
    have "run_ops exec_op ops (S(t \<mapsto> T')) =
        map_option (\<lambda>U. (S(t \<mapsto> T'))(t \<mapsto> U)) (run_ops col_op ops T')"
      using Cons.prems by (intro Cons.IH) simp_all
    with Some Cons.prems exec_on_table [of t op S T] show ?thesis by (simp del: fun_upd_apply)
  qed
qed (simp add: fun_upd_idem)

lemma entry_on_table:
  "entry t r c p q = Some op \<Longrightarrow> on_table t op"
  "entry_inv t r c p q = Some op \<Longrightarrow> on_table t op"
  by (auto simp: entry_def entry_inv_def on_table_def split: option.splits if_splits)

lemma grid_on_table:
  "list_all (on_table t) (grid t P Q n cs)" "list_all (on_table t) (grid_inv t P Q n cs)"
  by (auto simp: list_all_iff grid_def row_def grid_inv_def row_inv_def List.map_filter_def
      dest: entry_on_table)

lemma same_table_columns: "wf_model m \<Longrightarrow> wf_model m' \<Longrightarrow> same_table (columns_of m) (columns_of m')"
  unfolding same_table_def sane_col_def
  by (auto split: option.splits dest: columns_of_flags columns_of_primary_unique)

lemma all_columns_props:
  "distinct (all_columns (columns_of m) (columns_of m'))"
  "dom (columns_of m) \<union> dom (columns_of m') \<subseteq> set (all_columns (columns_of m) (columns_of m'))"
  by (simp_all add: all_columns_def)

lemma sorted_alters_run:
  assumes "wf_model (rModel was)" and "wf_model (rModel reg)"
    and "S (rTable reg) = Some (columns_of (rModel was))"
  shows "run_ops exec_op (sorted_alters was reg) S = Some (S(rTable reg \<mapsto> columns_of (rModel reg)))"
  using assms(3) grid_run [OF same_table_columns [OF assms(1,2)] all_columns_props, of 10]
    row_state_end [OF same_table_columns [OF assms(1,2)]]
  by (simp add: sorted_alters_grid [OF assms(1,2)] run_on_table [OF grid_on_table(1)])

lemma schema_of_Nil [simp]: "schema_of [] = Map.empty"
  by (simp add: schema_of_def)

lemma schema_of_Cons [simp]: "schema_of (reg # regs) = (schema_of regs)(rTable reg \<mapsto> columns_of (rModel reg))"
  by (simp add: schema_of_def)

lemma schema_of_None: "schema_of regs t = None \<longleftrightarrow> t \<notin> rTable ` set regs"
  by (induction regs) auto

lemma schema_of_mem:
  "distinct (map rTable regs) \<Longrightarrow> reg \<in> set regs \<Longrightarrow> schema_of regs (rTable reg) = Some (columns_of (rModel reg))"
  unfolding schema_of_def by (rule map_of_is_SomeI) (auto simp: comp_def)

lemma schema_of_SomeD:
  "schema_of regs t = Some P \<Longrightarrow> \<exists>reg \<in> set regs. rTable reg = t \<and> P = columns_of (rModel reg)"
  unfolding schema_of_def by (drule map_of_SomeD) auto

lemma index_find:
  "distinct (map rTable regs) \<Longrightarrow> map_of (index regs) t = Some reg \<longleftrightarrow> reg \<in> set regs \<and> rTable reg = t"
  by (subst index_lookup) (auto simp: map_of_eq_Some_iff comp_def)

lemma index_None:
  "distinct (map rTable regs) \<Longrightarrow> map_of (index regs) t = None \<longleftrightarrow> schema_of regs t = None"
  by (subst index_lookup) (auto simp: map_of_eq_None_iff schema_of_None image_image)

lemma exec_CreateTable:
  "S (mTable m) = None \<Longrightarrow> exec_op (CreateTable m) S = Some (S(mTable m \<mapsto> columns_of m))"
  by (simp add: exec_op_def)

lemma exec_DropTable: "S t \<noteq> None \<Longrightarrow> exec_op (DropTable t) S = Some (S(t := None))"
  by (simp add: exec_op_def)

lemma creates_run:
  "distinct (map rTable rs) \<Longrightarrow> \<forall>reg \<in> set rs. S (rTable reg) = None \<Longrightarrow>
     run_ops exec_op (map (\<lambda>reg. CreateTable (rModel reg)) rs) S = Some (S ++ schema_of rs)"
proof (induction rs arbitrary: S)
  case (Cons reg rs)
  have ne: "rTable r' \<noteq> rTable reg" if "r' \<in> set rs" for r' using Cons.prems(1) that by (simp add: image_iff) metis
  have "schema_of rs (rTable reg) = None" using Cons.prems(1) by (simp add: schema_of_None)
  moreover have "run_ops exec_op (map (\<lambda>reg. CreateTable (rModel reg)) rs)
      (S(rTable reg \<mapsto> columns_of (rModel reg))) = Some (S(rTable reg \<mapsto> columns_of (rModel reg)) ++ schema_of rs)"
    using Cons.prems ne by (intro Cons.IH) simp_all
  moreover have "S(rTable reg \<mapsto> columns_of (rModel reg)) ++ schema_of rs = S ++ schema_of (reg # rs)"
    using calculation(1) by (simp add: map_add_upd_left domIff)
  ultimately show ?case using Cons.prems exec_CreateTable [of S "rModel reg"]
    by (simp del: schema_of_Cons)
qed simp

lemma drops_run:
  "distinct (map rTable rs) \<Longrightarrow> \<forall>reg \<in> set rs. S (rTable reg) \<noteq> None \<Longrightarrow>
     run_ops exec_op (map (\<lambda>reg. DropTable (rTable reg)) rs) S = Some (S |` (- (rTable ` set rs)))"
proof (induction rs arbitrary: S)
  case (Cons reg rs)
  have ne: "rTable r' \<noteq> rTable reg" if "r' \<in> set rs" for r' using Cons.prems(1) that by (simp add: image_iff) metis
  have "run_ops exec_op (map (\<lambda>reg. DropTable (rTable reg)) rs) (S(rTable reg := None)) =
      Some (S(rTable reg := None) |` (- (rTable ` set rs)))"
    using Cons.prems ne by (intro Cons.IH) simp_all
  moreover have "S(rTable reg := None) |` (- (rTable ` set rs)) = S |` (- (rTable ` set (reg # rs)))"
    by (auto simp: restrict_map_def)
  ultimately show ?case using Cons.prems exec_DropTable [of S "rTable reg"] by simp
qed (simp add: restrict_map_def)

definition alter_group :: "registered list \<Rightarrow> registered \<Rightarrow> operation list" where
  "alter_group before reg =
     (case map_of (index before) (rTable reg) of None \<Rightarrow> [] | Some was \<Rightarrow> sorted_alters was reg)"

lemma alters_run:
  assumes "distinct (map rTable bs)" and "list_all (wf_model \<circ> rModel) bs"
  shows "distinct (map rTable rs) \<Longrightarrow> list_all (wf_model \<circ> rModel) rs \<Longrightarrow>
    \<forall>reg \<in> set rs. \<forall>P. schema_of bs (rTable reg) = Some P \<longrightarrow> S (rTable reg) = Some P \<Longrightarrow>
    run_ops exec_op (concat (map (alter_group bs) rs)) S =
    Some (S ++ (schema_of rs |` dom (schema_of bs)))"
proof (induction rs arbitrary: S)
  case (Cons reg rs)
  have ne: "rTable r' \<noteq> rTable reg" if "r' \<in> set rs" for r' using Cons.prems(1) that by (simp add: image_iff) metis
  have rest: "(schema_of rs) (rTable reg) = None" using Cons.prems by (simp add: schema_of_None)
  show ?case
  proof (cases "map_of (index bs) (rTable reg)")
    case None
    then have "schema_of bs (rTable reg) = None" by (simp add: index_None [OF assms(1)])
    then have "schema_of (reg # rs) |` dom (schema_of bs) = schema_of rs |` dom (schema_of bs)"
      by (auto simp: restrict_map_def)
    moreover have "run_ops exec_op (concat (map (alter_group bs) rs)) S = Some (S ++ (schema_of rs |` dom (schema_of bs)))"
      using Cons.prems by (intro Cons.IH) auto
    moreover have "alter_group bs reg = []" using None by (simp add: alter_group_def)
    ultimately show ?thesis by (simp only: list.map concat.simps append_Nil)
  next
    case (Some was)
    then have was: "was \<in> set bs" "rTable was = rTable reg" by (simp_all add: index_find [OF assms(1)])
    then have b: "schema_of bs (rTable reg) = Some (columns_of (rModel was))"
      using schema_of_mem [OF assms(1)] by metis
    have "run_ops exec_op (sorted_alters was reg) S = Some (S(rTable reg \<mapsto> columns_of (rModel reg)))"
      using Cons.prems b was assms(2) by (intro sorted_alters_run) (auto simp: list_all_iff)
    moreover have "run_ops exec_op (concat (map (alter_group bs) rs)) (S(rTable reg \<mapsto> columns_of (rModel reg))) =
        Some (S(rTable reg \<mapsto> columns_of (rModel reg)) ++ (schema_of rs |` dom (schema_of bs)))"
      using Cons.prems ne by (intro Cons.IH) simp_all
    moreover have "S(rTable reg \<mapsto> columns_of (rModel reg)) ++ (schema_of rs |` dom (schema_of bs)) =
        S ++ (schema_of (reg # rs) |` dom (schema_of bs))"
      using rest b by (auto simp: map_add_def restrict_map_def fun_eq_iff split: option.splits)
    moreover have "alter_group bs reg = sorted_alters was reg" using Some by (simp add: alter_group_def)
    ultimately show ?thesis by (simp only: list.map concat.simps run_ops_append option.case)
  qed
qed simp

lemma Diff_groups:
  assumes "distinct (map rTable (snapModels before))" and "distinct (map rTable (snapModels after))"
  shows "Diff before after =
    map (\<lambda>reg. CreateTable (rModel reg))
      (filter (\<lambda>reg. schema_of (snapModels before) (rTable reg) = None) (snapModels after)) @
    concat (map (alter_group (snapModels before)) (snapModels after)) @
    map (\<lambda>reg. DropTable (rTable reg))
      (filter (\<lambda>reg. schema_of (snapModels after) (rTable reg) = None) (snapModels before))"
  by (simp add: Diff_def Let_def index_None assms alter_group_def [abs_def])

lemma schema_of_filter:
  "schema_of (filter (\<lambda>reg. F (rTable reg)) regs) = schema_of regs |` {t. F t}"
  by (induction regs) (auto simp: restrict_map_def fun_eq_iff)

lemma Diff_run:
  assumes "snapshot_ok before" and "snapshot_ok after"
  shows "run_ops exec_op (Diff before after) (schema_of (snapModels before)) =
    Some (schema_of (snapModels after))"
proof -
  let ?B = "snapModels before" and ?A = "snapModels after"
  let ?b = "schema_of ?B" and ?a = "schema_of ?A"
  have d: "distinct (map rTable ?B)" "distinct (map rTable ?A)"
    using snap.tables_distinct assms by simp_all
  have w: "list_all (wf_model \<circ> rModel) ?B" "list_all (wf_model \<circ> rModel) ?A"
    using assms by (simp_all add: snapshot_ok_def)
  let ?S1 = "?b ++ (?a |` {t. ?b t = None})"
  let ?S2 = "?S1 ++ (?a |` dom ?b)"
  have c: "run_ops exec_op (map (\<lambda>reg. CreateTable (rModel reg))
      (filter (\<lambda>reg. ?b (rTable reg) = None) ?A)) ?b = Some ?S1"
    using d(2) schema_of_filter [of "\<lambda>t. ?b t = None" ?A]
    by (subst creates_run) (auto simp: distinct_map_filter)
  have m: "run_ops exec_op (concat (map (alter_group ?B) ?A)) ?S1 = Some ?S2"
    using d w by (intro alters_run) (auto simp: map_add_def restrict_map_def)
  have s2: "?S2 = ?b ++ ?a"
    by (auto simp: map_add_def restrict_map_def fun_eq_iff split: option.splits)
  have gone: "t \<in> rTable ` set (filter (\<lambda>reg. ?a (rTable reg) = None) ?B) \<longleftrightarrow> ?b t \<noteq> None \<and> ?a t = None" for t
    using schema_of_None [of ?B t] by auto
  have x: "run_ops exec_op (map (\<lambda>reg. DropTable (rTable reg))
      (filter (\<lambda>reg. ?a (rTable reg) = None) ?B)) (?b ++ ?a) =
      Some ((?b ++ ?a) |` (- (rTable ` set (filter (\<lambda>reg. ?a (rTable reg) = None) ?B))))"
    using d(1) schema_of_mem [OF d(1)] by (intro drops_run) (auto simp: distinct_map_filter map_add_def)
  have "(?b ++ ?a) |` (- (rTable ` set (filter (\<lambda>reg. ?a (rTable reg) = None) ?B))) = ?a"
    by (rule ext) (simp only: restrict_map_def Compl_iff gone, auto simp: map_add_def split: option.splits)
  with c m x show ?thesis by (simp only: Diff_groups [OF d] run_ops_append s2 option.case)
qed

section \<open>No difference\<close>

lemma entry_same: "entry t r c p p = None"
  by (auto simp: entry_def split: option.splits)

lemma grid_same: "grid t P P n cs = []"
  by (simp add: grid_def row_def entry_same List.map_filter_def)

lemma sorted_alters_same:
  "wf_model (rModel was) \<Longrightarrow> wf_model (rModel reg) \<Longrightarrow>
     columns_of (rModel was) = columns_of (rModel reg) \<Longrightarrow> sorted_alters was reg = []"
  by (simp add: sorted_alters_grid grid_same)

lemma Diff_same:
  assumes "snapshot_ok before" and "snapshot_ok after"
    and "schema_of (snapModels before) = schema_of (snapModels after)"
  shows "Diff before after = []"
proof -
  have d: "distinct (map rTable (snapModels before))" "distinct (map rTable (snapModels after))"
    using snap.tables_distinct assms(1,2) by simp_all
  have "alter_group (snapModels before) reg = []" if "reg \<in> set (snapModels after)" for reg
  proof (cases "map_of (index (snapModels before)) (rTable reg)")
    case (Some was)
    then have was: "was \<in> set (snapModels before)" "rTable was = rTable reg"
      by (simp_all add: index_find [OF d(1)])
    have "columns_of (rModel was) = columns_of (rModel reg)"
      using schema_of_mem [OF d(1) was(1)] schema_of_mem [OF d(2) that] was(2) assms(3) by simp
    then show ?thesis
      using Some snap.well_formed [OF assms(1)] snap.well_formed [OF assms(2)] was(1) that
      by (simp add: alter_group_def sorted_alters_same)
  qed (simp add: alter_group_def)
  moreover have "schema_of (snapModels before) (rTable reg) \<noteq> None"
    if "reg \<in> set (snapModels before) \<union> set (snapModels after)" for reg
    using that assms(3) schema_of_mem [OF d(1)] schema_of_mem [OF d(2)] by auto
  ultimately show ?thesis
    using assms(3) by (auto simp: Diff_groups [OF d] filter_empty_conv)
qed

section \<open>Properties\<close>

text \<open>A schema change that touches every rank: the witnesses run the differ on it.\<close>

definition ex_before :: snapshot where
  "ex_before = \<lparr>snapModels =
     [\<lparr>rModule = ''shop'', rModel = ex_model ''gone''\<rparr>,
      \<lparr>rModule = ''shop'', rModel = \<lparr>mTable = ''orders'', mFields =
        [ex_field ''id'' True, (ex_field ''a'' False)\<lparr>fUnique := True\<rparr>,
         (ex_field ''b'' False)\<lparr>fNullable := True\<rparr>, ex_field ''old'' False]\<rparr>\<rparr>]\<rparr>"

definition ex_after :: snapshot where
  "ex_after = \<lparr>snapModels =
     [\<lparr>rModule = ''shop'', rModel = ex_model ''fresh''\<rparr>,
      \<lparr>rModule = ''shop'', rModel = \<lparr>mTable = ''orders'', mFields =
        [(ex_field ''id'' False)\<lparr>fIndex := True\<rparr>, (ex_field ''a'' False)\<lparr>fType := TypeString, fMaxLen := 40\<rparr>,
         ex_field ''b'' True, ex_field ''new'' False]\<rparr>\<rparr>]\<rparr>"

text \<open>C1: \<open>Diff\<close> is correct: for any two valid snapshots, every operation it lists can be
  executed when its turn comes (no missing table or column, no second primary key, no forbidden
  combination of flags on the way), and the schema reached is exactly that of the second
  snapshot.\<close>

theorem Diff_reaches_after:
  assumes "snapshot_ok before" and "snapshot_ok after"
  shows "run_ops exec_op (Diff before after) (schema_of (Snapshot_Models before)) =
    Some (schema_of (Snapshot_Models after))"
  using Diff_run [OF assms] by simp

theorem Diff_reaches_after_witness:
  "length (Diff ex_before ex_after) = 10 \<and>
   run_ops exec_op (Diff ex_before ex_after) (schema_of (Snapshot_Models ex_before)) =
     Some (schema_of (Snapshot_Models ex_after))"
proof
  show "length (Diff ex_before ex_after) = 10" by code_simp
  have "snapshot_ok ex_before" by code_simp
  moreover have "snapshot_ok ex_after" by code_simp
  ultimately show "run_ops exec_op (Diff ex_before ex_after) (schema_of (Snapshot_Models ex_before)) =
     Some (schema_of (Snapshot_Models ex_after))" by (rule Diff_reaches_after)
qed

text \<open>\<open>Diff\<close> reports nothing exactly when the two snapshots describe the same tables and
  columns: a reordered field list or another owning module is no change, and any other
  difference is reported.\<close>

theorem Diff_empty_iff_same_schema:
  assumes "snapshot_ok before" and "snapshot_ok after"
  shows "Diff before after = [] \<longleftrightarrow>
    schema_of (Snapshot_Models before) = schema_of (Snapshot_Models after)"
  using Diff_same [OF assms] Diff_run [OF assms] by auto

theorem Diff_empty_iff_same_schema_witness:
  "Diff ex_before ex_before = [] \<and> Diff ex_before ex_after \<noteq> [] \<and>
   schema_of (Snapshot_Models ex_before) \<noteq> schema_of (Snapshot_Models ex_after)"
proof -
  have "snapshot_ok ex_before" "snapshot_ok ex_after" by code_simp+
  moreover have "Diff ex_before ex_after \<noteq> []" by code_simp
  ultimately show ?thesis using Diff_empty_iff_same_schema by blast
qed

end
