(* ===== verification/Go_Encoding.thy ===== *)
theory Go_Encoding
  imports Go_Prelude
begin

text \<open>
  The binary encodings of Go's standard library that the sources use: hexadecimal
  (\<open>encoding/hex\<close>), unpadded URL base64 (\<open>base64.RawURLEncoding\<close>) and 64-bit big-endian lengths
  (\<open>encoding/binary\<close>), with their round trips.
\<close>

section \<open>Hexadecimal\<close>

definition hex_digit :: "nat \<Rightarrow> char" where
  "hex_digit n = (if n < 10 then char_of (48 + n) else char_of (87 + n))"

definition hex :: "string \<Rightarrow> string" where
  "hex s = concat (map (\<lambda>c. let n = of_char c in [hex_digit (n div 16), hex_digit (n mod 16)]) s)"

lemma length_hex [simp]: "length (hex s) = 2 * length s"
  by (induction s) (auto simp: hex_def Let_def)

section \<open>Big-endian lengths\<close>

definition PutUint64 :: "nat \<Rightarrow> string" where
  "PutUint64 n = map (\<lambda>i. char_of (n div 256 ^ i mod 256)) [7, 6, 5, 4, 3, 2, 1, 0]"

text \<open>For evaluation, divisions are done on \<open>int\<close>, whose numerals are binary.\<close>

lemma nat_int_div: "nat (int v div numeral k) = v div numeral k"
  by (metis nat_int of_nat_numeral zdiv_int)

lemma nat_int_div_mod: "nat (int v div numeral k mod numeral m) = v div numeral k mod numeral m"
  by (metis nat_int of_nat_numeral zdiv_int zmod_int)

lemma nat_int_mod: "nat (int v mod numeral m) = v mod numeral m"
  by (metis nat_int of_nat_numeral zmod_int)

lemma PutUint64_code [code]:
  "PutUint64 n =
     (let v = int n
      in map (\<lambda>d. char_of (nat (v div d mod 256)))
           [72057594037927936, 281474976710656, 1099511627776, 4294967296, 16777216, 65536, 256, 1])"
  by (simp add: PutUint64_def Let_def nat_int_div_mod nat_int_mod)

lemma length_PutUint64 [simp]: "length (PutUint64 n) = 8"
  by (simp add: PutUint64_def)

lemma base_256_digits:
  fixes n :: nat
  shows "n < 256 ^ k \<Longrightarrow> (\<Sum>i<k. (n div 256 ^ i mod 256) * 256 ^ i) = n"
proof (induction k arbitrary: n)
  case (Suc k)
  have "(\<Sum>i<Suc k. (n div 256 ^ i mod 256) * 256 ^ i) =
      n mod 256 + (\<Sum>i<k. (n div 256 ^ Suc i mod 256) * 256 ^ Suc i)"
    by (subst sum.lessThan_Suc_shift) simp
  also have "(\<Sum>i<k. (n div 256 ^ Suc i mod 256) * 256 ^ Suc i) = 256 * (\<Sum>i<k. (n div 256 div 256 ^ i mod 256) * 256 ^ i)"
    by (simp add: sum_distrib_left div_mult2_eq mult_ac)
  also have "(\<Sum>i<k. (n div 256 div 256 ^ i mod 256) * 256 ^ i) = n div 256"
    using Suc.prems by (intro Suc.IH) (simp add: div_less_iff_less_mult mult.commute)
  finally show ?case by simp
qed simp

lemma PutUint64_inj:
  assumes "m < 2 ^ 64" "n < 2 ^ 64" "PutUint64 m = PutUint64 n"
  shows "m = n"
proof -
  have "m div 256 ^ i mod 256 = n div 256 ^ i mod 256" if "i < 8" for i
  proof -
    have "i \<in> set [7, 6, 5, 4, 3, 2, 1, 0]" using that by (auto simp: less_Suc_eq numeral_eq_Suc)
    then have "(char_of (m div 256 ^ i mod 256) :: char) = char_of (n div 256 ^ i mod 256)"
      using assms(3) unfolding PutUint64_def map_eq_conv by blast
    then show ?thesis by (metis of_char_of mod_mod_trivial)
  qed
  then have "(\<Sum>i<8. (m div 256 ^ i mod 256) * 256 ^ i) = (\<Sum>i<8. (n div 256 ^ i mod 256) * 256 ^ i)" by simp
  moreover have "(2 :: nat) ^ 64 = 256 ^ 8" by simp
  ultimately show ?thesis using base_256_digits[of m 8] base_256_digits[of n 8] assms(1,2) by simp
qed

section \<open>Unpadded URL base64\<close>

definition encodeURL :: string where
  "encodeURL = ''ABCDEFGHIJKLMNOPQRSTUVWXYZabcdefghijklmnopqrstuvwxyz0123456789-_''"

definition b64_char :: "nat \<Rightarrow> char" where
  "b64_char n = encodeURL ! n"

definition b64_val :: "char \<Rightarrow> nat option" where
  "b64_val c = map_of (zip encodeURL [0..<64]) c"

definition b64_table :: "(char \<times> int) list" where
  "b64_table = zip encodeURL [0..63]"

lemma b64_table_val: "map_of b64_table c = map_option int (b64_val c)"
proof -
  have "[0..63 :: int] = map int [0..<64]" by code_simp
  then have t: "b64_table = map (\<lambda>(k, v). (k, int v)) (zip encodeURL [0..<64])"
    by (simp only: b64_table_def zip_map2)
  show ?thesis unfolding b64_val_def t map_of_map o_apply ..
qed

lemma b64_table_code [code]:
  "b64_table = zip encodeURL [0, 1, 2, 3, 4, 5, 6, 7, 8, 9, 10, 11, 12, 13, 14, 15, 16, 17, 18, 19, 20, 21, 22, 23, 24, 25, 26, 27, 28, 29, 30, 31, 32, 33, 34, 35, 36, 37, 38, 39, 40, 41, 42, 43, 44, 45, 46, 47, 48, 49, 50, 51, 52, 53, 54, 55, 56, 57, 58, 59, 60, 61, 62, 63]"
  unfolding b64_table_def by code_simp

fun b64_encode :: "nat list \<Rightarrow> string" where
  "b64_encode (a # b # c # xs) =
     (let v = a * 65536 + b * 256 + c
      in [b64_char (v div 262144), b64_char (v div 4096 mod 64), b64_char (v div 64 mod 64), b64_char (v mod 64)]) @ b64_encode xs"
| "b64_encode [a, b] =
     (let v = a * 65536 + b * 256 in [b64_char (v div 262144), b64_char (v div 4096 mod 64), b64_char (v div 64 mod 64)])"
| "b64_encode [a] = (let v = a * 65536 in [b64_char (v div 262144), b64_char (v div 4096 mod 64)])"
| "b64_encode [] = []"

definition EncodeToString :: "string \<Rightarrow> string" where
  "EncodeToString s = b64_encode (map of_char s)"

text \<open>
  \<open>DecodeString\<close> skips carriage returns and line feeds, refuses every other character outside the
  alphabet and a final group of one character, and ignores the unused bits of the final group.
\<close>

fun b64_decode :: "nat list \<Rightarrow> nat list option" where
  "b64_decode (a # b # c # d # xs) =
     (let v = a * 262144 + b * 4096 + c * 64 + d
      in map_option (\<lambda>ys. [v div 65536, v div 256 mod 256, v mod 256] @ ys) (b64_decode xs))"
| "b64_decode [a, b, c] = (let v = a * 262144 + b * 4096 + c * 64 in Some [v div 65536, v div 256 mod 256])"
| "b64_decode [a, b] = (let v = a * 262144 + b * 4096 in Some [v div 65536])"
| "b64_decode [a] = None"
| "b64_decode [] = Some []"

definition DecodeString :: "string \<Rightarrow> string option" where
  "DecodeString s =
     (let vs = map b64_val (filter (\<lambda>c. c \<noteq> CHR 0x0A \<and> c \<noteq> CHR 0x0D) s)
      in if list_all (\<lambda>v. v \<noteq> None) vs then map_option (map char_of) (b64_decode (map the vs)) else None)"

text \<open>For evaluation, groups are computed on \<open>int\<close>.\<close>

fun b64_encode_int :: "int list \<Rightarrow> string" where
  "b64_encode_int (a # b # c # xs) =
     (let v = a * 65536 + b * 256 + c
      in [b64_char (nat (v div 262144)), b64_char (nat (v div 4096 mod 64)), b64_char (nat (v div 64 mod 64)),
          b64_char (nat (v mod 64))]) @ b64_encode_int xs"
| "b64_encode_int [a, b] =
     (let v = a * 65536 + b * 256
      in [b64_char (nat (v div 262144)), b64_char (nat (v div 4096 mod 64)), b64_char (nat (v div 64 mod 64))])"
| "b64_encode_int [a] = (let v = a * 65536 in [b64_char (nat (v div 262144)), b64_char (nat (v div 4096 mod 64))])"
| "b64_encode_int [] = []"

fun b64_decode_int :: "int list \<Rightarrow> int list option" where
  "b64_decode_int (a # b # c # d # xs) =
     (let v = a * 262144 + b * 4096 + c * 64 + d
      in map_option (\<lambda>ys. [v div 65536, v div 256 mod 256, v mod 256] @ ys) (b64_decode_int xs))"
| "b64_decode_int [a, b, c] = (let v = a * 262144 + b * 4096 + c * 64 in Some [v div 65536, v div 256 mod 256])"
| "b64_decode_int [a, b] = (let v = a * 262144 + b * 4096 in Some [v div 65536])"
| "b64_decode_int [a] = None"
| "b64_decode_int [] = Some []"

lemma b64_encode_int: "b64_encode_int (map int xs) = b64_encode xs"
proof (induction xs rule: b64_encode.induct)
  case (1 a b c xs)
  have "int a * 65536 + int b * 256 + int c = int (a * 65536 + b * 256 + c)" by simp
  then show ?case using 1 by (simp only: list.map b64_encode_int.simps b64_encode.simps Let_def nat_int_div nat_int_div_mod nat_int_mod)
next
  case (2 a b)
  have "int a * 65536 + int b * 256 = int (a * 65536 + b * 256)" by simp
  then show ?case by (simp only: list.map b64_encode_int.simps b64_encode.simps Let_def nat_int_div nat_int_div_mod)
next
  case (3 a)
  have "int a * 65536 = int (a * 65536)" by simp
  then show ?case by (simp only: list.map b64_encode_int.simps b64_encode.simps Let_def nat_int_div nat_int_div_mod)
qed simp

lemma b64_decode_int: "b64_decode_int (map int xs) = map_option (map int) (b64_decode xs)"
  by (induction xs rule: b64_decode.induct)
    (simp_all add: Let_def option.map_comp o_def zdiv_int zmod_int)

lemma EncodeToString_code [code]: "EncodeToString s = b64_encode_int (map of_char s)"
proof -
  have "map of_char s = map int (map of_char s)" by (simp add: of_nat_of_char)
  then show ?thesis by (simp only: EncodeToString_def b64_encode_int)
qed

lemma DecodeString_code [code]:
  "DecodeString s =
     (let vs = map (map_of b64_table) (filter (\<lambda>c. c \<noteq> CHR 0x0A \<and> c \<noteq> CHR 0x0D) s)
      in if list_all (\<lambda>v. v \<noteq> None) vs then map_option (map char_of) (b64_decode_int (map the vs)) else None)"
proof -
  let ?cs = "filter (\<lambda>c. c \<noteq> CHR 0x0A \<and> c \<noteq> CHR 0x0D) s"
  have v: "map (map_of b64_table) ?cs = map (map_option int) (map b64_val ?cs)" by (simp add: b64_table_val)
  show ?thesis
  proof (cases "list_all (\<lambda>v. v \<noteq> None) (map b64_val ?cs)")
    case True
    then have t: "map the (map (map_of b64_table) ?cs) = map int (map the (map b64_val ?cs))"
      unfolding v by (simp add: list_all_iff option.map_sel)
    have l: "list_all (\<lambda>v. v \<noteq> None) (map (map_of b64_table) ?cs)" using True by (simp add: b64_table_val list_all_iff)
    show ?thesis
      unfolding DecodeString_def Let_def t b64_decode_int by (simp only: True l if_True option.map_comp o_def list.map_comp char_of_nat)
  next
    case False
    then show ?thesis
      unfolding DecodeString_def Let_def by (auto simp: b64_table_val list_all_iff)
  qed
qed

lemma b64_alphabet: "n < 64 \<Longrightarrow> b64_val (b64_char n) = Some n \<and> b64_char n \<notin> {CHR 0x0A, CHR 0x0D, CHR ''.''}"
proof -
  assume "n < 64"
  then have "n \<in> set [0..<64]" by simp
  moreover have "list_all (\<lambda>n. b64_val (b64_char n) = Some n \<and> b64_char n \<notin> {CHR 0x0A, CHR 0x0D, CHR ''.''}) [0..<64]"
    by code_simp
  ultimately show ?thesis by (simp add: list_all_iff)
qed

text \<open>The sextets that encoding writes.\<close>

fun b64_sextets :: "nat list \<Rightarrow> nat list" where
  "b64_sextets (a # b # c # xs) =
     (let v = a * 65536 + b * 256 + c in [v div 262144, v div 4096 mod 64, v div 64 mod 64, v mod 64]) @ b64_sextets xs"
| "b64_sextets [a, b] = (let v = a * 65536 + b * 256 in [v div 262144, v div 4096 mod 64, v div 64 mod 64])"
| "b64_sextets [a] = (let v = a * 65536 in [v div 262144, v div 4096 mod 64])"
| "b64_sextets [] = []"

lemma b64_encode_sextets: "b64_encode xs = map b64_char (b64_sextets xs)"
  by (induction xs rule: b64_sextets.induct) (simp_all add: Let_def)

lemma top_sextet:
  fixes a b c :: nat
  assumes "a < 256" "b < 256" "c < 256"
  shows "(a * 65536 + b * 256 + c) div 262144 < 64"
proof -
  have "a * 65536 \<le> 255 * 65536" "b * 256 \<le> 255 * 256" using assms by simp_all
  then have "a * 65536 + b * 256 + c < 64 * 262144" using assms(3) by simp
  then show ?thesis by (rule div_less_iff_less_mult[THEN iffD2, rotated]) simp
qed

lemma sextets_small: "list_all (\<lambda>x. x < 256) xs \<Longrightarrow> list_all (\<lambda>v. v < 64) (b64_sextets xs)"
proof (induction xs rule: b64_sextets.induct)
  case (1 a b c xs)
  then show ?case using top_sextet[of a b c] by (simp add: Let_def)
next
  case (2 a b)
  then show ?case using top_sextet[of a b 0] by (simp add: Let_def)
next
  case (3 a)
  then show ?case using top_sextet[of a 0 0] by (simp add: Let_def)
qed simp

lemma base_64_group:
  fixes v :: nat
  shows "(v div 262144) * 262144 + (v div 4096 mod 64) * 4096 + (v div 64 mod 64) * 64 + v mod 64 = v"
proof -
  define p where "p = v div 64"
  define q where "q = p div 64"
  have q: "v div 4096 = q" "v div 262144 = q div 64"
    by (simp_all add: p_def q_def div_mult2_eq[symmetric])
  have "v = p * 64 + v mod 64" "p = q * 64 + p mod 64" "q = (q div 64) * 64 + q mod 64"
    by (simp_all add: p_def q_def)
  then show ?thesis unfolding q p_def[symmetric] by linarith
qed

lemma base_64_short:
  fixes v :: nat
  shows "64 dvd v \<Longrightarrow> (v div 262144) * 262144 + (v div 4096 mod 64) * 4096 + (v div 64 mod 64) * 64 = v"
    and "4096 dvd v \<Longrightarrow> (v div 262144) * 262144 + (v div 4096 mod 64) * 4096 = v"
proof -
  show 1: "64 dvd v \<Longrightarrow> (v div 262144) * 262144 + (v div 4096 mod 64) * 4096 + (v div 64 mod 64) * 64 = v"
    using base_64_group[of v] by (simp add: dvd_eq_mod_eq_0)
  assume "4096 dvd v"
  then obtain u where u: "v = 64 * (64 * u)" by (elim dvdE) simp
  then have "64 dvd v" "v div 64 mod 64 = 0" by simp_all
  with 1 show "(v div 262144) * 262144 + (v div 4096 mod 64) * 4096 = v" by simp
qed

lemma base_256_group:
  fixes a b c :: nat
  assumes "b < 256" "c < 256"
  shows "(a * 65536 + b * 256 + c) div 65536 = a" "(a * 65536 + b * 256 + c) div 256 mod 256 = b"
    "(a * 65536 + b * 256 + c) mod 256 = c"
proof -
  have e: "a * 65536 + b * 256 + c = (a * 256 + b) * 256 + c" by simp
  have d: "((a * 256 + b) * 256 + c) div 256 = a * 256 + b" using assms(2) by (simp only: div_mult_self3)
  show "(a * 65536 + b * 256 + c) mod 256 = c" unfolding e using assms(2) by (simp only: mod_mult_self3 mod_less)
  show "(a * 65536 + b * 256 + c) div 256 mod 256 = b" unfolding e d using assms(1) by simp
  have "(a * 65536 + b * 256 + c) div 65536 = (a * 65536 + b * 256 + c) div 256 div 256"
    by (simp add: div_mult2_eq[symmetric])
  also have "\<dots> = (a * 256 + b) div 256" unfolding e d ..
  also have "\<dots> = a" using assms(1) by simp
  finally show "(a * 65536 + b * 256 + c) div 65536 = a" .
qed

lemma b64_decode_sextets: "list_all (\<lambda>x. x < 256) xs \<Longrightarrow> b64_decode (b64_sextets xs) = Some xs"
proof (induction xs rule: b64_sextets.induct)
  case (1 a b c xs)
  then show ?case by (simp add: Let_def base_64_group base_256_group)
next
  case (2 a b)
  have "64 dvd a * 65536 + b * 256" by (intro dvd_add dvd_mult) simp_all
  note v = base_64_short(1)[OF this]
  show ?case using 2 base_256_group[of b 0 a] by (simp only: b64_sextets.simps b64_decode.simps Let_def v) simp
next
  case (3 a)
  have "4096 dvd a * 65536" by (intro dvd_mult) simp
  note v = base_64_short(2)[OF this]
  show ?case by (simp only: b64_sextets.simps b64_decode.simps Let_def v) simp
qed simp

lemma encoded_chars: "c \<in> set (EncodeToString s) \<Longrightarrow> b64_val c \<noteq> None \<and> c \<noteq> CHR 0x0A \<and> c \<noteq> CHR 0x0D \<and> c \<noteq> CHR ''.''"
proof -
  assume "c \<in> set (EncodeToString s)"
  then obtain v where "v \<in> set (b64_sextets (map of_char s))" "c = b64_char v"
    by (auto simp: EncodeToString_def b64_encode_sextets)
  moreover have "list_all (\<lambda>v. v < 64) (b64_sextets (map of_char s))"
    by (rule sextets_small) (simp add: list_all_iff)
  ultimately show ?thesis using b64_alphabet[of v] by (auto simp: list_all_iff)
qed

lemma base64_round_trip: "DecodeString (EncodeToString s) = Some s"
proof -
  let ?vs = "b64_sextets (map of_char s)"
  have small: "list_all (\<lambda>v. v < 64) ?vs" by (rule sextets_small) (simp add: list_all_iff)
  have f: "filter (\<lambda>c. c \<noteq> CHR 0x0A \<and> c \<noteq> CHR 0x0D) (EncodeToString s) = EncodeToString s"
    using encoded_chars[of _ s] by (simp add: filter_id_conv)
  have v: "map b64_val (EncodeToString s) = map Some ?vs"
    using small b64_alphabet by (simp add: EncodeToString_def b64_encode_sextets list_all_iff)
  show ?thesis
    unfolding DecodeString_def f v Let_def
    by (simp add: list_all_iff o_def b64_decode_sextets)
qed

lemma length_encode: "length (EncodeToString s) = (length s * 4 + 2) div 3"
proof -
  have "length (b64_encode xs) = (length xs * 4 + 2) div 3" for xs
    by (induction xs rule: b64_encode.induct) (simp_all add: Let_def)
  then show ?thesis by (simp add: EncodeToString_def)
qed

end
