(* ===== verification/Dialects.thy ===== *)
theory Dialects
  imports Migratediff_Correct Go_Encoding
begin

text \<open>
  The package \<open>migratediff\<close>, second part: rendering of operations as SQL
  (migratediff/dialect_postgres.go, migratediff/dialect_sqlite.go and the helpers they share in
  migratediff/migratediff.go) and \<open>Apply\<close>.

  \<open>sha256\<close> (crypto/sha256, a digest of 32 bytes) and \<open>quote\<close> (\<open>strconv.Quote\<close>, an escaped
  literal on one line) are parameters. \<open>db.ExecContext\<close> is a function on a state of the caller's
  choice. A statement is the exact text the code builds.
\<close>

section \<open>Text helpers\<close>

definition quoteIdentifier :: "string \<Rightarrow> string" where
  "quoteIdentifier name = ''\"'' @ ReplaceAll (CHR ''\"'') ''\"\"'' name @ ''\"''"

definition quoteLiteral :: "string \<Rightarrow> string" where
  "quoteLiteral v = [CHR 0x27] @ ReplaceAll (CHR 0x27) [CHR 0x27, CHR 0x27] v @ [CHR 0x27]"

definition maxDatabaseObjectNameBytes :: nat where
  "maxDatabaseObjectNameBytes = 63"

text \<open>
  \<open>strings.ToLower\<close> as the loops that follow it see it: they keep only \<open>a-z\<close> and \<open>0-9\<close>. Beside
  the ASCII letters two code points have an ASCII lower case, U+212A (KELVIN SIGN) and U+0130
  (LATIN CAPITAL LETTER I WITH DOT ABOVE); every other byte of a longer encoding, or of invalid
  text, is no letter before or after.
\<close>

fun lower_view :: "string \<Rightarrow> string" where
  "lower_view [] = []"
| "lower_view (a # s) =
     (if a = CHR 0xE2 \<and> HasPrefix s [CHR 0x84, CHR 0xAA] then CHR ''k'' # lower_view (drop 2 s)
      else if a = CHR 0xC4 \<and> HasPrefix s [CHR 0xB0] then CHR ''i'' # lower_view (drop 1 s)
      else ascii_lower a # lower_view s)"

fun readable_loop :: "bool \<Rightarrow> string \<Rightarrow> string" where
  "readable_loop underscore [] = []"
| "readable_loop underscore (r # rs) =
     (if is_lower r \<or> is_digit r then r # readable_loop False rs
      else if \<not> underscore then CHR ''_'' # readable_loop True rs
      else readable_loop underscore rs)"

definition readableIdentifier :: "string \<Rightarrow> string" where
  "readableIdentifier s = Trim (CHR ''_'') (readable_loop False (lower_view s))"

definition databaseObjectName :: "(string \<Rightarrow> string) \<Rightarrow> string \<Rightarrow> string \<Rightarrow> string \<Rightarrow> string" where
  "databaseObjectName sha256 kind table column =
     (let payload = Itoa (length kind) @ '':'' @ kind @ Itoa (length table) @ '':'' @ table @
            Itoa (length column) @ '':'' @ column;
          digest = hex (take 8 (sha256 payload));
          readable = readableIdentifier (table @ ''_'' @ column);
          reserved = length kind + length digest + 2;
          limit = maxDatabaseObjectNameBytes - reserved;
          readable = (if length readable > limit then Trim (CHR ''_'') (take limit readable)
                      else readable);
          readable = (if readable = [] then ''object'' else readable)
      in kind @ ''_'' @ readable @ ''_'' @ digest)"

section \<open>Errors\<close>

text \<open>
  \<open>Unsupported\<close> is \<open>ErrUnsupported\<close> with its reason, \<open>UnknownColumnType\<close> the
  \<open>orm.ErrInvalidField\<close> of the type tables, \<open>OnField\<close> the wrapping of \<open>columnList\<close>.
\<close>

datatype render_err =
    Unsupported string
  | UnknownColumnType string orm_type
  | OnField string string render_err

fun is_unsupported :: "render_err \<Rightarrow> bool" where
  "is_unsupported (Unsupported _) = True"
| "is_unsupported (UnknownColumnType _ _) = False"
| "is_unsupported (OnField _ _ e) = is_unsupported e"

type_synonym type_table = "field \<Rightarrow> (render_err, string) result"
type_synonym renderer = "operation \<Rightarrow> (render_err, string list) result"

definition oneStatement :: "(render_err, string) result \<Rightarrow> (render_err, string list) result" where
  "oneStatement r = (case r of Err e \<Rightarrow> Err e | Ok stmt \<Rightarrow> Ok [stmt])"

section \<open>Column definitions\<close>

definition columnDefinition :: "type_table \<Rightarrow> field \<Rightarrow> (render_err, string) result" where
  "columnDefinition typeOf f =
     (case typeOf f of
        Err e \<Rightarrow> Err e
      | Ok typ \<Rightarrow> Ok (quoteIdentifier (fName f) @ '' '' @ typ @
                    (if \<not> fNullable f then '' NOT NULL'' else [])))"

fun column_lines :: "type_table \<Rightarrow> string \<Rightarrow> field list \<Rightarrow> (render_err, string list) result" where
  "column_lines typeOf table [] = Ok []"
| "column_lines typeOf table (f # fs) =
     (case columnDefinition typeOf f of
        Err e \<Rightarrow> Err (OnField table (fName f) e)
      | Ok line \<Rightarrow>
          (case column_lines typeOf table fs of
             Err e \<Rightarrow> Err e
           | Ok ls \<Rightarrow> Ok ((''  '' @ line) # ls)))"

definition constraint_line :: "(string \<Rightarrow> string) \<Rightarrow> string \<Rightarrow> field \<Rightarrow> string list" where
  "constraint_line sha256 table f =
     (if fPrimaryKey f
      then [''  CONSTRAINT '' @ quoteIdentifier (databaseObjectName sha256 ''pk'' table (fName f)) @
            '' PRIMARY KEY ('' @ quoteIdentifier (fName f) @ '')'']
      else if fUnique f
      then [''  CONSTRAINT '' @ quoteIdentifier (databaseObjectName sha256 ''uq'' table (fName f)) @
            '' UNIQUE ('' @ quoteIdentifier (fName f) @ '')'']
      else [])"

definition columnList :: "(string \<Rightarrow> string) \<Rightarrow> type_table \<Rightarrow> model \<Rightarrow> (render_err, string) result" where
  "columnList sha256 typeOf m =
     (case column_lines typeOf (mTable m) (mFields m) of
        Err e \<Rightarrow> Err e
      | Ok ls \<Rightarrow> Ok (Join ('','' @ [CHR 0x0A])
                     (ls @ concat (map (constraint_line sha256 (mTable m)) (mFields m)))))"

section \<open>PostgreSQL\<close>

definition postgresType :: type_table where
  "postgresType f =
     (if fType f = TypeString
      then Ok (if fMaxLen f > 0 then ''VARCHAR('' @ Itoa (nat (fMaxLen f)) @ '')'' else ''TEXT'')
      else if fType f = TypeInt then Ok ''INTEGER''
      else if fType f = TypeInt64 then Ok ''BIGINT''
      else if fType f = TypeFloat then Ok ''DOUBLE PRECISION''
      else if fType f = TypeBool then Ok ''BOOLEAN''
      else if fType f = TypeTime then Ok ''TIMESTAMP''
      else if fType f = TypeBytes then Ok ''BYTEA''
      else Err (UnknownColumnType ''PostgreSQL'' (fType f)))"

definition pg_addIndex :: "(string \<Rightarrow> string) \<Rightarrow> string \<Rightarrow> string \<Rightarrow> string" where
  "pg_addIndex sha256 table column =
     ''CREATE INDEX '' @ quoteIdentifier (databaseObjectName sha256 ''idx'' table column) @
     '' ON '' @ quoteIdentifier table @ '' ('' @ quoteIdentifier column @ '')''"

definition pg_dropIndex :: "(string \<Rightarrow> string) \<Rightarrow> string \<Rightarrow> string \<Rightarrow> string" where
  "pg_dropIndex sha256 table column =
     ''DROP INDEX '' @ quoteIdentifier (databaseObjectName sha256 ''idx'' table column)"

definition pg_addConstraint :: "(string \<Rightarrow> string) \<Rightarrow> string \<Rightarrow> string \<Rightarrow> string \<Rightarrow> string \<Rightarrow> string" where
  "pg_addConstraint sha256 kind table column constraint =
     ''ALTER TABLE '' @ quoteIdentifier table @ '' ADD CONSTRAINT '' @
     quoteIdentifier (databaseObjectName sha256 kind table column) @ '' '' @ constraint @
     '' ('' @ quoteIdentifier column @ '')''"

definition pg_dropConstraint :: "(string \<Rightarrow> string) \<Rightarrow> string \<Rightarrow> string \<Rightarrow> string \<Rightarrow> string" where
  "pg_dropConstraint sha256 kind table column =
     ''ALTER TABLE '' @ quoteIdentifier table @ '' DROP CONSTRAINT '' @
     quoteIdentifier (databaseObjectName sha256 kind table column)"

definition pg_createTable :: "(string \<Rightarrow> string) \<Rightarrow> model \<Rightarrow> (render_err, string list) result" where
  "pg_createTable sha256 m =
     (case columnList sha256 postgresType m of
        Err e \<Rightarrow> Err e
      | Ok body \<Rightarrow>
          Ok ((''CREATE TABLE '' @ quoteIdentifier (mTable m) @ '' ('' @ [CHR 0x0A] @ body @
               [CHR 0x0A] @ '')'') #
              map (\<lambda>f. pg_addIndex sha256 (mTable m) (fName f)) (filter fIndex (mFields m))))"

definition pg_addColumn :: "(string \<Rightarrow> string) \<Rightarrow> string \<Rightarrow> field \<Rightarrow> (render_err, string list) result" where
  "pg_addColumn sha256 table f =
     (case columnDefinition postgresType f of
        Err e \<Rightarrow> Err e
      | Ok def \<Rightarrow>
          Ok ((''ALTER TABLE '' @ quoteIdentifier table @ '' ADD COLUMN '' @ def) #
              (if fPrimaryKey f then [pg_addConstraint sha256 ''pk'' table (fName f) ''PRIMARY KEY'']
               else if fUnique f then [pg_addConstraint sha256 ''uq'' table (fName f) ''UNIQUE'']
               else if fIndex f then [pg_addIndex sha256 table (fName f)]
               else [])))"

definition pg_dropColumn :: "(string \<Rightarrow> string) \<Rightarrow> string \<Rightarrow> string \<Rightarrow> (render_err, string) result" where
  "pg_dropColumn quote table column =
     Ok (''-- fabrin: dropping '' @ quote (table @ ''.'' @ column) @ '' discards its data'' @ [CHR 0x0A] @
         ''ALTER TABLE '' @ quoteIdentifier table @ '' DROP COLUMN '' @ quoteIdentifier column)"

definition pg_dropTable :: "(string \<Rightarrow> string) \<Rightarrow> string \<Rightarrow> (render_err, string) result" where
  "pg_dropTable quote table =
     Ok (''-- fabrin: dropping '' @ quote table @ '' discards its data'' @ [CHR 0x0A] @
         ''DROP TABLE '' @ quoteIdentifier table)"

definition pg_renameColumn :: "string \<Rightarrow> string \<Rightarrow> string \<Rightarrow> string" where
  "pg_renameColumn table old new =
     ''ALTER TABLE '' @ quoteIdentifier table @ '' RENAME COLUMN '' @ quoteIdentifier old @
     '' TO '' @ quoteIdentifier new"

definition pg_changeType :: "string \<Rightarrow> string \<Rightarrow> field \<Rightarrow> (render_err, string) result" where
  "pg_changeType table column new =
     (case postgresType new of
        Err e \<Rightarrow> Err e
      | Ok typ \<Rightarrow> Ok (''ALTER TABLE '' @ quoteIdentifier table @ '' ALTER COLUMN '' @
                    quoteIdentifier column @ '' TYPE '' @ typ))"

definition pg_changeNullability :: "string \<Rightarrow> string \<Rightarrow> bool \<Rightarrow> string" where
  "pg_changeNullability table column nullable =
     ''ALTER TABLE '' @ quoteIdentifier table @ '' ALTER COLUMN '' @ quoteIdentifier column @ '' '' @
     (if nullable then ''DROP NOT NULL'' else ''SET NOT NULL'')"

text \<open>
  \<open>dollarQuoteTag\<close> appends underscores until no value contains the tag. The loop is written with
  its bound: a tag longer than every value collides with none.
\<close>

definition dollar_tag :: "nat \<Rightarrow> string" where
  "dollar_tag k = ''$'' @ ''fabrin'' @ replicate k (CHR ''_'') @ ''$''"

lemma Contains_length: "Contains v t \<Longrightarrow> length t \<le> length v"
  by (auto simp: Contains_iff)

function tag_loop :: "string list \<Rightarrow> nat \<Rightarrow> string" where
  "tag_loop vs k =
     (if list_ex (\<lambda>v. Contains v (dollar_tag k)) vs then tag_loop vs (Suc k) else dollar_tag k)"
  by pat_completeness auto
termination
proof (relation "measure (\<lambda>(vs, k). Suc (sum_list (map length vs)) - k)")
  fix vs :: "string list" and k
  assume "list_ex (\<lambda>v. Contains v (dollar_tag k)) vs"
  then obtain v where v: "v \<in> set vs" "Contains v (dollar_tag k)" by (auto simp: list_ex_iff)
  have "k < length (dollar_tag k)" by (simp add: dollar_tag_def)
  also have "\<dots> \<le> length v" using v(2) by (rule Contains_length)
  also have "\<dots> \<le> sum_list (map length vs)" using v(1) by (simp add: member_le_sum_list)
  finally show "((vs, Suc k), (vs, k)) \<in> measure (\<lambda>(vs, k). Suc (sum_list (map length vs)) - k)"
    by simp
qed simp

declare tag_loop.simps [simp del]

lemma tag_loop_code [code]:
  "tag_loop vs k = (case list_ex (\<lambda>v. Contains v (dollar_tag k)) vs of
     True \<Rightarrow> tag_loop vs (Suc k) | False \<Rightarrow> dollar_tag k)"
  by (simp add: tag_loop.simps)

definition dollarQuoteTag :: "string list \<Rightarrow> string" where
  "dollarQuoteTag vs = tag_loop vs 0"

definition nl :: string where
  "nl = [CHR 0x0A]"

definition sq :: "string \<Rightarrow> string" where
  "sq s = [CHR 0x27] @ s @ [CHR 0x27]"

definition drop_primary_body :: "string \<Rightarrow> string \<Rightarrow> string" where
  "drop_primary_body table column =
     nl @ ''DECLARE'' @ nl @
     ''  constraint_name text;'' @ nl @
     ''BEGIN'' @ nl @
     ''  SELECT c.conname INTO constraint_name'' @ nl @
     ''  FROM pg_constraint AS c'' @ nl @
     ''  JOIN pg_attribute AS a ON a.attrelid = c.conrelid AND a.attnum = c.conkey[1]'' @ nl @
     ''  WHERE c.conrelid = to_regclass(format('' @ sq ''%I'' @ '', '' @ quoteLiteral table @ ''))'' @ nl @
     ''    AND c.contype = '' @ sq ''p'' @ nl @
     ''    AND array_length(c.conkey, 1) = 1'' @ nl @
     ''    AND a.attname = '' @ quoteLiteral column @ '';'' @ nl @
     ''  IF constraint_name IS NULL THEN'' @ nl @
     ''    RAISE EXCEPTION '' @ sq ''fabrin: table % has no single-column primary key on %'' @ '', '' @
       quoteLiteral table @ '', '' @ quoteLiteral column @ '';'' @ nl @
     ''  END IF;'' @ nl @
     ''  EXECUTE format('' @ sq ''ALTER TABLE %I DROP CONSTRAINT %I'' @ '', '' @ quoteLiteral table @
       '', constraint_name);'' @ nl @
     ''END;'' @ nl"

definition pg_dropPrimaryKey :: "string \<Rightarrow> string \<Rightarrow> string" where
  "pg_dropPrimaryKey table column =
     (let tag = dollarQuoteTag [table, column]
      in ''DO '' @ tag @ drop_primary_body table column @ tag)"

fun Postgres_Render :: "(string \<Rightarrow> string) \<Rightarrow> (string \<Rightarrow> string) \<Rightarrow> renderer" where
  "Postgres_Render sha256 quote (CreateTable m) = pg_createTable sha256 m"
| "Postgres_Render sha256 quote (DropTable t) = oneStatement (pg_dropTable quote t)"
| "Postgres_Render sha256 quote (AddColumn t f) = pg_addColumn sha256 t f"
| "Postgres_Render sha256 quote (DropColumn t c) = oneStatement (pg_dropColumn quote t c)"
| "Postgres_Render sha256 quote (RenameColumn t a b) = Ok [pg_renameColumn t a b]"
| "Postgres_Render sha256 quote (ChangeType t c f) = oneStatement (pg_changeType t c f)"
| "Postgres_Render sha256 quote (ChangeNullability t c n) = Ok [pg_changeNullability t c n]"
| "Postgres_Render sha256 quote (AddUnique t c) = Ok [pg_addConstraint sha256 ''uq'' t c ''UNIQUE'']"
| "Postgres_Render sha256 quote (DropUnique t c) = Ok [pg_dropConstraint sha256 ''uq'' t c]"
| "Postgres_Render sha256 quote (AddIndex t c) = Ok [pg_addIndex sha256 t c]"
| "Postgres_Render sha256 quote (DropIndex t c) = Ok [pg_dropIndex sha256 t c]"
| "Postgres_Render sha256 quote (AddPrimaryKey t c) =
     Ok [pg_addConstraint sha256 ''pk'' t c ''PRIMARY KEY'']"
| "Postgres_Render sha256 quote (DropPrimaryKey t c) = Ok [pg_dropPrimaryKey t c]"
| "Postgres_Render sha256 quote (OtherOperation d) = Err (Unsupported ''PostgreSQL cannot render'')"

section \<open>SQLite\<close>

definition sqliteType :: type_table where
  "sqliteType f =
     (if fType f = TypeString
      then Ok (if fMaxLen f > 0 then ''VARCHAR('' @ Itoa (nat (fMaxLen f)) @ '')'' else ''TEXT'')
      else if fType f = TypeInt then Ok ''INTEGER''
      else if fType f = TypeInt64 then Ok ''BIGINT''
      else if fType f = TypeFloat then Ok ''REAL''
      else if fType f = TypeBool then Ok ''BOOLEAN''
      else if fType f = TypeTime then Ok ''TIMESTAMP''
      else if fType f = TypeBytes then Ok ''BLOB''
      else Err (UnknownColumnType ''SQLite'' (fType f)))"

definition sqlite_addIndex :: "(string \<Rightarrow> string) \<Rightarrow> string \<Rightarrow> string \<Rightarrow> string" where
  "sqlite_addIndex sha256 table column =
     ''CREATE INDEX '' @ quoteIdentifier (databaseObjectName sha256 ''idx'' table column) @
     '' ON '' @ quoteIdentifier table @ '' ('' @ quoteIdentifier column @ '')''"

definition sqlite_dropIndex :: "(string \<Rightarrow> string) \<Rightarrow> string \<Rightarrow> string \<Rightarrow> string" where
  "sqlite_dropIndex sha256 table column =
     ''DROP INDEX '' @ quoteIdentifier (databaseObjectName sha256 ''idx'' table column)"

definition sqlite_createTable :: "(string \<Rightarrow> string) \<Rightarrow> model \<Rightarrow> (render_err, string list) result" where
  "sqlite_createTable sha256 m =
     (case columnList sha256 sqliteType m of
        Err e \<Rightarrow> Err e
      | Ok body \<Rightarrow>
          Ok ((''CREATE TABLE '' @ quoteIdentifier (mTable m) @ '' ('' @ [CHR 0x0A] @ body @
               [CHR 0x0A] @ '')'') #
              map (\<lambda>f. sqlite_addIndex sha256 (mTable m) (fName f)) (filter fIndex (mFields m))))"

definition sqlite_addColumn :: "(string \<Rightarrow> string) \<Rightarrow> string \<Rightarrow> field \<Rightarrow> (render_err, string list) result" where
  "sqlite_addColumn sha256 table f =
     (if \<not> fNullable f then Err (Unsupported ''SQLite cannot ADD COLUMN without a DEFAULT'')
      else if fPrimaryKey f \<or> fUnique f
      then Err (Unsupported ''SQLite cannot ADD COLUMN with a primary-key or UNIQUE constraint'')
      else case columnDefinition sqliteType f of
             Err e \<Rightarrow> Err e
           | Ok def \<Rightarrow>
               Ok ((''ALTER TABLE '' @ quoteIdentifier table @ '' ADD COLUMN '' @ def) #
                   (if fIndex f then [sqlite_addIndex sha256 table (fName f)] else [])))"

definition sqlite_dropColumn :: "string \<Rightarrow> string \<Rightarrow> (render_err, string) result" where
  "sqlite_dropColumn table column = Err (Unsupported ''SQLite cannot drop a column in place'')"

definition sqlite_renameColumn :: "string \<Rightarrow> string \<Rightarrow> string \<Rightarrow> string" where
  "sqlite_renameColumn table old new =
     ''ALTER TABLE '' @ quoteIdentifier table @ '' RENAME COLUMN '' @ quoteIdentifier old @
     '' TO '' @ quoteIdentifier new"

definition sqlite_changeType :: "string \<Rightarrow> string \<Rightarrow> field \<Rightarrow> (render_err, string) result" where
  "sqlite_changeType table column new = Err (Unsupported ''SQLite cannot alter a column type in place'')"

definition sqlite_dropTable :: "(string \<Rightarrow> string) \<Rightarrow> string \<Rightarrow> (render_err, string) result" where
  "sqlite_dropTable quote table =
     Ok (''-- fabrin: dropping '' @ quote table @ '' discards its data'' @ [CHR 0x0A] @
         ''DROP TABLE '' @ quoteIdentifier table)"

definition sqlite_constraint_err :: render_err where
  "sqlite_constraint_err = Unsupported ''SQLite cannot alter table constraints in place''"

fun SQLite_Render :: "(string \<Rightarrow> string) \<Rightarrow> (string \<Rightarrow> string) \<Rightarrow> renderer" where
  "SQLite_Render sha256 quote (CreateTable m) = sqlite_createTable sha256 m"
| "SQLite_Render sha256 quote (DropTable t) = oneStatement (sqlite_dropTable quote t)"
| "SQLite_Render sha256 quote (AddColumn t f) = sqlite_addColumn sha256 t f"
| "SQLite_Render sha256 quote (DropColumn t c) = oneStatement (sqlite_dropColumn t c)"
| "SQLite_Render sha256 quote (RenameColumn t a b) = Ok [sqlite_renameColumn t a b]"
| "SQLite_Render sha256 quote (ChangeType t c f) = oneStatement (sqlite_changeType t c f)"
| "SQLite_Render sha256 quote (AddIndex t c) = Ok [sqlite_addIndex sha256 t c]"
| "SQLite_Render sha256 quote (DropIndex t c) = Ok [sqlite_dropIndex sha256 t c]"
| "SQLite_Render sha256 quote (ChangeNullability t c n) = Err sqlite_constraint_err"
| "SQLite_Render sha256 quote (AddUnique t c) = Err sqlite_constraint_err"
| "SQLite_Render sha256 quote (DropUnique t c) = Err sqlite_constraint_err"
| "SQLite_Render sha256 quote (AddPrimaryKey t c) = Err sqlite_constraint_err"
| "SQLite_Render sha256 quote (DropPrimaryKey t c) = Err sqlite_constraint_err"
| "SQLite_Render sha256 quote (OtherOperation d) = Err (Unsupported ''SQLite cannot render'')"

section \<open>Apply\<close>

datatype apply_err =
    RenderFailed string render_err
  | NoStatements string
  | EmptyStatement string
  | ExecFailed string string

type_synonym 'db executor = "string \<Rightarrow> 'db \<Rightarrow> 'db \<times> string option"

fun render_all :: "renderer \<Rightarrow> operation list \<Rightarrow> (apply_err, (operation \<times> string list) list) result" where
  "render_all render [] = Ok []"
| "render_all render (op # ops) =
     (case render op of
        Err e \<Rightarrow> Err (RenderFailed (Describe op) e)
      | Ok stmts \<Rightarrow>
          if stmts = [] then Err (NoStatements (Describe op))
          else if list_ex (\<lambda>stmt. TrimSpace stmt = []) stmts then Err (EmptyStatement (Describe op))
          else (case render_all render ops of
                  Err e \<Rightarrow> Err e
                | Ok rest \<Rightarrow> Ok ((op, stmts) # rest)))"

fun exec_stmts :: "'db executor \<Rightarrow> operation \<Rightarrow> string list \<Rightarrow> 'db \<Rightarrow> 'db \<times> apply_err option" where
  "exec_stmts exec op [] db = (db, None)"
| "exec_stmts exec op (stmt # stmts) db =
     (case exec stmt db of
        (db', Some e) \<Rightarrow> (db', Some (ExecFailed (Describe op) e))
      | (db', None) \<Rightarrow> exec_stmts exec op stmts db')"

fun exec_items :: "'db executor \<Rightarrow> (operation \<times> string list) list \<Rightarrow> 'db \<Rightarrow> 'db \<times> apply_err option" where
  "exec_items exec [] db = (db, None)"
| "exec_items exec ((op, stmts) # items) db =
     (case exec_stmts exec op stmts db of
        (db', Some e) \<Rightarrow> (db', Some e)
      | (db', None) \<Rightarrow> exec_items exec items db')"

definition Apply :: "'db executor \<Rightarrow> renderer \<Rightarrow> operation list \<Rightarrow> 'db \<Rightarrow> 'db \<times> apply_err option" where
  "Apply exec render ops db =
     (case render_all render ops of
        Err e \<Rightarrow> (db, Some e)
      | Ok rendered \<Rightarrow> exec_items exec rendered db)"

end
