(* ===== verification/Dialects_Correct.thy ===== *)
theory Dialects_Correct
  imports Dialects
begin

text \<open>
  What the dialects and \<open>Apply\<close> guarantee: a quoted name is one SQL token whatever bytes it holds,
  generated object names stay within 63 bytes, a dollar-quoted block cannot be closed by the names
  inside it, PostgreSQL renders every operation of the differ, SQLite refuses exactly what it
  cannot alter in place, and \<open>Apply\<close> executes nothing unless every operation renders.
\<close>

section \<open>Quoting\<close>

text \<open>How a server reads a quoted token: up to the first quote that is not doubled.\<close>

fun scan_quoted :: "char \<Rightarrow> string \<Rightarrow> (string \<times> string) option" where
  "scan_quoted q [] = None"
| "scan_quoted q [c] = (if c = q then Some ([], []) else None)"
| "scan_quoted q (c # d # s) =
     (if c \<noteq> q then map_option (apfst ((#) c)) (scan_quoted q (d # s))
      else if d = q then map_option (apfst ((#) q)) (scan_quoted q s)
      else Some ([], d # s))"

definition read_token :: "char \<Rightarrow> string \<Rightarrow> (string \<times> string) option" where
  "read_token q s = (case s of [] \<Rightarrow> None | c # s' \<Rightarrow> if c = q then scan_quoted q s' else None)"

lemma scan_quoted_other: "c \<noteq> q \<Longrightarrow> scan_quoted q (c # s) = map_option (apfst ((#) c)) (scan_quoted q s)"
  by (cases s) auto

lemma scan_quoted_ReplaceAll:
  "\<not> HasPrefix rest [q] \<Longrightarrow> scan_quoted q (ReplaceAll q [q, q] n @ q # rest) = Some (n, rest)"
  by (induction n) (auto simp: scan_quoted_other HasPrefix_iff neq_Nil_conv split: list.splits, cases rest, auto)

lemma read_token_quoteIdentifier:
  "\<not> HasPrefix rest ''\"'' \<Longrightarrow> read_token (CHR ''\"'') (quoteIdentifier n @ rest) = Some (n, rest)"
  by (simp add: read_token_def quoteIdentifier_def scan_quoted_ReplaceAll)

lemma read_token_quoteLiteral:
  "\<not> HasPrefix rest [CHR 0x27] \<Longrightarrow> read_token (CHR 0x27) (quoteLiteral v @ rest) = Some (v, rest)"
  by (simp add: read_token_def quoteLiteral_def scan_quoted_ReplaceAll)

section \<open>Object names\<close>

definition name_char :: "char \<Rightarrow> bool" where
  "name_char c = (is_lower c \<or> is_digit c \<or> c = CHR ''_'')"

lemma readable_loop_chars: "list_all name_char (readable_loop u s)"
  by (induction u s rule: readable_loop.induct) (auto simp: name_char_def)

lemma list_all_Trim: "list_all P s \<Longrightarrow> list_all P (Trim c s)"
  using set_Trim by (fastforce simp: list_all_iff)

lemma readableIdentifier_chars: "list_all name_char (readableIdentifier s)"
  by (simp add: readableIdentifier_def list_all_Trim readable_loop_chars)

lemma hex_digit_char: "n < 16 \<Longrightarrow> name_char (hex_digit n)"
proof -
  assume "n < 16"
  then have "n \<in> set [0..<16]" by simp
  moreover have "list_all (\<lambda>n. name_char (hex_digit n)) [0..<16]" by code_simp
  ultimately show ?thesis by (simp add: list_all_iff)
qed

lemma hex_chars: "list_all name_char (hex s)"
proof (induction s)
  case (Cons c s)
  have "(of_char c :: nat) < 256" by (rule nat_of_char_less_256)
  then have "(of_char c :: nat) div 16 < 16" "(of_char c :: nat) mod 16 < 16"
    by (simp_all add: less_mult_imp_div_less)
  with Cons show ?case by (simp add: hex_def Let_def hex_digit_char)
qed (simp add: hex_def)

lemma object_kinds: "list_all (list_all name_char) [''pk'', ''uq'', ''idx'', ''object'', ''_'']"
  by code_simp

lemma cut_readable:
  assumes "list_all name_char r0" and "6 \<le> lim"
  defines "r1 \<equiv> (if length r0 > lim then Trim (CHR ''_'') (take lim r0) else r0)"
  defines "r2 \<equiv> (if r1 = [] then ''object'' else r1)"
  shows "length r2 \<le> lim" and "list_all name_char r2"
proof -
  have "length r1 \<le> lim"
    using length_Trim [of "CHR ''_''" "take lim r0"] by (auto simp: r1_def)
  with assms(2) show "length r2 \<le> lim" by (auto simp: r2_def)
  have "list_all name_char (take lim r0)"
    using assms(1) by (auto simp: list_all_iff dest: in_set_takeD)
  with assms(1) have "list_all name_char r1" by (simp add: r1_def list_all_Trim)
  with object_kinds show "list_all name_char r2" by (simp add: r2_def)
qed

definition cut_name :: "nat \<Rightarrow> string \<Rightarrow> string" where
  "cut_name lim r0 =
     (let r1 = (if length r0 > lim then Trim (CHR ''_'') (take lim r0) else r0)
      in if r1 = [] then ''object'' else r1)"

lemma databaseObjectName_parts:
  assumes "length (sha256 (Itoa (length kind) @ '':'' @ kind @ Itoa (length t) @ '':'' @ t @
      Itoa (length c) @ '':'' @ c)) = 32"
  obtains d where "length d = 8" and "databaseObjectName sha256 kind t c =
    kind @ ''_'' @ cut_name (63 - (length kind + 18)) (readableIdentifier (t @ ''_'' @ c)) @ ''_'' @ hex d"
proof
  let ?d = "take 8 (sha256 (Itoa (length kind) @ '':'' @ kind @ Itoa (length t) @ '':'' @ t @
      Itoa (length c) @ '':'' @ c))"
  show len: "length ?d = 8" using assms by simp
  then have "length kind + length (hex ?d) + 2 = length kind + 18" by simp
  then show "databaseObjectName sha256 kind t c =
    kind @ ''_'' @ cut_name (63 - (length kind + 18)) (readableIdentifier (t @ ''_'' @ c)) @ ''_'' @ hex ?d"
    unfolding databaseObjectName_def cut_name_def Let_def maxDatabaseObjectNameBytes_def by metis
qed

lemma databaseObjectName_shape:
  assumes "kind \<in> {''pk'', ''uq'', ''idx''}" and "\<And>p. length (sha256 p) = 32"
  shows "length (databaseObjectName sha256 kind t c) \<le> maxDatabaseObjectNameBytes \<and>
    list_all name_char (databaseObjectName sha256 kind t c) \<and>
    HasPrefix (databaseObjectName sha256 kind t c) (kind @ ''_'')"
proof -
  let ?r = "cut_name (63 - (length kind + 18)) (readableIdentifier (t @ ''_'' @ c))"
  obtain d where d: "length d = 8" "databaseObjectName sha256 kind t c = kind @ ''_'' @ ?r @ ''_'' @ hex d"
    by (rule databaseObjectName_parts [OF assms(2)])
  have k: "length kind \<le> 3" using assms(1) by auto
  then have "length ?r \<le> 63 - (length kind + 18)" "list_all name_char ?r"
    unfolding cut_name_def Let_def by (intro cut_readable readableIdentifier_chars; simp)+
  moreover have "list_all name_char kind" "list_all name_char ''_''"
    using object_kinds assms(1) by auto
  ultimately show ?thesis
    unfolding d(2) using d(1) k hex_chars [of d]
    by (simp add: maxDatabaseObjectNameBytes_def HasPrefix_iff)
qed

section \<open>The dollar-quoted block\<close>

lemma tag_loop_collides: "\<not> list_ex (\<lambda>v. Contains v (tag_loop vs k)) vs"
  by (induction vs k rule: tag_loop.induct) (subst tag_loop.simps, auto simp: tag_loop.simps)

lemma tag_loop_dollar: "\<exists>j. tag_loop vs k = dollar_tag j"
  by (induction vs k rule: tag_loop.induct) (subst tag_loop.simps, auto)

lemma Contains_Nil [simp]: "Contains s []" "Contains [] t \<longleftrightarrow> t = []"
  by (auto simp: Contains_iff)

text \<open>A tag without a quote cannot be found across one: it lies on one side.\<close>

lemma Contains_across:
  assumes "q \<notin> set t"
  shows "Contains (a @ q # b) t \<longleftrightarrow> Contains a t \<or> Contains b t"
proof
  assume "Contains (a @ q # b) t"
  then obtain u v where "a @ (q # b) = u @ (t @ v)" by (auto simp: Contains_iff)
  then consider w where "a = u @ w" "w @ (q # b) = t @ v" | w where "u = a @ w" "q # b = w @ (t @ v)"
    by (auto simp: append_eq_append_conv2)
  then show "Contains a t \<or> Contains b t"
  proof cases
    case 1
    from 1(2) consider z where "w = t @ z" | z where "t = w @ z" "q # b = z @ v"
      by (auto simp: append_eq_append_conv2)
    then show ?thesis
    proof cases
      case 1
      with \<open>a = u @ w\<close> show ?thesis by (auto simp: Contains_iff)
    next
      case 2
      then have "z = []" using assms by (cases z) auto
      with 2 \<open>a = u @ w\<close> show ?thesis unfolding Contains_iff by (metis append_Nil2)
    qed
  next
    case 2
    then show ?thesis
    proof (cases w)
      case Nil
      with 2 assms have "t = []" by (cases t) auto
      then show ?thesis by simp
    next
      case (Cons _ w')
      with 2 show ?thesis by (auto simp: Contains_iff)
    qed
  qed
next
  assume "Contains a t \<or> Contains b t"
  then show "Contains (a @ q # b) t"
    unfolding Contains_iff by (metis append.assoc append_Cons)
qed

lemma Contains_ReplaceAll: "q \<notin> set t \<Longrightarrow> Contains (ReplaceAll q [q, q] v) t \<longleftrightarrow> Contains v t"
proof -
  assume q: "q \<notin> set t"
  have split: "\<exists>a b. v = a @ q # b \<and> q \<notin> set a" if "q \<in> set v" for v :: string
    using that by (metis split_list_first)
  have skip: "ReplaceAll q [q, q] (a @ b) = a @ ReplaceAll q [q, q] b" if "q \<notin> set a" for a b
    using that by (induction a) auto
  show ?thesis
  proof (induction "length v" arbitrary: v rule: less_induct)
    case less
    show ?case
    proof (cases "q \<in> set v")
      case False
      then show ?thesis using skip [of v "[]"] by simp
    next
      case True
      then obtain a b where v: "v = a @ q # b" "q \<notin> set a" using split by blast
      then have "Contains (ReplaceAll q [q, q] v) t \<longleftrightarrow> Contains a t \<or> Contains (q # ReplaceAll q [q, q] b) t"
        by (simp add: skip Contains_across [OF q])
      also have "Contains (q # ReplaceAll q [q, q] b) t \<longleftrightarrow> Contains [] t \<or> Contains b t"
        using Contains_across [OF q, of "[]"] less [of b] v by simp
      finally show ?thesis
        using Contains_across [OF q, of a b] v by auto
    qed
  qed
qed

lemma Contains_clean: "c \<in> set t \<Longrightarrow> c \<notin> set s \<Longrightarrow> \<not> Contains s t"
  by (auto simp: Contains_iff)

text \<open>Text of the block: pieces separated by single quotes, every piece clean or a name's own.\<close>

lemma Contains_quoteLiteral:
  assumes "CHR 0x27 \<notin> set t"
  shows "Contains (a @ quoteLiteral v @ b) t \<longleftrightarrow> Contains a t \<or> Contains v t \<or> Contains b t"
    and "Contains (a @ sq s @ b) t \<longleftrightarrow> Contains a t \<or> Contains s t \<or> Contains b t"
  by (simp_all add: quoteLiteral_def sq_def Contains_across [OF assms] Contains_ReplaceAll [OF assms])

lemma drop_primary_body_clean:
  assumes "CHR 0x27 \<notin> set t" and "CHR ''$'' \<in> set t" and "\<not> Contains table t" and "\<not> Contains column t"
  shows "\<not> Contains (drop_primary_body table column) t"
proof -
  note across = Contains_quoteLiteral [OF assms(1)]
  have "\<not> Contains (p1 @ sq s1 @ p2 @ quoteLiteral table @ p3 @ sq s2 @ p4 @ quoteLiteral column @ p5 @
      sq s3 @ p6 @ quoteLiteral table @ p7 @ quoteLiteral column @ p8 @ sq s4 @ p9 @ quoteLiteral table @ p10) t"
    if "CHR ''$'' \<notin> set (concat [p1, s1, p2, p3, s2, p4, p5, s3, p6, p7, p8, s4, p9, p10])"
    for p1 s1 p2 p3 s2 p4 p5 s3 p6 p7 p8 s4 p9 p10 :: string
    using that assms(3,4) Contains_clean [OF assms(2)] by (simp add: across)
  note general = this
  show ?thesis
    unfolding drop_primary_body_def
    using general [of
      "nl @ ''DECLARE'' @ nl @ ''  constraint_name text;'' @ nl @ ''BEGIN'' @ nl @
        ''  SELECT c.conname INTO constraint_name'' @ nl @ ''  FROM pg_constraint AS c'' @ nl @
        ''  JOIN pg_attribute AS a ON a.attrelid = c.conrelid AND a.attnum = c.conkey[1]'' @ nl @
        ''  WHERE c.conrelid = to_regclass(format(''" "''%I''" "'', ''"
      "''))'' @ nl @ ''    AND c.contype = ''" "''p''"
      "nl @ ''    AND array_length(c.conkey, 1) = 1'' @ nl @ ''    AND a.attname = ''"
      "'';'' @ nl @ ''  IF constraint_name IS NULL THEN'' @ nl @ ''    RAISE EXCEPTION ''"
      "''fabrin: table % has no single-column primary key on %''" "'', ''" "'', ''"
      "'';'' @ nl @ ''  END IF;'' @ nl @ ''  EXECUTE format(''"
      "''ALTER TABLE %I DROP CONSTRAINT %I''" "'', ''" "'', constraint_name);'' @ nl @ ''END;'' @ nl"]
    by (simp add: nl_def)
qed

lemma dollarQuoteTag_props:
  "CHR 0x27 \<notin> set (dollarQuoteTag vs)" "CHR ''$'' \<in> set (dollarQuoteTag vs)"
  "v \<in> set vs \<Longrightarrow> \<not> Contains v (dollarQuoteTag vs)"
proof -
  obtain j where j: "dollarQuoteTag vs = dollar_tag j"
    using tag_loop_dollar by (auto simp: dollarQuoteTag_def)
  show "CHR 0x27 \<notin> set (dollarQuoteTag vs)" "CHR ''$'' \<in> set (dollarQuoteTag vs)"
    by (auto simp: j dollar_tag_def)
  show "v \<in> set vs \<Longrightarrow> \<not> Contains v (dollarQuoteTag vs)"
    using tag_loop_collides [of vs 0] by (auto simp: dollarQuoteTag_def list_ex_iff)
qed

section \<open>The interface of a dialect\<close>

definition solid :: "char \<Rightarrow> bool" where
  "solid c = list_all (\<lambda>w. c \<notin> set w) white_space"

lemma trim_left_keeps: "c \<in> set s \<Longrightarrow> solid c \<Longrightarrow> c \<in> set (trim_left_space s)"
proof (induction s rule: trim_left_space.induct)
  case (1 s)
  show ?case
  proof (cases "space_prefix s")
    case (Some w)
    then have "w \<in> set white_space" by (auto simp: space_prefix_def find_Some_iff)
    then have "c \<notin> set w" using 1(3) by (simp add: solid_def list_all_iff)
    moreover obtain r where "s = w @ r" using Some by (auto dest: space_prefix_SomeD)
    ultimately show ?thesis using 1 Some by (simp add: trim_left_space.simps [of "w @ r"])
  qed (use 1 in \<open>simp add: trim_left_space.simps [of s]\<close>)
qed

lemma trim_right_keeps: "c \<in> set s \<Longrightarrow> solid c \<Longrightarrow> c \<in> set (trim_right_space s)"
proof (induction s rule: trim_right_space.induct)
  case (1 s)
  show ?case
  proof (cases "space_suffix s")
    case (Some w)
    then have "w \<in> set white_space" by (auto simp: space_suffix_def find_Some_iff)
    then have "c \<notin> set w" using 1(3) by (simp add: solid_def list_all_iff)
    moreover obtain r where "s = r @ w" using Some by (auto dest: space_suffix_SomeD)
    ultimately show ?thesis using 1 Some by (simp add: trim_right_space.simps [of "r @ w"])
  qed (use 1 in \<open>simp add: trim_right_space.simps [of s]\<close>)
qed

lemma TrimSpace_solid: "c \<in> set s \<Longrightarrow> solid c \<Longrightarrow> TrimSpace s \<noteq> []"
  by (metis TrimSpace_def empty_iff list.set(1) trim_left_keeps trim_right_keeps)

lemma solid_letters: "list_all solid ''ACDO-''"
  by code_simp

definition blank :: "string \<Rightarrow> bool" where
  "blank s = (TrimSpace s = [])"

lemma not_blank [simp]:
  "\<not> blank (CHR ''A'' # s)" "\<not> blank (CHR ''C'' # s)" "\<not> blank (CHR ''D'' # s)"
  "\<not> blank (CHR ''-'' # s)"
  using solid_letters TrimSpace_solid [of "CHR ''A''"] TrimSpace_solid [of "CHR ''C''"]
    TrimSpace_solid [of "CHR ''D''"] TrimSpace_solid [of "CHR ''-''"]
  by (simp_all add: blank_def)

text \<open>
  What \<open>Apply\<close> and the generator rely on: an operation that renders gives at least one statement,
  and no blank one.
\<close>

definition stmts_of :: "renderer \<Rightarrow> operation \<Rightarrow> string list" where
  "stmts_of render op = (case render op of Err e \<Rightarrow> [] | Ok stmts \<Rightarrow> stmts)"

text \<open>Statements run one after the other, up to the first that fails.\<close>

fun exec_list :: "'db executor \<Rightarrow> string list \<Rightarrow> 'db \<Rightarrow> 'db \<times> string option" where
  "exec_list exec [] db = (db, None)"
| "exec_list exec (stmt # stmts) db =
     (case exec stmt db of (db', Some e) \<Rightarrow> (db', Some e) | (db', None) \<Rightarrow> exec_list exec stmts db')"

lemma exec_list_append:
  "exec_list exec (xs @ ys) db =
     (case exec_list exec xs db of (db', Some e) \<Rightarrow> (db', Some e) | (db', None) \<Rightarrow> exec_list exec ys db')"
  by (induction xs arbitrary: db) (auto split: prod.splits option.splits)

lemma exec_stmts_list:
  "exec_stmts exec op stmts db = (case exec_list exec stmts db of (db', e) \<Rightarrow> (db', map_option (ExecFailed (Describe op)) e))"
  by (induction stmts arbitrary: db) (auto split: prod.splits option.splits)

lemma exec_items_list:
  "fst (exec_items exec items db) = fst (exec_list exec (concat (map snd items)) db) \<and>
   (snd (exec_items exec items db) = None \<longleftrightarrow> snd (exec_list exec (concat (map snd items)) db) = None)"
  by (induction exec items db rule: exec_items.induct)
    (auto simp: exec_stmts_list exec_list_append split: prod.splits option.splits)

locale dialect =
  fixes render :: renderer
  assumes statements: "render op = Ok stmts \<Longrightarrow> stmts \<noteq> [] \<and> list_all (\<lambda>s. \<not> blank s) stmts"
begin

lemma render_all_Ok:
  "render_all render ops = Ok items \<longleftrightarrow> list_all2 (\<lambda>op item. fst item = op \<and> render op = Ok (snd item)) ops items"
proof (induction ops arbitrary: items)
  case (Cons op ops)
  note ih = Cons.IH
  show ?case
  proof (cases "render op")
    case (Inl e)
    then show ?thesis by (cases items) auto
  next
    case (Inr stmts)
    then have "stmts \<noteq> []" "\<not> list_ex (\<lambda>s. TrimSpace s = []) stmts"
      using statements [OF Inr] by (auto simp: blank_def list_all_iff list_ex_iff)
    then have "render_all render (op # ops) =
        (case render_all render ops of Err e \<Rightarrow> Err e | Ok rest \<Rightarrow> Ok ((op, stmts) # rest))"
      using Inr by simp
    note step = this
    show ?thesis
    proof (cases items)
      case Nil
      then show ?thesis unfolding step by (auto split: sum.splits)
    next
      case (Cons item rest)
      have "render_all render (op # ops) = Ok (item # rest) \<longleftrightarrow>
          item = (op, stmts) \<and> render_all render ops = Ok rest"
        unfolding step by (auto split: sum.splits)
      then show ?thesis using Cons Inr ih by (cases item) (auto simp del: render_all.simps)
    qed
  qed
qed (auto simp: list_all2_Nil)

lemma render_all_fails:
  "(\<exists>e. render_all render ops = Err e) \<longleftrightarrow> (\<exists>op \<in> set ops. \<exists>e. render op = Err e)"
proof (induction ops)
  case (Cons op ops)
  show ?case
  proof (cases "render op")
    case (Inr stmts)
    then have "stmts \<noteq> []" "\<not> list_ex (\<lambda>s. TrimSpace s = []) stmts"
      using statements [OF Inr] by (auto simp: blank_def list_all_iff list_ex_iff)
    then show ?thesis using Inr Cons.IH by (cases "render_all render ops") auto
  qed auto
qed simp

lemma Apply_refused:
  "op \<in> set ops \<Longrightarrow> render op = Err e \<Longrightarrow> \<exists>e. Apply exec render ops db = (db, Some e)"
  using render_all_fails [of ops] unfolding Apply_def by fastforce

lemma Apply_rendered:
  assumes "\<not> (\<exists>op \<in> set ops. \<exists>e. render op = Err e)"
  shows "fst (Apply exec render ops db) = fst (exec_list exec (concat (map (stmts_of render) ops)) db) \<and>
    (snd (Apply exec render ops db) = None \<longleftrightarrow> snd (exec_list exec (concat (map (stmts_of render) ops)) db) = None)"
proof -
  obtain items where items: "render_all render ops = Ok items"
    using assms render_all_fails [of ops] by (cases "render_all render ops") auto
  then have "list_all2 (\<lambda>op item. fst item = op \<and> render op = Ok (snd item)) ops items"
    by (simp add: render_all_Ok)
  then have "concat (map snd items) = concat (map (stmts_of render) ops)"
    by (induction rule: list_all2_induct) (auto simp: stmts_of_def)
  with items show ?thesis by (simp add: Apply_def exec_items_list)
qed

lemma Apply_cases:
  "if \<exists>op \<in> set ops. \<exists>e. render op = Err e
    then \<exists>e. Apply exec render ops db = (db, Some e)
    else fst (Apply exec render ops db) = fst (exec_list exec (concat (map (stmts_of render) ops)) db) \<and>
      (snd (Apply exec render ops db) = None \<longleftrightarrow>
       snd (exec_list exec (concat (map (stmts_of render) ops)) db) = None)"
proof (cases "\<exists>op \<in> set ops. \<exists>e. render op = Err e")
  case True
  then obtain op e where "op \<in> set ops" "render op = Err e" by blast
  then have "\<exists>e. Apply exec render ops db = (db, Some e)" by (rule Apply_refused)
  with True show ?thesis by simp
next
  case False
  then show ?thesis using Apply_rendered [OF False] by simp
qed

end

lemma pg_createTable_statements:
  "pg_createTable sha256 m = Ok stmts \<Longrightarrow> stmts \<noteq> [] \<and> list_all (\<lambda>s. \<not> blank s) stmts"
  by (auto simp: pg_createTable_def pg_addIndex_def list_all_iff split: sum.splits)

interpretation pg: dialect "Postgres_Render sha256 quote" for sha256 quote
proof
  fix op stmts
  assume "Postgres_Render sha256 quote op = Ok stmts"
  then show "stmts \<noteq> [] \<and> list_all (\<lambda>s. \<not> blank s) stmts"
    by (cases op) (auto simp: pg_createTable_statements oneStatement_def pg_dropTable_def
        pg_addColumn_def pg_addConstraint_def pg_addIndex_def pg_dropColumn_def pg_renameColumn_def
        pg_changeType_def pg_changeNullability_def pg_dropConstraint_def pg_dropIndex_def
        pg_dropPrimaryKey_def Let_def split: sum.splits if_splits)
qed

lemma sqlite_createTable_statements:
  "sqlite_createTable sha256 m = Ok stmts \<Longrightarrow> stmts \<noteq> [] \<and> list_all (\<lambda>s. \<not> blank s) stmts"
  by (auto simp: sqlite_createTable_def sqlite_addIndex_def list_all_iff split: sum.splits)

interpretation sqlite: dialect "SQLite_Render sha256 quote" for sha256 quote
proof
  fix op stmts
  assume "SQLite_Render sha256 quote op = Ok stmts"
  then show "stmts \<noteq> [] \<and> list_all (\<lambda>s. \<not> blank s) stmts"
    by (cases op) (auto simp: sqlite_createTable_statements oneStatement_def sqlite_dropTable_def
        sqlite_addColumn_def sqlite_addIndex_def sqlite_dropColumn_def sqlite_renameColumn_def
        sqlite_changeType_def sqlite_dropIndex_def split: sum.splits if_splits)
qed

section \<open>What each dialect renders\<close>

lemma postgresType_Ok: "Valid (fType f) \<Longrightarrow> \<exists>s. postgresType f = Ok s"
  by (auto simp: postgresType_def Valid_def)

lemma sqliteType_Ok: "Valid (fType f) \<Longrightarrow> \<exists>s. sqliteType f = Ok s"
  by (auto simp: sqliteType_def Valid_def)

lemma columnDefinition_Ok: "\<exists>s. typeOf f = Ok s \<Longrightarrow> \<exists>s. columnDefinition typeOf f = Ok s"
  by (auto simp: columnDefinition_def)

lemma column_lines_Ok:
  "\<forall>f \<in> set fs. \<exists>s. typeOf f = Ok s \<Longrightarrow> \<exists>ls. column_lines typeOf t fs = Ok ls"
proof (induction fs)
  case (Cons f fs)
  then obtain ls where "column_lines typeOf t fs = Ok ls" by auto
  moreover obtain l where "columnDefinition typeOf f = Ok l"
    using columnDefinition_Ok Cons.prems by (metis list.set_intros(1))
  ultimately show ?case by simp
qed simp

lemma columnList_Ok:
  "\<forall>f \<in> set (mFields m). \<exists>s. typeOf f = Ok s \<Longrightarrow> \<exists>s. columnList sha256 typeOf m = Ok s"
  using column_lines_Ok [of "mFields m" typeOf "mTable m"] by (auto simp: columnList_def)

text \<open>The fields an operation carries.\<close>

fun op_fields :: "operation \<Rightarrow> field list" where
  "op_fields (CreateTable m) = mFields m"
| "op_fields (AddColumn t f) = [f]"
| "op_fields (ChangeType t c f) = [f]"
| "op_fields _ = []"

fun is_other :: "operation \<Rightarrow> bool" where
  "is_other (OtherOperation _) = True"
| "is_other _ = False"

lemma Postgres_Render_Ok:
  assumes "\<not> is_other op" and "\<forall>f \<in> set (op_fields op). Valid (fType f)"
  shows "\<exists>stmts. Postgres_Render sha256 quote op = Ok stmts"
proof (cases op)
  case (CreateTable m)
  then obtain b where "columnList sha256 postgresType m = Ok b"
    using columnList_Ok [of m postgresType] postgresType_Ok assms(2) by fastforce
  with CreateTable show ?thesis by (simp add: pg_createTable_def)
next
  case (AddColumn t f)
  then obtain d where "columnDefinition postgresType f = Ok d"
    using columnDefinition_Ok [of postgresType f] postgresType_Ok [of f] assms(2) by auto
  with AddColumn show ?thesis by (simp add: pg_addColumn_def)
next
  case (ChangeType t c f)
  then obtain d where "postgresType f = Ok d" using postgresType_Ok [of f] assms(2) by auto
  with ChangeType show ?thesis by (simp add: pg_changeType_def oneStatement_def)
qed (use assms in \<open>simp_all add: oneStatement_def pg_dropTable_def pg_dropColumn_def\<close>)

fun sqlite_can :: "operation \<Rightarrow> bool" where
  "sqlite_can (CreateTable m) = True"
| "sqlite_can (DropTable t) = True"
| "sqlite_can (AddColumn t f) = (fNullable f \<and> \<not> fPrimaryKey f \<and> \<not> fUnique f)"
| "sqlite_can (RenameColumn t a b) = True"
| "sqlite_can (AddIndex t c) = True"
| "sqlite_can (DropIndex t c) = True"
| "sqlite_can _ = False"

lemma SQLite_Render_cases:
  assumes "\<forall>f \<in> set (op_fields op). Valid (fType f)"
  shows "if sqlite_can op then \<exists>stmts. SQLite_Render sha256 quote op = Ok stmts
    else \<exists>e. SQLite_Render sha256 quote op = Err e \<and> is_unsupported e"
proof (cases op)
  case (CreateTable m)
  then obtain b where "columnList sha256 sqliteType m = Ok b"
    using columnList_Ok [of m sqliteType] sqliteType_Ok assms by fastforce
  with CreateTable show ?thesis by (simp add: sqlite_createTable_def)
next
  case (AddColumn t f)
  then obtain d where "columnDefinition sqliteType f = Ok d"
    using columnDefinition_Ok [of sqliteType f] sqliteType_Ok [of f] assms by auto
  with AddColumn show ?thesis by (auto simp: sqlite_addColumn_def)
qed (simp_all add: oneStatement_def sqlite_dropTable_def sqlite_dropColumn_def sqlite_changeType_def
    sqlite_constraint_err_def)

lemma field_alters_ops:
  "x \<in> set (field_alters t p f) \<Longrightarrow> \<not> is_other (rkOp x) \<and> set (op_fields (rkOp x)) \<subseteq> {f}"
  by (auto simp: field_alters_def split: option.splits if_splits)

lemma sorted_alters_ops:
  "op \<in> set (sorted_alters was reg) \<Longrightarrow> \<not> is_other op \<and> set (op_fields op) \<subseteq> set (mFields (rModel reg))"
  by (auto simp: sorted_alters_def table_alters_def dest!: field_alters_ops)

lemma Diff_ops:
  assumes "snapshot_ok before" and "snapshot_ok after" and "op \<in> set (Diff before after)"
  shows "\<not> is_other op \<and> (\<forall>f \<in> set (op_fields op). Valid (fType f))"
proof -
  have d: "distinct (map rTable (snapModels before))" "distinct (map rTable (snapModels after))"
    using snap.tables_distinct assms(1,2) by simp_all
  have valid: "Valid (fType f)" if "reg \<in> set (snapModels after)" "f \<in> set (mFields (rModel reg))" for reg f
    using snap.well_formed [OF assms(2)] that by (auto simp: wf_model_def wf_field_def list_all_iff)
  from assms(3) consider reg where "reg \<in> set (snapModels after)" "op = CreateTable (rModel reg)"
    | reg where "reg \<in> set (snapModels after)" "op \<in> set (alter_group (snapModels before) reg)"
    | t where "op = DropTable t"
    by (auto simp: Diff_groups [OF d])
  then show ?thesis
  proof cases
    case 2
    then have "\<not> is_other op \<and> set (op_fields op) \<subseteq> set (mFields (rModel reg))"
      by (auto simp: alter_group_def dest: sorted_alters_ops split: option.splits)
    with 2 valid show ?thesis by blast
  qed (use valid in auto)
qed

lemma block_closed:
  assumes "x \<notin> set t" and "\<not> Contains b t" and "t \<noteq> []" and "(b @ [x]) @ t = u @ t @ v"
  shows "u = b @ [x] \<and> v = []"
proof -
  from assms(4) have "b @ (x # t) = u @ (t @ v)" by simp
  then consider w where "b = u @ w" "w @ (x # t) = t @ v" | w where "u = b @ w" "x # t = w @ (t @ v)"
    by (auto simp: append_eq_append_conv2)
  then show ?thesis
  proof cases
    case 1
    from 1(2) consider z where "w = t @ z" | z where "t = w @ z" "x # t = z @ v"
      by (auto simp: append_eq_append_conv2)
    then show ?thesis
    proof cases
      case 1
      with \<open>b = u @ w\<close> assms(2) show ?thesis by (auto simp: Contains_iff)
    next
      case 2
      have "z \<noteq> [] \<Longrightarrow> x \<in> set z" using 2(2) by (cases z) simp_all
      with 2(1) assms(1) have "z = []" by auto
      with 2 \<open>b = u @ w\<close> assms(2) show ?thesis unfolding Contains_iff by (metis append_Nil2)
    qed
  next
    case 2
    then have "length (x # t) = length w + length t + length v" by (metis length_append add.assoc)
    moreover have "w \<noteq> []" using 2(2) assms(1,3) by (cases t) auto
    ultimately have "length w = 1" "v = []" by (cases w; simp)+
    with 2 show ?thesis by (cases w) auto
  qed
qed

lemma drop_primary_body_split: "\<exists>b. drop_primary_body t c = b @ [CHR 0x0A]"
  by (simp add: drop_primary_body_def nl_def)

section \<open>Properties\<close>

text \<open>A stand-in digest of the right length, for the examples.\<close>

definition ex_sha256 :: "string \<Rightarrow> string" where
  "ex_sha256 p = replicate 32 (CHR ''x'')"

text \<open>C4: a name or a value can never leave its quotes: reading the text that \<open>quoteIdentifier\<close> or
  \<open>quoteLiteral\<close> produced as a SQL token gives back the exact name, and stops exactly at the end,
  for any bytes in it and any following text that does not start with the quote itself.\<close>

theorem quoted_text_is_one_token:
  assumes "\<not> HasPrefix rest ''\"''" and "\<not> HasPrefix rest [CHR 0x27]"
  shows "read_token (CHR ''\"'') (quoteIdentifier name @ rest) = Some (name, rest) \<and>
    read_token (CHR 0x27) (quoteLiteral name @ rest) = Some (name, rest)"
  using read_token_quoteIdentifier [OF assms(1)] read_token_quoteLiteral [OF assms(2)] by simp

theorem quoted_text_is_one_token_witness:
  "read_token (CHR ''\"'') (quoteIdentifier ''a\"; DROP TABLE b'' @ '' ('') =
     Some (''a\"; DROP TABLE b'', '' ('')"
  using quoted_text_is_one_token [of "'' (''" "''a\"; DROP TABLE b''"] by (simp add: HasPrefix_iff)

text \<open>a generated constraint or index name fits PostgreSQL's 63-byte identifiers, is made of
  lower-case letters, digits and underscores only, and starts with its kind, whatever the table
  and column names are, for every digest function of 32 bytes.\<close>

theorem databaseObjectName_bounded:
  assumes "kind \<in> {''pk'', ''uq'', ''idx''}" and "\<And>p. length (sha256 p) = 32"
  shows "length (databaseObjectName sha256 kind t c) \<le> maxDatabaseObjectNameBytes \<and>
    list_all name_char (databaseObjectName sha256 kind t c) \<and>
    HasPrefix (databaseObjectName sha256 kind t c) (kind @ ''_'')"
  using assms by (rule databaseObjectName_shape)

theorem databaseObjectName_bounded_witness:
  "length (databaseObjectName ex_sha256 ''idx'' (replicate 80 (CHR ''T'')) ''Col!'') \<le> 63"
  using databaseObjectName_bounded [of "''idx''" ex_sha256]
  by (simp add: ex_sha256_def maxDatabaseObjectNameBytes_def)

text \<open>the block that drops a primary key is closed by its own last tag: in the text after the
  opening tag, the tag occurs exactly once, at the end, whatever the table and column are
  called. (That \<open>dollarQuoteTag\<close> returns at all is its termination proof.)\<close>

theorem dropPrimaryKey_block_closed:
  "pg_dropPrimaryKey table column =
     ''DO '' @ dollarQuoteTag [table, column] @ drop_primary_body table column @ dollarQuoteTag [table, column] \<and>
   {(u, v). drop_primary_body table column @ dollarQuoteTag [table, column] =
            u @ dollarQuoteTag [table, column] @ v} = {(drop_primary_body table column, [])}"
proof
  let ?t = "dollarQuoteTag [table, column]" and ?b = "drop_primary_body table column"
  show "pg_dropPrimaryKey table column = ''DO '' @ ?t @ ?b @ ?t" by (simp add: pg_dropPrimaryKey_def Let_def)
  obtain b where b: "?b = b @ [CHR 0x0A]" using drop_primary_body_split by blast
  have "\<not> Contains ?b ?t"
    by (intro drop_primary_body_clean dollarQuoteTag_props) simp_all
  then have "\<not> Contains b ?t" unfolding b Contains_iff by (metis append.assoc)
  moreover have "CHR 0x0A \<notin> set ?t" "?t \<noteq> []"
    using tag_loop_dollar [of "[table, column]" 0] by (auto simp: dollarQuoteTag_def dollar_tag_def)
  ultimately show "{(u, v). ?b @ ?t = u @ ?t @ v} = {(?b, [])}"
    unfolding b using block_closed by fastforce
qed

text \<open>PostgreSQL renders every operation \<open>Diff\<close> produces for valid snapshots, into at least
  one statement, none of them blank.\<close>

theorem Postgres_renders_every_Diff:
  assumes "snapshot_ok before" and "snapshot_ok after" and "op \<in> set (Diff before after)"
  shows "\<exists>stmts. Postgres_Render sha256 quote op = Ok stmts \<and> stmts \<noteq> [] \<and>
    list_all (\<lambda>s. TrimSpace s \<noteq> []) stmts"
  using Postgres_Render_Ok Diff_ops [OF assms] pg.statements [of sha256 quote op]
  unfolding blank_def by blast

theorem Postgres_renders_every_Diff_witness:
  "\<exists>stmts. Postgres_Render ex_sha256 id (DropTable ''gone'') = Ok stmts \<and> stmts \<noteq> [] \<and>
    list_all (\<lambda>s. TrimSpace s \<noteq> []) stmts"
proof -
  have "snapshot_ok ex_before" "snapshot_ok ex_after" by code_simp+
  moreover have "DropTable ''gone'' \<in> set (Diff ex_before ex_after)" by code_simp
  ultimately show ?thesis by (rule Postgres_renders_every_Diff)
qed

text \<open>SQLite renders an operation on valid types exactly when it can be made in place (tables,
  renames, indexes, and nullable columns without a constraint); every other operation is refused
  with \<open>ErrUnsupported\<close>, which is what lets the generator fall back.\<close>

theorem SQLite_renders_or_refuses:
  assumes "\<forall>f \<in> set (op_fields op). Valid (fType f)"
  shows "if sqlite_can op then \<exists>stmts. SQLite_Render sha256 quote op = Ok stmts
    else \<exists>e. SQLite_Render sha256 quote op = Err e \<and> is_unsupported e"
  using assms by (rule SQLite_Render_cases)

theorem SQLite_renders_or_refuses_witness:
  "\<exists>e. SQLite_Render ex_sha256 id (AddColumn ''t'' (ex_field ''c'' False)) = Err e \<and> is_unsupported e"
proof -
  have "\<forall>f \<in> set (op_fields (AddColumn ''t'' (ex_field ''c'' False))). Valid (fType f)"
    "\<not> sqlite_can (AddColumn ''t'' (ex_field ''c'' False))" by code_simp+
  then show ?thesis using SQLite_renders_or_refuses by metis
qed

text \<open>Whatever renders the operations, one that renders to nothing or to a blank statement is refused.\<close>

lemma render_all_refuses:
  assumes "op \<in> set ops" "case render op of Err e \<Rightarrow> True | Ok stmts \<Rightarrow> stmts = [] \<or> (\<exists>s \<in> set stmts. TrimSpace s = [])"
  shows "\<exists>e. render_all render ops = Err e"
  using assms by (induction ops) (auto simp: list_ex_iff split: sum.splits)

text \<open>C2: \<open>Apply\<close> preflights. With either dialect, when one operation cannot be rendered the database
  is left exactly as it was and the error is reported; otherwise the statements of all operations are
  executed in order, up to the first that fails, and an error is reported exactly when one failed.
  With a dialect of the application's own, an operation that renders to an error, to no statement or to
  a blank one leaves the database untouched in the same way.\<close>

theorem Apply_preflights:
  assumes "render = Postgres_Render sha256 quote \<or> render = SQLite_Render sha256 quote"
  shows "(if \<exists>op \<in> set ops. \<exists>e. render op = Err e
    then \<exists>e. Apply exec render ops db = (db, Some e)
    else fst (Apply exec render ops db) = fst (exec_list exec (concat (map (stmts_of render) ops)) db) \<and>
      (snd (Apply exec render ops db) = None \<longleftrightarrow>
       snd (exec_list exec (concat (map (stmts_of render) ops)) db) = None)) \<and>
    (\<forall>custom op. op \<in> set ops \<longrightarrow>
      (case custom op of Err e \<Rightarrow> True | Ok stmts \<Rightarrow> stmts = [] \<or> (\<exists>s \<in> set stmts. TrimSpace s = [])) \<longrightarrow>
      (\<exists>e. Apply exec custom ops db = (db, Some e)))"
proof (intro conjI allI impI)
  fix custom :: renderer and op
  assume "op \<in> set ops" "case custom op of Err e \<Rightarrow> True | Ok stmts \<Rightarrow> stmts = [] \<or> (\<exists>s \<in> set stmts. TrimSpace s = [])"
  then have "\<exists>e. render_all custom ops = Err e" by (rule render_all_refuses)
  then show "\<exists>e. Apply exec custom ops db = (db, Some e)" by (auto simp: Apply_def)
qed (rule disjE [OF assms]; hypsubst; rule pg.Apply_cases sqlite.Apply_cases)

theorem Apply_preflights_witness:
  "(\<exists>e. Apply (\<lambda>s log. (log @ [s], None)) (SQLite_Render ex_sha256 id)
     [AddIndex ''t'' ''c'', DropUnique ''t'' ''c''] [] = ([], Some e)) \<and>
   (\<exists>e. Apply (\<lambda>s log. (log @ [s], None)) (\<lambda>op. case op of AddIndex t c \<Rightarrow> Ok [''CREATE''] | _ \<Rightarrow> Ok ['' ''])
     [AddIndex ''t'' ''c'', DropUnique ''t'' ''c''] [] = ([], Some e))"
proof -
  note c = Apply_preflights [of "SQLite_Render ex_sha256 id" ex_sha256 id
        "[AddIndex ''t'' ''c'', DropUnique ''t'' ''c'']" "\<lambda>s log. (log @ [s], None)" "[]",
        OF disjI2 [OF refl]]
  have "\<exists>op \<in> set [AddIndex ''t'' ''c'', DropUnique ''t'' ''c'']. \<exists>e. SQLite_Render ex_sha256 id op = Err e"
    by simp
  moreover have "TrimSpace '' '' = []" by code_simp
  ultimately show ?thesis
    using c [THEN conjunct1] c [THEN conjunct2, rule_format, of "DropUnique ''t'' ''c''"
        "\<lambda>op. case op of AddIndex t c \<Rightarrow> Ok [''CREATE''] | _ \<Rightarrow> Ok ['' '']"]
    by (simp only: if_True simp_thms) simp
qed

end
