(* ===== verification/Go_Utf8.thy ===== *)
theory Go_Utf8
  imports Go_Prelude
begin

text \<open>
  Text as runes: the part of the packages \<open>unicode/utf8\<close>, \<open>unicode\<close> and \<open>go/token\<close> the sources use.

  A Go string is a string of bytes. \<open>runes\<close> is what \<open>range\<close> over it yields: the code point of every
  well-formed sequence and U+FFFD, one byte wide, for every byte that starts none. The tables of
  Unicode beyond ASCII (letters, digits, upper case) are a parameter, \<open>unicode_tables\<close>.

  Lemmas: every byte is consumed exactly once, ASCII text is its own runes and is valid.
\<close>

section \<open>Decoding\<close>

definition RuneError :: nat where
  "RuneError = 0xFFFD"

abbreviation byte :: "char \<Rightarrow> nat" where
  "byte c \<equiv> of_char c"

definition in_range :: "nat \<Rightarrow> nat \<Rightarrow> char \<Rightarrow> bool" where
  "in_range lo hi c = (lo \<le> byte c \<and> byte c \<le> hi)"

abbreviation locb :: "char \<Rightarrow> bool" where
  "locb \<equiv> in_range 0x80 0xBF"

text \<open>The accept ranges of the second byte, by the first one.\<close>

definition accept2 :: "nat \<Rightarrow> char \<Rightarrow> bool" where
  "accept2 b =
     (if b = 0xE0 then in_range 0xA0 0xBF
      else if b = 0xED then in_range 0x80 0x9F
      else if b = 0xF0 then in_range 0x90 0xBF
      else if b = 0xF4 then in_range 0x80 0x8F
      else locb)"

fun DecodeRune :: "string \<Rightarrow> nat \<times> nat" where
  "DecodeRune [] = (RuneError, 0)"
| "DecodeRune (c # s) =
     (let b = byte c
      in if b < 0x80 then (b, 1)
         else if 0xC2 \<le> b \<and> b \<le> 0xDF
         then (case s of
                 c1 # _ \<Rightarrow> if accept2 b c1 then ((b - 0xC0) * 64 + (byte c1 - 0x80), 2) else (RuneError, 1)
               | _ \<Rightarrow> (RuneError, 1))
         else if 0xE0 \<le> b \<and> b \<le> 0xEF
         then (case s of
                 c1 # c2 # _ \<Rightarrow>
                   if accept2 b c1 \<and> locb c2
                   then ((b - 0xE0) * 4096 + (byte c1 - 0x80) * 64 + (byte c2 - 0x80), 3)
                   else (RuneError, 1)
               | _ \<Rightarrow> (RuneError, 1))
         else if 0xF0 \<le> b \<and> b \<le> 0xF4
         then (case s of
                 c1 # c2 # c3 # _ \<Rightarrow>
                   if accept2 b c1 \<and> locb c2 \<and> locb c3
                   then ((b - 0xF0) * 262144 + (byte c1 - 0x80) * 4096 + (byte c2 - 0x80) * 64 +
                         (byte c3 - 0x80), 4)
                   else (RuneError, 1)
               | _ \<Rightarrow> (RuneError, 1))
         else (RuneError, 1))"

lemma DecodeRune_width: "s \<noteq> [] \<Longrightarrow> 0 < snd (DecodeRune s) \<and> snd (DecodeRune s) \<le> length s"
  by (cases s) (auto simp: Let_def split: list.splits)

declare DecodeRune.simps(2) [simp del]

text \<open>The runes of a string, each with its width in bytes.\<close>

function decode_all :: "string \<Rightarrow> (nat \<times> nat) list" where
  "decode_all s = (if s = [] then [] else DecodeRune s # decode_all (drop (snd (DecodeRune s)) s))"
  by pat_completeness auto
termination
  by (relation "measure length") (use DecodeRune_width in auto)

declare decode_all.simps [simp del]

lemma decode_all_code [code]:
  "decode_all s = (case s of [] \<Rightarrow> [] | _ # _ \<Rightarrow> DecodeRune s # decode_all (drop (snd (DecodeRune s)) s))"
  by (cases s) (simp_all add: decode_all.simps)

definition runes :: "string \<Rightarrow> nat list" where
  "runes s = map fst (decode_all s)"

text \<open>\<open>utf8.ValidString\<close>: no byte decodes as an error of width one.\<close>

definition ValidString :: "string \<Rightarrow> bool" where
  "ValidString s = list_all (\<lambda>rw. rw \<noteq> (RuneError, 1)) (decode_all s)"

definition RuneCountInString :: "string \<Rightarrow> nat" where
  "RuneCountInString s = length (decode_all s)"

lemma sum_decode_all: "sum_list (map snd (decode_all s)) = length s"
proof (induction s rule: decode_all.induct)
  case (1 s)
  then show ?case using DecodeRune_width[of s] by (simp add: decode_all.simps[of s])
qed

lemma DecodeRune_ascii: "byte c < 0x80 \<Longrightarrow> DecodeRune (c # s) = (byte c, 1)"
  by (simp add: DecodeRune.simps Let_def)

lemma decode_all_ascii:
  "list_all (\<lambda>c. byte c < 0x80) s \<Longrightarrow> decode_all s = map (\<lambda>c. (byte c, 1)) s"
  by (induction s) (simp_all add: decode_all.simps DecodeRune_ascii)

lemma runes_ascii: "list_all (\<lambda>c. byte c < 0x80) s \<Longrightarrow> runes s = map byte s"
  by (simp add: runes_def decode_all_ascii)

lemma ValidString_ascii: "list_all (\<lambda>c. byte c < 0x80) s \<Longrightarrow> ValidString s"
  by (auto simp: ValidString_def decode_all_ascii RuneError_def list_all_iff)

lemma RuneCountInString_le: "RuneCountInString s \<le> length s"
proof (induction s rule: decode_all.induct)
  case (1 s)
  then show ?case
    using DecodeRune_width[of s] by (auto simp: RuneCountInString_def decode_all.simps[of s])
qed

section \<open>Classes of runes\<close>

text \<open>\<open>unicode.IsControl\<close>: the category Cc, which lies inside Latin-1.\<close>

definition IsControl :: "nat \<Rightarrow> bool" where
  "IsControl r = (r < 0x20 \<or> 0x7F \<le> r \<and> r < 0xA0)"

definition has_control :: "string \<Rightarrow> bool" where
  "has_control s = list_ex IsControl (runes s)"

lemma has_control_ascii:
  "list_all (\<lambda>c. 0x20 \<le> byte c \<and> byte c < 0x7F) s \<Longrightarrow> \<not> has_control s"
proof -
  assume a: "list_all (\<lambda>c. 0x20 \<le> byte c \<and> byte c < 0x7F) s"
  then have "runes s = map byte s" by (intro runes_ascii) (auto simp: list_all_iff)
  with a show ?thesis by (auto simp: has_control_def list_all_iff list_ex_iff IsControl_def)
qed

record unicode_tables =
  letter_table :: "nat \<Rightarrow> bool"
  digit_table :: "nat \<Rightarrow> bool"
  upper_table :: "nat \<Rightarrow> bool"

definition IsLetter :: "unicode_tables \<Rightarrow> nat \<Rightarrow> bool" where
  "IsLetter u r =
     (if r < 0x80 then 0x41 \<le> r \<and> r \<le> 0x5A \<or> 0x61 \<le> r \<and> r \<le> 0x7A else letter_table u r)"

definition IsDigit :: "unicode_tables \<Rightarrow> nat \<Rightarrow> bool" where
  "IsDigit u r = (if r < 0x80 then 0x30 \<le> r \<and> r \<le> 0x39 else digit_table u r)"

definition IsUpper :: "unicode_tables \<Rightarrow> nat \<Rightarrow> bool" where
  "IsUpper u r = (if r < 0x80 then 0x41 \<le> r \<and> r \<le> 0x5A else upper_table u r)"

section \<open>The package go/token\<close>

definition go_keywords :: "string list" where
  "go_keywords =
     [''break'', ''case'', ''chan'', ''const'', ''continue'', ''default'', ''defer'', ''else'',
      ''fallthrough'', ''for'', ''func'', ''go'', ''goto'', ''if'', ''import'', ''interface'', ''map'',
      ''package'', ''range'', ''return'', ''select'', ''struct'', ''switch'', ''type'', ''var'']"

fun identifier_runes :: "unicode_tables \<Rightarrow> bool \<Rightarrow> nat list \<Rightarrow> bool" where
  "identifier_runes u first [] = True"
| "identifier_runes u first (r # rs) =
     ((IsLetter u r \<or> r = 0x5F \<or> \<not> first \<and> IsDigit u r) \<and> identifier_runes u False rs)"

definition IsIdentifier :: "unicode_tables \<Rightarrow> string \<Rightarrow> bool" where
  "IsIdentifier u name =
     (name \<noteq> [] \<and> name \<notin> set go_keywords \<and> identifier_runes u True (runes name))"

definition IsExported :: "unicode_tables \<Rightarrow> string \<Rightarrow> bool" where
  "IsExported u name = IsUpper u (fst (DecodeRune name))"

end
