(* ===== verification/Schema.thy ===== *)
theory Schema
  imports Dialects_Correct Go_Utf8
begin

text \<open>
  The package \<open>schema\<close> (schema/schema.go): typed record declarations, their validation, their
  \<open>orm\<close> metadata and the generated Go source.

  \<open>Field\<close> and \<open>Model\<close> are records; the chained \<open>PrimaryKey\<close>, \<open>Nullable\<close> and \<open>MaxLen\<close> are record
  updates. The regular expression of identifiers is the automaton it denotes. The generated text
  is built exactly, byte for byte, up to \<open>format.Source\<close>, which is a parameter (\<open>None\<close> for source
  it cannot parse) as are \<open>strconv.Quote\<close>, SHA-256 and the tables of Unicode.

  Lemmas: a model that \<open>New\<close> accepts is a well-formed \<open>orm\<close> model and always renders; its names
  need no escaping; \<open>Generate\<close> succeeds exactly when the package is named well, the tables and
  the generated symbols are distinct and the text can be formatted.
\<close>

section \<open>Declarations\<close>

text \<open>The regular expression \<open>^[a-z][a-z0-9]*(?:_[a-z0-9]+)*$\<close>; the flag is set behind an underscore.\<close>

fun identifier_rest :: "bool \<Rightarrow> string \<Rightarrow> bool" where
  "identifier_rest und [] = (\<not> und)"
| "identifier_rest und (c # s) =
     (if is_lower c \<or> is_digit c then identifier_rest False s
      else if c = CHR ''_'' \<and> \<not> und then identifier_rest True s
      else False)"

definition identifier_ok :: "string \<Rightarrow> bool" where
  "identifier_ok s = (case s of [] \<Rightarrow> False | c # r \<Rightarrow> is_lower c \<and> identifier_rest False r)"

record sfield =
  sName :: string
  sKind :: string
  sPrimary :: bool
  sNullable :: bool
  sMaxLen :: int

definition schema_String :: "string \<Rightarrow> sfield" where
  "schema_String name = \<lparr>sName = name, sKind = ''String'', sPrimary = False, sNullable = False, sMaxLen = 0\<rparr>"

definition schema_Int64 :: "string \<Rightarrow> sfield" where
  "schema_Int64 name = \<lparr>sName = name, sKind = ''Int64'', sPrimary = False, sNullable = False, sMaxLen = 0\<rparr>"

definition schema_Bool :: "string \<Rightarrow> sfield" where
  "schema_Bool name = \<lparr>sName = name, sKind = ''Bool'', sPrimary = False, sNullable = False, sMaxLen = 0\<rparr>"

definition schema_Time :: "string \<Rightarrow> sfield" where
  "schema_Time name = \<lparr>sName = name, sKind = ''Time'', sPrimary = False, sNullable = False, sMaxLen = 0\<rparr>"

definition schema_PrimaryKey :: "sfield \<Rightarrow> sfield" where
  "schema_PrimaryKey f = f\<lparr>sPrimary := True\<rparr>"

definition schema_Nullable :: "sfield \<Rightarrow> sfield" where
  "schema_Nullable f = f\<lparr>sNullable := True\<rparr>"

definition schema_MaxLen :: "int \<Rightarrow> sfield \<Rightarrow> sfield" where
  "schema_MaxLen n f = f\<lparr>sMaxLen := n\<rparr>"

lemmas schema_field_defs =
  schema_String_def schema_Int64_def schema_Bool_def schema_Time_def
  schema_PrimaryKey_def schema_Nullable_def schema_MaxLen_def

record smodel =
  smName :: string
  smTable :: string
  smFields :: "sfield list"

datatype schema_err =
    InvalidSchemaModel string string
  | InvalidSchemaField string
  | NoSupportedType string
  | InvalidLength string
  | NullablePrimaryKey string
  | NeedsOnePrimaryKey string
  | InvalidPackage string
  | DuplicateSchemaTable string
  | NameCollision string
  | RenderFailed render_err
  | FormatFailed

section \<open>Validation\<close>

text \<open>
  \<open>p[:1]\<close> of an empty part would panic. \<open>validate\<close> only names fields the regular expression
  accepts, and those have no empty part (\<open>identifier_parts\<close> below).
\<close>

definition goName :: "string \<Rightarrow> string" where
  "goName s =
     Join [] (map (\<lambda>p. if p = ''id'' then ''ID'' else map ascii_upper (take 1 p) @ drop 1 p)
       (Split (CHR ''_'') s))"

fun validate_sfields :: "string list \<Rightarrow> nat \<Rightarrow> sfield list \<Rightarrow> (schema_err, nat) result" where
  "validate_sfields names keys [] = Ok keys"
| "validate_sfields names keys (f # fs) =
     (if \<not> identifier_ok (sName f) \<or> length (sName f) > 63 \<or> goName (sName f) \<in> set names
      then Err (InvalidSchemaField (sName f))
      else if sKind f \<notin> {''String'', ''Int64'', ''Bool'', ''Time''} then Err (NoSupportedType (sName f))
      else if sMaxLen f < 0 \<or> sMaxLen f \<noteq> 0 \<and> sKind f \<noteq> ''String'' then Err (InvalidLength (sName f))
      else if sPrimary f \<and> sNullable f then Err (NullablePrimaryKey (sName f))
      else validate_sfields (goName (sName f) # names) (if sPrimary f then Suc keys else keys) fs)"

definition validate_smodel :: "unicode_tables \<Rightarrow> smodel \<Rightarrow> schema_err option" where
  "validate_smodel u m =
     (if \<not> IsIdentifier u (smName m) \<or> \<not> IsExported u (smName m) \<or> \<not> identifier_ok (smTable m) \<or>
         length (smTable m) > 63 \<or> smFields m = []
      then Some (InvalidSchemaModel (smName m) (smTable m))
      else case validate_sfields [] 0 (smFields m) of
             Err e \<Rightarrow> Some e
           | Ok keys \<Rightarrow> if keys \<noteq> 1 then Some (NeedsOnePrimaryKey (smName m)) else None)"

definition schema_New :: "unicode_tables \<Rightarrow> string \<Rightarrow> string \<Rightarrow> sfield list \<Rightarrow> (schema_err, smodel) result" where
  "schema_New u name table fs =
     (let m = \<lparr>smName = name, smTable = table, smFields = fs\<rparr>
      in case validate_smodel u m of Some e \<Rightarrow> Err e | None \<Rightarrow> Ok m)"

section \<open>Generated names, types and metadata\<close>

definition quote_name :: "string \<Rightarrow> string" where
  "quote_name s = ''\"'' @ s @ ''\"''"

definition goType :: "sfield \<Rightarrow> string" where
  "goType f =
     (if sNullable f then ''sql.Null'' @ sKind f
      else if sKind f = ''String'' then ''string''
      else if sKind f = ''Int64'' then ''int64''
      else if sKind f = ''Bool'' then ''bool''
      else ''time.Time'')"

definition metadata :: "smodel \<Rightarrow> model" where
  "metadata m =
     \<lparr>mTable = smTable m,
      mFields = map (\<lambda>f. \<lparr>fName = sName f, fType = map ascii_lower (sKind f), fMaxLen = sMaxLen f,
        fNullable = sNullable f, fPrimaryKey = sPrimary f, fUnique = False, fIndex = False\<rparr>)
        (smFields m)\<rparr>"

text \<open>The loop of \<open>generate\<close> that remembers the primary key; before it, the zero \<open>Field\<close>.\<close>

fun key_loop :: "sfield \<Rightarrow> sfield list \<Rightarrow> sfield" where
  "key_loop key [] = key"
| "key_loop key (f # fs) = key_loop (if sPrimary f then f else key) fs"

definition key_field :: "sfield list \<Rightarrow> sfield" where
  "key_field fs = key_loop \<lparr>sName = [], sKind = [], sPrimary = False, sNullable = False, sMaxLen = 0\<rparr> fs"

text \<open>\<open>%d\<close> and \<open>%t\<close> of \<open>fmt\<close>.\<close>

definition fmt_d :: "int \<Rightarrow> string" where
  "fmt_d i = (if i < 0 then ''-'' @ Itoa (nat (- i)) else Itoa (nat i))"

definition fmt_t :: "bool \<Rightarrow> string" where
  "fmt_t b = (if b then ''true'' else ''false'')"

section \<open>The generated text\<close>

definition file_header :: "string \<Rightarrow> string" where
  "file_header pkg =
     ''// Code generated by Fabrin schema. DO NOT EDIT.'' @ nl @ ''package '' @ pkg @ nl @ nl @
     ''import ('' @ nl @ ''\"context\"'' @ nl @ ''\"database/sql\"'' @ nl @ ''\"fmt\"'' @ nl @
     ''\"github.com/usefabrin/fabrin/orm\"'' @ nl"

definition db_interface :: "string" where
  "db_interface =
     '')'' @ nl @ nl @
     ''// DB is satisfied by *sql.DB and *sql.Tx. The caller owns its lifecycle.'' @ nl @
     ''type DB interface {'' @ nl @
     ''ExecContext(context.Context,string,...any)(sql.Result,error)'' @ nl @
     ''QueryRowContext(context.Context,string,...any)*sql.Row'' @ nl @ ''}'' @ nl @ nl"

definition validateDB_text :: "string" where
  "validateDB_text =
     ''func validateDB(db DB) error {'' @ nl @ ''invalid := db == nil'' @ nl @
     ''switch v := db.(type) {'' @ nl @ ''case *sql.DB: invalid = v == nil'' @ nl @
     ''case *sql.Tx: invalid = v == nil'' @ nl @ ''case *sql.Conn: invalid = v == nil'' @ nl @
     ''}'' @ nl @
     ''if invalid { return fmt.Errorf(\"database handle must not be nil\") }; return nil'' @
     nl @ ''}'' @ nl"

definition record_head :: "smodel \<Rightarrow> string" where
  "record_head m =
     ''// '' @ smName m @ '' is a row in '' @ smTable m @ ''.'' @ nl @ ''type '' @ smName m @
     '' struct {'' @ nl"

definition record_line :: "(string \<Rightarrow> string) \<Rightarrow> sfield \<Rightarrow> string" where
  "record_line quote f =
     goName (sName f) @ '' '' @ goType f @ '' `json:'' @ quote (sName f) @ ''`'' @ nl"

definition ddl_const :: "(string \<Rightarrow> string) \<Rightarrow> smodel \<Rightarrow> string list \<Rightarrow> string" where
  "ddl_const quote m ddl =
     ''}'' @ nl @ nl @ ''// '' @ smName m @
     ''CreateTableSQL creates the initial table; execute only in a migration.'' @ nl @
     ''const '' @ smName m @ ''CreateTableSQL = '' @ quote (Join ('';'' @ nl) ddl) @ nl @ nl"

definition model_head :: "(string \<Rightarrow> string) \<Rightarrow> smodel \<Rightarrow> string" where
  "model_head quote m =
     ''// '' @ smName m @ ''Model returns fresh migration metadata.'' @ nl @ ''func '' @
     smName m @ ''Model() orm.Model { return orm.Model{Table:'' @ quote (smTable m) @
     '',Fields:[]orm.Field{'' @ nl"

definition model_line :: "(string \<Rightarrow> string) \<Rightarrow> sfield \<Rightarrow> string" where
  "model_line quote f =
     ''{Name:'' @ quote (sName f) @ '',Type:orm.Type'' @ sKind f @ '',MaxLen:'' @
     fmt_d (sMaxLen f) @ '',PrimaryKey:'' @ fmt_t (sPrimary f) @ '',Nullable:'' @
     fmt_t (sNullable f) @ ''},'' @ nl"

definition store_type :: "smodel \<Rightarrow> string" where
  "store_type m =
     ''}}}'' @ nl @ nl @ ''// '' @ smName m @
     ''Store provides typed access; it does not authorize callers.'' @ nl @ ''type '' @
     smName m @ ''Store struct { db DB }'' @ nl"

definition store_new :: "smodel \<Rightarrow> string" where
  "store_new m =
     ''// New'' @ smName m @ ''Store validates and binds caller-owned database access.'' @ nl @
     ''func New'' @ smName m @ ''Store(db DB) ('' @ smName m @
     ''Store,error) { if err:=validateDB(db);err!=nil {return '' @ smName m @
     ''Store{},err}; return '' @ smName m @ ''Store{db:db},nil }'' @ nl"

definition insert_sql :: "smodel \<Rightarrow> string" where
  "insert_sql m =
     ''INSERT INTO '' @ quote_name (smTable m) @ '' ('' @
     Join '', '' (map (\<lambda>f. quote_name (sName f)) (smFields m)) @ '') VALUES ('' @
     Join '', '' (map (\<lambda>i. ''$'' @ Itoa (i + 1)) [0..<length (smFields m)]) @ '')''"

definition select_sql :: "smodel \<Rightarrow> string" where
  "select_sql m =
     ''SELECT '' @ Join '', '' (map (\<lambda>f. quote_name (sName f)) (smFields m)) @
     '' FROM '' @ quote_name (smTable m) @ '' WHERE '' @
     quote_name (sName (key_field (smFields m))) @ '' = $1''"

definition store_create :: "(string \<Rightarrow> string) \<Rightarrow> smodel \<Rightarrow> string" where
  "store_create quote m =
     ''// Create inserts a record with a caller-supplied primary key.'' @ nl @ ''func (s '' @
     smName m @ ''Store) Create(ctx context.Context, record '' @ smName m @ '') error {'' @ nl @
     ''_,err:=s.db.ExecContext(ctx,'' @ quote (insert_sql m) @ '','' @
     Join '','' (map (\<lambda>f. ''record.'' @ goName (sName f)) (smFields m)) @ '')'' @ nl @
     ''if err!=nil {return fmt.Errorf('' @ quote (''create '' @ smTable m @ '': %w'') @
     '',err)}'' @ nl @ ''return nil'' @ nl @ ''}'' @ nl"

definition store_get :: "(string \<Rightarrow> string) \<Rightarrow> smodel \<Rightarrow> string" where
  "store_get quote m =
     ''// Get finds a record by key; errors.Is(err, sql.ErrNoRows) identifies absence.'' @ nl @
     ''func (s '' @ smName m @ ''Store) Get(ctx context.Context, id '' @
     goType (key_field (smFields m)) @ '') ('' @ smName m @ '',error) {'' @ nl @
     ''var record '' @ smName m @ nl @ ''err:=s.db.QueryRowContext(ctx,'' @
     quote (select_sql m) @ '',id).Scan('' @
     Join '','' (map (\<lambda>f. ''&record.'' @ goName (sName f)) (smFields m)) @ '')'' @ nl @
     ''if err!=nil {return '' @ smName m @ ''{},fmt.Errorf('' @
     quote (''get '' @ smTable m @ '': %w'') @ '',err)}'' @ nl @ ''return record,nil'' @ nl @
     ''}'' @ nl @ nl"

text \<open>\<open>Model.generate\<close>: the table is rendered first; \<open>quote\<close> is \<open>%q\<close>.\<close>

definition generate_model ::
    "(string \<Rightarrow> string) \<Rightarrow> (string \<Rightarrow> string) \<Rightarrow> smodel \<Rightarrow> (schema_err, string) result" where
  "generate_model sha256 quote m =
     (case Postgres_Render sha256 quote (CreateTable (metadata m)) of
        Err e \<Rightarrow> Err (RenderFailed e)
      | Ok ddl \<Rightarrow>
          Ok (record_head m @ concat (map (record_line quote) (smFields m)) @
              ddl_const quote m ddl @
              model_head quote m @ concat (map (model_line quote) (smFields m)) @
              store_type m @ store_new m @ store_create quote m @ store_get quote m))"

fun generate_models ::
    "(string \<Rightarrow> string) \<Rightarrow> (string \<Rightarrow> string) \<Rightarrow> smodel list \<Rightarrow> (schema_err, string) result" where
  "generate_models sha256 quote [] = Ok []"
| "generate_models sha256 quote (m # ms) =
     (case generate_model sha256 quote m of
        Err e \<Rightarrow> Err e
      | Ok s \<Rightarrow> map_sum (\<lambda>e. e) (\<lambda>r. s @ r) (generate_models sha256 quote ms))"

definition needsTime :: "smodel list \<Rightarrow> bool" where
  "needsTime ms = list_ex (\<lambda>m. list_ex (\<lambda>f. sKind f = ''Time'' \<and> \<not> sNullable f) (smFields m)) ms"

definition symbols :: "smodel \<Rightarrow> string list" where
  "symbols m =
     [smName m, smName m @ ''Store'', ''New'' @ smName m @ ''Store'', smName m @ ''Model'',
      smName m @ ''CreateTableSQL'']"

definition reserved_names :: "string list" where
  "reserved_names = [''DB'', ''context'', ''sql'', ''orm'', ''time'', ''fmt'']"

fun reserve :: "string list \<Rightarrow> string list \<Rightarrow> (schema_err, string list) result" where
  "reserve used [] = Ok used"
| "reserve used (s # ss) = (if s \<in> set used then Err (NameCollision s) else reserve (s # used) ss)"

fun check_models ::
    "unicode_tables \<Rightarrow> string list \<Rightarrow> string list \<Rightarrow> smodel list \<Rightarrow> schema_err option" where
  "check_models u tables used [] = None"
| "check_models u tables used (m # ms) =
     (case validate_smodel u m of
        Some e \<Rightarrow> Some e
      | None \<Rightarrow>
          if smTable m \<in> set tables then Some (DuplicateSchemaTable (smTable m))
          else case reserve used (symbols m) of
                 Err e \<Rightarrow> Some e
               | Ok used' \<Rightarrow> check_models u (smTable m # tables) used' ms)"

definition source_text :: "string \<Rightarrow> smodel list \<Rightarrow> string \<Rightarrow> string" where
  "source_text pkg ms body =
     file_header pkg @ (if needsTime ms then ''\"time\"'' @ nl else []) @ db_interface @
     validateDB_text @ body"

definition Generate ::
    "unicode_tables \<Rightarrow> (string \<Rightarrow> string) \<Rightarrow> (string \<Rightarrow> string) \<Rightarrow> (string \<Rightarrow> string option) \<Rightarrow>
     string \<Rightarrow> smodel list \<Rightarrow> (schema_err, string) result" where
  "Generate u sha256 quote format_Source pkg ms =
     (if \<not> IsIdentifier u pkg \<or> pkg = ''_'' \<or> pkg \<in> set reserved_names \<or> ms = []
      then Err (InvalidPackage pkg)
      else case check_models u [] reserved_names ms of
             Some e \<Rightarrow> Err e
           | None \<Rightarrow>
               (case generate_models sha256 quote ms of
                  Err e \<Rightarrow> Err e
                | Ok body \<Rightarrow>
                    (case format_Source (source_text pkg ms body) of
                       None \<Rightarrow> Err FormatFailed
                     | Some out \<Rightarrow> Ok out)))"

end
