(* ===== verification/Schema_Correct.thy ===== *)
theory Schema_Correct
  imports Schema
begin

text \<open>
  What \<open>schema\<close> guarantees: an accepted model is a well-formed \<open>orm\<close> model whose table PostgreSQL's
  dialect can render, its names mean the same quoted by hand and by the dialect, and \<open>Generate\<close>
  fails only for a reason of naming or formatting.
\<close>

section \<open>Identifiers\<close>

definition word_char :: "char \<Rightarrow> bool" where
  "word_char c = (is_lower c \<or> is_digit c)"

lemma identifier_rest_chars: "identifier_rest und s \<Longrightarrow> list_all name_char s"
  by (induction und s rule: identifier_rest.induct) (auto simp: name_char_def split: if_splits)

lemma identifier_rest_last: "identifier_rest und s \<Longrightarrow> s \<noteq> [] \<Longrightarrow> word_char (last s)"
  by (induction und s rule: identifier_rest.induct) (auto simp: word_char_def split: if_splits)

lemma identifier_chars: "identifier_ok s \<Longrightarrow> list_all name_char s"
  using identifier_rest_chars by (auto simp: identifier_ok_def name_char_def split: list.splits)

lemma identifier_ends: "identifier_ok s \<Longrightarrow> s \<noteq> [] \<and> is_lower (hd s) \<and> word_char (last s)"
  using identifier_rest_last by (auto simp: identifier_ok_def word_char_def split: list.splits)

lemma white_space_ends: "w \<in> set white_space \<Longrightarrow> \<not> word_char (hd w) \<and> \<not> word_char (last w)"
proof -
  have "list_all (\<lambda>w. \<not> word_char (hd w) \<and> \<not> word_char (last w)) white_space" by code_simp
  then show "w \<in> set white_space \<Longrightarrow> ?thesis" by (simp add: list_all_iff)
qed

lemma TrimSpace_word:
  assumes "s \<noteq> []" "word_char (hd s)" "word_char (last s)"
  shows "TrimSpace s = s"
proof (rule TrimSpace_id)
  show "space_prefix s = None"
  proof (rule ccontr)
    assume "space_prefix s \<noteq> None"
    then obtain w where w: "w \<in> set white_space" "HasPrefix s w"
      by (auto simp: space_prefix_def find_Some_iff in_set_conv_nth)
    then have "hd s = hd w" using white_space_nonempty by (auto simp: HasPrefix_iff)
    with w white_space_ends assms(2) show False by metis
  qed
  show "space_suffix s = None"
  proof (rule ccontr)
    assume "space_suffix s \<noteq> None"
    then obtain w where w: "w \<in> set white_space" "HasSuffix s w"
      by (auto simp: space_suffix_def find_Some_iff in_set_conv_nth)
    then have "last s = last w" using white_space_nonempty by (auto simp: HasSuffix_iff)
    with w white_space_ends assms(3) show False by metis
  qed
qed

lemma TrimSpace_identifier: "identifier_ok s \<Longrightarrow> TrimSpace s = s \<and> s \<noteq> []"
  using identifier_ends[of s] TrimSpace_word[of s] by (auto simp: word_char_def)

text \<open>Why \<open>goName\<close> never indexes an empty part.\<close>

lemma underscore_no_word [simp]: "\<not> is_lower (CHR ''_'')" "\<not> is_digit (CHR ''_'')"
  by code_simp+

lemma identifier_rest_parts:
  "identifier_rest und s \<Longrightarrow> \<forall>p \<in> set (tl (Split (CHR ''_'') s)). p \<noteq> []" (is "_ \<Longrightarrow> ?tl")
  "identifier_rest und s \<Longrightarrow> und \<Longrightarrow> hd (Split (CHR ''_'') s) \<noteq> []"
proof (induction und s rule: identifier_rest.induct)
  case (2 und c s)
  obtain q qs where q: "Split (CHR ''_'') s = q # qs" using Split_nonempty by (metis list.exhaust)
  { case 1 with "2.IH" q show ?case by (auto split: if_splits) }
  { case 2 with q show ?case by (auto simp: is_lower_def is_digit_def split: if_splits) }
qed auto

lemma identifier_parts: "identifier_ok s \<Longrightarrow> p \<in> set (Split (CHR ''_'') s) \<Longrightarrow> p \<noteq> []"
proof -
  assume i: "identifier_ok s" and p: "p \<in> set (Split (CHR ''_'') s)"
  then obtain c r where s: "s = c # r" "is_lower c" "identifier_rest False r"
    by (auto simp: identifier_ok_def split: list.splits)
  obtain q qs where q: "Split (CHR ''_'') r = q # qs" using Split_nonempty by (metis list.exhaust)
  moreover have "c \<noteq> CHR ''_''" using s(2) by (auto simp: is_lower_def)
  ultimately show "p \<noteq> []" using p s identifier_rest_parts(1)[OF s(3)] by auto
qed

lemma quote_name_is_quoteIdentifier: "identifier_ok s \<Longrightarrow> quote_name s = quoteIdentifier s"
proof -
  assume "identifier_ok s"
  then have "CHR ''\"'' \<notin> set s"
    using identifier_chars by (fastforce simp: list_all_iff name_char_def is_lower_def is_digit_def)
  then have "ReplaceAll (CHR ''\"'') ''\"\"'' s = s" by (induction s) auto
  then show ?thesis by (simp add: quote_name_def quoteIdentifier_def)
qed

section \<open>Well-formed declarations\<close>

definition wf_sfield :: "sfield \<Rightarrow> bool" where
  "wf_sfield f \<longleftrightarrow> identifier_ok (sName f) \<and> length (sName f) \<le> 63 \<and>
     sKind f \<in> {''String'', ''Int64'', ''Bool'', ''Time''} \<and> 0 \<le> sMaxLen f \<and>
     (sMaxLen f \<noteq> 0 \<longrightarrow> sKind f = ''String'') \<and> \<not> (sPrimary f \<and> sNullable f)"

definition wf_smodel :: "unicode_tables \<Rightarrow> smodel \<Rightarrow> bool" where
  "wf_smodel u m \<longleftrightarrow> IsIdentifier u (smName m) \<and> IsExported u (smName m) \<and>
     identifier_ok (smTable m) \<and> length (smTable m) \<le> 63 \<and> list_all wf_sfield (smFields m) \<and>
     distinct (map (goName \<circ> sName) (smFields m)) \<and> length (filter sPrimary (smFields m)) = 1"

lemma validate_sfields_Ok:
  "validate_sfields names k fs = Ok n \<longleftrightarrow>
     list_all wf_sfield fs \<and> distinct (map (goName \<circ> sName) fs) \<and>
     (goName \<circ> sName) ` set fs \<inter> set names = {} \<and> n = k + length (filter sPrimary fs)"
  by (induction fs arbitrary: names k) (auto simp: wf_sfield_def)

lemma validate_smodel_None: "validate_smodel u m = None \<longleftrightarrow> wf_smodel u m"
proof (cases "validate_sfields [] 0 (smFields m)")
  case (Inl e)
  then have "\<not> (list_all wf_sfield (smFields m) \<and> distinct (map (goName \<circ> sName) (smFields m)))"
    using validate_sfields_Ok[of "[]" 0 "smFields m"] by auto
  with Inl show ?thesis by (auto simp: validate_smodel_def wf_smodel_def)
next
  case (Inr n)
  with validate_sfields_Ok[of "[]" 0 "smFields m" n] show ?thesis
    by (cases "smFields m") (auto simp: validate_smodel_def wf_smodel_def)
qed

lemma kinds_are_types:
  "k \<in> {''String'', ''Int64'', ''Bool'', ''Time''} \<Longrightarrow>
     Valid (map ascii_lower k) \<and> (map ascii_lower k = TypeString \<longleftrightarrow> k = ''String'')"
proof -
  have "list_all (\<lambda>k. Valid (map ascii_lower k) \<and> (map ascii_lower k = TypeString \<longleftrightarrow> k = ''String''))
    [''String'', ''Int64'', ''Bool'', ''Time'']" by code_simp
  then show "k \<in> {''String'', ''Int64'', ''Bool'', ''Time''} \<Longrightarrow> ?thesis" by auto
qed

lemma wf_metadata: assumes "wf_smodel u m" shows "wf_model (metadata m)"
proof -
  have "distinct (map sName (smFields m))"
    using assms by (auto simp: wf_smodel_def distinct_map dest: inj_on_imageI2)
  moreover have "wf_field \<lparr>fName = sName f, fType = map ascii_lower (sKind f), fMaxLen = sMaxLen f,
      fNullable = sNullable f, fPrimaryKey = sPrimary f, fUnique = False, fIndex = False\<rparr>"
    if "f \<in> set (smFields m)" for f
    using assms that kinds_are_types[of "sKind f"] TrimSpace_identifier[of "sName f"]
    by (auto simp: wf_smodel_def wf_field_def wf_sfield_def list_all_iff)
  ultimately show ?thesis
    using assms TrimSpace_identifier[of "smTable m"]
    by (auto simp: wf_smodel_def wf_model_def metadata_def list_all_iff filter_map comp_def)
qed

lemma wf_model_renders:
  "wf_model m \<Longrightarrow> \<exists>ddl. Postgres_Render sha256 quote (CreateTable m) = Ok ddl"
  by (rule Postgres_Render_Ok) (auto simp: wf_model_def wf_field_def list_all_iff)

section \<open>Generation\<close>

lemma generate_models_Ok:
  "list_all (wf_smodel u) ms \<Longrightarrow> \<exists>body. generate_models sha256 quote ms = Ok body"
proof (induction ms)
  case (Cons m ms)
  then obtain body where "generate_models sha256 quote ms = Ok body" by auto
  moreover from Cons.prems obtain ddl where
    "Postgres_Render sha256 quote (CreateTable (metadata m)) = Ok ddl"
    using wf_model_renders wf_metadata by (metis list.pred_inject(2))
  ultimately show ?case by (simp add: generate_model_def)
qed simp

lemma reserve_Ok:
  "reserve used ss = Ok used' \<longleftrightarrow> distinct ss \<and> set ss \<inter> set used = {} \<and> used' = rev ss @ used"
  by (induction ss arbitrary: used) auto

lemma check_models_None:
  "check_models u tables used ms = None \<longleftrightarrow>
     list_all (wf_smodel u) ms \<and> distinct (map smTable ms) \<and> smTable ` set ms \<inter> set tables = {} \<and>
     distinct (concat (map symbols ms)) \<and> set (concat (map symbols ms)) \<inter> set used = {}"
proof (induction ms arbitrary: tables used)
  case (Cons m ms)
  show ?case
  proof (cases "reserve used (symbols m)")
    case (Inl e)
    then have "\<not> (distinct (symbols m) \<and> set (symbols m) \<inter> set used = {})"
      using reserve_Ok[of used "symbols m"] by auto
    with Inl show ?thesis by (auto simp: validate_smodel_None[symmetric] split: option.splits)
  next
    case (Inr used')
    with reserve_Ok[of used "symbols m" used'] show ?thesis
      by (auto simp: Cons.IH validate_smodel_None[symmetric] split: option.splits)
  qed
qed simp

section \<open>Properties\<close>

definition no_unicode :: unicode_tables where
  "no_unicode = \<lparr>letter_table = \<lambda>_. False, digit_table = \<lambda>_. False, upper_table = \<lambda>_. False\<rparr>"

definition ex_schema :: "sfield list" where
  "ex_schema = [schema_PrimaryKey (schema_String ''order_id''), schema_MaxLen 40 (schema_String ''note''),
     schema_Nullable (schema_Time ''paid_at'')]"

text \<open>C34: A declaration that \<open>schema.New\<close> accepts is a model that the rest of the program accepts: its
  metadata passes the validation of \<open>orm\<close>, so that it can be registered and recorded, and PostgreSQL's
  dialect renders its table. Every name in it is quoted by the generated statements exactly as the dialect
  quotes it, and the generated record, whose fields are named by \<open>goName\<close>, has no two of one name.\<close>

theorem schema_models_are_orm_models:
  assumes "schema_New u name table fs = Ok m"
  shows "validate (metadata m) = None \<and>
     (\<exists>ddl. Postgres_Render sha256 quote (CreateTable (metadata m)) = Ok ddl) \<and>
     (\<forall>s \<in> {smTable m} \<union> sName ` set (smFields m). quote_name s = quoteIdentifier s) \<and>
     distinct (map (goName \<circ> sName) (smFields m))"
proof -
  have wf: "wf_smodel u m"
    using assms by (auto simp: schema_New_def Let_def validate_smodel_None split: option.splits)
  then have "wf_model (metadata m)" by (rule wf_metadata)
  with wf show ?thesis
    using wf_model_renders quote_name_is_quoteIdentifier
    by (auto simp: validate_None wf_smodel_def wf_sfield_def list_all_iff)
qed

theorem schema_models_are_orm_models_witness:
  "\<exists>m. schema_New no_unicode ''Order'' ''orders'' ex_schema = Ok m \<and> validate (metadata m) = None"
proof -
  have "is_ok (schema_New no_unicode ''Order'' ''orders'' ex_schema)" by code_simp
  then obtain m where m: "schema_New no_unicode ''Order'' ''orders'' ex_schema = Ok m" by (auto simp: is_ok_iff)
  with schema_models_are_orm_models[OF m] show ?thesis by blast
qed


end
