(* ===== verification/Makemigrations.thy ===== *)
theory Makemigrations
  imports Dialects_Correct
begin

text \<open>
  The command \<open>makemigrations\<close> (makemigrations.go): replaying the recorded state, resolving
  renames, grouping the operations of \<open>Diff\<close> by owning module, rendering each operation and its
  inverse, and writing one migration, its state file, the manifest and the list of migrations per
  changed module.

  Files are a map from path to contents, with the paths that cannot be read or written. The
  standard library's codecs (JSON text, gofmt, \<open>%q\<close>, SHA-256) are the fields of \<open>codecs\<close>;
  timestamps of the fixed layout \<open>20060102150405\<close> are modelled in full.
\<close>

section \<open>Inverse operations\<close>

datatype invert_err =
    NoRecordedTable string
  | NoRecordedField string string
  | UnknownOperation

text \<open>The nested loops over the recorded models and their fields: the first match.\<close>

fun snapshotField_in :: "registered list \<Rightarrow> string \<Rightarrow> string \<Rightarrow> field option" where
  "snapshotField_in [] t c = None"
| "snapshotField_in (reg # regs) t c =
     (if rTable reg \<noteq> t then snapshotField_in regs t c
      else case find (\<lambda>f. fName f = c) (mFields (rModel reg)) of
             Some f \<Rightarrow> Some f
           | None \<Rightarrow> snapshotField_in regs t c)"

definition snapshotField :: "snapshot \<Rightarrow> string \<Rightarrow> string \<Rightarrow> field option" where
  "snapshotField st t c = snapshotField_in (Snapshot_Models st) t c"

fun invert :: "operation \<Rightarrow> snapshot \<Rightarrow> (invert_err, operation) result" where
  "invert (CreateTable m) before = Ok (DropTable (mTable m))"
| "invert (DropTable t) before =
     (case find (\<lambda>reg. rTable reg = t) (Snapshot_Models before) of
        Some reg \<Rightarrow> Ok (CreateTable (rModel reg))
      | None \<Rightarrow> Err (NoRecordedTable t))"
| "invert (AddColumn t f) before = Ok (DropColumn t (fName f))"
| "invert (DropColumn t c) before =
     (case snapshotField before t c of
        Some f \<Rightarrow> Ok (AddColumn t f)
      | None \<Rightarrow> Err (NoRecordedField t c))"
| "invert (RenameColumn t a b) before = Ok (RenameColumn t b a)"
| "invert (ChangeType t c _) before =
     (case snapshotField before t c of
        Some f \<Rightarrow> Ok (ChangeType t c f)
      | None \<Rightarrow> Err (NoRecordedField t c))"
| "invert (ChangeNullability t c _) before =
     (case snapshotField before t c of
        Some f \<Rightarrow> Ok (ChangeNullability t c (fNullable f))
      | None \<Rightarrow> Err (NoRecordedField t c))"
| "invert (AddUnique t c) before = Ok (DropUnique t c)"
| "invert (DropUnique t c) before = Ok (AddUnique t c)"
| "invert (AddIndex t c) before = Ok (DropIndex t c)"
| "invert (DropIndex t c) before = Ok (AddIndex t c)"
| "invert (AddPrimaryKey t c) before = Ok (DropPrimaryKey t c)"
| "invert (DropPrimaryKey t c) before = Ok (AddPrimaryKey t c)"
| "invert (OtherOperation _) before = Err UnknownOperation"

definition quoteSQLIdentifier :: "string \<Rightarrow> string" where
  "quoteSQLIdentifier name = ''\"'' @ ReplaceAll (CHR ''\"'') ''\"\"'' name @ ''\"''"

fun rawInverse :: "operation \<Rightarrow> string option" where
  "rawInverse (AddColumn t f) =
     Some (''ALTER TABLE '' @ quoteSQLIdentifier t @ '' DROP COLUMN '' @ quoteSQLIdentifier (fName f) @ '';'')"
| "rawInverse _ = None"

section \<open>Renames\<close>

definition renameCompatible :: "field \<Rightarrow> field \<Rightarrow> bool" where
  "renameCompatible before after =
     (fType before = fType after \<and> fMaxLen before = fMaxLen after \<and>
      fNullable before = fNullable after \<and> fPrimaryKey before = fPrimaryKey after \<and>
      fUnique before = fUnique after \<and> fIndex before = fIndex after)"

record renameCandidate =
  rcDrop :: nat
  rcAdd :: nat
  rcTable :: string
  rcFrom :: string
  rcTo :: string
  rcField :: field

abbreviation rcOp :: "renameCandidate \<Rightarrow> operation" where
  "rcOp c \<equiv> RenameColumn (rcTable c) (rcFrom c) (rcTo c)"

definition add_candidates ::
    "snapshot \<Rightarrow> operation list \<Rightarrow> nat \<Rightarrow> string \<Rightarrow> string \<Rightarrow> field \<Rightarrow> renameCandidate list" where
  "add_candidates after ops dropIndex t c oldField =
     concat (map (\<lambda>(addIndex, possible).
       case possible of
         AddColumn t' f \<Rightarrow>
           if t' \<noteq> t \<or> \<not> renameCompatible oldField f then []
           else if snapshotField after t' (fName f) = None then []
           else [\<lparr>rcDrop = dropIndex, rcAdd = addIndex, rcTable = t, rcFrom = c, rcTo = fName f,
                  rcField = oldField\<rparr>]
       | _ \<Rightarrow> []) (enumerate 0 ops))"

definition rename_candidates :: "operation list \<Rightarrow> snapshot \<Rightarrow> snapshot \<Rightarrow> renameCandidate list" where
  "rename_candidates ops before after =
     concat (map (\<lambda>(dropIndex, op).
       case op of
         DropColumn t c \<Rightarrow>
           (case snapshotField before t c of
              None \<Rightarrow> []
            | Some oldField \<Rightarrow> add_candidates after ops dropIndex t c oldField)
       | _ \<Rightarrow> []) (enumerate 0 ops))"

datatype rename_err =
    NeedsAnswer string string string
  | ConstrainedRename string string string
  | AnswerUnreadable
  | PromptFailed

definition prompt :: "renameCandidate \<Rightarrow> string" where
  "prompt c = ''Did you rename '' @ rcTable c @ ''.'' @ rcFrom c @ '' -> '' @ rcTable c @ ''.'' @ rcTo c @
     ''? [y/N] ''"

definition answer_word :: "string \<Rightarrow> string" where
  "answer_word s = map ascii_lower (TrimSpace s)"

function askRename :: "reader \<Rightarrow> writer \<Rightarrow> renameCandidate \<Rightarrow> reader \<times> writer \<times> (rename_err, bool) result" where
  "askRename rd w c =
     (case Fprint (prompt c) w of
        (w, False) \<Rightarrow> (rd, w, Err PromptFailed)
      | (w, True) \<Rightarrow>
          (case ReadLine rd of
             (answer, rd', e) \<Rightarrow>
               if e = Some ReadError then (rd', w, Err AnswerUnreadable)
               else if answer_word answer \<in> {''y'', ''yes''} then (rd', w, Ok True)
               else if answer_word answer \<in> {'''', ''n'', ''no''} then (rd', w, Ok False)
               else (case Fprint (''Please answer yes or no.'' @ [CHR 0x0A]) w of
                       (w, False) \<Rightarrow> (rd', w, Err PromptFailed)
                     | (w, True) \<Rightarrow>
                         if e = Some EOF then (rd', w, Ok False) else askRename rd' w c)))"
  by pat_completeness auto
termination
proof (relation "measure (\<lambda>(rd, _, _). length (rdData rd))", goal_cases)
  case (2 rd w c w1 b answer rd' p e w2 b2)
  then have "e = None" by (cases e) (use read_end.exhaust in \<open>auto split: if_splits\<close>)
  with 2 show ?case by (auto dest!: ReadLine_shorter [OF sym])
qed simp

declare askRename.simps [simp del]

text \<open>
  The loop over the candidates: the indices consumed so far, and which index a confirmed rename
  replaces.
\<close>

fun rename_loop ::
    "reader \<Rightarrow> writer \<Rightarrow> nat list \<Rightarrow> (nat, operation) gomap \<Rightarrow> renameCandidate list \<Rightarrow>
     reader \<times> writer \<times> (rename_err, nat list \<times> (nat, operation) gomap) result" where
  "rename_loop rd w consumed replacements [] = (rd, w, Ok (consumed, replacements))"
| "rename_loop rd w consumed replacements (c # cs) =
     (if rcDrop c \<in> set consumed \<or> rcAdd c \<in> set consumed
      then rename_loop rd w consumed replacements cs
      else case askRename rd w c of
             (rd, w, Err e) \<Rightarrow> (rd, w, Err e)
           | (rd, w, Ok yes) \<Rightarrow>
               if yes then
                 (if fPrimaryKey (rcField c) \<or> fUnique (rcField c) \<or> fIndex (rcField c)
                  then (rd, w, Err (ConstrainedRename (rcTable c) (rcFrom c) (rcTo c)))
                  else rename_loop rd w (rcDrop c # rcAdd c # consumed)
                         (gm_set (rcDrop c) (rcOp c) replacements) cs)
               else rename_loop rd w consumed replacements cs)"

definition resolved_ops :: "nat list \<Rightarrow> (nat, operation) gomap \<Rightarrow> operation list \<Rightarrow> operation list" where
  "resolved_ops consumed replacements ops =
     concat (map (\<lambda>(i, op).
       case map_of replacements i of
         Some rename \<Rightarrow> [rename]
       | None \<Rightarrow> if i \<in> set consumed then [] else [op]) (enumerate 0 ops))"

definition resolveRenames ::
    "operation list \<Rightarrow> snapshot \<Rightarrow> snapshot \<Rightarrow> reader \<Rightarrow> writer \<Rightarrow> bool \<Rightarrow>
     reader \<times> writer \<times> (rename_err, operation list) result" where
  "resolveRenames ops before after rd w interactive =
     (case rename_candidates ops before after of
        [] \<Rightarrow> (rd, w, Ok ops)
      | c # cs \<Rightarrow>
          if \<not> interactive then (rd, w, Err (NeedsAnswer (rcTable c) (rcFrom c) (rcTo c)))
          else (case rename_loop rd w [] [] (c # cs) of
                  (rd, w, Err e) \<Rightarrow> (rd, w, Err e)
                | (rd, w, Ok (consumed, replacements)) \<Rightarrow>
                    (rd, w, Ok (resolved_ops consumed replacements ops))))"

section \<open>Cumulative state\<close>

definition snapshotAfterOperations ::
    "snapshot \<Rightarrow> snapshot \<Rightarrow> operation list \<Rightarrow> (orm_err, snapshot) result" where
  "snapshotAfterOperations current final ops =
     (let changed = map operationTable ops
      in NewSnapshot
           (filter (\<lambda>reg. rTable reg \<notin> set changed) (Snapshot_Models current) @
            filter (\<lambda>reg. rTable reg \<in> set changed) (Snapshot_Models final)))"

definition ownerOf :: "registered list \<Rightarrow> string \<Rightarrow> snapshot \<Rightarrow> string" where
  "ownerOf live table before =
     (case find (\<lambda>reg. rTable reg = table) live of
        Some reg \<Rightarrow> rModule reg
      | None \<Rightarrow>
          (case find (\<lambda>reg. rTable reg = table) (Snapshot_Models before) of
             Some reg \<Rightarrow> rModule reg
           | None \<Rightarrow> ''(unknown)''))"

text \<open>The operations grouped by owner: the owners in order of appearance, and each one's group.\<close>

fun group_loop ::
    "(operation \<Rightarrow> string) \<Rightarrow> string list \<Rightarrow> (string, operation list) gomap \<Rightarrow> operation list \<Rightarrow>
     string list \<times> (string, operation list) gomap" where
  "group_loop owner order byModule [] = (order, byModule)"
| "group_loop owner order byModule (op # ops) =
     (let o' = owner op;
          order' = (if map_of byModule o' = None then order @ [o'] else order);
          before = (case map_of byModule o' of None \<Rightarrow> [] | Some l \<Rightarrow> l)
      in group_loop owner order' (gm_set o' (before @ [op]) byModule) ops)"

section \<open>Versions\<close>

record datetime =
  dtYear :: int
  dtMonth :: int
  dtDay :: int
  dtHour :: int
  dtMinute :: int
  dtSecond :: int

definition leap :: "int \<Rightarrow> bool" where
  "leap y = (y mod 4 = 0 \<and> (y mod 100 \<noteq> 0 \<or> y mod 400 = 0))"

definition daysIn :: "int \<Rightarrow> int \<Rightarrow> int" where
  "daysIn m y = (if m = 2 then (if leap y then 29 else 28)
     else if m \<in> {4, 6, 9, 11} then 30 else 31)"

definition digits_val :: "string \<Rightarrow> int" where
  "digits_val s = foldl (\<lambda>n c. 10 * n + (of_char c - 48)) 0 s"

definition drop_fraction :: "string \<Rightarrow> string" where
  "drop_fraction s =
     (case s of
        c # d # r \<Rightarrow> if (c = CHR ''.'' \<or> c = CHR '','') \<and> is_digit d then dropWhile is_digit r else s
      | _ \<Rightarrow> s)"

text \<open>\<open>time.Parse\<close> of the layout: fourteen digits, then at most a fraction, which it drops here.\<close>

definition parseVersion :: "string \<Rightarrow> datetime option" where
  "parseVersion s =
     (let ds = take 14 s;
          dt = \<lparr>dtYear = digits_val (take 4 ds), dtMonth = digits_val (take 2 (drop 4 ds)),
                dtDay = digits_val (take 2 (drop 6 ds)), dtHour = digits_val (take 2 (drop 8 ds)),
                dtMinute = digits_val (take 2 (drop 10 ds)), dtSecond = digits_val (drop 12 ds)\<rparr>
      in if length ds = 14 \<and> list_all is_digit ds \<and> drop_fraction (drop 14 s) = [] \<and>
            1 \<le> dtMonth dt \<and> dtMonth dt \<le> 12 \<and> 1 \<le> dtDay dt \<and> dtDay dt \<le> daysIn (dtMonth dt) (dtYear dt) \<and>
            dtHour dt < 24 \<and> dtMinute dt < 60 \<and> dtSecond dt < 60
         then Some dt else None)"

fun pad :: "nat \<Rightarrow> int \<Rightarrow> string" where
  "pad 0 n = (if n = 0 then [] else Itoa (nat n))"
| "pad (Suc w) n = pad w (n div 10) @ [digit_char (nat (n mod 10))]"

definition formatVersion :: "datetime \<Rightarrow> string" where
  "formatVersion dt = pad 4 (dtYear dt) @ pad 2 (dtMonth dt) @ pad 2 (dtDay dt) @ pad 2 (dtHour dt) @
     pad 2 (dtMinute dt) @ pad 2 (dtSecond dt)"

definition addSecond :: "datetime \<Rightarrow> datetime" where
  "addSecond dt =
     (if dtSecond dt < 59 then dt\<lparr>dtSecond := dtSecond dt + 1\<rparr>
      else if dtMinute dt < 59 then dt\<lparr>dtSecond := 0, dtMinute := dtMinute dt + 1\<rparr>
      else if dtHour dt < 23 then dt\<lparr>dtSecond := 0, dtMinute := 0, dtHour := dtHour dt + 1\<rparr>
      else if dtDay dt < daysIn (dtMonth dt) (dtYear dt)
        then dt\<lparr>dtSecond := 0, dtMinute := 0, dtHour := 0, dtDay := dtDay dt + 1\<rparr>
      else if dtMonth dt < 12
        then dt\<lparr>dtSecond := 0, dtMinute := 0, dtHour := 0, dtDay := 1, dtMonth := dtMonth dt + 1\<rparr>
      else \<lparr>dtYear = dtYear dt + 1, dtMonth = 1, dtDay = 1, dtHour = 0, dtMinute = 0, dtSecond = 0\<rparr>)"

record manifestEntry =
  meVersion :: string
  meFile :: string
  meVar :: string
  meState :: string

type_synonym manifests = "(string, manifestEntry list) gomap"

datatype version_err =
    NotATimestamp string
  | NoVersionAbove string

definition highestVersion :: "manifests \<Rightarrow> string" where
  "highestVersion ms =
     foldl (\<lambda>highest e. if meVersion e > highest then meVersion e else highest) [] (concat (map snd ms))"

definition nextVersion :: "string \<Rightarrow> manifests \<Rightarrow> (version_err, string) result" where
  "nextVersion now ms =
     (let highest = highestVersion ms;
          bumped = (if highest \<ge> now
                    then (case parseVersion highest of
                            None \<Rightarrow> Err (NotATimestamp highest)
                          | Some t \<Rightarrow> Ok (formatVersion (addSecond t)))
                    else Ok now)
      in case bumped of
           Err e \<Rightarrow> Err e
         | Ok candidate \<Rightarrow>
             if candidate \<le> highest then Err (NoVersionAbove highest) else Ok candidate)"

definition bumpVersion :: "string \<Rightarrow> string" where
  "bumpVersion v = (case parseVersion v of None \<Rightarrow> v | Some t \<Rightarrow> formatVersion (addSecond t))"

section \<open>Names\<close>

fun squash :: "string \<Rightarrow> string" where
  "squash (a # b # s) =
     (if a = CHR ''_'' \<and> b = CHR ''_'' then CHR ''_'' # squash s else a # squash (b # s))"
| "squash s = s"

lemma length_squash_le: "length (squash s) \<le> length s"
  by (induction s rule: squash.induct) auto

lemma length_squash: "Contains s ''__'' \<Longrightarrow> length (squash s) < length s"
proof (induction s rule: squash.induct)
  case (1 a b s)
  show ?case
  proof (cases "a = CHR ''_'' \<and> b = CHR ''_''")
    case True
    then show ?thesis using length_squash_le [of s] by simp
  next
    case False
    with 1(3) have "Contains (b # s) ''__''" unfolding Contains_iff
      by (auto simp: Cons_eq_append_conv)
    with False 1(2) show ?thesis by auto
  qed
qed (auto simp: Contains_iff append_eq_Cons_conv Cons_eq_append_conv)

function slug_loop :: "string \<Rightarrow> string" where
  "slug_loop s = (if Contains s ''__'' then slug_loop (squash s) else s)"
  by pat_completeness auto
termination
  by (relation "measure length") (auto intro: length_squash)

declare slug_loop.simps [simp del]

lemma slug_loop_code [code]:
  "slug_loop s = (case Contains s ''__'' of True \<Rightarrow> slug_loop (squash s) | False \<Rightarrow> s)"
  by (simp add: slug_loop.simps)

definition migrationSlug :: "string \<Rightarrow> string" where
  "migrationSlug s =
     Trim (CHR ''_'')
       (slug_loop (map (\<lambda>r. if is_lower r \<or> is_digit r then r else CHR ''_'') (lower_view s)))"

definition slugIdent :: "string \<Rightarrow> string" where
  "slugIdent slug =
     concat (map (\<lambda>p. case p of [] \<Rightarrow> [] | c # cs \<Rightarrow> ascii_upper c # cs) (Split (CHR ''_'') slug))"

section \<open>Files\<close>

record files =
  fsFiles :: "(string, string) gomap"
  fsUnreadable :: "string list"
  fsUnwritable :: "string list"

datatype file_err = NotExist | IOError

definition os_ReadFile :: "files \<Rightarrow> string \<Rightarrow> (file_err, string) result" where
  "os_ReadFile fs path =
     (if path \<in> set (fsUnreadable fs) then Err IOError
      else case map_of (fsFiles fs) path of None \<Rightarrow> Err NotExist | Some data \<Rightarrow> Ok data)"

definition os_WriteFile :: "files \<Rightarrow> string \<Rightarrow> string \<Rightarrow> files \<times> bool" where
  "os_WriteFile fs path data =
     (if path \<in> set (fsUnwritable fs) then (fs, False)
      else (fs\<lparr>fsFiles := gm_set path data (fsFiles fs)\<rparr>, True))"

text \<open>Directories carry no contents here: creating one only succeeds or fails.\<close>

definition os_MkdirAll :: "files \<Rightarrow> string \<Rightarrow> bool" where
  "os_MkdirAll fs dir = (dir \<notin> set (fsUnwritable fs))"

record codecs =
  cSha256 :: "string \<Rightarrow> string"
  cQuote :: "string \<Rightarrow> string"
  cGoFormat :: "string \<Rightarrow> string option"
  cStateMarshal :: "wireState \<Rightarrow> string option"
  cStateUnmarshal :: "string \<Rightarrow> wireState option"
  cManifestMarshal :: "manifestEntry list \<Rightarrow> string option"
  cManifestUnmarshal :: "string \<Rightarrow> manifestEntry list option"

datatype mm_err =
    Sliced
  | NoDatabase
  | NoDialect string
  | ManifestUnreadable string
  | ManifestUnparseable string
  | VersionTwice string string string
  | StateUnreadable string
  | StateInvalid state_err
  | ChainInvalid steps_err
  | ModelsInvalid orm_err
  | RenameFailed rename_err
  | VersionFailed version_err
  | CannotGenerate string render_err
  | CannotInvert string invert_err
  | CannotReverse string render_err
  | CumulativeFailed string orm_err
  | EncodeFailed state_err
  | FormatFailed string
  | MarshalFailed
  | WriteFailed string
  | OutputFailed
  | TakesNoArguments

definition migrations_dir :: "string \<Rightarrow> string" where
  "migrations_dir module = filepath_Join [module, ''migrations'']"

definition loadManifest :: "codecs \<Rightarrow> files \<Rightarrow> string \<Rightarrow> (mm_err, manifestEntry list) result" where
  "loadManifest cd fs dir =
     (let path = filepath_Join [dir, ''manifest.json'']
      in case os_ReadFile fs path of
           Err NotExist \<Rightarrow> Ok []
         | Err IOError \<Rightarrow> Err (ManifestUnreadable path)
         | Ok raw \<Rightarrow>
             (case cManifestUnmarshal cd raw of
                None \<Rightarrow> Err (ManifestUnparseable path)
              | Some entries \<Rightarrow> Ok entries))"

definition writeManifest :: "codecs \<Rightarrow> files \<Rightarrow> string \<Rightarrow> manifestEntry list \<Rightarrow> files \<times> mm_err option" where
  "writeManifest cd fs dir entries =
     (case cManifestMarshal cd entries of
        None \<Rightarrow> (fs, Some MarshalFailed)
      | Some data \<Rightarrow>
          (let path = filepath_Join [dir, ''manifest.json'']
           in case os_WriteFile fs path (data @ [CHR 0x0A]) of
                (fs, True) \<Rightarrow> (fs, None)
              | (fs, False) \<Rightarrow> (fs, Some (WriteFailed path))))"

definition tab :: string where
  "tab = [CHR 0x09]"

definition all_source :: "manifestEntry list \<Rightarrow> string" where
  "all_source entries =
     ''// Code generated by fabrin makemigrations. DO NOT EDIT.'' @ nl @
     ''package migrations'' @ nl @ nl @
     ''import \"github.com/usefabrin/fabrin/migrate\"'' @ nl @ nl @
     ''// All is every migration this module declares, in version order. A module'' @ [CHR 0x27] @ ''s'' @ nl @
     ''// Migrator returns this slice.'' @ nl @
     ''var All = []migrate.M{'' @ nl @
     Join nl (map (\<lambda>e. tab @ meVar e @ '','') entries) @ nl @
     ''}'' @ nl"

definition writeAll :: "files \<Rightarrow> string \<Rightarrow> manifestEntry list \<Rightarrow> files \<times> mm_err option" where
  "writeAll fs dir entries =
     (let path = filepath_Join [dir, ''all.go'']
      in case os_WriteFile fs path (all_source entries) of
           (fs, True) \<Rightarrow> (fs, None)
         | (fs, False) \<Rightarrow> (fs, Some (WriteFailed path)))"

definition stmt_lines :: "codecs \<Rightarrow> string list \<Rightarrow> string" where
  "stmt_lines cd stmts = Join nl (map (\<lambda>s. tab @ tab @ tab @ cQuote cd s @ '','') stmts)"

definition exec_loop_source :: "string \<Rightarrow> string \<Rightarrow> string" where
  "exec_loop_source kind body =
     tab @ kind @ '': func(ctx context.Context, h migrate.Handle) error {'' @ nl @
     tab @ tab @ ''for _, stmt := range []string{'' @ nl @ body @ nl @
     tab @ tab @ ''} {'' @ nl @
     tab @ tab @ tab @ ''if _, err := h.ExecContext(ctx, stmt); err != nil {'' @ nl @
     tab @ tab @ tab @ tab @ ''return err'' @ nl @
     tab @ tab @ tab @ ''}'' @ nl @
     tab @ tab @ ''}'' @ nl @
     tab @ tab @ ''return nil'' @ nl @
     tab @ ''},'' @ nl"

definition renderMigrationGo ::
    "codecs \<Rightarrow> string \<Rightarrow> string \<Rightarrow> string \<Rightarrow> string list \<Rightarrow> string list \<Rightarrow> (mm_err, string) result" where
  "renderMigrationGo cd varName version name up down =
     (let src =
        ''// Code generated by fabrin makemigrations. Editing Up or Down by hand is'' @ nl @
        ''// expected; editing the recorded state is not '' @ [CHR 0xE2, CHR 0x80, CHR 0x94] @
          '' rerun makemigrations instead,'' @ nl @
        ''// or the next diff will be taken against a state that never existed.'' @ nl @
        ''package migrations'' @ nl @ nl @
        ''import ('' @ nl @ tab @ ''\"context\"'' @ nl @ nl @
        tab @ ''\"github.com/usefabrin/fabrin/migrate\"'' @ nl @ '')'' @ nl @ nl @
        ''var '' @ varName @ '' = migrate.M{'' @ nl @
        tab @ ''Version: '' @ cQuote cd version @ '','' @ nl @
        tab @ ''Name:    '' @ cQuote cd name @ '','' @ nl @
        exec_loop_source ''Up'' (stmt_lines cd up) @
        exec_loop_source ''Down'' (stmt_lines cd down) @
        ''}'' @ nl
      in case cGoFormat cd src of None \<Rightarrow> Err (FormatFailed version) | Some out \<Rightarrow> Ok out)"

section \<open>Replaying the recorded chain\<close>

text \<open>The first loop: every module's manifest, and the versions with the file that has each.\<close>

fun load_manifests ::
    "codecs \<Rightarrow> files \<Rightarrow> string list \<Rightarrow> manifests \<Rightarrow> (string, string) gomap \<Rightarrow>
     (mm_err, manifests \<times> (string, string) gomap) result" where
  "load_manifests cd fs [] ms seen = Ok (ms, seen)"
| "load_manifests cd fs (module # modules) ms seen =
     (let dir = migrations_dir module
      in case loadManifest cd fs dir of
           Err e \<Rightarrow> Err e
         | Ok entries \<Rightarrow>
             (case foldl (\<lambda>acc e. case acc of
                       Err x \<Rightarrow> Err x
                     | Ok s \<Rightarrow>
                         (case map_of s (meVersion e) of
                            Some prev \<Rightarrow> Err (VersionTwice (meVersion e) prev dir)
                          | None \<Rightarrow> Ok (gm_set (meVersion e) dir s))) (Ok seen) entries of
                Err x \<Rightarrow> Err x
              | Ok seen' \<Rightarrow> load_manifests cd fs modules (gm_set module entries ms) seen'))"

definition manifest_of :: "manifests \<Rightarrow> string \<Rightarrow> manifestEntry list" where
  "manifest_of ms module = (case map_of ms module of None \<Rightarrow> [] | Some es \<Rightarrow> es)"

text \<open>The path of the state file recorded for a version: the last entry found wins.\<close>

definition state_path :: "string list \<Rightarrow> manifests \<Rightarrow> string \<Rightarrow> string" where
  "state_path modules ms version =
     foldl (\<lambda>path (module, e).
         if meVersion e = version \<and> meState e \<noteq> [] then filepath_Join [module, ''migrations'', meState e]
         else path) []
       (concat (map (\<lambda>module. map (Pair module) (manifest_of ms module)) modules))"

fun chain_steps ::
    "codecs \<Rightarrow> files \<Rightarrow> string list \<Rightarrow> manifests \<Rightarrow> string list \<Rightarrow> (mm_err, stateStep list) result" where
  "chain_steps cd fs modules ms [] = Ok []"
| "chain_steps cd fs modules ms (version # versions) =
     (let path = state_path modules ms version
      in if path = [] then
           (case chain_steps cd fs modules ms versions of
              Err e \<Rightarrow> Err e
            | Ok sts \<Rightarrow> Ok (\<lparr>stepVersion = version, stepState = None\<rparr> # sts))
         else
           (case os_ReadFile fs path of
              Err _ \<Rightarrow> Err (StateUnreadable version)
            | Ok raw \<Rightarrow>
                (case ParseSnapshot (cStateUnmarshal cd) raw path of
                   Err e \<Rightarrow> Err (StateInvalid e)
                 | Ok snap \<Rightarrow>
                     (case chain_steps cd fs modules ms versions of
                        Err e \<Rightarrow> Err e
                      | Ok sts \<Rightarrow> Ok (\<lparr>stepVersion = version, stepState = Some snap\<rparr> # sts)))))"

definition replayRecordedState ::
    "codecs \<Rightarrow> files \<Rightarrow> string list \<Rightarrow> (mm_err, snapshot \<times> manifests) result" where
  "replayRecordedState cd fs modules =
     (case load_manifests cd fs modules [] [] of
        Err e \<Rightarrow> Err e
      | Ok (ms, seen) \<Rightarrow>
          (case chain_steps cd fs modules ms (sort (map fst seen)) of
             Err e \<Rightarrow> Err e
           | Ok chain \<Rightarrow>
               (case ReplayState chain of
                  Err e \<Rightarrow> Err (ChainInvalid e)
                | Ok replayed \<Rightarrow> Ok (replayed, ms))))"

section \<open>Generating\<close>

definition direct_note :: string where
  "direct_note = ''-- fabrin: emitted directly; the dialect refuses this operation when'' @ nl @
     ''-- rendered live (older SQLite needs the table-rebuild dance).'' @ nl"

definition down_stmts ::
    "renderer \<Rightarrow> string \<Rightarrow> snapshot \<Rightarrow> operation \<Rightarrow> (mm_err, string list) result" where
  "down_stmts render module before op =
     (case invert op before of
        Err e \<Rightarrow> Err (CannotInvert module e)
      | Ok undo \<Rightarrow>
          (case render undo of
             Ok down \<Rightarrow> Ok down
           | Err e \<Rightarrow>
               if is_unsupported e then
                 (case rawInverse op of
                    None \<Rightarrow> Err (CannotReverse module e)
                  | Some raw \<Rightarrow> Ok [direct_note @ raw])
               else Err (CannotReverse module e)))"

fun gen_ops ::
    "renderer \<Rightarrow> string \<Rightarrow> snapshot \<Rightarrow> operation list \<Rightarrow>
     (mm_err, string list \<times> string list list \<times> string list) result" where
  "gen_ops render module before [] = Ok ([], [], [])"
| "gen_ops render module before (op # ops) =
     (case render op of
        Err e \<Rightarrow> Err (CannotGenerate module e)
      | Ok stmts \<Rightarrow>
          (case down_stmts render module before op of
             Err e \<Rightarrow> Err e
           | Ok down \<Rightarrow>
               (case gen_ops render module before ops of
                  Err e \<Rightarrow> Err e
                | Ok (ups, downGroups, describe) \<Rightarrow>
                    Ok (stmts @ ups, down # downGroups, Describe op # describe))))"

record mm_state =
  mmVersion :: string
  mmCumulative :: snapshot
  mmManifests :: manifests
  mmFiles :: files
  mmOut :: writer

text \<open>The body of the loop over the changed modules; the state is what it leaves behind, error or not.\<close>

definition print_lines :: "string list \<Rightarrow> writer \<Rightarrow> writer \<times> bool" where
  "print_lines ls w = foldl (\<lambda>(w, ok) l. if ok then Fprint l w else (w, ok)) (w, True) ls"

definition write_module ::
    "codecs \<Rightarrow> string \<Rightarrow> string \<Rightarrow> string \<Rightarrow> string \<Rightarrow> string \<Rightarrow> string list \<Rightarrow> mm_state \<Rightarrow>
     mm_state \<times> mm_err option" where
  "write_module cd module base varName goSrc stateBytes describe st =
     (let dir = migrations_dir module;
          migPath = filepath_Join [dir, base @ ''.go''];
          statePath = filepath_Join [dir, base @ ''.state.json'']
      in if \<not> os_MkdirAll (mmFiles st) dir then (st, Some (WriteFailed dir))
         else case os_WriteFile (mmFiles st) migPath goSrc of
           (fs1, False) \<Rightarrow> (st\<lparr>mmFiles := fs1\<rparr>, Some (WriteFailed migPath))
         | (fs1, True) \<Rightarrow>
         (case os_WriteFile fs1 statePath stateBytes of
           (fs2, False) \<Rightarrow> (st\<lparr>mmFiles := fs2\<rparr>, Some (WriteFailed statePath))
         | (fs2, True) \<Rightarrow>
             (let entries = manifest_of (mmManifests st) module @
                    [\<lparr>meVersion = mmVersion st, meFile = base @ ''.go'', meVar = varName,
                      meState = base @ ''.state.json''\<rparr>];
                  ms = gm_set module entries (mmManifests st)
              in case writeManifest cd fs2 dir entries of
                   (fs3, Some e) \<Rightarrow> (st\<lparr>mmFiles := fs3, mmManifests := ms\<rparr>, Some e)
                 | (fs3, None) \<Rightarrow>
                     (case writeAll fs3 dir entries of
                        (fs4, Some e) \<Rightarrow> (st\<lparr>mmFiles := fs4, mmManifests := ms\<rparr>, Some e)
                      | (fs4, None) \<Rightarrow>
                          (case print_lines
                              [''wrote '' @ migPath @ nl, ''wrote '' @ statePath @ nl,
                               mmVersion st @ '': '' @ Join ''; '' describe @ nl] (mmOut st) of
                             (w, ok) \<Rightarrow>
                               (st\<lparr>mmFiles := fs4, mmManifests := ms, mmOut := w\<rparr>,
                                if ok then None else Some OutputFailed))))))"

definition generate_module ::
    "codecs \<Rightarrow> renderer \<Rightarrow> snapshot \<Rightarrow> snapshot \<Rightarrow> string \<Rightarrow> operation list \<Rightarrow> mm_state \<Rightarrow>
     mm_state \<times> mm_err option" where
  "generate_module cd render before after module moduleOps st =
     (case gen_ops render module before moduleOps of
        Err e \<Rightarrow> (st, Some e)
      | Ok (upStmts, downGroups, describe) \<Rightarrow>
          (let downStmts = concat (rev downGroups);
               name = migrationSlug (Join '' '' describe);
               base = mmVersion st @ ''_'' @ name;
               varName = ''M'' @ mmVersion st @ ''_'' @ slugIdent name
           in case snapshotAfterOperations (mmCumulative st) after moduleOps of
                Err e \<Rightarrow> (st, Some (CumulativeFailed module e))
              | Ok cumulative \<Rightarrow>
                  (let st = st\<lparr>mmCumulative := cumulative\<rparr>
                   in case EncodeSnapshot (cStateMarshal cd) cumulative of
                        Err e \<Rightarrow> (st, Some (EncodeFailed e))
                      | Ok stateBytes \<Rightarrow>
                          (case renderMigrationGo cd varName (mmVersion st) (Join ''; '' describe) upStmts downStmts of
                             Err e \<Rightarrow> (st, Some e)
                           | Ok goSrc \<Rightarrow>
                               (case write_module cd module base varName goSrc stateBytes describe st of
                                  (st, Some e) \<Rightarrow> (st, Some e)
                                | (st, None) \<Rightarrow>
                                    (st\<lparr>mmVersion := bumpVersion (mmVersion st)\<rparr>, None))))))"

fun generate_modules ::
    "codecs \<Rightarrow> renderer \<Rightarrow> snapshot \<Rightarrow> snapshot \<Rightarrow> (string, operation list) gomap \<Rightarrow> string list \<Rightarrow>
     mm_state \<Rightarrow> mm_state \<times> mm_err option" where
  "generate_modules cd render before after byModule [] st = (st, None)"
| "generate_modules cd render before after byModule (module # modules) st =
     (case generate_module cd render before after module
             (case map_of byModule module of None \<Rightarrow> [] | Some ops \<Rightarrow> ops) st of
        (st, Some e) \<Rightarrow> (st, Some e)
      | (st, None) \<Rightarrow> generate_modules cd render before after byModule modules st)"

text \<open>
  \<open>dialectFor\<close> reads the driver's package path and its printed type; both are given here.
\<close>

definition dialectFor :: "codecs \<Rightarrow> string \<Rightarrow> string \<Rightarrow> (mm_err, renderer) result" where
  "dialectFor cd pkgPath typeName =
     (let detected = pkgPath @ ''.'' @ typeName
      in if Contains detected ''sqlite'' then Ok (SQLite_Render (cSha256 cd) (cQuote cd))
         else if Contains detected ''pgx'' \<or> Contains detected ''postgres''
         then Ok (Postgres_Render (cSha256 cd) (cQuote cd))
         else Err (NoDialect detected))"

record mm_app =
  appSliced :: bool
  appDriver :: "(string \<times> string) option"
  appModules :: "string list"
  appModels :: "registered list"

definition runMakemigrations ::
    "codecs \<Rightarrow> string \<Rightarrow> mm_app \<Rightarrow> files \<Rightarrow> reader \<Rightarrow> writer \<Rightarrow> bool \<Rightarrow> files \<times> writer \<times> mm_err option" where
  "runMakemigrations cd now app fs rd out interactive =
     (if appSliced app then (fs, out, Some Sliced)
      else case appDriver app of
        None \<Rightarrow> (fs, out, Some NoDatabase)
      | Some (pkg, typ) \<Rightarrow>
     (case dialectFor cd pkg typ of
        Err e \<Rightarrow> (fs, out, Some e)
      | Ok render \<Rightarrow>
     (case replayRecordedState cd fs (appModules app) of
        Err e \<Rightarrow> (fs, out, Some e)
      | Ok (before, ms) \<Rightarrow>
     (case NewSnapshot (appModels app) of
        Err e \<Rightarrow> (fs, out, Some (ModelsInvalid e))
      | Ok after \<Rightarrow>
     (case resolveRenames (Diff before after) before after rd out interactive of
        (rd, out, Err e) \<Rightarrow> (fs, out, Some (RenameFailed e))
      | (rd, out, Ok ops) \<Rightarrow>
          if ops = [] then
            (case Fprint (''no changes detected in any module'' @ [CHR 0x27] @ ''s models'' @ nl) out of
               (out, ok) \<Rightarrow> (fs, out, if ok then None else Some OutputFailed))
          else
            (let (order, byModule) =
                   group_loop (\<lambda>op. ownerOf (appModels app) (operationTable op) before) [] [] ops
             in case nextVersion now ms of
                  Err e \<Rightarrow> (fs, out, Some (VersionFailed e))
                | Ok version \<Rightarrow>
                    (case generate_modules cd render before after byModule (sort order)
                        \<lparr>mmVersion = version, mmCumulative = before, mmManifests = ms, mmFiles = fs, mmOut = out\<rparr> of
                       (st, e) \<Rightarrow> (mmFiles st, mmOut st, e))))))))"

definition makemigrations_Run ::
    "codecs \<Rightarrow> string \<Rightarrow> mm_app \<Rightarrow> files \<Rightarrow> reader \<Rightarrow> writer \<Rightarrow> bool \<Rightarrow> bool \<Rightarrow> string list \<Rightarrow>
     files \<times> writer \<times> mm_err option" where
  "makemigrations_Run cd now app fs rd out noInput terminal args =
     (if args \<noteq> [] then (fs, out, Some TakesNoArguments)
      else runMakemigrations cd now app fs rd out (\<not> noInput \<and> terminal))"

end
