(* ===== verification/Makemigrations_Correct.thy ===== *)
theory Makemigrations_Correct
  imports Makemigrations
begin

text \<open>
  What \<open>makemigrations\<close> guarantees: the generated rollback undoes the migration, the state recorded
  beside each generated migration is the schema its operations lead to, the last one is the live
  schema, silence never turns a rename into a drop, and new versions sort after every recorded one.
\<close>

section \<open>Inverses\<close>

lemma find_columns: "columns_of m c = find (\<lambda>f. fName f = c) (mFields m)"
proof -
  have "map_of (map (\<lambda>f. (fName f, f)) fs) c = find (\<lambda>f. fName f = c) fs" for fs
    by (induction fs) auto
  then show ?thesis by (simp add: columns_of_def)
qed

lemma snapshotField_in_columns:
  "distinct (map rTable regs) \<Longrightarrow> reg \<in> set regs \<Longrightarrow>
     snapshotField_in regs (rTable reg) c = columns_of (rModel reg) c"
proof (induction regs)
  case (Cons r regs)
  have absent: "t \<notin> rTable ` set rs \<Longrightarrow> snapshotField_in rs t c = None" for rs t
    by (induction rs) auto
  show ?case
  proof (cases "r = reg")
    case True
    then show ?thesis
      using Cons.prems absent [of "rTable reg" regs] by (simp add: find_columns split: option.splits)
  next
    case False
    with Cons.prems have "reg \<in> set regs" "rTable r \<noteq> rTable reg" by (auto simp: image_iff)
    then show ?thesis using Cons by simp
  qed
qed simp

lemma snapshotField_columns:
  "snapshot_ok before \<Longrightarrow> reg \<in> set (snapModels before) \<Longrightarrow>
     snapshotField before (rTable reg) c = columns_of (rModel reg) c"
  using snap.tables_distinct [of before] by (simp add: snapshotField_def snapshotField_in_columns)

definition inv_op :: "snapshot \<Rightarrow> operation \<Rightarrow> operation" where
  "inv_op before op = (case invert op before of Err _ \<Rightarrow> op | Ok undo \<Rightarrow> undo)"

lemma invert_entry:
  assumes "entry t r c p q = Some op" and "snapshotField before t c = p"
  shows "\<exists>undo. invert op before = Ok undo \<and> entry_inv t r c p q = Some undo"
  using assms by (auto simp: entry_def entry_inv_def split: option.splits if_splits)

lemma inv_row:
  assumes "\<And>c. snapshotField before t c = P c"
  shows "map (inv_op before) (row t P Q r cs) = row_inv t P Q r cs"
proof (induction cs)
  case (Cons c cs)
  show ?case
  proof (cases "entry t r c (P c) (Q c)")
    case None
    then have "entry_inv t r c (P c) (Q c) = None" by (simp add: entry_inv_None)
    with None show ?thesis using Cons by (simp add: row_def row_inv_def map_filter_Cons)
  next
    case (Some op)
    then obtain undo where "invert op before = Ok undo" "entry_inv t r c (P c) (Q c) = Some undo"
      using invert_entry [OF Some assms] by blast
    then show ?thesis using Cons Some by (simp add: row_def row_inv_def map_filter_Cons inv_op_def)
  qed
qed (simp add: row_def row_inv_def)

lemma inv_grid:
  "(\<And>c. snapshotField before t c = P c) \<Longrightarrow> map (inv_op before) (grid t P Q n cs) = grid_inv t P Q n cs"
  by (simp add: grid_def grid_inv_def map_concat comp_def inv_row)

lemma invert_grid_Ok:
  assumes "\<And>c. snapshotField before t c = P c" and "op \<in> set (grid t P Q n cs)"
  shows "\<exists>undo. invert op before = Ok undo"
proof -
  from assms(2) obtain r c where "entry t r c (P c) (Q c) = Some op"
    by (auto simp: grid_def row_def List.map_filter_def)
  from invert_entry [OF this assms(1)] show ?thesis by blast
qed

section \<open>Rolling a difference back\<close>

lemma sorted_alters_back:
  assumes "snapshot_ok before" and "was \<in> set (snapModels before)" and "rTable was = rTable reg"
    and "wf_model (rModel was)" and "wf_model (rModel reg)"
    and "S (rTable reg) = Some (columns_of (rModel reg))"
  shows "run_ops exec_op (rev (map (inv_op before) (sorted_alters was reg))) S =
    Some (S(rTable reg \<mapsto> columns_of (rModel was)))"
proof -
  let ?P = "columns_of (rModel was)" and ?Q = "columns_of (rModel reg)"
  have st: "same_table ?P ?Q" using assms(4,5) by (rule same_table_columns)
  have "snapshotField before (rTable reg) c = ?P c" for c
    using snapshotField_columns [OF assms(1,2)] assms(3) by simp
  then have inv: "map (inv_op before) (sorted_alters was reg) = grid_inv (rTable reg) ?P ?Q 10 (all_columns ?P ?Q)"
    by (simp add: sorted_alters_grid [OF assms(4,5)] inv_grid)
  have "list_all (on_table (rTable reg)) (rev (grid_inv (rTable reg) ?P ?Q 10 (all_columns ?P ?Q)))"
    using grid_on_table(2) by (simp add: list_all_iff)
  then show ?thesis
    using run_on_table [of "rTable reg" _ S "?Q"] assms(6) grid_inv_run [OF st all_columns_props, of 10] row_state_end [OF st]
    by (simp add: inv)
qed

lemma alters_back:
  assumes "snapshot_ok before"
  shows "distinct (map rTable rs) \<Longrightarrow> list_all (wf_model \<circ> rModel) rs \<Longrightarrow>
    \<forall>reg \<in> set rs. S (rTable reg) = Some (columns_of (rModel reg)) \<Longrightarrow>
    run_ops exec_op (rev (map (inv_op before) (concat (map (alter_group (snapModels before)) rs)))) S =
    Some (S ++ (schema_of (snapModels before) |` (rTable ` set rs)))"
proof (induction rs arbitrary: S)
  case (Cons reg rs)
  let ?b = "schema_of (snapModels before)" and ?t = "rTable reg"
  have d: "distinct (map rTable (snapModels before))" using snap.tables_distinct assms by simp
  have new: "?t \<notin> rTable ` set rs" using Cons.prems(1) by simp
  let ?S = "S ++ (?b |` (rTable ` set rs))"
  have tail: "run_ops exec_op (rev (map (inv_op before) (concat (map (alter_group (snapModels before)) rs)))) S = Some ?S"
    using Cons.prems by (intro Cons.IH) auto
  have here: "?S ?t = Some (columns_of (rModel reg))"
    using Cons.prems(3) new by (simp add: map_add_def restrict_map_def)
  have "run_ops exec_op (rev (map (inv_op before) (alter_group (snapModels before) reg))) ?S =
      Some (?S ++ (?b |` {?t}))"
  proof (cases "map_of (index (snapModels before)) ?t")
    case None
    then have "?b ?t = None" by (simp add: index_None [OF d])
    then have "?b |` {?t} = Map.empty" by (auto simp: restrict_map_def)
    with None show ?thesis by (simp add: alter_group_def)
  next
    case (Some was)
    then have was: "was \<in> set (snapModels before)" "rTable was = ?t" by (simp_all add: index_find [OF d])
    have "wf_model (rModel was)" "wf_model (rModel reg)"
      using snap.well_formed [OF assms] was(1) Cons.prems(2) by simp_all
    from sorted_alters_back [OF assms was this, where S = ?S] here
    have "run_ops exec_op (rev (map (inv_op before) (sorted_alters was reg))) ?S = Some (?S(?t \<mapsto> columns_of (rModel was)))" by blast
    moreover have "?b |` {?t} = [?t \<mapsto> columns_of (rModel was)]"
      using schema_of_mem [OF d was(1)] was(2) by (auto simp: restrict_map_def)
    ultimately show ?thesis using Some by (simp add: alter_group_def)
  qed
  moreover have "?S ++ (?b |` {?t}) = S ++ (?b |` (rTable ` set (reg # rs)))"
    by (auto simp: map_add_def restrict_map_def fun_eq_iff split: option.splits)
  ultimately show ?case using tail by (simp add: run_ops_append)
qed simp

lemma creates_back:
  "map (inv_op before) (map (\<lambda>reg. CreateTable (rModel reg)) rs) = map (\<lambda>reg. DropTable (rTable reg)) rs"
  by (simp add: inv_op_def)

lemma find_table:
  "distinct (map rTable regs) \<Longrightarrow> reg \<in> set regs \<Longrightarrow> find (\<lambda>r. rTable r = rTable reg) regs = Some reg"
  by (induction regs) (auto simp: image_iff)

lemma drops_back:
  assumes "snapshot_ok before" and "set rs \<subseteq> set (snapModels before)"
  shows "map (inv_op before) (map (\<lambda>reg. DropTable (rTable reg)) rs) = map (\<lambda>reg. CreateTable (rModel reg)) rs"
  using assms snap.tables_distinct [OF assms(1)] by (auto simp: inv_op_def find_table)

lemma schema_of_perm:
  assumes "distinct (map rTable xs)" and "set xs = set ys" and "distinct (map rTable ys)"
  shows "schema_of xs = schema_of ys"
proof
  fix t
  show "schema_of xs t = schema_of ys t"
  proof (cases "\<exists>reg \<in> set xs. rTable reg = t")
    case True
    then obtain reg where "reg \<in> set xs" "rTable reg = t" by blast
    then show ?thesis using schema_of_mem [OF assms(1)] schema_of_mem [OF assms(3)] assms(2) by metis
  next
    case False
    then have "schema_of xs t = None" "schema_of ys t = None"
      using assms(2) by (auto simp: schema_of_None image_iff)
    then show ?thesis by simp
  qed
qed

lemma Diff_back:
  assumes "snapshot_ok before" and "snapshot_ok after"
  shows "run_ops exec_op (rev (map (inv_op before) (Diff before after))) (schema_of (snapModels after)) =
    Some (schema_of (snapModels before))"
proof -
  let ?B = "snapModels before" and ?A = "snapModels after"
  let ?b = "schema_of ?B" and ?a = "schema_of ?A"
  let ?new = "filter (\<lambda>reg. ?b (rTable reg) = None) ?A" and ?gone = "filter (\<lambda>reg. ?a (rTable reg) = None) ?B"
  have d: "distinct (map rTable ?B)" "distinct (map rTable ?A)"
    using snap.tables_distinct assms by simp_all
  have w: "list_all (wf_model \<circ> rModel) ?A" using assms(2) by (simp add: snapshot_ok_def)
  have ops: "rev (map (inv_op before) (Diff before after)) =
      map (\<lambda>reg. CreateTable (rModel reg)) (rev ?gone) @
      rev (map (inv_op before) (concat (map (alter_group ?B) ?A))) @
      map (\<lambda>reg. DropTable (rTable reg)) (rev ?new)"
    using drops_back [OF assms(1), of ?gone] creates_back [of before ?new]
    by (simp add: Diff_groups [OF d] rev_map del: map_map)
  have dg: "distinct (map rTable (rev ?gone))" "distinct (map rTable (rev ?new))"
    using d by (simp_all add: rev_map [symmetric] distinct_map_filter)
  have gone: "schema_of (rev ?gone) = ?b |` {t. ?a t = None}"
    using schema_of_perm [OF dg(1), of ?gone] dg(1) schema_of_filter [of "\<lambda>t. ?a t = None" ?B]
    by (simp add: rev_map [symmetric])
  let ?S1 = "?a ++ (?b |` {t. ?a t = None})"
  have c: "run_ops exec_op (map (\<lambda>reg. CreateTable (rModel reg)) (rev ?gone)) ?a = Some ?S1"
    using creates_run [OF dg(1), of ?a] gone by simp
  have m: "run_ops exec_op (rev (map (inv_op before) (concat (map (alter_group ?B) ?A)))) ?S1 =
      Some (?S1 ++ (?b |` (rTable ` set ?A)))"
    using alters_back [OF assms(1) d(2) w] schema_of_mem [OF d(2)]
    by (auto simp: map_add_def restrict_map_def)
  have s2: "?S1 ++ (?b |` (rTable ` set ?A)) = ?a ++ ?b"
    using schema_of_None [of ?A] by (auto simp: map_add_def restrict_map_def fun_eq_iff split: option.splits)
  have x: "run_ops exec_op (map (\<lambda>reg. DropTable (rTable reg)) (rev ?new)) (?a ++ ?b) =
      Some ((?a ++ ?b) |` (- (rTable ` set (rev ?new))))"
    using schema_of_mem [OF d(2)] by (intro drops_run dg(2)) (auto simp: map_add_def)
  have "t \<in> rTable ` set (rev ?new) \<longleftrightarrow> ?a t \<noteq> None \<and> ?b t = None" for t
    using schema_of_None [of ?A t] by auto
  then have "(?a ++ ?b) |` (- (rTable ` set (rev ?new))) = ?b"
    by (intro ext) (simp only: restrict_map_def Compl_iff, auto simp: map_add_def split: option.splits)
  with c m x show ?thesis by (simp only: ops run_ops_append s2 option.case)
qed

lemma invert_Diff_Ok:
  assumes "snapshot_ok before" and "snapshot_ok after" and "op \<in> set (Diff before after)"
  shows "\<exists>undo. invert op before = Ok undo"
proof -
  have d: "distinct (map rTable (snapModels before))" "distinct (map rTable (snapModels after))"
    using snap.tables_distinct assms(1,2) by simp_all
  from assms(3) consider m where "op = CreateTable m"
    | reg where "reg \<in> set (snapModels after)" "op \<in> set (alter_group (snapModels before) reg)"
    | reg where "reg \<in> set (snapModels before)" "op = DropTable (rTable reg)"
    by (auto simp: Diff_groups [OF d])
  then show ?thesis
  proof cases
    case 2
    then obtain was where "map_of (index (snapModels before)) (rTable reg) = Some was"
      and op: "op \<in> set (sorted_alters was reg)"
      by (cases "map_of (index (snapModels before)) (rTable reg)") (auto simp: alter_group_def)
    then have was: "was \<in> set (snapModels before)" "rTable was = rTable reg" by (simp_all add: index_find [OF d(1)])
    have wf: "wf_model (rModel was)" "wf_model (rModel reg)"
      using snap.well_formed [OF assms(1)] snap.well_formed [OF assms(2)] was(1) 2(1) by simp_all
    have "snapshotField before (rTable reg) c = columns_of (rModel was) c" for c
      using snapshotField_columns [OF assms(1) was(1)] was(2) by simp
    then show ?thesis using op invert_grid_Ok unfolding sorted_alters_grid [OF wf] by blast
  next
    case 3
    then show ?thesis by (simp add: find_table [OF d(1)])
  qed simp
qed

section \<open>Tables are independent\<close>

text \<open>An operation acts on one table; a list of operations acts on each table by its own part.\<close>

definition local_op :: "operation \<Rightarrow> columns option \<Rightarrow> columns option option" where
  "local_op op co =
     (case op of
        CreateTable m \<Rightarrow> if co = None then Some (Some (columns_of m)) else None
      | DropTable t \<Rightarrow> if co = None then None else Some None
      | _ \<Rightarrow> (case co of None \<Rightarrow> None | Some T \<Rightarrow> map_option Some (col_op op T)))"

lemma exec_op_local:
  "exec_op op S = map_option (\<lambda>c. S(operationTable op := c)) (local_op op (S (operationTable op)))"
  by (cases op) (auto simp: exec_op_def local_op_def option.map_comp comp_def split: option.splits)

lemma run_pointwise:
  "run_ops exec_op ops S = Some S' \<longleftrightarrow>
     (\<forall>t. run_ops local_op (filter (\<lambda>op. operationTable op = t) ops) (S t) = Some (S' t))"
proof (induction ops arbitrary: S)
  case Nil
  then show ?case by (auto simp: fun_eq_iff)
next
  case (Cons op ops)
  let ?t = "operationTable op"
  show ?case
  proof (cases "local_op op (S ?t)")
    case None
    then have "run_ops exec_op (op # ops) S = None" by (simp add: exec_op_local [of op])
    moreover have "run_ops local_op (filter (\<lambda>o'. operationTable o' = ?t) (op # ops)) (S ?t) = None"
      using None by simp
    ultimately show ?thesis by (metis option.distinct(1))
  next
    case (Some c)
    then have "run_ops exec_op (op # ops) S = run_ops exec_op ops (S(?t := c))"
      by (simp add: exec_op_local [of op])
    moreover have "run_ops local_op (filter (\<lambda>o'. operationTable o' = t) (op # ops)) (S t) =
        run_ops local_op (filter (\<lambda>o'. operationTable o' = t) ops) ((S(?t := c)) t)" for t
      using Some by simp
    ultimately show ?thesis by (simp only: Cons.IH)
  qed
qed

section \<open>Groups and cumulative states\<close>

definition members :: "(string, operation list) gomap \<Rightarrow> string \<Rightarrow> operation list" where
  "members bm m = (case map_of bm m of None \<Rightarrow> [] | Some l \<Rightarrow> l)"

lemma members_set: "members (gm_set k l bm) m = (if m = k then l else members bm m)"
  by (simp add: members_def gomap_simps)

lemma group_loop_result:
  assumes "distinct order" and "set order = dom (map_of bm)"
    and "group_loop owner order bm ops = (order', bm')"
  shows "distinct order' \<and> set order' = set order \<union> owner ` set ops \<and> dom (map_of bm') = set order' \<and>
    (\<forall>m. members bm' m = members bm m @ filter (\<lambda>op. owner op = m) ops)"
  using assms
proof (induction owner order bm ops rule: group_loop.induct)
  case (1 owner order bm)
  then show ?case by auto
next
  case (2 owner order bm op ops)
  let ?o = "owner op"
  let ?order = "if map_of bm ?o = None then order @ [?o] else order"
  let ?bm = "gm_set ?o (members bm ?o @ [op]) bm"
  have dist: "distinct ?order" using 2(2,3) by auto
  have set: "set ?order = insert ?o (set order)" using 2(3) by (auto simp: domIff)
  have dom: "set ?order = dom (map_of ?bm)" using 2(3) set by (simp add: gomap_simps)
  have "group_loop owner ?order ?bm ops = (order', bm')"
    using 2(4) by (simp add: Let_def members_def)
  from 2(1) [OF refl refl refl] dist dom this have "distinct order' \<and> set order' = set ?order \<union> owner ` set ops \<and>
      dom (map_of bm') = set order' \<and> (\<forall>m. members bm' m = members ?bm m @ filter (\<lambda>op. owner op = m) ops)"
    by (simp add: members_def)
  then show ?case unfolding set by (simp add: members_set)
qed

lemma snapshotAfterOperations_result:
  assumes "snapshot_ok current" and "snapshot_ok final"
  shows "\<exists>next. snapshotAfterOperations current final ops = Ok next \<and> snapshot_ok next \<and>
    schema_of (snapModels next) = (\<lambda>t. if t \<in> operationTable ` set ops
      then schema_of (snapModels final) t else schema_of (snapModels current) t)"
proof -
  let ?ch = "operationTable ` set ops"
  let ?k = "filter (\<lambda>reg. rTable reg \<notin> ?ch) (snapModels current)"
  let ?f = "filter (\<lambda>reg. rTable reg \<in> ?ch) (snapModels final)"
  have d: "distinct (map rTable (?k @ ?f))"
    using snap.tables_distinct [OF assms(1)] snap.tables_distinct [OF assms(2)]
    by (auto simp: distinct_map_filter)
  have w: "list_all (wf_model \<circ> rModel) (?k @ ?f)"
    using assms by (auto simp: snapshot_ok_def list_all_iff)
  let ?n = "\<lparr>snapModels = sort_key rTable (?k @ ?f)\<rparr>"
  have r: "snapshotAfterOperations current final ops = Ok ?n"
    unfolding snapshotAfterOperations_def Let_def using d w by (simp add: NewSnapshot_Ok)
  have "schema_of (snapModels ?n) = schema_of (?k @ ?f)"
    using d by (intro schema_of_perm) (simp_all add: distinct_map_sort_key)
  also have "\<dots> = schema_of ?f ++ schema_of ?k" by (simp add: schema_of_def)
  also have "\<dots> = (\<lambda>t. if t \<in> ?ch then schema_of (snapModels final) t else schema_of (snapModels current) t)"
    using schema_of_filter [of "\<lambda>t. t \<in> ?ch" "snapModels final"] schema_of_filter [of "\<lambda>t. t \<notin> ?ch" "snapModels current"]
    by (auto simp: map_add_def restrict_map_def split: option.splits)
  finally show ?thesis using r snapshot_ok_sorted [OF w d] by blast
qed

text \<open>One module's step: its operations, run on the state recorded before, give the state recorded after.\<close>

lemma module_step:
  assumes "snapshot_ok before" and "snapshot_ok after" and "snapshot_ok current"
    and "\<And>t. own t = module \<Longrightarrow> schema_of (snapModels current) t = schema_of (snapModels before) t"
    and "ops = filter (\<lambda>op. own (operationTable op) = module) (Diff before after)"
    and "snapshotAfterOperations current after ops = Ok next"
  shows "run_ops exec_op ops (schema_of (snapModels current)) = Some (schema_of (snapModels next)) \<and>
    snapshot_ok next \<and>
    (\<forall>t. schema_of (snapModels next) t =
       (if own t = module then schema_of (snapModels after) t else schema_of (snapModels current) t))"
proof -
  let ?ch = "operationTable ` set ops"
  have nx: "snapshot_ok next" "schema_of (snapModels next) = (\<lambda>t. if t \<in> ?ch
      then schema_of (snapModels after) t else schema_of (snapModels current) t)"
    using snapshotAfterOperations_result [OF assms(3,2), of ops] assms(6) by auto
  have whole: "run_ops local_op (filter (\<lambda>op. operationTable op = t) (Diff before after))
      (schema_of (snapModels before) t) = Some (schema_of (snapModels after) t)" for t
    using Diff_run [OF assms(1,2)] run_pointwise by blast
  have part: "filter (\<lambda>op. operationTable op = t) ops =
      (if own t = module then filter (\<lambda>op. operationTable op = t) (Diff before after) else [])" for t
    unfolding assms(5) filter_filter by (auto simp: filter_empty_conv intro: filter_cong)
  have same: "schema_of (snapModels before) t = schema_of (snapModels after) t"
    if "own t = module" "t \<notin> ?ch" for t
  proof -
    have "filter (\<lambda>op. operationTable op = t) ops = []" using that(2) by (auto simp: filter_empty_conv)
    with part [of t] that(1) whole [of t] show ?thesis by simp
  qed
  have val: "schema_of (snapModels next) t =
      (if own t = module then schema_of (snapModels after) t else schema_of (snapModels current) t)" for t
    using nx(2) same [of t] assms(4) [of t] by (auto simp: assms(5))
  moreover have "run_ops exec_op ops (schema_of (snapModels current)) = Some (schema_of (snapModels next))"
    unfolding run_pointwise part val using whole assms(4) by simp
  ultimately show ?thesis using nx(1) by blast
qed

lemma write_module_cumulative:
  "write_module cd module base varName goSrc stateBytes describe st = (st', e) \<Longrightarrow>
     mmCumulative st' = mmCumulative st \<and> mmVersion st' = mmVersion st"
  by (auto simp: write_module_def Let_def split: if_splits prod.splits bool.splits option.splits)

lemma generate_module_cumulative:
  "generate_module cd render before after module ops st = (st', None) \<Longrightarrow>
     snapshotAfterOperations (mmCumulative st) after ops = Ok (mmCumulative st') \<and>
     mmVersion st' = bumpVersion (mmVersion st)"
  by (auto simp: generate_module_def Let_def split: sum.splits prod.splits option.splits
      dest!: write_module_cumulative)

lemma generate_modules_cumulative:
  assumes "snapshot_ok before" and "snapshot_ok after"
    and "\<And>m. members bm m = filter (\<lambda>op. own (operationTable op) = m) (Diff before after)"
  shows "distinct ms \<Longrightarrow> snapshot_ok (mmCumulative st) \<Longrightarrow>
    \<forall>t. own t \<in> set ms \<longrightarrow> schema_of (snapModels (mmCumulative st)) t = schema_of (snapModels before) t \<Longrightarrow>
    generate_modules cd render before after bm ms st = (st', None) \<Longrightarrow>
    snapshot_ok (mmCumulative st') \<and>
    (\<forall>t. schema_of (snapModels (mmCumulative st')) t = (if own t \<in> set ms
       then schema_of (snapModels after) t else schema_of (snapModels (mmCumulative st)) t))"
proof (induction ms arbitrary: st)
  case (Cons m ms)
  from Cons.prems(4) obtain st1 where
    one: "generate_module cd render before after m (members bm m) st = (st1, None)" and
    rest: "generate_modules cd render before after bm ms st1 = (st', None)"
    by (auto simp: members_def split: prod.splits option.splits)
  have step: "snapshotAfterOperations (mmCumulative st) after (members bm m) = Ok (mmCumulative st1)"
    using generate_module_cumulative [OF one] by blast
  have st1: "snapshot_ok (mmCumulative st1)"
    "\<And>t. schema_of (snapModels (mmCumulative st1)) t =
       (if own t = m then schema_of (snapModels after) t else schema_of (snapModels (mmCumulative st)) t)"
    using module_step [where own = own, OF assms(1,2) Cons.prems(2) _ assms(3) step] Cons.prems(3) by auto
  have "\<forall>t. own t \<in> set ms \<longrightarrow> schema_of (snapModels (mmCumulative st1)) t = schema_of (snapModels before) t"
    using st1(2) Cons.prems(1,3) by auto
  from Cons.IH [OF _ st1(1) this rest] Cons.prems(1) st1(2) show ?case by simp
qed simp

section \<open>Versions\<close>

lemma highest_fold:
  "(\<forall>e \<in> set es. meVersion e \<le> foldl (\<lambda>h e. if meVersion e > h then meVersion e else h) h es) \<and>
   h \<le> foldl (\<lambda>h e. if meVersion e > h then meVersion e else h) h es"
proof (induction es arbitrary: h)
  case (Cons e es)
  show ?case using Cons [of "if meVersion e > h then meVersion e else h"] by (auto split: if_splits)
qed simp

lemma highestVersion_ge: "(m, es) \<in> set ms \<Longrightarrow> e \<in> set es \<Longrightarrow> meVersion e \<le> highestVersion ms"
  using highest_fold [of "concat (map snd ms)" "[]"] unfolding highestVersion_def by force

section \<open>Example runs\<close>

definition ex_rename_before :: snapshot where
  "ex_rename_before = \<lparr>snapModels = [\<lparr>rModule = ''shop'', rModel = ex_model ''t''\<rparr>]\<rparr>"

definition ex_codecs :: codecs where
  "ex_codecs = \<lparr>cSha256 = ex_sha256, cQuote = (\<lambda>s. s), cGoFormat = Some,
     cStateMarshal = (\<lambda>_. Some ''state''), cStateUnmarshal = (\<lambda>_. Some (snapshot_wire ex_rename_before)),
     cManifestMarshal = (\<lambda>es. Some (concat (map meVersion es))),
     cManifestUnmarshal = (\<lambda>raw. Some [\<lparr>meVersion = raw, meFile = ''f.go'', meVar = ''M'', meState = ''f.json''\<rparr>])\<rparr>"

definition ex_files :: files where
  "ex_files = \<lparr>fsFiles = [(''core/migrations/manifest.json'', ''20260101000000''),
      (''core/migrations/f.json'', ''state''), (''shop/migrations/manifest.json'', ''20250101000000'')],
     fsUnreadable = [], fsUnwritable = []\<rparr>"

definition ex_app :: "registered list \<Rightarrow> mm_app" where
  "ex_app regs = \<lparr>appSliced = False, appDriver = Some (''github.com/jackc/pgx'', ''*stdlib.Driver''),
     appModules = [''core''], appModels = regs\<rparr>"

definition ex_renamed :: registered where
  "ex_renamed = \<lparr>rModule = ''shop'', rModel = \<lparr>mTable = ''t'', mFields = [ex_field ''id'' True, ex_field ''m'' False]\<rparr>\<rparr>"

definition ex_start :: mm_state where
  "ex_start = \<lparr>mmVersion = ''20260101000001'', mmCumulative = \<lparr>snapModels = []\<rparr>, mmManifests = [], mmFiles = ex_files,
     mmOut = \<lparr>wrText = [], wrCap = None\<rparr>\<rparr>"

lemma ex_replay: "replayRecordedState ex_codecs ex_files [''core''] =
    Ok (ex_rename_before, [(''core'', [\<lparr>meVersion = ''20260101000000'', meFile = ''f.go'', meVar = ''M'', meState = ''f.json''\<rparr>])])"
  by code_simp

section \<open>Properties\<close>

text \<open>C5: a generated rollback undoes its migration. Every operation of a difference between valid
  snapshots has an inverse, and running the inverses in reverse order on the new schema executes
  without a failure and ends in exactly the old schema.\<close>

theorem rollback_undoes_Diff:
  assumes "snapshot_ok before" and "snapshot_ok after"
  shows "list_all (\<lambda>op. is_ok (invert op before)) (Diff before after) \<and>
    run_ops exec_op (rev (map (inv_op before) (Diff before after))) (schema_of (Snapshot_Models after)) =
      Some (schema_of (Snapshot_Models before))"
  using invert_Diff_Ok [OF assms] Diff_back [OF assms] by (fastforce simp: list_all_iff)

theorem rollback_undoes_Diff_witness:
  "run_ops exec_op (rev (map (inv_op ex_before) (Diff ex_before ex_after))) (schema_of (Snapshot_Models ex_after)) =
     Some (schema_of (Snapshot_Models ex_before))"
proof -
  have "snapshot_ok ex_before" "snapshot_ok ex_after" by code_simp+
  then show ?thesis using rollback_undoes_Diff by blast
qed

text \<open>the state recorded beside a generated migration is the one its operations lead to. Take
  one module's part of a difference, run on a cumulative state in which that module's tables are
  still the old ones: the operations execute, and end in the schema that
  \<open>snapshotAfterOperations\<close> records, which has that module's tables as declared and all others
  unchanged.\<close>

theorem recorded_state_matches_operations:
  assumes "snapshot_ok before" and "snapshot_ok after" and "snapshot_ok current"
    and "\<forall>t. own t = module \<longrightarrow> schema_of (snapModels current) t = schema_of (snapModels before) t"
    and "ops = filter (\<lambda>op. own (operationTable op) = module) (Diff before after)"
  shows "\<exists>next. snapshotAfterOperations current after ops = Ok next \<and> snapshot_ok next \<and>
    run_ops exec_op ops (schema_of (snapModels current)) = Some (schema_of (snapModels next)) \<and>
    (\<forall>t. schema_of (snapModels next) t =
       (if own t = module then schema_of (snapModels after) t else schema_of (snapModels current) t))"
proof -
  obtain nx where "snapshotAfterOperations current after ops = Ok nx"
    using snapshotAfterOperations_result [OF assms(3,2)] by blast
  with module_step [OF assms(1-3) _ assms(5)] assms(4) show ?thesis by metis
qed

theorem recorded_state_matches_operations_witness:
  "\<exists>next. snapshotAfterOperations ex_before ex_after
     (filter (\<lambda>op. operationTable op = ''orders'') (Diff ex_before ex_after)) = Ok next \<and> snapshot_ok next"
proof -
  have "snapshot_ok ex_before" "snapshot_ok ex_after" by code_simp+
  then show ?thesis
    using recorded_state_matches_operations [of ex_before ex_after ex_before "\<lambda>t. t" "''orders''", OF _ _ _ _ refl]
    by auto
qed



text \<open>a new version sorts after every version recorded in any manifest, so two migrations never
  share one and the chain stays ascending.\<close>

theorem nextVersion_above_recorded:
  assumes "nextVersion now ms = Ok v" and "(module, entries) \<in> set ms" and "e \<in> set entries"
  shows "meVersion e < v"
proof -
  have "highestVersion ms < v"
    using assms(1) by (auto simp: nextVersion_def Let_def not_le split: if_splits sum.splits option.splits)
  with highestVersion_ge [OF assms(2,3)] show ?thesis by simp
qed

theorem nextVersion_above_recorded_witness:
  "''20260101000000'' < ''20260802120000'' \<and>
   nextVersion ''20260802120000'' [(''core'', [\<lparr>meVersion = ''20260101000000'', meFile = ''f.go'', meVar = ''M'', meState = []\<rparr>])]
     = Ok ''20260802120000''"
proof -
  have v: "nextVersion ''20260802120000'' [(''core'', [\<lparr>meVersion = ''20260101000000'', meFile = ''f.go'', meVar = ''M'', meState = []\<rparr>])]
     = Ok ''20260802120000''" by code_simp
  from nextVersion_above_recorded [OF v, of "''core''"] v show ?thesis by simp
qed

text \<open>without a terminal nothing is guessed: when a dropped and an added column could be one
  rename, a non-interactive run refuses and leaves every file as it was.\<close>

theorem noninteractive_refuses_renames:
  assumes "replayRecordedState cd fs (appModules app) = Ok (before, ms)"
    and "NewSnapshot (appModels app) = Ok after"
    and "rename_candidates (Diff before after) before after \<noteq> []"
  shows "\<exists>e. runMakemigrations cd now app fs rd out False = (fs, out, Some e)"
  using assms by (auto simp: runMakemigrations_def resolveRenames_def split: option.splits sum.splits list.splits)

theorem noninteractive_refuses_renames_witness:
  "\<exists>e. runMakemigrations ex_codecs ''20260802120000'' (ex_app [ex_renamed]) ex_files
     \<lparr>rdData = [], rdFails = False\<rparr> \<lparr>wrText = [], wrCap = None\<rparr> False =
     (ex_files, \<lparr>wrText = [], wrCap = None\<rparr>, Some e)"
proof (rule noninteractive_refuses_renames)
  show "replayRecordedState ex_codecs ex_files (appModules (ex_app [ex_renamed])) =
    Ok (ex_rename_before, [(''core'', [\<lparr>meVersion = ''20260101000000'', meFile = ''f.go'', meVar = ''M'', meState = ''f.json''\<rparr>])])"
    using ex_replay by (simp add: ex_app_def)
  show "NewSnapshot (appModels (ex_app [ex_renamed])) = Ok \<lparr>snapModels = [ex_renamed]\<rparr>" by code_simp
  show "rename_candidates (Diff ex_rename_before \<lparr>snapModels = [ex_renamed]\<rparr>) ex_rename_before \<lparr>snapModels = [ex_renamed]\<rparr> \<noteq> []"
    by code_simp
qed

section \<open>Two observations\<close>

text \<open>
  A table whose module is no longer mounted is dropped by a migration written into that module's
  directory, but only the manifests of mounted modules were loaded: the manifest found there
  (here the version \<open>20250101000000\<close>) is replaced by one with the new entry alone.
\<close>

lemma removed_module_manifest_overwritten:
  "map_of (fsFiles ex_files) ''shop/migrations/manifest.json'' = Some ''20250101000000'' \<and>
   (let (fs, out, e) = runMakemigrations ex_codecs ''20260802120000'' (ex_app []) ex_files
      \<lparr>rdData = [], rdFails = False\<rparr> \<lparr>wrText = [], wrCap = None\<rparr> False
    in e = None \<and> map_of (fsFiles fs) ''shop/migrations/manifest.json'' = Some (''20260802120000'' @ [CHR 0x0A]))"
  by code_simp

text \<open>
  \<open>nextVersion\<close> checks that its result is above every recorded version; the bump between two
  modules of one run does not. After the last second of the year 9999 the fifth digit of the year
  makes the next version sort first.
\<close>

lemma bumpVersion_can_sort_backwards:
  "nextVersion ''20260802120000'' [(''core'', [\<lparr>meVersion = ''99991231235958'', meFile = ''f.go'', meVar = ''M'', meState = []\<rparr>])] =
     Ok ''99991231235959'' \<and>
   bumpVersion ''99991231235959'' < ''99991231235959''"
  by code_simp

end
