(* ===== verification/Migrate.thy ===== *)
theory Migrate
  imports Go_Prelude
begin

text \<open>
  The package \<open>migrate\<close> (migrate/migrate.go) and the command that drives it (migrate_cmd.go).

  A database is the user's data, of any type, and the rows of the applied-state table (\<open>None\<close>
  before the table exists). Any call to the server may fail: \<open>dbFaults\<close> holds the outcome of the
  calls to come, one entry per call. A migration body is a function on the user's data; it runs in
  a transaction, and the server rolls back a transaction that did not commit, DDL included, as
  SQLite and PostgreSQL document.
\<close>

section \<open>The database\<close>

type_synonym 'u body = "'u \<Rightarrow> 'u \<times> string option"

record 'u migration =
  mgVersion :: string
  mgName :: string
  mgUp :: "'u body option"
  mgDown :: "'u body option"

record 'u database =
  dbUser :: 'u
  dbRows :: "(string, string) gomap option"
  dbFaults :: "bool list"

definition call_fails :: "'u database \<Rightarrow> 'u database \<times> bool" where
  "call_fails d =
     (case dbFaults d of
        [] \<Rightarrow> (d, False)
      | f # fs \<Rightarrow> (d\<lparr>dbFaults := fs\<rparr>, f))"

datatype migrate_err =
    InvalidMigration_no_version
  | InvalidMigration_no_up string string
  | InvalidMigration_no_down string string
  | InvalidMigration_width string string
  | DuplicateVersion string string string
  | OutOfOrder string string string
  | MissingMigration string
  | CreateTableFailed
  | ReadTableFailed
  | BeginFailed string string
  | StepFailed string string string
  | StepFailedNoRollback string string string
  | CommitFailed string string

definition ensureTable :: "'u database \<Rightarrow> 'u database \<times> migrate_err option" where
  "ensureTable d =
     (case call_fails d of
        (d, True) \<Rightarrow> (d, Some CreateTableFailed)
      | (d, False) \<Rightarrow>
          (d\<lparr>dbRows := Some (case dbRows d of None \<Rightarrow> [] | Some rows \<Rightarrow> rows)\<rparr>, None))"

definition Ensure :: "'u database \<Rightarrow> 'u database \<times> migrate_err option" where
  "Ensure d = ensureTable d"

definition appliedVersions :: "'u database \<Rightarrow> 'u database \<times> (migrate_err, string list) result" where
  "appliedVersions d =
     (case call_fails d of
        (d, True) \<Rightarrow> (d, Err ReadTableFailed)
      | (d, False) \<Rightarrow>
          (case dbRows d of
             None \<Rightarrow> (d, Err ReadTableFailed)
           | Some rows \<Rightarrow> (d, Ok (sort (map fst rows)))))"

section \<open>Validation\<close>

fun check_set ::
    "nat \<Rightarrow> string \<Rightarrow> (string, 'u migration) gomap \<Rightarrow> 'u migration list \<Rightarrow> migrate_err option" where
  "check_set width first seen [] = None"
| "check_set width first seen (m # ms) =
     (if mgVersion m = [] then Some InvalidMigration_no_version
      else if mgUp m = None then Some (InvalidMigration_no_up (mgVersion m) (mgName m))
      else if mgDown m = None then Some (InvalidMigration_no_down (mgVersion m) (mgName m))
      else case map_of seen (mgVersion m) of
             Some prev \<Rightarrow> Some (DuplicateVersion (mgVersion m) (mgName prev) (mgName m))
           | None \<Rightarrow>
               if length (mgVersion m) \<noteq> width then Some (InvalidMigration_width first (mgVersion m))
               else check_set width first (gm_set (mgVersion m) m seen) ms)"

definition first_version :: "'u migration list \<Rightarrow> string" where
  "first_version ms = (case ms of [] \<Rightarrow> [] | m # _ \<Rightarrow> mgVersion m)"

definition prepare ::
    "'u database \<Rightarrow> 'u migration list \<Rightarrow> 'u database \<times> (migrate_err, 'u migration list) result" where
  "prepare d ms =
     (case check_set (length (first_version ms)) (first_version ms) [] ms of
        Some e \<Rightarrow> (d, Err e)
      | None \<Rightarrow>
          (case ensureTable d of
             (d, Some e) \<Rightarrow> (d, Err e)
           | (d, None) \<Rightarrow> (d, Ok (sort_key mgVersion ms))))"

section \<open>One migration, one transaction\<close>

text \<open>
  \<open>inTx\<close> with the function it is given: \<open>fn\<close> works on the data and the rows inside the
  transaction, and takes the outcomes of its own calls from the fault list.
\<close>

type_synonym 'u tx_fn = "'u database \<Rightarrow> 'u database \<times> string option"

definition inTx :: "'u database \<Rightarrow> 'u migration \<Rightarrow> 'u tx_fn \<Rightarrow> 'u database \<times> migrate_err option" where
  "inTx d m fn =
     (case call_fails d of
        (d, True) \<Rightarrow> (d, Some (BeginFailed (mgVersion m) (mgName m)))
      | (d, False) \<Rightarrow>
          (case fn d of
             (tx, Some e) \<Rightarrow>
               (case call_fails tx of
                  (tx, rbFails) \<Rightarrow>
                    (d\<lparr>dbFaults := dbFaults tx\<rparr>,
                     Some (if rbFails then StepFailedNoRollback (mgVersion m) (mgName m) e
                           else StepFailed (mgVersion m) (mgName m) e)))
           | (tx, None) \<Rightarrow>
               (case call_fails tx of
                  (tx, True) \<Rightarrow>
                    (d\<lparr>dbFaults := dbFaults tx\<rparr>, Some (CommitFailed (mgVersion m) (mgName m)))
                | (tx, False) \<Rightarrow> (tx, None))))"

definition run_body :: "'u body option \<Rightarrow> 'u tx_fn" where
  "run_body b tx =
     (case b of
        None \<Rightarrow> (tx, Some ''nil function'')
      | Some f \<Rightarrow> (case f (dbUser tx) of (u, e) \<Rightarrow> (tx\<lparr>dbUser := u\<rparr>, e)))"

definition insert_row :: "string \<Rightarrow> string \<Rightarrow> 'u tx_fn" where
  "insert_row version name tx =
     (case call_fails tx of
        (tx, True) \<Rightarrow> (tx, Some ''insert failed'')
      | (tx, False) \<Rightarrow>
          (case dbRows tx of
             None \<Rightarrow> (tx, Some ''no such table'')
           | Some rows \<Rightarrow>
               if map_of rows version \<noteq> None then (tx, Some ''duplicate key'')
               else (tx\<lparr>dbRows := Some (rows @ [(version, name)])\<rparr>, None)))"

definition delete_row :: "string \<Rightarrow> 'u tx_fn" where
  "delete_row version tx =
     (case call_fails tx of
        (tx, True) \<Rightarrow> (tx, Some ''delete failed'')
      | (tx, False) \<Rightarrow>
          (case dbRows tx of
             None \<Rightarrow> (tx, Some ''no such table'')
           | Some rows \<Rightarrow> (tx\<lparr>dbRows := Some (gm_delete version rows)\<rparr>, None)))"

definition apply_tx :: "'u migration \<Rightarrow> 'u tx_fn" where
  "apply_tx m tx =
     (case run_body (mgUp m) tx of
        (tx, Some e) \<Rightarrow> (tx, Some e)
      | (tx, None) \<Rightarrow> insert_row (mgVersion m) (mgName m) tx)"

definition revert_tx :: "'u migration \<Rightarrow> 'u tx_fn" where
  "revert_tx m tx =
     (case run_body (mgDown m) tx of
        (tx, Some e) \<Rightarrow> (tx, Some e)
      | (tx, None) \<Rightarrow> delete_row (mgVersion m) tx)"

definition apply_migration :: "'u migration \<Rightarrow> 'u database \<Rightarrow> 'u database \<times> migrate_err option" where
  "apply_migration m d = inTx d m (apply_tx m)"

definition revert_migration :: "'u migration \<Rightarrow> 'u database \<Rightarrow> 'u database \<times> migrate_err option" where
  "revert_migration m d = inTx d m (revert_tx m)"

section \<open>Run and Rollback\<close>

text \<open>The last loop of both: the steps in order, stopping at the first error with what was done.\<close>

fun step_all ::
    "('m \<Rightarrow> 'd \<Rightarrow> 'd \<times> 'e option) \<Rightarrow> 'm list \<Rightarrow> 'd \<Rightarrow> 'd \<times> 'm list \<times> 'e option" where
  "step_all step [] d = (d, [], None)"
| "step_all step (m # ms) d =
     (case step m d of
        (d, Some e) \<Rightarrow> (d, [], Some e)
      | (d, None) \<Rightarrow> (case step_all step ms d of (d, done, e) \<Rightarrow> (d, m # done, e)))"

definition highest :: "string list \<Rightarrow> string" where
  "highest vs = foldl (\<lambda>h v. if v > h then v else h) [] vs"

fun pending_of :: "string list \<Rightarrow> 'u migration list \<Rightarrow> (migrate_err, 'u migration list) result" where
  "pending_of applied [] = Ok []"
| "pending_of applied (m # ms) =
     (if mgVersion m \<in> set applied then pending_of applied ms
      else if mgVersion m < highest applied
      then Err (OutOfOrder (mgVersion m) (mgName m) (highest applied))
      else (case pending_of applied ms of Err e \<Rightarrow> Err e | Ok ps \<Rightarrow> Ok (m # ps)))"

definition Run ::
    "'u database \<Rightarrow> 'u migration list \<Rightarrow> 'u database \<times> 'u migration list \<times> migrate_err option" where
  "Run d ms =
     (case prepare d ms of
        (d, Err e) \<Rightarrow> (d, [], Some e)
      | (d, Ok ordered) \<Rightarrow>
          (case appliedVersions d of
             (d, Err e) \<Rightarrow> (d, [], Some e)
           | (d, Ok applied) \<Rightarrow>
               (case pending_of applied ordered of
                  Err e \<Rightarrow> (d, [], Some e)
                | Ok pending \<Rightarrow> step_all apply_migration pending d)))"

fun resolve_undo :: "(string, 'u migration) gomap \<Rightarrow> string list \<Rightarrow> (migrate_err, 'u migration list) result" where
  "resolve_undo byVersion [] = Ok []"
| "resolve_undo byVersion (v # vs) =
     (case map_of byVersion v of
        None \<Rightarrow> Err (MissingMigration v)
      | Some m \<Rightarrow> (case resolve_undo byVersion vs of Err e \<Rightarrow> Err e | Ok ms \<Rightarrow> Ok (m # ms)))"

definition by_version :: "'u migration list \<Rightarrow> (string, 'u migration) gomap" where
  "by_version ms = foldl (\<lambda>out m. gm_set (mgVersion m) m out) [] ms"

definition rollback_targets :: "string list \<Rightarrow> string \<Rightarrow> string list" where
  "rollback_targets applied toVersion = rev (sort (filter (\<lambda>v. v > toVersion) applied))"

definition Rollback ::
    "'u database \<Rightarrow> 'u migration list \<Rightarrow> string \<Rightarrow> 'u database \<times> 'u migration list \<times> migrate_err option" where
  "Rollback d ms toVersion =
     (case prepare d ms of
        (d, Err e) \<Rightarrow> (d, [], Some e)
      | (d, Ok ordered) \<Rightarrow>
          (case appliedVersions d of
             (d, Err e) \<Rightarrow> (d, [], Some e)
           | (d, Ok applied) \<Rightarrow>
               (case resolve_undo (by_version ordered) (rollback_targets applied toVersion) of
                  Err e \<Rightarrow> (d, [], Some e)
                | Ok undo \<Rightarrow> step_all revert_migration undo d)))"

section \<open>The command\<close>

datatype cmd_err =
    CmdSliced
  | CmdNoDatabase
  | CmdUnknownTarget string
  | CmdOutput
  | CmdMigrate migrate_err
  | CmdReadApplied

definition report :: "writer \<Rightarrow> 'u migration list \<Rightarrow> writer \<times> bool" where
  "report w done =
     (if done = [] then Fprint (''up to date; no migrations applied'' @ [CHR 0x0A]) w
      else foldl (\<lambda>(w, ok) m. if ok
          then Fprint (''applied '' @ mgVersion m @ '' '' @ mgName m @ [CHR 0x0A]) w else (w, ok))
        (w, True) done)"

definition reported ::
    "writer \<Rightarrow> 'u database \<times> 'u migration list \<times> migrate_err option \<Rightarrow>
     'u database \<times> writer \<times> cmd_err option" where
  "reported w r =
     (case r of (d, done, e) \<Rightarrow>
        (case report w done of (w, ok) \<Rightarrow>
           (d, w, case e of Some e \<Rightarrow> Some (CmdMigrate e) | None \<Rightarrow> if ok then None else Some CmdOutput)))"

definition readApplied :: "'u database \<Rightarrow> 'u database \<times> (cmd_err, string list) result" where
  "readApplied d =
     (case call_fails d of
        (d, True) \<Rightarrow> (d, Err CmdReadApplied)
      | (d, False) \<Rightarrow>
          (case dbRows d of
             None \<Rightarrow> (d, Err CmdReadApplied)
           | Some rows \<Rightarrow> (d, Ok (sort (map fst rows)))))"

definition subset_to :: "string list \<Rightarrow> string \<Rightarrow> 'u migration list \<Rightarrow> 'u migration list" where
  "subset_to applied target ms =
     sort_key mgVersion (filter (\<lambda>m. mgVersion m \<le> target \<and> mgVersion m \<notin> set applied) ms)"

definition runMigrate ::
    "bool \<Rightarrow> 'u migration list \<Rightarrow> 'u database option \<Rightarrow> writer \<Rightarrow> string \<Rightarrow>
     'u database option \<times> writer \<times> cmd_err option" where
  "runMigrate sliced ms db out target =
     (if sliced then (db, out, Some CmdSliced)
      else if ms = [] then
        (case Fprint (''no migrations declared; nothing to do'' @ [CHR 0x0A]) out of
           (out, ok) \<Rightarrow> (db, out, if ok then None else Some CmdOutput))
      else case db of
        None \<Rightarrow> (None, out, Some CmdNoDatabase)
      | Some d \<Rightarrow>
          if target \<noteq> [] \<and> \<not> list_ex (\<lambda>m. mgVersion m = target) ms
          then (Some d, out, Some (CmdUnknownTarget target))
          else (case Ensure d of
             (d, Some e) \<Rightarrow> (Some d, out, Some (CmdMigrate e))
           | (d, None) \<Rightarrow>
          (case readApplied d of
             (d, Err e) \<Rightarrow> (Some d, out, Some e)
           | (d, Ok applied) \<Rightarrow>
               (let headline = (if target = [] then ''migrating forward ('' @ Itoa (length ms) @ '' declared)''
                      else if target \<notin> set applied then ''migrating forward to '' @ target
                      else ''rolling back to '' @ target @ '' (exclusive)'')
                in case Fprint (headline @ [CHR 0x0A]) out of
                     (out, False) \<Rightarrow> (Some d, out, Some CmdOutput)
                   | (out, True) \<Rightarrow>
                       (case reported out
                           (if target = [] then Run d ms
                            else if target \<notin> set applied then Run d (subset_to applied target ms)
                            else Rollback d ms target) of
                          (d, out, e) \<Rightarrow> (Some d, out, e))))))"

end
