(* ===== verification/Migrate_Correct.thy ===== *)
theory Migrate_Correct
  imports Migrate "HOL-Library.Sublist"
begin

text \<open>
  What the migration engine guarantees, for every sequence of server failures: a step changes the
  data and its record together or not at all, \<open>Run\<close> applies exactly the first missing migrations
  in version order, a rejected set leaves the database alone, a second run does nothing,
  \<open>Rollback\<close> takes back exactly the newer ones, and undoes what \<open>Run\<close> did.
\<close>

section \<open>Steps as all-or-nothing effects\<close>

text \<open>What is observed of a database: the data and the recorded versions (none without a table).\<close>

definition rows_of :: "'u database \<Rightarrow> (string, string) gomap" where
  "rows_of d = (case dbRows d of None \<Rightarrow> [] | Some rows \<Rightarrow> rows)"

definition core :: "'u database \<Rightarrow> 'u \<times> (string, string) gomap" where
  "core d = (dbUser d, rows_of d)"

definition versions :: "'u database \<Rightarrow> string list" where
  "versions d = map fst (rows_of d)"

fun effects :: "('m \<Rightarrow> 'c \<Rightarrow> 'c option) \<Rightarrow> 'm list \<Rightarrow> 'c \<Rightarrow> 'c option" where
  "effects eff [] c = Some c"
| "effects eff (m # ms) c = (case eff m c of None \<Rightarrow> None | Some c \<Rightarrow> effects eff ms c)"

lemma effects_append:
  "effects eff (xs @ ys) c = (case effects eff xs c of None \<Rightarrow> None | Some c \<Rightarrow> effects eff ys c)"
  by (induction xs arbitrary: c) (auto split: option.splits)

text \<open>
  A transactional step: it reports success and has its effect, or reports an error and has none;
  on a healthy server it succeeds whenever the effect is defined.
\<close>

locale atomic_step =
  fixes step :: "'m \<Rightarrow> 'd \<Rightarrow> 'd \<times> 'e option"
    and observe :: "'d \<Rightarrow> 'c"
    and effect :: "'m \<Rightarrow> 'c \<Rightarrow> 'c option"
    and healthy :: "'d \<Rightarrow> bool"
  assumes step_ok: "step m d = (d', None) \<Longrightarrow> effect m (observe d) = Some (observe d')"
    and step_err: "step m d = (d', Some e) \<Longrightarrow> observe d' = observe d"
    and step_healthy: "healthy d \<Longrightarrow> effect m (observe d) = Some c \<Longrightarrow>
      \<exists>d'. step m d = (d', None) \<and> healthy d'"
begin

lemma step_all_prefix:
  "step_all step ms d = (d', dn, e) \<Longrightarrow>
     prefix dn ms \<and> effects effect dn (observe d) = Some (observe d') \<and> (e = None \<longrightarrow> dn = ms)"
proof (induction ms arbitrary: d dn)
  case (Cons m ms)
  obtain d1 e1 where s: "step m d = (d1, e1)" by fastforce
  show ?case
  proof (cases e1)
    case None
    then obtain dn' where r: "step_all step ms d1 = (d', dn', e)" "dn = m # dn'"
      using Cons.prems s by (auto split: prod.splits)
    from Cons.IH [OF r(1)] step_ok s None r(2) show ?thesis by simp
  next
    case (Some x)
    then show ?thesis using Cons.prems s step_err by auto
  qed
qed simp

lemma step_all_healthy:
  "healthy d \<Longrightarrow> effects effect ms (observe d) = Some c \<Longrightarrow>
     \<exists>d'. step_all step ms d = (d', ms, None) \<and> observe d' = c \<and> healthy d'"
proof (induction ms arbitrary: d)
  case (Cons m ms)
  then obtain c1 where c1: "effect m (observe d) = Some c1" by (auto split: option.splits)
  then obtain d1 where d1: "step m d = (d1, None)" "healthy d1" using step_healthy Cons.prems(1) by blast
  then have "observe d1 = c1" using step_ok c1 by force
  then have "effects effect ms (observe d1) = Some c" using Cons.prems(2) c1 by simp
  from Cons.IH [OF d1(2) this] d1(1) show ?case by fastforce
qed simp

end

definition healthy_db :: "'u database \<Rightarrow> bool" where
  "healthy_db d \<longleftrightarrow> dbFaults d = [] \<and> dbRows d \<noteq> None"

definition body_effect :: "'u body option \<Rightarrow> 'u \<Rightarrow> 'u option" where
  "body_effect b u =
     (case b of None \<Rightarrow> None | Some f \<Rightarrow> (case f u of (u', None) \<Rightarrow> Some u' | (u', Some e) \<Rightarrow> None))"

definition up_effect ::
    "'u migration \<Rightarrow> 'u \<times> (string, string) gomap \<Rightarrow> ('u \<times> (string, string) gomap) option" where
  "up_effect m c =
     (case body_effect (mgUp m) (fst c) of
        None \<Rightarrow> None
      | Some u \<Rightarrow> if map_of (snd c) (mgVersion m) \<noteq> None then None
                else Some (u, snd c @ [(mgVersion m, mgName m)]))"

definition down_effect ::
    "'u migration \<Rightarrow> 'u \<times> (string, string) gomap \<Rightarrow> ('u \<times> (string, string) gomap) option" where
  "down_effect m c =
     (case body_effect (mgDown m) (fst c) of
        None \<Rightarrow> None
      | Some u \<Rightarrow> Some (u, gm_delete (mgVersion m) (snd c)))"

lemma call_fails_core:
  "call_fails d = (d', f) \<Longrightarrow> dbUser d' = dbUser d \<and> dbRows d' = dbRows d"
  by (auto simp: call_fails_def split: list.splits)

lemma call_fails_observed: "call_fails d = (d', f) \<Longrightarrow> core d' = core d"
  by (auto simp: core_def rows_of_def dest!: call_fails_core)

lemma call_fails_healthy: "dbFaults d = [] \<Longrightarrow> call_fails d = (d, False)"
  by (simp add: call_fails_def)

lemma inTx_err: "inTx d m fn = (d', Some e) \<Longrightarrow> core d' = core d"
  by (auto simp: inTx_def core_def rows_of_def split: prod.splits bool.splits option.splits
      dest!: call_fails_core)

lemma inTx_ok:
  "inTx d m fn = (d', None) \<Longrightarrow> \<exists>d0 tx. core d0 = core d \<and> fn d0 = (tx, None) \<and> core d' = core tx"
  by (auto simp: inTx_def split: prod.splits bool.splits option.splits dest!: call_fails_observed)

lemma inTx_healthy:
  "dbFaults d = [] \<Longrightarrow> fn d = (tx, None) \<Longrightarrow> dbFaults tx = [] \<Longrightarrow> inTx d m fn = (tx, None)"
  by (simp add: inTx_def call_fails_healthy)

lemma apply_tx_effect: "apply_tx m d = (tx, None) \<Longrightarrow> up_effect m (core d) = Some (core tx)"
  by (auto simp: apply_tx_def run_body_def insert_row_def up_effect_def body_effect_def core_def rows_of_def
      split: prod.splits bool.splits option.splits if_splits dest!: call_fails_core)

lemma revert_tx_effect: "revert_tx m d = (tx, None) \<Longrightarrow> down_effect m (core d) = Some (core tx)"
  by (auto simp: revert_tx_def run_body_def delete_row_def down_effect_def body_effect_def core_def rows_of_def
      split: prod.splits bool.splits option.splits if_splits dest!: call_fails_core)

lemma apply_tx_healthy:
  "healthy_db d \<Longrightarrow> up_effect m (core d) = Some c \<Longrightarrow> \<exists>tx. apply_tx m d = (tx, None) \<and> healthy_db tx"
  by (auto simp: healthy_db_def apply_tx_def run_body_def insert_row_def up_effect_def body_effect_def core_def
      rows_of_def call_fails_def split: prod.splits option.splits if_splits)

lemma revert_tx_healthy:
  "healthy_db d \<Longrightarrow> down_effect m (core d) = Some c \<Longrightarrow> \<exists>tx. revert_tx m d = (tx, None) \<and> healthy_db tx"
  by (auto simp: healthy_db_def revert_tx_def run_body_def delete_row_def down_effect_def body_effect_def core_def
      rows_of_def call_fails_def split: prod.splits option.splits if_splits)

interpretation up: atomic_step apply_migration core up_effect healthy_db
proof
  fix m :: "'a migration" and d d' e c
  show "apply_migration m d = (d', None) \<Longrightarrow> up_effect m (core d) = Some (core d')"
    unfolding apply_migration_def by (metis inTx_ok apply_tx_effect)
  show "apply_migration m d = (d', Some e) \<Longrightarrow> core d' = core d"
    unfolding apply_migration_def by (rule inTx_err)
  show "healthy_db d \<Longrightarrow> up_effect m (core d) = Some c \<Longrightarrow> \<exists>d'. apply_migration m d = (d', None) \<and> healthy_db d'"
    unfolding apply_migration_def by (metis apply_tx_healthy healthy_db_def inTx_healthy)
qed

interpretation down: atomic_step revert_migration core down_effect healthy_db
proof
  fix m :: "'a migration" and d d' e c
  show "revert_migration m d = (d', None) \<Longrightarrow> down_effect m (core d) = Some (core d')"
    unfolding revert_migration_def by (metis inTx_ok revert_tx_effect)
  show "revert_migration m d = (d', Some e) \<Longrightarrow> core d' = core d"
    unfolding revert_migration_def by (rule inTx_err)
  show "healthy_db d \<Longrightarrow> down_effect m (core d) = Some c \<Longrightarrow> \<exists>d'. revert_migration m d = (d', None) \<and> healthy_db d'"
    unfolding revert_migration_def by (metis revert_tx_healthy healthy_db_def inTx_healthy)
qed

section \<open>Validation and reading\<close>

definition valid_set :: "'u migration list \<Rightarrow> bool" where
  "valid_set ms \<longleftrightarrow>
     list_all (\<lambda>m. mgVersion m \<noteq> [] \<and> mgUp m \<noteq> None \<and> mgDown m \<noteq> None \<and>
       length (mgVersion m) = length (first_version ms)) ms \<and> distinct (map mgVersion ms)"

lemma check_set_None:
  "check_set w f seen ms = None \<longleftrightarrow>
     list_all (\<lambda>m. mgVersion m \<noteq> [] \<and> mgUp m \<noteq> None \<and> mgDown m \<noteq> None \<and> length (mgVersion m) = w) ms \<and>
     distinct (map mgVersion ms) \<and> set (map mgVersion ms) \<inter> dom (map_of seen) = {}"
proof (induction ms arbitrary: seen)
  case (Cons m ms)
  show ?case
  proof (cases "mgVersion m \<noteq> [] \<and> mgUp m \<noteq> None \<and> mgDown m \<noteq> None \<and> map_of seen (mgVersion m) = None \<and>
      length (mgVersion m) = w")
    case True
    then have "check_set w f seen (m # ms) = check_set w f (gm_set (mgVersion m) m seen) ms" by auto
    moreover have "dom (map_of (gm_set (mgVersion m) m seen)) = insert (mgVersion m) (dom (map_of seen))"
      by (simp add: gomap_simps)
    ultimately show ?thesis using True Cons.IH [of "gm_set (mgVersion m) m seen"] by auto
  next
    case False
    then have "check_set w f seen (m # ms) \<noteq> None" by (cases "map_of seen (mgVersion m)") auto
    with False show ?thesis by (auto simp del: check_set.simps)
  qed
qed simp

lemma check_set_valid: "check_set (length (first_version ms)) (first_version ms) [] ms = None \<longleftrightarrow> valid_set ms"
  by (auto simp: check_set_None valid_set_def)

lemma ensureTable_core: "ensureTable d = (d', e) \<Longrightarrow> core d' = core d"
  by (auto simp: ensureTable_def core_def rows_of_def split: prod.splits bool.splits option.splits
      dest!: call_fails_core)

lemma ensureTable_rows: "ensureTable d = (d', None) \<Longrightarrow> dbRows d' \<noteq> None"
  by (auto simp: ensureTable_def split: prod.splits bool.splits)

lemma prepare_core: "prepare d ms = (d', r) \<Longrightarrow> core d' = core d"
  by (auto simp: prepare_def split: option.splits prod.splits dest!: ensureTable_core)

lemma prepare_Ok: "prepare d ms = (d', Ok ordered) \<Longrightarrow> valid_set ms \<and> ordered = sort_key mgVersion ms \<and> dbRows d' \<noteq> None"
  by (auto simp: prepare_def check_set_valid [symmetric] split: option.splits prod.splits dest!: ensureTable_rows)

lemma appliedVersions_core: "appliedVersions d = (d', r) \<Longrightarrow> core d' = core d"
  by (auto simp: appliedVersions_def core_def rows_of_def split: prod.splits bool.splits option.splits
      dest!: call_fails_core)

lemma appliedVersions_Ok: "appliedVersions d = (d', Ok vs) \<Longrightarrow> vs = sort (versions d) \<and> dbRows d' = dbRows d"
  by (auto simp: appliedVersions_def versions_def rows_of_def split: prod.splits bool.splits option.splits
      dest!: call_fails_core)

lemma highest_ge: "v \<in> set vs \<Longrightarrow> v \<le> highest vs"
proof -
  have "(\<forall>v \<in> set vs. v \<le> foldl (\<lambda>h v. if v > h then v else h) h vs) \<and> h \<le> foldl (\<lambda>h v. if v > h then v else h) h vs" for h
  proof (induction vs arbitrary: h)
    case (Cons v vs)
    show ?case using Cons [of "if v > h then v else h"] by (auto split: if_splits)
  qed simp
  then show "v \<in> set vs \<Longrightarrow> v \<le> highest vs" by (simp add: highest_def)
qed

lemma highest_mem: "highest vs \<in> insert [] (set vs)"
proof -
  have "foldl (\<lambda>h v. if v > h then v else h) h vs \<in> insert h (set vs)" for h
  proof (induction vs arbitrary: h)
    case (Cons v vs)
    show ?case using Cons [of "if v > h then v else h"] by (auto split: if_splits)
  qed simp
  then show ?thesis by (simp add: highest_def)
qed

lemma pending_of_Ok:
  "pending_of applied ms = Ok ps \<longleftrightarrow>
     ps = filter (\<lambda>m. mgVersion m \<notin> set applied) ms \<and> list_all (\<lambda>m. highest applied \<le> mgVersion m) ps"
proof (induction ms arbitrary: ps)
  case (Cons m ms)
  show ?case
  proof (cases "pending_of applied ms")
    case (Inl e)
    then have "\<nexists>ps. pending_of applied ms = Ok ps" by simp
    then have "\<not> list_all (\<lambda>m. highest applied \<le> mgVersion m) (filter (\<lambda>m. mgVersion m \<notin> set applied) ms)"
      using Cons.IH by blast
    then show ?thesis using Inl by auto
  next
    case (Inr qs)
    then have "qs = filter (\<lambda>m. mgVersion m \<notin> set applied) ms \<and> list_all (\<lambda>m. highest applied \<le> mgVersion m) qs"
      using Cons.IH by blast
    then show ?thesis using Inr by auto
  qed
qed auto

section \<open>Run\<close>

definition pending :: "'u database \<Rightarrow> 'u migration list \<Rightarrow> 'u migration list" where
  "pending d ms = filter (\<lambda>m. mgVersion m \<notin> set (versions d)) (sort_key mgVersion ms)"

lemma core_versions: "core d = core d' \<Longrightarrow> versions d = versions d'"
  by (simp add: core_def versions_def)

lemma core_pending: "core d = core d' \<Longrightarrow> pending d ms = pending d' ms"
  by (simp add: pending_def core_versions [of d d'])

text \<open>The three ways a run can go: refused, out of order, or through the pending list.\<close>

lemma Run_cases:
  assumes "Run d ms = (d', dn, e)"
  obtains (refused) x where "dn = []" "e = Some x" "core d' = core d"
  | (steps) d1 where "valid_set ms" "core d1 = core d" "dbRows d1 \<noteq> None"
      "list_all (\<lambda>m. highest (sort (versions d)) \<le> mgVersion m) (pending d ms)"
      "step_all apply_migration (pending d ms) d1 = (d', dn, e)"
proof -
  obtain d1 r1 where p: "prepare d ms = (d1, r1)" by fastforce
  have c1: "core d1 = core d" using prepare_core [OF p] .
  show thesis
  proof (cases r1)
    case (Inl x)
    then have "Run d ms = (d1, [], Some x)" using p by (simp add: Run_def)
    then show thesis using refused [of x] assms c1 by simp
  next
    case (Inr ordered)
    obtain d2 r2 where a: "appliedVersions d1 = (d2, r2)" by fastforce
    have c2: "core d2 = core d" using appliedVersions_core [OF a] c1 by simp
    have v: "valid_set ms" "ordered = sort_key mgVersion ms" "dbRows d1 \<noteq> None" using prepare_Ok p Inr by blast+
    show thesis
    proof (cases r2)
      case (Inl x)
      then have "Run d ms = (d2, [], Some x)" using p Inr a by (simp add: Run_def)
      then show thesis using refused [of x] assms c2 by simp
    next
      case (Inr applied)
      then have ap: "applied = sort (versions d)" "dbRows d2 = dbRows d1"
        using appliedVersions_Ok a core_versions [OF c1] by force+
      have run: "Run d ms = (case pending_of applied ordered of Err x \<Rightarrow> (d2, [], Some x)
          | Ok ps \<Rightarrow> step_all apply_migration ps d2)"
        using p \<open>r1 = Ok ordered\<close> a Inr by (simp add: Run_def)
      show thesis
      proof (cases "pending_of applied ordered")
        case (Inl x)
        then show thesis using refused [of x] assms run c2 by simp
      next
        case (Inr ps)
        then have "ps = pending d ms" "list_all (\<lambda>m. highest (sort (versions d)) \<le> mgVersion m) ps"
          using ap v(2) by (auto simp: pending_of_Ok pending_def)
        then show thesis using steps [OF v(1) c2] ap(2) v(3) assms run Inr by simp
      qed
    qed
  qed
qed

lemma up_effect_rows:
  "up_effect m c = Some c' \<Longrightarrow> map fst (snd c') = map fst (snd c) @ [mgVersion m] \<and> (gm_ok (snd c) \<longrightarrow> gm_ok (snd c'))"
  by (auto simp: up_effect_def map_of_eq_None_iff split: option.splits if_splits)

lemma up_effects_versions:
  "effects up_effect dn c = Some c' \<Longrightarrow> map fst (snd c') = map fst (snd c) @ map mgVersion dn"
proof (induction dn arbitrary: c)
  case (Cons m dn)
  then obtain c1 where c1: "up_effect m c = Some c1" "effects up_effect dn c1 = Some c'"
    by (auto split: option.splits)
  with Cons.IH [OF c1(2)] up_effect_rows [OF c1(1)] show ?case by simp
qed simp

lemma up_effects_ok: "effects up_effect dn c = Some c' \<Longrightarrow> gm_ok (snd c) \<Longrightarrow> gm_ok (snd c')"
proof (induction dn arbitrary: c)
  case (Cons m dn)
  then obtain c1 where c1: "up_effect m c = Some c1" "effects up_effect dn c1 = Some c'"
    by (auto split: option.splits)
  with Cons.IH [OF c1(2)] up_effect_rows [OF c1(1)] Cons.prems(2) show ?case by blast
qed simp

lemma Run_effect:
  assumes "Run d ms = (d', dn, e)"
  shows "prefix dn (pending d ms) \<and> effects up_effect dn (core d) = Some (core d') \<and>
    (e = None \<longrightarrow> valid_set ms \<and> dn = pending d ms)"
  using assms
proof (cases rule: Run_cases)
  case (steps d1)
  from up.step_all_prefix [OF steps(5)] steps(1,2) show ?thesis by simp
qed simp

lemma Run_versions:
  assumes "Run d ms = (d', dn, e)"
  shows "versions d' = versions d @ map mgVersion dn" and "gm_ok (rows_of d) \<Longrightarrow> gm_ok (rows_of d')"
  using up_effects_versions [of dn "core d" "core d'"] up_effects_ok [of dn "core d" "core d'"] Run_effect [OF assms]
  by (simp_all add: core_def versions_def)

section \<open>Rollback\<close>

lemma by_version_lookup:
  assumes "distinct (map mgVersion ms)"
  shows "map_of (by_version ms) v = Some m \<longleftrightarrow> m \<in> set ms \<and> mgVersion m = v"
proof -
  have "map_of (by_version ms) v = map_of (map (\<lambda>m. (mgVersion m, m)) ms) v"
    unfolding by_version_def foldl_gm_set_lookup [OF assms] by (simp split: option.splits)
  moreover have "distinct (map fst (map (\<lambda>m. (mgVersion m, m)) ms))" using assms by (simp add: comp_def)
  ultimately show ?thesis by (auto simp: map_of_eq_Some_iff)
qed

lemma resolve_undo_Ok:
  "resolve_undo bv vs = Ok us \<longleftrightarrow> list_all2 (\<lambda>v m. map_of bv v = Some m) vs us"
proof (induction vs arbitrary: us)
  case (Cons v vs)
  show ?case by (cases us) (auto simp: Cons.IH [symmetric] split: option.splits sum.splits)
qed auto

lemma resolve_undo_versions:
  assumes "distinct (map mgVersion ms)" and "resolve_undo (by_version ms) vs = Ok us"
  shows "map mgVersion us = vs \<and> set us \<subseteq> set ms"
proof -
  from assms(2) have "list_all2 (\<lambda>v m. map_of (by_version ms) v = Some m) vs us" by (simp add: resolve_undo_Ok)
  then show ?thesis by (induction rule: list_all2_induct) (auto simp: by_version_lookup [OF assms(1)])
qed

lemma resolve_undo_known:
  assumes "distinct (map mgVersion ms)" and "set us \<subseteq> set ms"
  shows "resolve_undo (by_version ms) (map mgVersion us) = Ok us"
  using assms(2) by (induction us) (auto simp: by_version_lookup [OF assms(1), THEN iffD2])

lemma valid_set_sorted: "valid_set ms \<Longrightarrow> distinct (map mgVersion (sort_key mgVersion ms))"
  by (simp add: valid_set_def distinct_map_sort_key)

lemma Rollback_cases:
  assumes "Rollback d ms t = (d', dn, e)"
  obtains (refused) x where "dn = []" "e = Some x" "core d' = core d"
  | (steps) d1 us where "valid_set ms" "core d1 = core d" "dbRows d1 \<noteq> None"
      "map mgVersion us = rollback_targets (sort (versions d)) t" "set us \<subseteq> set ms"
      "step_all revert_migration us d1 = (d', dn, e)"
proof -
  obtain d1 r1 where p: "prepare d ms = (d1, r1)" by fastforce
  have c1: "core d1 = core d" using prepare_core [OF p] .
  show thesis
  proof (cases r1)
    case (Inl x)
    then have "Rollback d ms t = (d1, [], Some x)" using p by (simp add: Rollback_def)
    then show thesis using refused [of x] assms c1 by simp
  next
    case (Inr ordered)
    obtain d2 r2 where a: "appliedVersions d1 = (d2, r2)" by fastforce
    have c2: "core d2 = core d" using appliedVersions_core [OF a] c1 by simp
    have v: "valid_set ms" "ordered = sort_key mgVersion ms" "dbRows d1 \<noteq> None" using prepare_Ok p Inr by blast+
    show thesis
    proof (cases r2)
      case (Inl x)
      then have "Rollback d ms t = (d2, [], Some x)" using p Inr a by (simp add: Rollback_def)
      then show thesis using refused [of x] assms c2 by simp
    next
      case (Inr applied)
      then have ap: "applied = sort (versions d)" "dbRows d2 = dbRows d1"
        using appliedVersions_Ok a core_versions [OF c1] by force+
      have run: "Rollback d ms t = (case resolve_undo (by_version ordered) (rollback_targets applied t) of
          Err x \<Rightarrow> (d2, [], Some x) | Ok us \<Rightarrow> step_all revert_migration us d2)"
        using p \<open>r1 = Ok ordered\<close> a Inr by (simp add: Rollback_def)
      show thesis
      proof (cases "resolve_undo (by_version ordered) (rollback_targets applied t)")
        case (Inl x)
        then show thesis using refused [of x] assms run c2 by simp
      next
        case (Inr us)
        then have "map mgVersion us = rollback_targets (sort (versions d)) t" "set us \<subseteq> set ms"
          using resolve_undo_versions [OF valid_set_sorted [OF v(1)]] ap v(2) by fastforce+
        then show thesis using steps [OF v(1) c2] ap(2) v(3) assms run Inr by simp
      qed
    qed
  qed
qed

lemma down_effect_rows:
  "down_effect m c = Some c' \<Longrightarrow> map fst (snd c') = filter (\<lambda>v. v \<noteq> mgVersion m) (map fst (snd c))"
proof -
  have "map fst (gm_delete k rows) = filter (\<lambda>v. v \<noteq> k) (map fst rows)" for k :: string and rows :: "(string, string) gomap"
    by (induction rows) (auto simp: gm_delete_def)
  then show "down_effect m c = Some c' \<Longrightarrow> map fst (snd c') = filter (\<lambda>v. v \<noteq> mgVersion m) (map fst (snd c))"
    by (auto simp: down_effect_def split: option.splits)
qed

lemma down_effects_versions:
  "effects down_effect us c = Some c' \<Longrightarrow> map fst (snd c') = filter (\<lambda>v. v \<notin> set (map mgVersion us)) (map fst (snd c))"
proof (induction us arbitrary: c)
  case (Cons m us)
  then obtain c1 where c1: "down_effect m c = Some c1" "effects down_effect us c1 = Some c'"
    by (auto split: option.splits)
  with Cons.IH [OF c1(2)] down_effect_rows [OF c1(1)] show ?case
    by (auto simp: conj_commute intro: filter_cong)
qed simp

lemma Rollback_effect:
  assumes "Rollback d ms t = (d', dn, e)"
  shows "prefix (map mgVersion dn) (rollback_targets (sort (versions d)) t) \<and>
    effects down_effect dn (core d) = Some (core d') \<and>
    versions d' = filter (\<lambda>v. v \<notin> set (map mgVersion dn)) (versions d) \<and>
    (e = None \<longrightarrow> map mgVersion dn = rollback_targets (sort (versions d)) t)"
  using assms
proof (cases rule: Rollback_cases)
  case (refused x)
  then show ?thesis using core_versions [of d' d] by simp
next
  case (steps d1 us)
  have r: "prefix dn us" "effects down_effect dn (core d) = Some (core d')" "e = None \<longrightarrow> dn = us"
    using down.step_all_prefix [OF steps(6)] steps(2) by simp_all
  moreover have "prefix (map mgVersion dn) (map mgVersion us)" using r(1) by (auto simp: prefix_def)
  ultimately show ?thesis
    using steps(4) down_effects_versions [OF r(2)] by (auto simp: core_def versions_def)
qed

section \<open>On a healthy server\<close>

lemma prepare_healthy:
  "dbFaults d = [] \<Longrightarrow> valid_set ms \<Longrightarrow>
     prepare d ms = (d\<lparr>dbRows := Some (rows_of d)\<rparr>, Ok (sort_key mgVersion ms))"
  by (simp add: prepare_def check_set_valid [symmetric] ensureTable_def call_fails_def rows_of_def)

lemma appliedVersions_healthy:
  "healthy_db d \<Longrightarrow> appliedVersions d = (d, Ok (sort (versions d)))"
  by (auto simp: appliedVersions_def call_fails_def healthy_db_def versions_def rows_of_def)

lemma table_created:
  "dbFaults d = [] \<Longrightarrow> healthy_db (d\<lparr>dbRows := Some (rows_of d)\<rparr>)"
  "core (d\<lparr>dbRows := Some (rows_of d)\<rparr>) = core d" "versions (d\<lparr>dbRows := Some (rows_of d)\<rparr>) = versions d"
  by (simp_all add: healthy_db_def core_def rows_of_def versions_def)

lemma Run_healthy:
  assumes "dbFaults d = []" and "valid_set ms"
    and "list_all (\<lambda>m. highest (sort (versions d)) \<le> mgVersion m) (pending d ms)"
    and "effects up_effect (pending d ms) (core d) = Some c"
  shows "\<exists>d'. Run d ms = (d', pending d ms, None) \<and> core d' = c"
proof -
  let ?d = "d\<lparr>dbRows := Some (rows_of d)\<rparr>"
  have "pending_of (sort (versions d)) (sort_key mgVersion ms) = Ok (pending d ms)"
    using assms(3) by (simp add: pending_of_Ok pending_def)
  then have "Run d ms = step_all apply_migration (pending d ms) ?d"
    using appliedVersions_healthy [OF table_created(1) [OF assms(1)]]
    by (simp add: Run_def prepare_healthy [OF assms(1,2)] table_created(3))
  moreover have "effects up_effect (pending d ms) (core ?d) = Some c" using assms(4) by (simp add: table_created(2))
  ultimately show ?thesis using up.step_all_healthy [OF table_created(1) [OF assms(1)]] by metis
qed

lemma Rollback_healthy:
  assumes "dbFaults d = []" and "valid_set ms" and "set us \<subseteq> set ms"
    and "map mgVersion us = rollback_targets (sort (versions d)) t"
    and "effects down_effect us (core d) = Some c"
  shows "\<exists>d'. Rollback d ms t = (d', us, None) \<and> core d' = c"
proof -
  let ?d = "d\<lparr>dbRows := Some (rows_of d)\<rparr>"
  have "resolve_undo (by_version (sort_key mgVersion ms)) (map mgVersion us) = Ok us"
    using assms(3) by (intro resolve_undo_known valid_set_sorted assms(2)) simp
  then have "Rollback d ms t = step_all revert_migration us ?d"
    using appliedVersions_healthy [OF table_created(1) [OF assms(1)]] assms(4)
    by (simp add: Rollback_def prepare_healthy [OF assms(1,2)] table_created(3))
  moreover have "effects down_effect us (core ?d) = Some c" using assms(5) by (simp add: table_created(2))
  ultimately show ?thesis using down.step_all_healthy [OF table_created(1) [OF assms(1)]] by metis
qed

lemma pending_nothing: "\<forall>m \<in> set ms. mgVersion m \<in> set (versions d) \<Longrightarrow> pending d ms = []"
  by (simp add: pending_def filter_empty_conv)

lemma pending_sorted: "sorted (map mgVersion (pending d ms))"
  unfolding pending_def by (rule sorted_filter) simp

definition reverses :: "'u migration \<Rightarrow> bool" where
  "reverses m \<longleftrightarrow> (\<forall>u u'. body_effect (mgUp m) u = Some u' \<longrightarrow> body_effect (mgDown m) u' = Some u)"

lemma undo_effects:
  "effects up_effect dn c = Some c' \<Longrightarrow> gm_ok (snd c) \<Longrightarrow> \<forall>m \<in> set dn. reverses m \<Longrightarrow>
     effects down_effect (rev dn) c' = Some c"
proof (induction dn arbitrary: c)
  case (Cons m dn)
  then obtain c1 where c1: "up_effect m c = Some c1" "effects up_effect dn c1 = Some c'"
    by (auto split: option.splits)
  have "gm_ok (snd c1)" using up_effect_rows [OF c1(1)] Cons.prems(2) by blast
  then have "effects down_effect (rev dn) c' = Some c1" using Cons.IH [OF c1(2)] Cons.prems(3) by simp
  moreover have "down_effect m c1 = Some c"
  proof -
    obtain u where u: "body_effect (mgUp m) (fst c) = Some u" "map_of (snd c) (mgVersion m) = None"
      "c1 = (u, snd c @ [(mgVersion m, mgName m)])"
      using c1(1) by (auto simp: up_effect_def split: option.splits if_splits)
    have "gm_delete (mgVersion m) (snd c @ [(mgVersion m, mgName m)]) = snd c"
      using u(2) by (auto simp: gm_delete_def filter_id_conv map_of_eq_None_iff image_iff)
    moreover have "body_effect (mgDown m) u = Some (fst c)"
      using u(1) Cons.prems(3) by (simp add: reverses_def)
    ultimately show ?thesis using u(3) by (simp add: down_effect_def)
  qed
  ultimately show ?case by (simp add: effects_append)
qed simp

lemma rollback_targets_fresh:
  assumes "sorted vs" and "\<And>v. v \<in> set old \<Longrightarrow> v \<le> t" and "\<And>v. v \<in> set vs \<Longrightarrow> t < v"
  shows "rollback_targets (sort (old @ vs)) t = rev vs"
proof -
  have "filter (\<lambda>v. v > t) (sort (old @ vs)) = sort (filter (\<lambda>v. v > t) (old @ vs))"
    by (simp add: filter_sort)
  also have "filter (\<lambda>v. v > t) (old @ vs) = vs"
    using assms(2,3) by (auto simp: filter_empty_conv not_less filter_id_conv)
  finally show ?thesis using assms(1) by (simp add: rollback_targets_def sorted_sort_id)
qed

lemma pending_above:
  assumes "valid_set ms" and "list_all (\<lambda>m. highest (sort (versions d)) \<le> mgVersion m) (pending d ms)"
    and "m \<in> set (pending d ms)"
  shows "highest (sort (versions d)) < mgVersion m"
proof -
  have "mgVersion m \<notin> set (versions d)" "m \<in> set ms" using assms(3) by (auto simp: pending_def)
  moreover have "mgVersion m \<noteq> []" using assms(1) \<open>m \<in> set ms\<close> by (auto simp: valid_set_def list_all_iff)
  ultimately have "mgVersion m \<noteq> highest (sort (versions d))"
    using highest_mem [of "sort (versions d)"] by auto
  moreover have "highest (sort (versions d)) \<le> mgVersion m" using assms(2,3) by (auto simp: list_all_iff)
  ultimately show ?thesis by simp
qed

section \<open>The command\<close>

lemma readApplied_Ok: "readApplied d = (d', Ok vs) \<Longrightarrow> vs = sort (versions d) \<and> core d' = core d"
  by (auto simp: readApplied_def versions_def core_def rows_of_def split: prod.splits bool.splits option.splits
      dest!: call_fails_core)

lemma reported_None: "reported w r = (d', w', None) \<Longrightarrow> \<exists>dn. r = (d', dn, None)"
  by (cases r) (auto simp: reported_def split: prod.splits option.splits)

lemma runMigrate_success:
  assumes "runMigrate False ms (Some d) out target = (Some d', out', None)" and "ms \<noteq> []" and "target \<noteq> []"
  shows "\<exists>m \<in> set ms. mgVersion m = target" and
    "\<exists>d2 dn. core d2 = core d \<and>
      (if target \<notin> set (versions d) then Run d2 (subset_to (sort (versions d)) target ms) = (d', dn, None)
       else Rollback d2 ms target = (d', dn, None))"
proof -
  show "\<exists>m \<in> set ms. mgVersion m = target"
    using assms by (auto simp: runMigrate_def list_ex_iff split: if_splits)
  then have known: "list_ex (\<lambda>m. mgVersion m = target) ms" by (auto simp: list_ex_iff)
  obtain d1 e1 where e: "Ensure d = (d1, e1)" by fastforce
  obtain d2 r2 where r: "readApplied d1 = (d2, r2)" by fastforce
  have "e1 = None" using assms known e by (auto simp: runMigrate_def split: option.splits)
  moreover obtain vs where vs: "r2 = Ok vs"
    using assms known e r by (cases r2) (auto simp: runMigrate_def split: option.splits)
  have c1: "core d1 = core d" using e unfolding Ensure_def by (rule ensureTable_core)
  have v: "vs = sort (versions d)" "core d2 = core d"
    using readApplied_Ok [of d1 d2 vs] r vs c1 core_versions [OF c1] by simp_all
  let ?r = "if target \<notin> set (versions d) then Run d2 (subset_to vs target ms) else Rollback d2 ms target"
  have "\<exists>w. \<exists>w'. reported w ?r = (d', w', None)"
    using assms known e r \<open>e1 = None\<close> vs v(1)
    by (auto simp: runMigrate_def Let_def split: prod.splits bool.splits if_splits)
  then obtain w w' where "reported w ?r = (d', w', None)" by blast
  from reported_None [OF this] obtain dn where "?r = (d', dn, None)" by blast
  then show "\<exists>d2 dn. core d2 = core d \<and>
      (if target \<notin> set (versions d) then Run d2 (subset_to (sort (versions d)) target ms) = (d', dn, None)
       else Rollback d2 ms target = (d', dn, None))"
    using v by (intro exI [of _ d2] exI [of _ dn]) (simp split: if_splits)
qed

section \<open>Properties\<close>

definition ex_mig :: "string \<Rightarrow> string list migration" where
  "ex_mig v = \<lparr>mgVersion = v, mgName = ''n'', mgUp = Some (\<lambda>u. (u @ [v], None)), mgDown = Some (\<lambda>u. (butlast u, None))\<rparr>"

definition ex_db :: "bool list \<Rightarrow> string list database" where
  "ex_db faults = \<lparr>dbUser = [''001''], dbRows = Some [(''001'', ''n'')], dbFaults = faults\<rparr>"



text \<open>a set that will be rejected is rejected while the data is untouched: a malformed set, or
  one with an unapplied migration that sorts before an applied one, gives an error, applies
  nothing, and leaves the data and the record as they were.\<close>

theorem Run_rejects_untouched:
  assumes "\<not> valid_set ms \<or>
    (\<exists>m \<in> set ms. mgVersion m \<notin> set (versions d) \<and> (\<exists>v \<in> set (versions d). mgVersion m < v))"
  shows "\<exists>d' x. Run d ms = (d', [], Some x) \<and> core d' = core d"
proof -
  obtain d' dn e where r: "Run d ms = (d', dn, e)" by (metis prod_cases3)
  from r show ?thesis
  proof (cases rule: Run_cases)
    case (steps d1)
    with assms obtain m v where m: "m \<in> set ms" "mgVersion m \<notin> set (versions d)" "v \<in> set (versions d)" "mgVersion m < v"
      by blast
    then have "m \<in> set (pending d ms)" by (simp add: pending_def)
    with steps(4) have "highest (sort (versions d)) \<le> mgVersion m" by (auto simp: list_all_iff)
    moreover have "v \<le> highest (sort (versions d))" using m(3) by (intro highest_ge) simp
    ultimately show ?thesis using m(4) by (meson leD order.trans)
  qed (use r in auto)
qed

theorem Run_rejects_untouched_witness:
  "\<exists>d' x. Run (ex_db []) [ex_mig ''001'', ex_mig ''000''] = (d', [], Some x) \<and> core d' = core (ex_db [])"
proof -
  have "\<exists>m \<in> set [ex_mig ''001'', ex_mig ''000'']. mgVersion m \<notin> set (versions (ex_db [])) \<and>
      (\<exists>v \<in> set (versions (ex_db [])). mgVersion m < v)" by code_simp
  then show ?thesis using Run_rejects_untouched by blast
qed

text \<open>C8: applying is idempotent and, on a healthy server, live: when the set is valid, nothing
  pending sorts before an applied version and every Up step succeeds, \<open>Run\<close> applies all of the
  pending migrations; run again, it reports nothing to do and changes nothing.\<close>

theorem Run_completes_and_is_idempotent:
  assumes "dbFaults d = []" and "valid_set ms"
    and "list_all (\<lambda>m. highest (sort (versions d)) \<le> mgVersion m) (pending d ms)"
    and "effects up_effect (pending d ms) (core d) = Some c"
  shows "\<exists>d'. Run d ms = (d', pending d ms, None) \<and> core d' = c \<and>
    (\<exists>d''. Run (d'\<lparr>dbFaults := []\<rparr>) ms = (d'', [], None) \<and> core d'' = core d')"
proof -
  obtain d' where d': "Run d ms = (d', pending d ms, None)" "core d' = c"
    using Run_healthy [OF assms] by blast
  let ?d = "d'\<lparr>dbFaults := []\<rparr>"
  have same: "core ?d = core d'" "versions ?d = versions d'" by (simp_all add: core_def versions_def rows_of_def)
  have "\<forall>m \<in> set ms. mgVersion m \<in> set (versions d')"
    using Run_versions(1) [OF d'(1)] by (auto simp: pending_def)
  then have none: "pending ?d ms = []" by (intro pending_nothing) (simp add: same(2))
  then show ?thesis using d' Run_healthy [of ?d ms "core ?d"] assms(2) same(1) by auto
qed

theorem Run_completes_and_is_idempotent_witness:
  "\<exists>d'. Run (ex_db []) [ex_mig ''001'', ex_mig ''002''] = (d', [ex_mig ''002''], None) \<and>
     core d' = ([''001'', ''002''], [(''001'', ''n''), (''002'', ''n'')])"
proof -
  have p: "pending (ex_db []) [ex_mig ''001'', ex_mig ''002''] = [ex_mig ''002'']"
    by (simp add: pending_def versions_def rows_of_def ex_db_def ex_mig_def)
  have v: "valid_set [ex_mig ''001'', ex_mig ''002'']"
    by (simp add: valid_set_def first_version_def ex_mig_def)
  have h: "list_all (\<lambda>m. highest (sort (versions (ex_db []))) \<le> mgVersion m) [ex_mig ''002'']" by code_simp
  have e: "effects up_effect [ex_mig ''002''] (core (ex_db [])) =
      Some ([''001'', ''002''], [(''001'', ''n''), (''002'', ''n'')])"
    by (simp add: up_effect_def body_effect_def core_def rows_of_def ex_db_def ex_mig_def)
  have f: "dbFaults (ex_db []) = []" by (simp add: ex_db_def)
  from Run_completes_and_is_idempotent [OF f v, unfolded p, OF h e] show ?thesis by blast
qed



text \<open>C10: rolling back to where a run started undoes it exactly, data and record, on a healthy
  server, when every Down step takes back its own Up step.\<close>

theorem Run_then_Rollback_restores:
  assumes "Run d ms = (d', dn, None)" and "gm_ok (rows_of d)" and "\<forall>m \<in> set ms. reverses m"
  shows "\<exists>d''. Rollback (d'\<lparr>dbFaults := []\<rparr>) ms (highest (sort (versions d))) = (d'', rev dn, None) \<and>
    core d'' = core d"
proof -
  let ?d = "d'\<lparr>dbFaults := []\<rparr>" and ?t = "highest (sort (versions d))"
  have same: "core ?d = core d'" "versions ?d = versions d'" by (simp_all add: core_def versions_def rows_of_def)
  from assms(1) have v: "valid_set ms" "dn = pending d ms" "effects up_effect dn (core d) = Some (core d')"
    using Run_effect by blast+
  have sub: "set (rev dn) \<subseteq> set ms" using v(2) by (auto simp: pending_def)
  have ge: "list_all (\<lambda>m. ?t \<le> mgVersion m) (pending d ms)"
    using assms(1) by (cases rule: Run_cases) auto
  have "rollback_targets (sort (versions d @ map mgVersion dn)) ?t = rev (map mgVersion dn)"
    using pending_above [OF v(1) ge] highest_ge [of _ "sort (versions d)"] pending_sorted [of d ms] v(2)
    by (intro rollback_targets_fresh) auto
  then have t: "map mgVersion (rev dn) = rollback_targets (sort (versions ?d)) ?t"
    using Run_versions(1) [OF assms(1)] same(2) by (simp add: rev_map)
  have "effects down_effect (rev dn) (core ?d) = Some (core d)"
    unfolding same(1) using undo_effects [OF v(3)] assms(2,3) sub by (auto simp: core_def)
  from Rollback_healthy [OF _ v(1) sub t this] show ?thesis by simp
qed

theorem Run_then_Rollback_restores_witness:
  "\<exists>d''. Rollback ((fst (Run (ex_db []) [ex_mig ''002'', ex_mig ''001'']))\<lparr>dbFaults := []\<rparr>) [ex_mig ''002'', ex_mig ''001'']
     (highest (sort (versions (ex_db [])))) = (d'', rev (fst (snd (Run (ex_db []) [ex_mig ''002'', ex_mig ''001'']))), None) \<and>
   core d'' = core (ex_db [])"
proof (rule Run_then_Rollback_restores)
  let ?r = "Run (ex_db []) [ex_mig ''002'', ex_mig ''001'']"
  have "snd (snd ?r) = None" by code_simp
  then show "?r = (fst ?r, fst (snd ?r), None)" by (metis prod.collapse)
  show "gm_ok (rows_of (ex_db []))" by (simp add: rows_of_def ex_db_def)
  show "\<forall>m \<in> set [ex_mig ''002'', ex_mig ''001'']. reverses m"
    by (auto simp: reverses_def body_effect_def ex_mig_def)
qed

text \<open>\<open>migrate -to\<close> ends where it was told to. After success the target version is recorded;
  when it was recorded before, exactly the newer versions are gone, and otherwise exactly the
  declared migrations up to it were added.\<close>

theorem migrate_to_reaches_target:
  assumes "runMigrate False ms (Some d) out target = (Some d', out', None)" and "ms \<noteq> []" and "target \<noteq> []"
  shows "target \<in> set (versions d') \<and>
    set (versions d') = (if target \<in> set (versions d) then {v \<in> set (versions d). v \<le> target}
      else set (versions d) \<union> {v \<in> set (map mgVersion ms). v \<le> target})"
proof -
  obtain m0 where m0: "m0 \<in> set ms" "mgVersion m0 = target" using runMigrate_success(1) [OF assms] by blast
  obtain d2 dn where d2: "core d2 = core d"
    and r: "if target \<notin> set (versions d) then Run d2 (subset_to (sort (versions d)) target ms) = (d', dn, None)
       else Rollback d2 ms target = (d', dn, None)"
    using runMigrate_success(2) [OF assms] by blast
  have v2: "versions d2 = versions d" using d2 by (rule core_versions)
  show ?thesis
  proof (cases "target \<in> set (versions d)")
    case True
    with r have rb: "Rollback d2 ms target = (d', dn, None)" by simp
    note b = Rollback_effect [OF rb]
    have gone: "set (map mgVersion dn) = {v \<in> set (versions d). target < v}"
      using b v2 by (simp add: rollback_targets_def)
    have "versions d' = filter (\<lambda>v. v \<notin> set (map mgVersion dn)) (versions d)" using b v2 by metis
    then have "set (versions d') = {v \<in> set (versions d). v \<le> target}"
      unfolding gone by (auto simp: not_less)
    with True show ?thesis by simp
  next
    case False
    with r have rn: "Run d2 (subset_to (sort (versions d)) target ms) = (d', dn, None)" by simp
    have "versions d' = versions d @ map mgVersion (pending d2 (subset_to (sort (versions d)) target ms))"
      using Run_versions(1) [OF rn] Run_effect [OF rn] v2 by simp
    moreover have "set (pending d2 (subset_to (sort (versions d)) target ms)) =
        {m \<in> set ms. mgVersion m \<le> target \<and> mgVersion m \<notin> set (versions d)}"
      using v2 by (auto simp: pending_def subset_to_def)
    ultimately have "set (versions d') = set (versions d) \<union> {v \<in> set (map mgVersion ms). v \<le> target}"
      by auto
    with False m0 show ?thesis by auto
  qed
qed

theorem migrate_to_reaches_target_witness:
  "set (versions (the (fst (runMigrate False [ex_mig ''001'', ex_mig ''002'', ex_mig ''003''] (Some (ex_db []))
     \<lparr>wrText = [], wrCap = None\<rparr> ''002'')))) = {''001'', ''002''}"
proof -
  let ?r = "runMigrate False [ex_mig ''001'', ex_mig ''002'', ex_mig ''003''] (Some (ex_db [])) \<lparr>wrText = [], wrCap = None\<rparr> ''002''"
  have "fst ?r \<noteq> None" "snd (snd ?r) = None" by code_simp+
  then have r: "?r = (Some (the (fst ?r)), fst (snd ?r), None)" by (metis option.collapse prod.collapse)
  have "set (versions (ex_db [])) = {''001''}" "''002'' \<notin> set (versions (ex_db []))" by (simp_all add: versions_def rows_of_def ex_db_def)
  with migrate_to_reaches_target [OF r]
  have "set (versions (the (fst ?r))) = {''001''} \<union> {v \<in> set (map mgVersion [ex_mig ''001'', ex_mig ''002'', ex_mig ''003'']). v \<le> ''002''}"
    by simp
  also have "\<dots> = {''001'', ''002''}" by (auto simp: ex_mig_def)
  finally show ?thesis .
qed

section \<open>An observation\<close>

text \<open>The report names a migration that was just rolled back as applied.\<close>

lemma rollback_reported_as_applied:
  "wrText (fst (snd (runMigrate False [ex_mig ''000'', ex_mig ''001'']
     (Some \<lparr>dbUser = [''000'', ''001''], dbRows = Some [(''000'', ''n''), (''001'', ''n'')], dbFaults = []\<rparr>)
     \<lparr>wrText = [], wrCap = None\<rparr> ''000''))) =
   ''rolling back to 000 (exclusive)'' @ [CHR 0x0A] @ ''applied 001 n'' @ [CHR 0x0A]"
  by code_simp

end
