(* ===== verification/Auth_Store.thy ===== *)
theory Auth_Store
  imports Go_Prelude
begin

text \<open>
  The in-memory authentication store (auth/memory.go) with the records it is given (auth/auth.go,
  auth/session.go, auth/browser.go).

  The store is a record of maps; each method is a function from the store to the new store and its
  result, run under the mutex and therefore one step. A digest is a string of 32 bytes and
  \<open>hmac.Equal\<close> is equality. Times are nanoseconds from Go's zero time. \<open>ctx\<close> is \<open>ctx.Err()\<close>:
  \<open>None\<close>, or why the context is done. A loop over a map that may stop early takes the order of
  iteration as an argument.
\<close>

section \<open>Data\<close>

datatype auth_err =
    ErrAuthentication
  | ErrRateLimited
  | ErrUnavailable
  | ErrDelivery
  | ErrUnsafeProduction
  | ErrSession
  | ErrPreAuth
  | Canceled
  | DeadlineExceeded
  | OtherErr string

type_synonym digest = string
type_synonym ctx_err = "auth_err option"

definition zeroDigest :: digest where
  "zeroDigest = replicate 32 (CHR 0x00)"

record identity =
  idID :: string
  idEmail :: string
  idCreatedAt :: gotime

record reservation =
  rvID :: string
  rvEmail :: string
  rvKeyID :: string
  rvPurpose :: string
  rvVerifier :: digest
  rvBinding :: digest
  rvIssuedAt :: gotime
  rvExpiresAt :: gotime
  rvSource :: string

record sessionRecord =
  srID :: string
  srIdentityID :: string
  srDigest :: digest
  srCSRFDigest :: digest
  srCreatedAt :: gotime
  srLastSeenAt :: gotime
  srExpiresAt :: gotime

record sessionProof =
  spID :: string
  spDigest :: digest
  spCSRFDigest :: digest
  spNow :: gotime

record verification =
  vfID :: string
  vfEmail :: string
  vfKeyID :: string
  vfPurpose :: string
  vfVerifier :: digest
  vfBinding :: digest
  vfNow :: gotime
  vfSource :: string
  vfIdentityID :: string
  vfSession :: sessionRecord

record preAuthRecord =
  prID :: string
  prSource :: string
  prDigest :: digest
  prCSRFDigest :: digest
  prIssuedAt :: gotime
  prExpiresAt :: gotime

record preAuthProof =
  ppID :: string
  ppDigest :: digest
  ppCSRFDigest :: digest
  ppNow :: gotime

section \<open>The store\<close>

definition addressSendLimit :: nat where "addressSendLimit = 5"
definition sourceSendLimit :: nat where "sourceSendLimit = 20"
definition challengeAttempts :: nat where "challengeAttempts = 5"
definition addressVerifyLimit :: nat where "addressVerifyLimit = 20"
definition sourceVerifyLimit :: nat where "sourceVerifyLimit = 100"
definition browserBootstrapLimit :: nat where "browserBootstrapLimit = 20"
definition budgetWindow :: duration where "budgetWindow = Hour"
definition minimumSendGap :: duration where "minimumSendGap = Minute"
definition sessionAbsoluteTTL :: duration where "sessionAbsoluteTTL = 7 * 24 * Hour"
definition sessionIdleTTL :: duration where "sessionIdleTTL = 24 * Hour"
definition preAuthTTL :: duration where "preAuthTTL = 10 * Minute"

lemmas limit_defs = addressSendLimit_def sourceSendLimit_def challengeAttempts_def addressVerifyLimit_def
  sourceVerifyLimit_def browserBootstrapLimit_def

record storedChallenge =
  scReservation :: reservation
  scAttempts :: nat
  scActive :: bool

record storedSession =
  ssRecord :: sessionRecord
  ssIdentity :: identity
  ssActive :: bool

type_synonym budget = "(string, gotime list) gomap"

record memoryStore =
  msCapacity :: nat
  msChallenges :: "(string, storedChallenge) gomap"
  msActive :: "(string, string) gomap"
  msIdentities :: "(string, identity) gomap"
  msSessions :: "(string, storedSession) gomap"
  msBrowserStates :: "(string, preAuthRecord) gomap"
  msAddressSends :: budget
  msSourceSends :: budget
  msBrowserBootstraps :: budget
  msAddressFailures :: budget
  msSourceVerifications :: budget

definition NewMemoryStore :: "int \<Rightarrow> (auth_err, memoryStore) result" where
  "NewMemoryStore capacity =
     (if capacity \<le> 0 then Err (OtherErr ''auth: memory-store capacity must be positive'')
      else Ok \<lparr>msCapacity = nat capacity, msChallenges = [], msActive = [], msIdentities = [],
        msSessions = [], msBrowserStates = [], msAddressSends = [], msSourceSends = [],
        msBrowserBootstraps = [], msAddressFailures = [], msSourceVerifications = []\<rparr>)"

definition entries :: "budget \<Rightarrow> string \<Rightarrow> gotime list" where
  "entries m k = (case map_of m k of None \<Rightarrow> [] | Some ts \<Rightarrow> ts)"

definition recent :: "gotime list \<Rightarrow> gotime \<Rightarrow> gotime list" where
  "recent ts now = dropWhile (\<lambda>t. t \<le> now - budgetWindow) ts"

definition prune_budget :: "gotime \<Rightarrow> budget \<Rightarrow> budget" where
  "prune_budget now m = gm_filterv (\<lambda>ts. ts \<noteq> []) (gm_mapv (\<lambda>_ ts. recent ts now) m)"

definition prune :: "gotime \<Rightarrow> memoryStore \<Rightarrow> memoryStore" where
  "prune now s =
     s\<lparr>msAddressSends := prune_budget now (msAddressSends s),
       msSourceSends := prune_budget now (msSourceSends s),
       msAddressFailures := prune_budget now (msAddressFailures s),
       msSourceVerifications := prune_budget now (msSourceVerifications s),
       msBrowserBootstraps := prune_budget now (msBrowserBootstraps s)\<rparr>"

definition challenge_key :: "reservation \<Rightarrow> string" where
  "challenge_key r = rvPurpose r @ [CHR 0x00] @ rvEmail r"

text \<open>The lookup \<open>m[k]\<close> of a string-valued map: the empty string when the key is absent.\<close>

definition get_str :: "(string, string) gomap \<Rightarrow> string \<Rightarrow> string" where
  "get_str m k = (case map_of m k of None \<Rightarrow> [] | Some v \<Rightarrow> v)"

definition drop_active :: "string \<Rightarrow> string \<Rightarrow> memoryStore \<Rightarrow> memoryStore" where
  "drop_active key cid s =
     (if get_str (msActive s) key = cid then s\<lparr>msActive := gm_delete key (msActive s)\<rparr> else s)"

definition reclaimBrowserState ::
    "(string, preAuthRecord) map_order \<Rightarrow> gotime \<Rightarrow> memoryStore \<Rightarrow> memoryStore \<times> bool" where
  "reclaimBrowserState it now s =
     (case find (\<lambda>(cid, st). \<not> now < prExpiresAt st) (it (msBrowserStates s)) of
        None \<Rightarrow> (s, False)
      | Some (cid, _) \<Rightarrow> (s\<lparr>msBrowserStates := gm_delete cid (msBrowserStates s)\<rparr>, True))"

definition reclaimChallenge ::
    "(string, storedChallenge) map_order \<Rightarrow> gotime \<Rightarrow> memoryStore \<Rightarrow> memoryStore \<times> bool" where
  "reclaimChallenge it now s =
     (case find (\<lambda>(cid, c). \<not> scActive c \<or> \<not> now < rvExpiresAt (scReservation c)) (it (msChallenges s)) of
        None \<Rightarrow> (s, False)
      | Some (cid, c) \<Rightarrow>
          (drop_active (challenge_key (scReservation c)) cid
             (s\<lparr>msChallenges := gm_delete cid (msChallenges s)\<rparr>), True))"

definition reclaimSession ::
    "(string, storedSession) map_order \<Rightarrow> gotime \<Rightarrow> memoryStore \<Rightarrow> memoryStore \<times> bool" where
  "reclaimSession it now s =
     (case find (\<lambda>(cid, x). \<not> ssActive x \<or> \<not> now < srExpiresAt (ssRecord x) \<or>
              \<not> now < srLastSeenAt (ssRecord x) + sessionIdleTTL) (it (msSessions s)) of
        None \<Rightarrow> (s, False)
      | Some (cid, _) \<Rightarrow> (s\<lparr>msSessions := gm_delete cid (msSessions s)\<rparr>, True))"

text \<open>Room for one more entry: below capacity, or at capacity after reclaiming one.\<close>

definition make_room ::
    "nat \<Rightarrow> (memoryStore \<Rightarrow> memoryStore \<times> bool) \<Rightarrow> memoryStore \<Rightarrow> memoryStore \<times> bool" where
  "make_room used reclaim s = (if used \<ge> msCapacity s then reclaim s else (s, True))"

section \<open>Browser state\<close>

definition CreatePreAuth ::
    "(string, preAuthRecord) map_order \<Rightarrow> ctx_err \<Rightarrow> preAuthRecord \<Rightarrow> memoryStore \<Rightarrow> memoryStore \<times> auth_err option" where
  "CreatePreAuth it ctx r s =
     (case ctx of Some e \<Rightarrow> (s, Some e) | None \<Rightarrow>
      if prID r = [] \<or> prSource r = [] \<or> length (prSource r) > 256 \<or> prIssuedAt r = 0 \<or>
         time_sub (prExpiresAt r) (prIssuedAt r) \<noteq> preAuthTTL
      then (s, Some ErrUnavailable)
      else
        (let s = prune (prIssuedAt r) s;
             budget = entries (msBrowserBootstraps s) (prSource r)
         in if length budget \<ge> browserBootstrapLimit then (s, Some ErrRateLimited)
            else if map_of (msBrowserBootstraps s) (prSource r) = None \<and>
                    length (msBrowserBootstraps s) \<ge> msCapacity s
            then (s, Some ErrUnavailable)
            else if map_of (msBrowserStates s) (prID r) \<noteq> None then (s, Some ErrUnavailable)
            else (case make_room (length (msBrowserStates s)) (reclaimBrowserState it (prIssuedAt r)) s of
                    (s, False) \<Rightarrow> (s, Some ErrUnavailable)
                  | (s, True) \<Rightarrow>
                      (s\<lparr>msBrowserBootstraps := gm_set (prSource r) (budget @ [prIssuedAt r]) (msBrowserBootstraps s),
                         msBrowserStates := gm_set (prID r) r (msBrowserStates s)\<rparr>, None))))"

definition authenticateBrowserState :: "preAuthProof \<Rightarrow> memoryStore \<Rightarrow> auth_err option" where
  "authenticateBrowserState p s =
     (case map_of (msBrowserStates s) (ppID p) of
        None \<Rightarrow> Some ErrPreAuth
      | Some r \<Rightarrow>
          if ppNow p < prIssuedAt r \<or> \<not> ppNow p < prExpiresAt r \<or> prDigest r \<noteq> ppDigest p \<or>
             prCSRFDigest r \<noteq> ppCSRFDigest p
          then Some ErrPreAuth else None)"

definition AuthenticatePreAuth :: "ctx_err \<Rightarrow> preAuthProof \<Rightarrow> memoryStore \<Rightarrow> memoryStore \<times> auth_err option" where
  "AuthenticatePreAuth ctx p s =
     (case ctx of Some e \<Rightarrow> (s, Some e) | None \<Rightarrow> (s, authenticateBrowserState p s))"

definition ConsumePreAuth :: "ctx_err \<Rightarrow> preAuthProof \<Rightarrow> memoryStore \<Rightarrow> memoryStore \<times> auth_err option" where
  "ConsumePreAuth ctx p s =
     (case ctx of Some e \<Rightarrow> (s, Some e) | None \<Rightarrow>
      (case authenticateBrowserState p s of
         Some e \<Rightarrow> (s, Some e)
       | None \<Rightarrow> (s\<lparr>msBrowserStates := gm_delete (ppID p) (msBrowserStates s)\<rparr>, None)))"

section \<open>Challenges\<close>

text \<open>The challenge that the new one replaces, if any, is deactivated.\<close>

definition deactivate :: "string \<Rightarrow> memoryStore \<Rightarrow> memoryStore" where
  "deactivate cid s =
     (case map_of (msChallenges s) cid of
        None \<Rightarrow> s
      | Some c \<Rightarrow> s\<lparr>msChallenges := gm_set cid (c\<lparr>scActive := False\<rparr>) (msChallenges s)\<rparr>)"

definition install_challenge :: "reservation \<Rightarrow> memoryStore \<Rightarrow> memoryStore" where
  "install_challenge r s =
     (let key = challenge_key r;
          previous = get_str (msActive s) key;
          s = (if previous \<noteq> [] then deactivate previous s else s)
      in s\<lparr>msChallenges := gm_set (rvID r) \<lparr>scReservation = r, scAttempts = 0, scActive = True\<rparr> (msChallenges s),
           msActive := gm_set key (rvID r) (msActive s)\<rparr>)"

definition Reserve ::
    "(string, storedChallenge) map_order \<Rightarrow> ctx_err \<Rightarrow> reservation \<Rightarrow> memoryStore \<Rightarrow> memoryStore \<times> auth_err option" where
  "Reserve it ctx r s =
     (case ctx of Some e \<Rightarrow> (s, Some e) | None \<Rightarrow>
      (let now = rvIssuedAt r;
           s = prune now s;
           address = entries (msAddressSends s) (rvEmail r);
           source = entries (msSourceSends s) (rvSource r)
       in if length address \<ge> addressSendLimit \<or> length source \<ge> sourceSendLimit \<or>
             (address \<noteq> [] \<and> time_sub now (last address) < minimumSendGap)
          then (s, Some ErrRateLimited)
          else if map_of (msChallenges s) (rvID r) \<noteq> None then (s, Some ErrUnavailable)
          else (case make_room (length (msChallenges s)) (reclaimChallenge it now) s of
                  (s, False) \<Rightarrow> (s, Some ErrUnavailable)
                | (s, True) \<Rightarrow>
                    if map_of (msAddressSends s) (rvEmail r) = None \<and> length (msAddressSends s) \<ge> msCapacity s
                    then (s, Some ErrUnavailable)
                    else if map_of (msSourceSends s) (rvSource r) = None \<and> length (msSourceSends s) \<ge> msCapacity s
                    then (s, Some ErrUnavailable)
                    else
                      (install_challenge r
                         (s\<lparr>msAddressSends := gm_set (rvEmail r) (address @ [now]) (msAddressSends s),
                            msSourceSends := gm_set (rvSource r) (source @ [now]) (msSourceSends s)\<rparr>), None))))"

definition credentials_match :: "reservation \<Rightarrow> verification \<Rightarrow> bool" where
  "credentials_match r a \<longleftrightarrow> rvEmail r = vfEmail a \<and> rvPurpose r = vfPurpose a \<and> rvKeyID r = vfKeyID a \<and>
     rvVerifier r = vfVerifier a \<and> rvBinding r = vfBinding a"

definition open_challenge :: "storedChallenge \<Rightarrow> gotime \<Rightarrow> bool" where
  "open_challenge c now \<longleftrightarrow> scActive c \<and> scAttempts c < challengeAttempts \<and>
     \<not> now < rvIssuedAt (scReservation c) \<and> now < rvExpiresAt (scReservation c)"

definition fail_attempt :: "storedChallenge \<Rightarrow> verification \<Rightarrow> memoryStore \<Rightarrow> memoryStore \<times> (auth_err, identity) result" where
  "fail_attempt c a s =
     (let email = rvEmail (scReservation c);
          failures = entries (msAddressFailures s) email
      in if map_of (msAddressFailures s) email = None \<and> length (msAddressFailures s) \<ge> msCapacity s
         then (s, Err ErrRateLimited)
         else if length failures \<ge> addressVerifyLimit then (s, Err ErrRateLimited)
         else (s\<lparr>msAddressFailures := gm_set email (failures @ [vfNow a]) (msAddressFailures s),
                 msChallenges := gm_set (vfID a) (c\<lparr>scAttempts := scAttempts c + 1\<rparr>) (msChallenges s)\<rparr>,
               Err ErrAuthentication))"

definition resolve_identity ::
    "string \<Rightarrow> verification \<Rightarrow> memoryStore \<Rightarrow> (memoryStore \<times> identity) option" where
  "resolve_identity email a s =
     (case map_of (msIdentities s) email of
        Some i \<Rightarrow> if idID i \<noteq> [] then Some (s, i)
                else if length (msIdentities s) \<ge> msCapacity s then None
                else (let i = \<lparr>idID = vfIdentityID a, idEmail = email, idCreatedAt = vfNow a\<rparr>
                      in Some (s\<lparr>msIdentities := gm_set email i (msIdentities s)\<rparr>, i))
      | None \<Rightarrow> if length (msIdentities s) \<ge> msCapacity s then None
                else (let i = \<lparr>idID = vfIdentityID a, idEmail = email, idCreatedAt = vfNow a\<rparr>
                      in Some (s\<lparr>msIdentities := gm_set email i (msIdentities s)\<rparr>, i)))"

definition complete_attempt ::
    "(string, storedSession) map_order \<Rightarrow> storedChallenge \<Rightarrow> verification \<Rightarrow> memoryStore \<Rightarrow>
     memoryStore \<times> (auth_err, identity) result" where
  "complete_attempt it c a s =
     (let sess = vfSession a
      in if srID sess = [] \<or> srCreatedAt sess \<noteq> vfNow a \<or> srLastSeenAt sess \<noteq> vfNow a \<or>
            \<not> srExpiresAt sess > vfNow a
         then (s, Err ErrUnavailable)
         else if map_of (msSessions s) (srID sess) \<noteq> None then (s, Err ErrUnavailable)
         else (case make_room (length (msSessions s)) (reclaimSession it (vfNow a)) s of
                 (s, False) \<Rightarrow> (s, Err ErrUnavailable)
               | (s, True) \<Rightarrow>
                   (case resolve_identity (rvEmail (scReservation c)) a s of
                      None \<Rightarrow> (s, Err ErrUnavailable)
                    | Some (s, i) \<Rightarrow>
                        (s\<lparr>msSessions := gm_set (srID sess)
                              \<lparr>ssRecord = sess\<lparr>srIdentityID := idID i\<rparr>, ssIdentity = i, ssActive = True\<rparr> (msSessions s),
                           msChallenges := gm_set (vfID a) (c\<lparr>scActive := False\<rparr>) (msChallenges s),
                           msActive := gm_delete (challenge_key (scReservation c)) (msActive s)\<rparr>, Ok i))))"

definition Verify ::
    "(string, storedSession) map_order \<Rightarrow> ctx_err \<Rightarrow> verification \<Rightarrow> memoryStore \<Rightarrow>
     memoryStore \<times> (auth_err, identity) result" where
  "Verify it ctx a s =
     (case ctx of Some e \<Rightarrow> (s, Err e) | None \<Rightarrow>
      (let s = prune (vfNow a) s;
           source = entries (msSourceVerifications s) (vfSource a)
       in if map_of (msSourceVerifications s) (vfSource a) = None \<and> length (msSourceVerifications s) \<ge> msCapacity s
          then (s, Err ErrRateLimited)
          else if length source \<ge> sourceVerifyLimit then (s, Err ErrRateLimited)
          else
            (let s = s\<lparr>msSourceVerifications := gm_set (vfSource a) (source @ [vfNow a]) (msSourceVerifications s)\<rparr>
             in case map_of (msChallenges s) (vfID a) of
                  None \<Rightarrow> (s, Err ErrAuthentication)
                | Some c \<Rightarrow>
                    if \<not> open_challenge c (vfNow a) then (s, Err ErrAuthentication)
                    else if \<not> credentials_match (scReservation c) a then fail_attempt c a s
                    else complete_attempt it c a s)))"

definition Invalidate :: "ctx_err \<Rightarrow> string \<Rightarrow> memoryStore \<Rightarrow> memoryStore \<times> auth_err option" where
  "Invalidate ctx cid s =
     (case ctx of Some e \<Rightarrow> (s, Some e) | None \<Rightarrow>
      (case map_of (msChallenges s) cid of
         None \<Rightarrow> (s, None)
       | Some c \<Rightarrow> (drop_active (challenge_key (scReservation c)) cid (deactivate cid s), None)))"

section \<open>Sessions\<close>

definition live_session :: "storedSession \<Rightarrow> gotime \<Rightarrow> bool" where
  "live_session x now \<longleftrightarrow> ssActive x \<and> \<not> now < srCreatedAt (ssRecord x) \<and> now < srExpiresAt (ssRecord x) \<and>
     now < srLastSeenAt (ssRecord x) + sessionIdleTTL"

definition AuthenticateSession ::
    "ctx_err \<Rightarrow> sessionProof \<Rightarrow> memoryStore \<Rightarrow> memoryStore \<times> (auth_err, identity) result" where
  "AuthenticateSession ctx p s =
     (case ctx of Some e \<Rightarrow> (s, Err e) | None \<Rightarrow>
      (case map_of (msSessions s) (spID p) of
         None \<Rightarrow> (s, Err ErrSession)
       | Some x \<Rightarrow>
           if \<not> live_session x (spNow p) \<or> srDigest (ssRecord x) \<noteq> spDigest p \<or>
              (spCSRFDigest p \<noteq> zeroDigest \<and> srCSRFDigest (ssRecord x) \<noteq> spCSRFDigest p)
           then (s, Err ErrSession)
           else (s\<lparr>msSessions := gm_set (spID p)
                     (x\<lparr>ssRecord := (ssRecord x)\<lparr>srLastSeenAt := spNow p\<rparr>\<rparr>) (msSessions s)\<rparr>,
                 Ok (ssIdentity x))))"

definition RevokeSession :: "ctx_err \<Rightarrow> sessionProof \<Rightarrow> memoryStore \<Rightarrow> memoryStore \<times> auth_err option" where
  "RevokeSession ctx p s =
     (case ctx of Some e \<Rightarrow> (s, Some e) | None \<Rightarrow>
      (case map_of (msSessions s) (spID p) of
         None \<Rightarrow> (s, Some ErrSession)
       | Some x \<Rightarrow>
           if \<not> ssActive x \<or> srDigest (ssRecord x) \<noteq> spDigest p then (s, Some ErrSession)
           else (s\<lparr>msSessions := gm_set (spID p) (x\<lparr>ssActive := False\<rparr>) (msSessions s)\<rparr>, None)))"

definition revoke_identity :: "string \<Rightarrow> memoryStore \<Rightarrow> memoryStore" where
  "revoke_identity i s =
     s\<lparr>msSessions := gm_mapv (\<lambda>_ x. if idID (ssIdentity x) = i then x\<lparr>ssActive := False\<rparr> else x) (msSessions s)\<rparr>"

definition RevokeAllSessions :: "ctx_err \<Rightarrow> sessionProof \<Rightarrow> memoryStore \<Rightarrow> memoryStore \<times> auth_err option" where
  "RevokeAllSessions ctx p s =
     (case ctx of Some e \<Rightarrow> (s, Some e) | None \<Rightarrow>
      (case map_of (msSessions s) (spID p) of
         None \<Rightarrow> (s, Some ErrSession)
       | Some x \<Rightarrow>
           if \<not> live_session x (spNow p) \<or> srDigest (ssRecord x) \<noteq> spDigest p then (s, Some ErrSession)
           else (revoke_identity (idID (ssIdentity x)) s, None)))"

definition RevokeIdentitySessions :: "ctx_err \<Rightarrow> string \<Rightarrow> memoryStore \<Rightarrow> memoryStore \<times> auth_err option" where
  "RevokeIdentitySessions ctx i s =
     (case ctx of Some e \<Rightarrow> (s, Some e) | None \<Rightarrow> (revoke_identity i s, None))"

end
