(* ===== verification/Auth_Store_Correct.thy ===== *)
theory Auth_Store_Correct
  imports Auth_Store
begin

text \<open>
  Correctness of the in-memory authentication store.

  The methods are collected in \<open>store_op\<close>, one constructor per method with its arguments, so that a
  history of the store is a list of calls; the mutex makes each call one step. The invariant
  \<open>store_ok\<close> holds in every reachable store: capacities, budget limits and the index of active
  challenges.
\<close>

section \<open>Calls and histories\<close>

datatype store_op =
    OpReserve "(string, storedChallenge) map_order" ctx_err reservation
  | OpVerify "(string, storedSession) map_order" ctx_err verification
  | OpInvalidate ctx_err string
  | OpAuthenticateSession ctx_err sessionProof
  | OpRevokeSession ctx_err sessionProof
  | OpRevokeAllSessions ctx_err sessionProof
  | OpRevokeIdentitySessions ctx_err string
  | OpCreatePreAuth "(string, preAuthRecord) map_order" ctx_err preAuthRecord
  | OpAuthenticatePreAuth ctx_err preAuthProof
  | OpConsumePreAuth ctx_err preAuthProof

fun run_op :: "store_op \<Rightarrow> memoryStore \<Rightarrow> memoryStore" where
  "run_op (OpReserve it ctx r) s = fst (Reserve it ctx r s)"
| "run_op (OpVerify it ctx a) s = fst (Verify it ctx a s)"
| "run_op (OpInvalidate ctx i) s = fst (Invalidate ctx i s)"
| "run_op (OpAuthenticateSession ctx p) s = fst (AuthenticateSession ctx p s)"
| "run_op (OpRevokeSession ctx p) s = fst (RevokeSession ctx p s)"
| "run_op (OpRevokeAllSessions ctx p) s = fst (RevokeAllSessions ctx p s)"
| "run_op (OpRevokeIdentitySessions ctx i) s = fst (RevokeIdentitySessions ctx i s)"
| "run_op (OpCreatePreAuth it ctx r) s = fst (CreatePreAuth it ctx r s)"
| "run_op (OpAuthenticatePreAuth ctx p) s = fst (AuthenticatePreAuth ctx p s)"
| "run_op (OpConsumePreAuth ctx p) s = fst (ConsumePreAuth ctx p s)"

definition run_ops :: "store_op list \<Rightarrow> memoryStore \<Rightarrow> memoryStore" where
  "run_ops ops s = fold run_op ops s"

lemma run_ops_simps [simp]:
  "run_ops [] s = s" "run_ops (c # cs) s = run_ops cs (run_op c s)"
  by (simp_all add: run_ops_def)

text \<open>
  The calls the services make: a reservation carries a non-empty ID (64 hexadecimal digits), and the
  loops over maps visit every entry.
\<close>

fun op_ok :: "store_op \<Rightarrow> bool" where
  "op_ok (OpReserve it ctx r) = (any_order it \<and> rvID r \<noteq> [])"
| "op_ok (OpVerify it ctx a) = any_order it"
| "op_ok (OpCreatePreAuth it ctx r) = any_order it"
| "op_ok _ = True"

inductive reachable :: "memoryStore \<Rightarrow> bool" where
  reachable_new: "NewMemoryStore n = Ok s \<Longrightarrow> reachable s"
| reachable_step: "reachable s \<Longrightarrow> op_ok c \<Longrightarrow> reachable (run_op c s)"

section \<open>The invariant\<close>

definition budget_ok :: "nat \<Rightarrow> nat \<Rightarrow> budget \<Rightarrow> bool" where
  "budget_ok cap lim m \<longleftrightarrow> gm_ok m \<and> length m \<le> cap \<and> list_all (\<lambda>(_, ts). length ts \<le> lim) m"

definition table_ok :: "nat \<Rightarrow> ('k \<times> 'v \<Rightarrow> bool) \<Rightarrow> ('k, 'v) gomap \<Rightarrow> bool" where
  "table_ok cap P m \<longleftrightarrow> gm_ok m \<and> length m \<le> cap \<and> list_all P m"

abbreviation challenge_ok :: "string \<times> storedChallenge \<Rightarrow> bool" where
  "challenge_ok \<equiv> \<lambda>(i, c). rvID (scReservation c) = i \<and> i \<noteq> [] \<and> scAttempts c \<le> challengeAttempts"

abbreviation identity_ok :: "string \<times> identity \<Rightarrow> bool" where
  "identity_ok \<equiv> \<lambda>(e, i). idEmail i = e"

abbreviation session_ok :: "string \<times> storedSession \<Rightarrow> bool" where
  "session_ok \<equiv> \<lambda>(k, x). srID (ssRecord x) = k \<and> srIdentityID (ssRecord x) = idID (ssIdentity x)"

abbreviation browser_ok :: "string \<times> preAuthRecord \<Rightarrow> bool" where
  "browser_ok \<equiv> \<lambda>(k, r). prID r = k"

definition budgets_ok :: "memoryStore \<Rightarrow> bool" where
  "budgets_ok s \<longleftrightarrow>
     budget_ok (msCapacity s) addressSendLimit (msAddressSends s) \<and>
     budget_ok (msCapacity s) sourceSendLimit (msSourceSends s) \<and>
     budget_ok (msCapacity s) browserBootstrapLimit (msBrowserBootstraps s) \<and>
     budget_ok (msCapacity s) addressVerifyLimit (msAddressFailures s) \<and>
     budget_ok (msCapacity s) sourceVerifyLimit (msSourceVerifications s)"

definition tables_ok :: "memoryStore \<Rightarrow> bool" where
  "tables_ok s \<longleftrightarrow>
     table_ok (msCapacity s) challenge_ok (msChallenges s) \<and>
     table_ok (msCapacity s) identity_ok (msIdentities s) \<and>
     table_ok (msCapacity s) session_ok (msSessions s) \<and>
     table_ok (msCapacity s) browser_ok (msBrowserStates s)"

text \<open>The index \<open>active\<close> names exactly the active challenges, by purpose and address.\<close>

definition active_at :: "memoryStore \<Rightarrow> string \<Rightarrow> string \<Rightarrow> bool" where
  "active_at s key i \<longleftrightarrow>
     (case map_of (msChallenges s) i of
        None \<Rightarrow> False | Some c \<Rightarrow> scActive c \<and> challenge_key (scReservation c) = key)"

definition index_ok :: "memoryStore \<Rightarrow> bool" where
  "index_ok s \<longleftrightarrow> gm_ok (msActive s) \<and>
     (\<forall>key i. map_of (msActive s) key = Some i \<longleftrightarrow> active_at s key i)"

definition store_ok :: "memoryStore \<Rightarrow> bool" where
  "store_ok s \<longleftrightarrow> 0 < msCapacity s \<and> budgets_ok s \<and> tables_ok s \<and> index_ok s"

subsection \<open>Generic table and budget lemmas\<close>

lemma table_ok_keep:
  "table_ok cap P m \<Longrightarrow> map_of m k = Some w \<Longrightarrow> P (k, v) \<Longrightarrow> table_ok cap P (gm_set k v m)"
  by (simp add: table_ok_def gomap_keys gomap_all length_gm_set)

lemma table_ok_add:
  "table_ok cap P m \<Longrightarrow> length m < cap \<Longrightarrow> P (k, v) \<Longrightarrow> table_ok cap P (gm_set k v m)"
  by (simp add: table_ok_def gomap_keys gomap_all length_gm_set)

lemma table_ok_delete: "table_ok cap P m \<Longrightarrow> table_ok cap P (gm_delete k m)"
  using length_gm_delete_le[of k m] by (simp add: table_ok_def gomap_keys gomap_all)

lemma table_ok_mapv:
  "table_ok cap P m \<Longrightarrow> (\<And>k v. P (k, v) \<Longrightarrow> P (k, f k v)) \<Longrightarrow> table_ok cap P (gm_mapv f m)"
  unfolding table_ok_def keys_mapv length_mapv by (auto simp: list_all_iff gm_mapv_def)

lemma table_ok_lookup: "table_ok cap P m \<Longrightarrow> map_of m k = Some v \<Longrightarrow> P (k, v)"
  unfolding table_ok_def by (blast intro: gm_all_lookup)

lemma recent_shorter: "length (recent ts now) \<le> length ts"
  by (simp add: recent_def length_dropWhile_le)

lemma budget_ok_prune: "budget_ok cap lim m \<Longrightarrow> budget_ok cap lim (prune_budget now m)"
proof -
  assume ok: "budget_ok cap lim m"
  have "length (prune_budget now m) \<le> length m"
    unfolding prune_budget_def
    using length_gm_filterv_le[of _ "gm_mapv (\<lambda>_ ts. recent ts now) m"] by (simp add: length_mapv)
  moreover have "gm_ok (prune_budget now m)"
    using ok unfolding budget_ok_def prune_budget_def by (simp add: gm_ok_filterv keys_mapv)
  moreover have "list_all (\<lambda>(_, ts). length ts \<le> lim) (prune_budget now m)"
    unfolding prune_budget_def
    by (rule gm_all_filterv, rule gm_all_mapv)
      (use ok in \<open>auto simp: budget_ok_def list_all_iff intro: order_trans[OF recent_shorter]\<close>)
  ultimately show ?thesis using ok by (simp add: budget_ok_def)
qed

lemma budget_ok_charge:
  "budget_ok cap lim m \<Longrightarrow> length (entries m k) < lim \<Longrightarrow> map_of m k \<noteq> None \<or> length m < cap \<Longrightarrow>
     budget_ok cap lim (gm_set k (entries m k @ [t]) m)"
  by (auto simp: budget_ok_def gomap_keys length_gm_set intro!: gomap_all)

lemma entries_set: "entries (gm_set k ts m) k' = (if k' = k then ts else entries m k')"
  by (simp add: entries_def gomap_simps)

lemma entries_prune: "gm_ok m \<Longrightarrow> entries (prune_budget now m) k = recent (entries m k) now"
  by (cases "map_of m k") (auto simp: entries_def prune_budget_def gm_filterv_lookup gm_mapv_lookup keys_mapv recent_def
      simp del: dropWhile_eq_Nil_conv)

lemma prune_fields [simp]:
  "msCapacity (prune now s) = msCapacity s" "msChallenges (prune now s) = msChallenges s"
  "msActive (prune now s) = msActive s" "msIdentities (prune now s) = msIdentities s"
  "msSessions (prune now s) = msSessions s" "msBrowserStates (prune now s) = msBrowserStates s"
  by (simp_all add: prune_def)

lemma store_ok_new: "NewMemoryStore n = Ok s \<Longrightarrow> store_ok s"
  by (auto simp: NewMemoryStore_def store_ok_def budgets_ok_def budget_ok_def tables_ok_def table_ok_def
      index_ok_def active_at_def split: if_splits)

lemma store_ok_prune: "store_ok s \<Longrightarrow> store_ok (prune now s)"
  unfolding store_ok_def budgets_ok_def tables_ok_def index_ok_def active_at_def
  by (simp add: prune_def budget_ok_prune)

subsection \<open>Challenges\<close>

lemma active_at_simps:
  "active_at (s\<lparr>msChallenges := gm_set i c (msChallenges s)\<rparr>) key j =
     (if j = i then scActive c \<and> challenge_key (scReservation c) = key else active_at s key j)"
  "active_at (s\<lparr>msChallenges := gm_delete i (msChallenges s)\<rparr>) key j = (j \<noteq> i \<and> active_at s key j)"
  by (auto simp: active_at_def gomap_simps)

lemma active_at_cong: "msChallenges s' = msChallenges s \<Longrightarrow> active_at s' = active_at s"
  by (simp add: active_at_def fun_eq_iff)

lemma index_iff: "store_ok s \<Longrightarrow> map_of (msActive s) key = Some i \<longleftrightarrow> active_at s key i"
  by (simp add: store_ok_def index_ok_def)

lemma challenge_id: "store_ok s \<Longrightarrow> map_of (msChallenges s) i = Some c \<Longrightarrow>
    rvID (scReservation c) = i \<and> i \<noteq> [] \<and> scAttempts c \<le> challengeAttempts"
  unfolding store_ok_def tables_ok_def by (auto dest!: table_ok_lookup)

lemma get_str_iff: "i \<noteq> [] \<Longrightarrow> get_str m key = i \<longleftrightarrow> map_of m key = Some i"
  by (auto simp: get_str_def split: option.splits)

text \<open>
  The index after \<open>drop_active\<close>: it no longer names the challenge that was deactivated or deleted.
\<close>

lemma index_ok_drop_active:
  assumes ok: "store_ok s" and c: "map_of (msChallenges s) i = Some c"
    and act: "msActive s' = msActive s"
    and rest: "\<And>key j. active_at s' key j \<longleftrightarrow> j \<noteq> i \<and> active_at s key j"
  shows "index_ok (drop_active (challenge_key (scReservation c)) i s')"
proof -
  let ?k = "challenge_key (scReservation c)"
  have i: "i \<noteq> []" using challenge_id[OF ok c] by simp
  have only: "map_of (msActive s) key = Some i \<Longrightarrow> key = ?k" for key
    using c by (simp add: index_iff[OF ok] active_at_def)
  have gm: "gm_ok (msActive s)" using ok by (simp add: store_ok_def index_ok_def)
  show ?thesis
  proof (cases "map_of (msActive s) ?k = Some i")
    case True
    have "map_of (gm_delete ?k (msActive s)) key = Some j \<longleftrightarrow> active_at s' key j" for key j
    proof -
      have "map_of (gm_delete ?k (msActive s)) key = Some j \<longleftrightarrow> key \<noteq> ?k \<and> map_of (msActive s) key = Some j"
        by (simp add: gm_delete_lookup)
      also have "\<dots> \<longleftrightarrow> j \<noteq> i \<and> map_of (msActive s) key = Some j"
        using True only by (metis option.inject)
      finally show ?thesis by (simp add: index_iff[OF ok] rest)
    qed
    moreover have "drop_active ?k i s' = s'\<lparr>msActive := gm_delete ?k (msActive s)\<rparr>"
      using True by (simp add: drop_active_def act get_str_iff[OF i])
    moreover have "active_at (s'\<lparr>msActive := m\<rparr>) = active_at s'" for m by (rule active_at_cong) simp
    ultimately show ?thesis using gm by (simp add: index_ok_def gm_ok_delete)
  next
    case False
    have "map_of (msActive s) key = Some j \<longleftrightarrow> active_at s' key j" for key j
      using False only[of key] by (auto simp: rest index_iff[OF ok, symmetric])
    moreover have "drop_active ?k i s' = s'" using False by (simp add: drop_active_def act get_str_iff[OF i])
    ultimately show ?thesis using gm by (simp add: index_ok_def act)
  qed
qed

lemma drop_active_fields [simp]:
  "msCapacity (drop_active k i s) = msCapacity s" "msChallenges (drop_active k i s) = msChallenges s"
  "msIdentities (drop_active k i s) = msIdentities s" "msSessions (drop_active k i s) = msSessions s"
  "msBrowserStates (drop_active k i s) = msBrowserStates s"
  "msAddressSends (drop_active k i s) = msAddressSends s" "msSourceSends (drop_active k i s) = msSourceSends s"
  "msBrowserBootstraps (drop_active k i s) = msBrowserBootstraps s"
  "msAddressFailures (drop_active k i s) = msAddressFailures s"
  "msSourceVerifications (drop_active k i s) = msSourceVerifications s"
  by (simp_all add: drop_active_def)

lemma store_ok_delete_challenge:
  assumes "store_ok s" "map_of (msChallenges s) i = Some c"
  shows "store_ok (drop_active (challenge_key (scReservation c)) i (s\<lparr>msChallenges := gm_delete i (msChallenges s)\<rparr>))"
proof -
  have "index_ok (drop_active (challenge_key (scReservation c)) i (s\<lparr>msChallenges := gm_delete i (msChallenges s)\<rparr>))"
    by (rule index_ok_drop_active[OF assms]) (simp_all add: active_at_simps)
  with assms(1) show ?thesis
    by (simp add: store_ok_def budgets_ok_def tables_ok_def table_ok_delete)
qed

lemma store_ok_Invalidate:
  assumes ok: "store_ok s"
  shows "store_ok (fst (Invalidate ctx i s))"
proof (cases "ctx = None \<and> map_of (msChallenges s) i \<noteq> None")
  case True
  then obtain c where c: "map_of (msChallenges s) i = Some c" by auto
  have d: "deactivate i s = s\<lparr>msChallenges := gm_set i (c\<lparr>scActive := False\<rparr>) (msChallenges s)\<rparr>"
    by (simp add: deactivate_def c)
  have "index_ok (drop_active (challenge_key (scReservation c)) i (deactivate i s))"
    by (rule index_ok_drop_active[OF ok c]) (simp_all add: d active_at_simps)
  moreover have "challenge_ok (i, c\<lparr>scActive := False\<rparr>)" using challenge_id[OF ok c] by simp
  ultimately have "store_ok (drop_active (challenge_key (scReservation c)) i (deactivate i s))"
    using ok c by (simp add: store_ok_def budgets_ok_def tables_ok_def d table_ok_keep)
  with True c show ?thesis by (simp add: Invalidate_def)
qed (use ok in \<open>auto simp: Invalidate_def split: option.splits\<close>)

text \<open>Reclaiming: the entry found is an entry of the map, and deleting it makes room for one.\<close>

lemma find_any_order:
  assumes "any_order it" "gm_ok m" "find P (it m) = Some (k, v)"
  shows "map_of m k = Some v" "P (k, v)" "Suc (length (gm_delete k m)) = length m"
proof -
  have kv: "(k, v) \<in> set (it m)" "P (k, v)" using assms(3) by (auto simp: find_Some_iff in_set_conv_nth)
  show m: "map_of m k = Some v" using kv assms(1,2) by (simp add: any_order_set gm_in_iff[symmetric])
  show "P (k, v)" by (rule kv)
  show "Suc (length (gm_delete k m)) = length m" using m assms(2) by (simp add: length_gm_delete)
qed

lemma reclaimChallenge_ok:
  assumes ok: "store_ok s" and it: "any_order it" and rc: "reclaimChallenge it now s = (s', True)"
  shows "store_ok s'" "length (msChallenges s') < msCapacity s"
proof -
  have t: "gm_ok (msChallenges s)" "length (msChallenges s) \<le> msCapacity s"
    using ok by (simp_all add: store_ok_def tables_ok_def table_ok_def)
  obtain i c where f: "find (\<lambda>(cid, c). \<not> scActive c \<or> \<not> now < rvExpiresAt (scReservation c)) (it (msChallenges s)) = Some (i, c)"
    and s': "s' = drop_active (challenge_key (scReservation c)) i (s\<lparr>msChallenges := gm_delete i (msChallenges s)\<rparr>)"
    using rc by (auto simp: reclaimChallenge_def split: option.splits)
  note fa = find_any_order[OF it t(1) f]
  show "store_ok s'" unfolding s' by (rule store_ok_delete_challenge[OF ok fa(1)])
  show "length (msChallenges s') < msCapacity s" using fa(3) t(2) by (simp add: s')
qed

text \<open>Fields that a step does not touch keep their part of the invariant.\<close>

lemma store_ok_charge:
  assumes "store_ok s"
  shows "budget_ok (msCapacity s) addressSendLimit m1 \<Longrightarrow> budget_ok (msCapacity s) sourceSendLimit m2 \<Longrightarrow>
           store_ok (s\<lparr>msAddressSends := m1, msSourceSends := m2\<rparr>)"
    and "budget_ok (msCapacity s) sourceVerifyLimit m3 \<Longrightarrow> store_ok (s\<lparr>msSourceVerifications := m3\<rparr>)"
    and "budget_ok (msCapacity s) addressVerifyLimit m4 \<Longrightarrow> store_ok (s\<lparr>msAddressFailures := m4\<rparr>)"
    and "budget_ok (msCapacity s) browserBootstrapLimit m5 \<Longrightarrow>
           table_ok (msCapacity s) browser_ok b \<Longrightarrow> store_ok (s\<lparr>msBrowserBootstraps := m5, msBrowserStates := b\<rparr>)"
    and "table_ok (msCapacity s) browser_ok b \<Longrightarrow> store_ok (s\<lparr>msBrowserStates := b\<rparr>)"
    and "table_ok (msCapacity s) session_ok x \<Longrightarrow> store_ok (s\<lparr>msSessions := x\<rparr>)"
    and "table_ok (msCapacity s) identity_ok i \<Longrightarrow> store_ok (s\<lparr>msIdentities := i\<rparr>)"
  using assms unfolding store_ok_def budgets_ok_def tables_ok_def index_ok_def active_at_def by simp_all

lemma store_ok_parts:
  assumes "store_ok s"
  shows "0 < msCapacity s"
    and "budget_ok (msCapacity s) addressSendLimit (msAddressSends s)"
    and "budget_ok (msCapacity s) sourceSendLimit (msSourceSends s)"
    and "budget_ok (msCapacity s) browserBootstrapLimit (msBrowserBootstraps s)"
    and "budget_ok (msCapacity s) addressVerifyLimit (msAddressFailures s)"
    and "budget_ok (msCapacity s) sourceVerifyLimit (msSourceVerifications s)"
    and "table_ok (msCapacity s) challenge_ok (msChallenges s)"
    and "table_ok (msCapacity s) identity_ok (msIdentities s)"
    and "table_ok (msCapacity s) session_ok (msSessions s)"
    and "table_ok (msCapacity s) browser_ok (msBrowserStates s)"
    and "gm_ok (msActive s)"
  using assms unfolding store_ok_def budgets_ok_def tables_ok_def index_ok_def by blast+

lemma deactivate_fields [simp]:
  "msCapacity (deactivate i s) = msCapacity s" "msActive (deactivate i s) = msActive s"
  "msIdentities (deactivate i s) = msIdentities s" "msSessions (deactivate i s) = msSessions s"
  "msBrowserStates (deactivate i s) = msBrowserStates s"
  "msAddressSends (deactivate i s) = msAddressSends s" "msSourceSends (deactivate i s) = msSourceSends s"
  "msBrowserBootstraps (deactivate i s) = msBrowserBootstraps s"
  "msAddressFailures (deactivate i s) = msAddressFailures s"
  "msSourceVerifications (deactivate i s) = msSourceVerifications s"
  by (simp_all add: deactivate_def split: option.split)

lemma deactivate_lookup:
  "map_of (msChallenges (deactivate i s)) j =
     (if j = i then map_option (scActive_update (\<lambda>_. False)) (map_of (msChallenges s) i) else map_of (msChallenges s) j)"
  by (simp add: deactivate_def gomap_simps split: option.split)

lemma length_deactivate: "length (msChallenges (deactivate i s)) = length (msChallenges s)"
  by (auto simp: deactivate_def length_gm_set split: option.split)

lemma table_ok_deactivate:
  "table_ok cap challenge_ok (msChallenges s) \<Longrightarrow> table_ok cap challenge_ok (msChallenges (deactivate i s))"
  by (auto simp: deactivate_def split: option.split intro!: table_ok_keep dest: table_ok_lookup)

text \<open>
  Installing a reservation: the challenge it replaces, if any, is the one the index names for the
  same purpose and address.
\<close>

lemma replaced_active_at:
  fixes key0 :: string
  assumes ok: "store_ok s"
  defines "s1 \<equiv> (if get_str (msActive s) key0 \<noteq> [] then deactivate (get_str (msActive s) key0) s else s)"
  shows "active_at s1 key j \<longleftrightarrow> key \<noteq> key0 \<and> active_at s key j"
proof -
  let ?p = "get_str (msActive s) key0"
  have p: "active_at s key0 j \<longleftrightarrow> ?p \<noteq> [] \<and> j = ?p" for j
  proof -
    have "active_at s key0 j \<Longrightarrow> j \<noteq> []"
      using challenge_id[OF ok] by (auto simp: active_at_def split: option.splits)
    then show ?thesis by (auto simp: index_iff[OF ok, symmetric] get_str_def split: option.splits)
  qed
  show ?thesis
  proof (cases "?p = []")
    case True
    then show ?thesis using p[of j] by (auto simp: s1_def)
  next
    case False
    then have at: "active_at s key0 ?p" by (simp add: p)
    then obtain c where c: "map_of (msChallenges s) ?p = Some c" "challenge_key (scReservation c) = key0"
      by (auto simp: active_at_def split: option.splits)
    have "active_at s1 key j \<longleftrightarrow> j \<noteq> ?p \<and> active_at s key j"
      using False c(1) by (auto simp: s1_def active_at_def deactivate_lookup)
    moreover have "active_at s key ?p \<Longrightarrow> key = key0" using c by (simp add: active_at_def)
    ultimately show ?thesis using p[of j] False by auto
  qed
qed

lemma store_ok_install:
  assumes ok: "store_ok s" and new: "map_of (msChallenges s) (rvID r) = None"
    and room: "length (msChallenges s) < msCapacity s" and i: "rvID r \<noteq> []"
  shows "store_ok (install_challenge r s)"
proof -
  let ?p = "get_str (msActive s) (challenge_key r)"
  define s1 where "s1 = (if ?p \<noteq> [] then deactivate ?p s else s)"
  define c where "c = \<lparr>scReservation = r, scAttempts = 0, scActive = True\<rparr>"
  have inst: "install_challenge r s = s1\<lparr>msChallenges := gm_set (rvID r) c (msChallenges s1),
      msActive := gm_set (challenge_key r) (rvID r) (msActive s1)\<rparr>"
    by (simp add: install_challenge_def s1_def c_def Let_def)
  have eqs: "msCapacity s1 = msCapacity s" "msActive s1 = msActive s" "budgets_ok s1 = budgets_ok s"
    "msIdentities s1 = msIdentities s" "msSessions s1 = msSessions s" "msBrowserStates s1 = msBrowserStates s"
    "length (msChallenges s1) = length (msChallenges s)"
    by (simp_all add: s1_def length_deactivate budgets_ok_def)
  have t: "table_ok (msCapacity s) challenge_ok (msChallenges s1)"
    using store_ok_parts(7)[OF ok] by (simp add: s1_def table_ok_deactivate)
  have new1: "map_of (msChallenges s1) (rvID r) = None" using new by (auto simp: s1_def deactivate_lookup)
  have at: "active_at s1 key j \<longleftrightarrow> key \<noteq> challenge_key r \<and> active_at s key j" for key j
    unfolding s1_def by (rule replaced_active_at[OF ok])
  have no: "\<not> active_at s key (rvID r)" for key using new by (simp add: active_at_def)
  have at': "active_at (install_challenge r s) key j \<longleftrightarrow>
      (if j = rvID r then challenge_key r = key else active_at s1 key j)" for key j
    using active_at_simps(1)[of "rvID r" c s1 key j] by (simp add: inst active_at_def c_def)
  have "map_of (gm_set (challenge_key r) (rvID r) (msActive s)) key = Some j \<longleftrightarrow> active_at (install_challenge r s) key j" for key j
    unfolding at' using index_iff[OF ok, of key j] no[of key] at[of key j] by (auto simp: gm_set_lookup)
  then have "index_ok (install_challenge r s)"
    using store_ok_parts(11)[OF ok] by (simp add: index_ok_def gm_ok_set inst eqs)
  moreover have "table_ok (msCapacity s) challenge_ok (gm_set (rvID r) c (msChallenges s1))"
    using t room i by (intro table_ok_add) (simp_all add: eqs c_def)
  moreover have "budgets_ok (install_challenge r s)"
    using ok eqs(3) by (simp add: store_ok_def budgets_ok_def inst)
  ultimately show ?thesis
    using ok by (simp add: store_ok_def tables_ok_def inst eqs)
qed

lemma drop_active_other: "drop_active k i s = s \<or> drop_active k i s = s\<lparr>msActive := gm_delete k (msActive s)\<rparr>"
  by (simp add: drop_active_def)

lemma make_room_challenge:
  assumes "make_room (length (msChallenges s)) (reclaimChallenge it now) s = (s2, b)"
  shows "s2 = s \<and> (b \<longrightarrow> length (msChallenges s) < msCapacity s) \<or> reclaimChallenge it now s = (s2, True) \<and> b"
  using assms by (auto simp: make_room_def reclaimChallenge_def split: if_splits option.splits)

lemma reclaimChallenge_frame:
  assumes "reclaimChallenge it now s = (s2, b)"
  shows "msCapacity s2 = msCapacity s" "msAddressSends s2 = msAddressSends s" "msSourceSends s2 = msSourceSends s"
    "msBrowserBootstraps s2 = msBrowserBootstraps s" "msAddressFailures s2 = msAddressFailures s"
    "msSourceVerifications s2 = msSourceVerifications s" "msSessions s2 = msSessions s"
    "msBrowserStates s2 = msBrowserStates s" "msIdentities s2 = msIdentities s"
    "map_of (msChallenges s2) i = None \<or> map_of (msChallenges s2) i = map_of (msChallenges s) i"
  using assms by (auto simp: reclaimChallenge_def gomap_simps split: option.splits)

text \<open>The three ways \<open>Reserve\<close> ends on a live context.\<close>

lemma Reserve_cases:
  assumes "Reserve it None r s = (s', res)"
  obtains (pruned) "s' = prune (rvIssuedAt r) s" "res \<noteq> None"
  | (reclaimed) "reclaimChallenge it (rvIssuedAt r) (prune (rvIssuedAt r) s) = (s', True)" "res \<noteq> None"
  | (installed) s2 where "res = None"
      "s2 = prune (rvIssuedAt r) s \<and> length (msChallenges s) < msCapacity s \<or>
        reclaimChallenge it (rvIssuedAt r) (prune (rvIssuedAt r) s) = (s2, True)"
      "s' = install_challenge r
        (s2\<lparr>msAddressSends := gm_set (rvEmail r) (entries (msAddressSends s2) (rvEmail r) @ [rvIssuedAt r]) (msAddressSends s2),
            msSourceSends := gm_set (rvSource r) (entries (msSourceSends s2) (rvSource r) @ [rvIssuedAt r]) (msSourceSends s2)\<rparr>)"
      "length (entries (msAddressSends s2) (rvEmail r)) < addressSendLimit"
      "length (entries (msSourceSends s2) (rvSource r)) < sourceSendLimit"
      "entries (msAddressSends s2) (rvEmail r) \<noteq> [] \<Longrightarrow>
         \<not> time_sub (rvIssuedAt r) (last (entries (msAddressSends s2) (rvEmail r))) < minimumSendGap"
      "map_of (msChallenges s) (rvID r) = None"
      "map_of (msAddressSends s2) (rvEmail r) \<noteq> None \<or> length (msAddressSends s2) < msCapacity s2"
      "map_of (msSourceSends s2) (rvSource r) \<noteq> None \<or> length (msSourceSends s2) < msCapacity s2"
proof -
  define p where "p = prune (rvIssuedAt r) s"
  obtain s2 b where mr: "make_room (length (msChallenges p)) (reclaimChallenge it (rvIssuedAt r)) p = (s2, b)"
    by (cases "make_room (length (msChallenges p)) (reclaimChallenge it (rvIssuedAt r)) p")
  note room = make_room_challenge[OF mr]
  have fr: "msCapacity s2 = msCapacity p" "msAddressSends s2 = msAddressSends p" "msSourceSends s2 = msSourceSends p"
    using room reclaimChallenge_frame(1-3)[of it "rvIssuedAt r" p s2 True] by auto
  have pf: "msChallenges p = msChallenges s" "msCapacity p = msCapacity s" by (simp_all add: p_def)
  note R = assms[unfolded Reserve_def option.case Let_def, folded p_def, unfolded mr, symmetric]
  show thesis
    using R room pruned reclaimed installed[of s2]
    by (cases b) (auto simp: fr pf p_def[symmetric] split: if_splits)
qed

lemma store_ok_Reserve:
  assumes ok: "store_ok s" and it: "any_order it" and i: "rvID r \<noteq> []"
  shows "store_ok (fst (Reserve it ctx r s))"
proof (cases ctx)
  case None
  obtain s' res where R: "Reserve it None r s = (s', res)" by (cases "Reserve it None r s")
  note p = store_ok_prune[OF ok, of "rvIssuedAt r"]
  from R have "store_ok s'"
  proof (cases rule: Reserve_cases)
    case pruned
    then show ?thesis using p by simp
  next
    case reclaimed
    then show ?thesis using reclaimChallenge_ok(1)[OF p it] by blast
  next
    case (installed s2)
    have s2: "store_ok s2 \<and> length (msChallenges s2) < msCapacity s2 \<and> map_of (msChallenges s2) (rvID r) = None"
      using installed(2)
    proof
      assume "reclaimChallenge it (rvIssuedAt r) (prune (rvIssuedAt r) s) = (s2, True)"
      note rc = this
      show ?thesis
        using reclaimChallenge_ok[OF p it rc] reclaimChallenge_frame(1,10)[OF rc] installed(7)
        by (metis prune_fields(1,2))
    qed (use p installed(7) in simp)
    let ?s3 = "s2\<lparr>msAddressSends := gm_set (rvEmail r) (entries (msAddressSends s2) (rvEmail r) @ [rvIssuedAt r]) (msAddressSends s2),
            msSourceSends := gm_set (rvSource r) (entries (msSourceSends s2) (rvSource r) @ [rvIssuedAt r]) (msSourceSends s2)\<rparr>"
    have "store_ok ?s3"
      using s2 store_ok_parts(2,3)[of s2] installed(4,5,8,9)
      by (intro store_ok_charge(1) budget_ok_charge) auto
    then have "store_ok (install_challenge r ?s3)"
      using s2 i by (intro store_ok_install) auto
    then show ?thesis using installed(3) by simp
  qed
  then show ?thesis using None R by simp
qed (use ok in \<open>simp add: Reserve_def\<close>)

subsection \<open>Verification\<close>

definition charge_source :: "verification \<Rightarrow> memoryStore \<Rightarrow> memoryStore" where
  "charge_source a s =
     (let s = prune (vfNow a) s
      in s\<lparr>msSourceVerifications := gm_set (vfSource a)
             (entries (msSourceVerifications s) (vfSource a) @ [vfNow a]) (msSourceVerifications s)\<rparr>)"

definition source_free :: "verification \<Rightarrow> memoryStore \<Rightarrow> bool" where
  "source_free a s \<longleftrightarrow> (let m = prune_budget (vfNow a) (msSourceVerifications s)
     in (map_of m (vfSource a) \<noteq> None \<or> length m < msCapacity s) \<and> length (entries m (vfSource a)) < sourceVerifyLimit)"

lemma charge_source_fields [simp]:
  "msCapacity (charge_source a s) = msCapacity s" "msChallenges (charge_source a s) = msChallenges s"
  "msActive (charge_source a s) = msActive s" "msIdentities (charge_source a s) = msIdentities s"
  "msSessions (charge_source a s) = msSessions s" "msBrowserStates (charge_source a s) = msBrowserStates s"
  "msAddressFailures (charge_source a s) = prune_budget (vfNow a) (msAddressFailures s)"
  "msAddressSends (charge_source a s) = prune_budget (vfNow a) (msAddressSends s)"
  "msSourceSends (charge_source a s) = prune_budget (vfNow a) (msSourceSends s)"
  "msBrowserBootstraps (charge_source a s) = prune_budget (vfNow a) (msBrowserBootstraps s)"
  by (simp_all add: charge_source_def prune_def Let_def)

lemma Verify_charged:
  "Verify it None a s =
     (if \<not> source_free a s then (prune (vfNow a) s, Err ErrRateLimited)
      else case map_of (msChallenges s) (vfID a) of
             None \<Rightarrow> (charge_source a s, Err ErrAuthentication)
           | Some c \<Rightarrow>
               if \<not> open_challenge c (vfNow a) then (charge_source a s, Err ErrAuthentication)
               else if \<not> credentials_match (scReservation c) a then fail_attempt c a (charge_source a s)
               else complete_attempt it c a (charge_source a s))"
proof -
  have "source_free a s \<longleftrightarrow>
     \<not> (map_of (msSourceVerifications (prune (vfNow a) s)) (vfSource a) = None \<and>
        length (msSourceVerifications (prune (vfNow a) s)) \<ge> msCapacity s) \<and>
     \<not> length (entries (msSourceVerifications (prune (vfNow a) s)) (vfSource a)) \<ge> sourceVerifyLimit"
    by (auto simp: source_free_def Let_def prune_def)
  then show ?thesis
    by (auto simp: Verify_def Let_def charge_source_def[unfolded Let_def, symmetric] cong: option.case_cong)
qed

lemma store_ok_charge_source: "store_ok s \<Longrightarrow> source_free a s \<Longrightarrow> store_ok (charge_source a s)"
proof -
  assume ok: "store_ok s" and sf: "source_free a s"
  note p = store_ok_prune[OF ok, of "vfNow a"]
  have "msSourceVerifications (prune (vfNow a) s) = prune_budget (vfNow a) (msSourceVerifications s)"
    by (simp add: prune_def)
  with sf store_ok_parts(6)[OF p] show ?thesis
    unfolding charge_source_def Let_def
    by (intro store_ok_charge(2)[OF p] budget_ok_charge) (auto simp: source_free_def Let_def)
qed

lemma store_ok_set_challenge:
  assumes ok: "store_ok s" and c: "map_of (msChallenges s) i = Some c"
    and c': "challenge_ok (i, c')" "scActive c' = scActive c" "scReservation c' = scReservation c"
  shows "store_ok (s\<lparr>msChallenges := gm_set i c' (msChallenges s)\<rparr>)"
proof -
  have "active_at (s\<lparr>msChallenges := gm_set i c' (msChallenges s)\<rparr>) key j = active_at s key j" for key j
    using c c' unfolding active_at_simps by (auto simp: active_at_def)
  moreover have "table_ok (msCapacity s) challenge_ok (gm_set i c' (msChallenges s))"
    by (rule table_ok_keep[OF store_ok_parts(7)[OF ok] c c'(1)])
  ultimately show ?thesis
    using ok by (simp add: store_ok_def budgets_ok_def tables_ok_def index_ok_def)
qed

lemma store_ok_fail_attempt:
  assumes ok: "store_ok s" and c: "map_of (msChallenges s) (vfID a) = Some c" and opn: "open_challenge c (vfNow a)"
  shows "store_ok (fst (fail_attempt c a s))"
proof -
  let ?e = "rvEmail (scReservation c)"
  let ?c = "c\<lparr>scAttempts := scAttempts c + 1\<rparr>"
  have s1: "store_ok (s\<lparr>msChallenges := gm_set (vfID a) ?c (msChallenges s)\<rparr>)" (is "store_ok ?s1")
    using challenge_id[OF ok c] opn by (intro store_ok_set_challenge[OF ok c]) (auto simp: open_challenge_def)
  have "store_ok (?s1\<lparr>msAddressFailures := gm_set ?e (entries (msAddressFailures s) ?e @ [vfNow a]) (msAddressFailures s)\<rparr>)"
    if "map_of (msAddressFailures s) ?e \<noteq> None \<or> length (msAddressFailures s) < msCapacity s"
      "length (entries (msAddressFailures s) ?e) < addressVerifyLimit"
    using that store_ok_parts(5)[OF ok] by (intro store_ok_charge(3)[OF s1]) (simp add: budget_ok_charge)
  moreover have comm: "s\<lparr>msAddressFailures := m, msChallenges := cs\<rparr> = s\<lparr>msChallenges := cs, msAddressFailures := m\<rparr>" for m cs
    by (cases s) simp
  ultimately show ?thesis using ok by (auto simp: fail_attempt_def Let_def comm)
qed

lemma reclaimSession_ok:
  assumes ok: "store_ok s" and it: "any_order it" and rc: "reclaimSession it now s = (s', True)"
  shows "store_ok s'" "length (msSessions s') < msCapacity s"
proof -
  have t: "gm_ok (msSessions s)" "length (msSessions s) \<le> msCapacity s"
    using store_ok_parts(9)[OF ok] by (simp_all add: table_ok_def)
  obtain i x where f: "find (\<lambda>(cid, x). \<not> ssActive x \<or> \<not> now < srExpiresAt (ssRecord x) \<or>
              \<not> now < srLastSeenAt (ssRecord x) + sessionIdleTTL) (it (msSessions s)) = Some (i, x)"
    and s': "s' = s\<lparr>msSessions := gm_delete i (msSessions s)\<rparr>"
    using rc by (auto simp: reclaimSession_def split: option.splits)
  note fa = find_any_order[OF it t(1) f]
  show "store_ok s'" unfolding s' by (intro store_ok_charge(6)[OF ok] table_ok_delete store_ok_parts(9)[OF ok])
  show "length (msSessions s') < msCapacity s" using fa(3) t(2) by (simp add: s')
qed

lemma reclaimSession_frame:
  assumes "reclaimSession it now s = (s2, b)"
  shows "\<exists>i. s2 = s \<or> s2 = s\<lparr>msSessions := gm_delete i (msSessions s)\<rparr>"
  using assms by (auto simp: reclaimSession_def split: option.splits)

lemma make_room_session:
  assumes "make_room (length (msSessions s)) (reclaimSession it now) s = (s2, b)"
  shows "s2 = s \<and> (b \<longrightarrow> length (msSessions s) < msCapacity s) \<or> reclaimSession it now s = (s2, True) \<and> b"
  using assms by (auto simp: make_room_def reclaimSession_def split: if_splits option.splits)

lemma resolve_identity_cases:
  assumes "resolve_identity email a s = Some (s', i)"
  shows "s' = s \<and> map_of (msIdentities s) email = Some i \<or>
    i = \<lparr>idID = vfIdentityID a, idEmail = email, idCreatedAt = vfNow a\<rparr> \<and> length (msIdentities s) < msCapacity s \<and>
      s' = s\<lparr>msIdentities := gm_set email i (msIdentities s)\<rparr>"
  using assms by (auto simp: resolve_identity_def Let_def split: option.splits if_splits)

lemma resolve_identity_ok:
  assumes "store_ok s" "resolve_identity email a s = Some (s', i)"
  shows "store_ok s'" "idEmail i = email"
  using resolve_identity_cases[OF assms(2)] store_ok_parts(8)[OF assms(1)] assms(1)
  by (auto intro!: store_ok_charge(7) table_ok_add dest: table_ok_lookup)

text \<open>The outcomes of a correct code: no session (the store may have been reclaimed), or a session.\<close>

lemma complete_attempt_cases:
  assumes "complete_attempt it c a s = (s', res)"
  obtains (refused) "res = Err ErrUnavailable" "s' = s \<or> reclaimSession it (vfNow a) s = (s', True)"
  | (granted) i s2 s3 where "res = Ok i" "srID (vfSession a) \<noteq> []" "map_of (msSessions s) (srID (vfSession a)) = None"
      "s2 = s \<and> length (msSessions s) < msCapacity s \<or> reclaimSession it (vfNow a) s = (s2, True)"
      "resolve_identity (rvEmail (scReservation c)) a s2 = Some (s3, i)"
      "s' = s3\<lparr>msSessions := gm_set (srID (vfSession a))
               \<lparr>ssRecord = (vfSession a)\<lparr>srIdentityID := idID i\<rparr>, ssIdentity = i, ssActive = True\<rparr> (msSessions s3),
             msChallenges := gm_set (vfID a) (c\<lparr>scActive := False\<rparr>) (msChallenges s3),
             msActive := gm_delete (challenge_key (scReservation c)) (msActive s3)\<rparr>"
      "srCreatedAt (vfSession a) = vfNow a" "srLastSeenAt (vfSession a) = vfNow a" "srExpiresAt (vfSession a) > vfNow a"
proof -
  obtain s2 b where mr: "make_room (length (msSessions s)) (reclaimSession it (vfNow a)) s = (s2, b)"
    by (cases "make_room (length (msSessions s)) (reclaimSession it (vfNow a)) s")
  note room = make_room_session[OF mr]
  note C = assms[unfolded complete_attempt_def Let_def, unfolded mr, symmetric]
  show thesis
    using C room refused granted[of _ s2]
    by (cases b) (auto split: if_splits option.splits)
qed

lemma store_ok_close_challenge:
  assumes ok: "store_ok s" and c: "map_of (msChallenges s) i = Some c" and act: "scActive c"
  shows "store_ok (s\<lparr>msChallenges := gm_set i (c\<lparr>scActive := False\<rparr>) (msChallenges s),
      msActive := gm_delete (challenge_key (scReservation c)) (msActive s)\<rparr>)"
proof -
  have "map_of (msActive s) (challenge_key (scReservation c)) = Some i"
    using c act by (simp add: index_iff[OF ok] active_at_def)
  then have "fst (Invalidate None i s) = s\<lparr>msChallenges := gm_set i (c\<lparr>scActive := False\<rparr>) (msChallenges s),
      msActive := gm_delete (challenge_key (scReservation c)) (msActive s)\<rparr>"
    using challenge_id[OF ok c] c by (simp add: Invalidate_def drop_active_def deactivate_def get_str_def)
  then show ?thesis using store_ok_Invalidate[OF ok, of None i] by simp
qed

lemma complete_attempt_ok:
  assumes ok: "store_ok s" and it: "any_order it" and c: "map_of (msChallenges s) (vfID a) = Some c"
    and opn: "open_challenge c (vfNow a)"
  shows "store_ok (fst (complete_attempt it c a s))"
proof -
  obtain s' res where C: "complete_attempt it c a s = (s', res)" by (cases "complete_attempt it c a s")
  from C have "store_ok s'"
  proof (cases rule: complete_attempt_cases)
    case refused
    then show ?thesis using ok reclaimSession_ok(1)[OF ok it] by blast
  next
    case (granted i s2 s3)
    have s2: "store_ok s2 \<and> length (msSessions s2) < msCapacity s2 \<and> msChallenges s2 = msChallenges s"
      using granted(4)
    proof
      assume rc: "reclaimSession it (vfNow a) s = (s2, True)"
      then show ?thesis using reclaimSession_ok[OF ok it rc] reclaimSession_frame[OF rc] by auto
    qed (use ok in simp)
    then have s3: "store_ok s3" using resolve_identity_ok(1)[OF _ granted(5)] by blast
    have eqs: "msChallenges s3 = msChallenges s" "length (msSessions s3) < msCapacity s3"
      using resolve_identity_cases[OF granted(5)] s2 by auto
    let ?x = "\<lparr>ssRecord = (vfSession a)\<lparr>srIdentityID := idID i\<rparr>, ssIdentity = i, ssActive = True\<rparr>"
    have s4: "store_ok (s3\<lparr>msSessions := gm_set (srID (vfSession a)) ?x (msSessions s3)\<rparr>)"
      using eqs(2) by (intro store_ok_charge(6)[OF s3] table_ok_add store_ok_parts(9)[OF s3]) simp_all
    from store_ok_close_challenge[OF this, of "vfID a" c] c opn show ?thesis
      by (simp add: granted(6) eqs open_challenge_def)
  qed
  then show ?thesis by (simp add: C)
qed

lemma store_ok_Verify:
  assumes ok: "store_ok s" and it: "any_order it"
  shows "store_ok (fst (Verify it ctx a s))"
proof (cases ctx)
  case None
  have ch: "source_free a s \<Longrightarrow> store_ok (charge_source a s)" by (rule store_ok_charge_source[OF ok])
  show ?thesis
    unfolding None Verify_charged
    using ch store_ok_prune[OF ok] store_ok_fail_attempt complete_attempt_ok[OF _ it]
    by (auto split: option.split)
qed (use ok in \<open>simp add: Verify_def\<close>)

subsection \<open>Sessions and browser states\<close>

lemma store_ok_sessions:
  assumes ok: "store_ok s"
  shows "store_ok (fst (AuthenticateSession ctx p s))"
    and "store_ok (fst (RevokeSession ctx p s))"
    and "store_ok (fst (RevokeAllSessions ctx p s))"
    and "store_ok (fst (RevokeIdentitySessions ctx i s))"
proof -
  note t = store_ok_parts(9)[OF ok]
  show "store_ok (fst (AuthenticateSession ctx p s))"
    using ok t by (auto simp: AuthenticateSession_def split: option.split intro!: store_ok_charge(6) table_ok_keep
        dest: table_ok_lookup)
  show "store_ok (fst (RevokeSession ctx p s))"
    using ok t by (auto simp: RevokeSession_def split: option.split intro!: store_ok_charge(6) table_ok_keep
        dest: table_ok_lookup)
  have rev: "store_ok (revoke_identity i s)" for i
    unfolding revoke_identity_def by (intro store_ok_charge(6)[OF ok] table_ok_mapv[OF t]) auto
  then show "store_ok (fst (RevokeAllSessions ctx p s))"
    using ok by (auto simp: RevokeAllSessions_def split: option.split)
  show "store_ok (fst (RevokeIdentitySessions ctx i s))"
    using ok rev by (auto simp: RevokeIdentitySessions_def split: option.split)
qed

lemma reclaimBrowserState_ok:
  assumes ok: "store_ok s" and it: "any_order it" and rc: "reclaimBrowserState it now s = (s', True)"
  shows "store_ok s'" "length (msBrowserStates s') < msCapacity s"
proof -
  have t: "gm_ok (msBrowserStates s)" "length (msBrowserStates s) \<le> msCapacity s"
    using store_ok_parts(10)[OF ok] by (simp_all add: table_ok_def)
  obtain i x where f: "find (\<lambda>(cid, st). \<not> now < prExpiresAt st) (it (msBrowserStates s)) = Some (i, x)"
    and s': "s' = s\<lparr>msBrowserStates := gm_delete i (msBrowserStates s)\<rparr>"
    using rc by (auto simp: reclaimBrowserState_def split: option.splits)
  note fa = find_any_order[OF it t(1) f]
  show "store_ok s'" unfolding s' by (intro store_ok_charge(5)[OF ok] table_ok_delete store_ok_parts(10)[OF ok])
  show "length (msBrowserStates s') < msCapacity s" using fa(3) t(2) by (simp add: s')
qed

lemma reclaimBrowserState_frame:
  assumes "reclaimBrowserState it now s = (s2, b)"
  shows "\<exists>i. s2 = s \<or> s2 = s\<lparr>msBrowserStates := gm_delete i (msBrowserStates s)\<rparr>"
  using assms by (auto simp: reclaimBrowserState_def split: option.splits)

lemma CreatePreAuth_cases:
  assumes "CreatePreAuth it None r s = (s', res)"
  obtains (refused) "res \<noteq> None" "s' = s \<or> s' = prune (prIssuedAt r) s"
  | (created) s2 where "res = None"
      "s2 = prune (prIssuedAt r) s \<and> length (msBrowserStates s) < msCapacity s \<or>
        reclaimBrowserState it (prIssuedAt r) (prune (prIssuedAt r) s) = (s2, True)"
      "s' = s2\<lparr>msBrowserBootstraps := gm_set (prSource r) (entries (msBrowserBootstraps s2) (prSource r) @ [prIssuedAt r])
                 (msBrowserBootstraps s2),
               msBrowserStates := gm_set (prID r) r (msBrowserStates s2)\<rparr>"
      "length (entries (msBrowserBootstraps s2) (prSource r)) < browserBootstrapLimit"
      "map_of (msBrowserBootstraps s2) (prSource r) \<noteq> None \<or> length (msBrowserBootstraps s2) < msCapacity s2"
proof -
  define p where "p = prune (prIssuedAt r) s"
  obtain s2 b where mr: "make_room (length (msBrowserStates p)) (reclaimBrowserState it (prIssuedAt r)) p = (s2, b)"
    by (cases "make_room (length (msBrowserStates p)) (reclaimBrowserState it (prIssuedAt r)) p")
  have room: "s2 = p \<and> (b \<longrightarrow> length (msBrowserStates p) < msCapacity p) \<or>
      reclaimBrowserState it (prIssuedAt r) p = (s2, True) \<and> b"
    using mr by (auto simp: make_room_def reclaimBrowserState_def split: if_splits option.splits)
  have fr: "msBrowserBootstraps s2 = msBrowserBootstraps p" "msCapacity s2 = msCapacity p"
    using room reclaimBrowserState_frame[of it "prIssuedAt r" p s2 True] by auto
  have pf: "msBrowserStates p = msBrowserStates s" "msCapacity p = msCapacity s" by (simp_all add: p_def)
  define up where "up x = x\<lparr>msBrowserBootstraps := gm_set (prSource r)
      (entries (msBrowserBootstraps p) (prSource r) @ [prIssuedAt r]) (msBrowserBootstraps x),
    msBrowserStates := gm_set (prID r) r (msBrowserStates x)\<rparr>" for x :: memoryStore
  note R = assms[unfolded CreatePreAuth_def option.case Let_def, folded p_def, unfolded mr, symmetric]
  show thesis
  proof (cases "res = None")
    case True
    have b: "b \<and> s' = up s2 \<and> length (entries (msBrowserBootstraps p) (prSource r)) < browserBootstrapLimit \<and>
        (map_of (msBrowserBootstraps p) (prSource r) \<noteq> None \<or> length (msBrowserBootstraps p) < msCapacity p)"
      using R True by (cases b) (auto simp: up_def split: if_splits)
    show thesis
    proof (rule created[OF True])
      show "s2 = prune (prIssuedAt r) s \<and> length (msBrowserStates s) < msCapacity s \<or>
          reclaimBrowserState it (prIssuedAt r) (prune (prIssuedAt r) s) = (s2, True)"
        using room b pf unfolding p_def by auto
    qed (use b fr in \<open>simp_all add: up_def\<close>)
  next
    case False
    have "s' = s \<or> s' = p \<or> (s' = s2 \<and> \<not> b)" using R False by (cases b; simp split: if_splits)
    then show thesis using refused False room unfolding p_def by blast
  qed
qed

lemma store_ok_CreatePreAuth:
  assumes ok: "store_ok s" and it: "any_order it"
  shows "store_ok (fst (CreatePreAuth it ctx r s))"
proof (cases ctx)
  case None
  obtain s' res where R: "CreatePreAuth it None r s = (s', res)" by (cases "CreatePreAuth it None r s")
  note p = store_ok_prune[OF ok, of "prIssuedAt r"]
  from R have "store_ok s'"
  proof (cases rule: CreatePreAuth_cases)
    case refused
    then show ?thesis using p ok by auto
  next
    case (created s2)
    have s2: "store_ok s2 \<and> length (msBrowserStates s2) < msCapacity s2"
      using created(2)
    proof
      assume rc: "reclaimBrowserState it (prIssuedAt r) (prune (prIssuedAt r) s) = (s2, True)"
      then show ?thesis using reclaimBrowserState_ok[OF p it rc] reclaimBrowserState_frame[OF rc] by auto
    qed (use p in simp)
    then show ?thesis
      using store_ok_parts(4,10)[of s2] created(4,5)
      by (auto simp: created(3) intro!: store_ok_charge(4) budget_ok_charge table_ok_add)
  qed
  then show ?thesis using None R by simp
qed (use ok in \<open>simp add: CreatePreAuth_def\<close>)

lemma store_ok_preauth:
  assumes ok: "store_ok s"
  shows "store_ok (fst (AuthenticatePreAuth ctx p s))" "store_ok (fst (ConsumePreAuth ctx p s))"
  using ok store_ok_parts(10)[OF ok]
  by (auto simp: AuthenticatePreAuth_def ConsumePreAuth_def split: option.split intro!: store_ok_charge(5) table_ok_delete)

lemma run_op_ok: "store_ok s \<Longrightarrow> op_ok c \<Longrightarrow> store_ok (run_op c s)"
  by (cases c) (simp_all add: store_ok_Reserve store_ok_Verify store_ok_Invalidate store_ok_sessions
      store_ok_CreatePreAuth store_ok_preauth)

lemma reachable_ok: "reachable s \<Longrightarrow> store_ok s"
  by (induction rule: reachable.induct) (simp_all add: store_ok_new run_op_ok)

section \<open>Every reachable store is bounded\<close>

lemma index_le_challenges:
  assumes ok: "store_ok s"
  shows "length (msActive s) \<le> length (msChallenges s)"
proof -
  have d: "distinct (map fst (msActive s))" "distinct (map fst (msChallenges s))"
    using store_ok_parts(7,11)[OF ok] by (auto simp: table_ok_def)
  have at: "active_at s k i" if "(k, i) \<in> set (msActive s)" for k i
    using that d(1) by (simp add: index_iff[OF ok, symmetric])
  have "inj_on snd (set (msActive s))"
  proof (rule inj_onI)
    fix x y assume "x \<in> set (msActive s)" "y \<in> set (msActive s)" "snd x = snd y"
    then have "active_at s (fst x) (snd y)" "active_at s (fst y) (snd y)" using at by (metis prod.collapse)+
    then have "fst x = fst y" by (auto simp: active_at_def split: option.splits)
    with \<open>snd x = snd y\<close> show "x = y" by (simp add: prod_eq_iff)
  qed
  then have "card (snd ` set (msActive s)) = card (set (msActive s))" by (rule card_image)
  also have "card (set (msActive s)) = length (msActive s)"
    using d(1) by (simp add: distinct_map distinct_card)
  finally have "length (msActive s) = card (snd ` set (msActive s))" by simp
  also have "\<dots> \<le> card (fst ` set (msChallenges s))"
  proof (rule card_mono)
    show "snd ` set (msActive s) \<subseteq> fst ` set (msChallenges s)"
    proof
      fix i assume "i \<in> snd ` set (msActive s)"
      then obtain k where "(k, i) \<in> set (msActive s)" by auto
      then have "active_at s k i" by (rule at)
      then have "map_of (msChallenges s) i \<noteq> None" by (auto simp: active_at_def split: option.splits)
      then show "i \<in> fst ` set (msChallenges s)" by (simp add: map_of_eq_None_iff)
    qed
  qed simp
  also have "\<dots> = length (msChallenges s)" using d(2) by (metis distinct_card length_map set_map)
  finally show ?thesis .
qed

lemma one_active:
  assumes ok: "store_ok s" and c: "map_of (msChallenges s) i = Some c" "scActive c"
    and d: "map_of (msChallenges s) j = Some d" "scActive d"
    and same: "rvPurpose (scReservation c) = rvPurpose (scReservation d)" "rvEmail (scReservation c) = rvEmail (scReservation d)"
  shows "i = j"
proof -
  have "active_at s (challenge_key (scReservation d)) i" "active_at s (challenge_key (scReservation d)) j"
    using c d same by (simp_all add: active_at_def challenge_key_def)
  then show ?thesis by (simp add: index_iff[OF ok, symmetric])
qed

lemma entries_bound: "budget_ok cap lim m \<Longrightarrow> length (entries m k) \<le> lim"
  by (auto simp: entries_def budget_ok_def list_all_iff split: option.split dest: map_of_SomeD)

text \<open>A run: a store for two entries, a reservation and the verification of its code.\<close>

definition ex_new :: memoryStore where
  "ex_new = \<lparr>msCapacity = 2, msChallenges = [], msActive = [], msIdentities = [],
        msSessions = [], msBrowserStates = [], msAddressSends = [], msSourceSends = [],
        msBrowserBootstraps = [], msAddressFailures = [], msSourceVerifications = []\<rparr>"

definition ex_reservation :: "string \<Rightarrow> gotime \<Rightarrow> reservation" where
  "ex_reservation i t = \<lparr>rvID = i, rvEmail = ''ann@example.com'', rvKeyID = ''k1'', rvPurpose = ''native'',
     rvVerifier = ''v'' @ i, rvBinding = ''b'', rvIssuedAt = t, rvExpiresAt = t + 5 * Minute, rvSource = ''192.0.2.1''\<rparr>"

definition ex_attempt :: "string \<Rightarrow> string \<Rightarrow> gotime \<Rightarrow> verification" where
  "ex_attempt i k t = \<lparr>vfID = i, vfEmail = ''ann@example.com'', vfKeyID = ''k1'', vfPurpose = ''native'',
     vfVerifier = ''v'' @ i, vfBinding = ''b'', vfNow = t, vfSource = ''192.0.2.1'', vfIdentityID = ''user-1'',
     vfSession = \<lparr>srID = k, srIdentityID = [], srDigest = ''d'', srCSRFDigest = ''e'', srCreatedAt = t,
       srLastSeenAt = t, srExpiresAt = t + sessionAbsoluteTTL\<rparr>\<rparr>"

definition ex_proof :: "string \<Rightarrow> gotime \<Rightarrow> sessionProof" where
  "ex_proof k t = \<lparr>spID = k, spDigest = ''d'', spCSRFDigest = zeroDigest, spNow = t\<rparr>"

definition ex_preauth :: "gotime \<Rightarrow> preAuthRecord" where
  "ex_preauth t = \<lparr>prID = ''p1'', prSource = ''192.0.2.1'', prDigest = ''d'', prCSRFDigest = ''e'', prIssuedAt = t,
     prExpiresAt = t + preAuthTTL\<rparr>"

definition ex_preauth_proof :: "gotime \<Rightarrow> preAuthProof" where
  "ex_preauth_proof t = \<lparr>ppID = ''p1'', ppDigest = ''d'', ppCSRFDigest = ''e'', ppNow = t\<rparr>"

definition ex_history :: "store_op list" where
  "ex_history = [OpReserve (\<lambda>m. m) None (ex_reservation ''c1'' (2 * Hour)), OpVerify (\<lambda>m. m) None (ex_attempt ''c1'' ''s1'' (2 * Hour + Minute))]"

lemma any_order_id: "any_order (\<lambda>m. m)"
  by (simp add: any_order_def)

lemma reachable_ex_new: "reachable ex_new"
  by (rule reachable_new[of 2]) (simp add: NewMemoryStore_def ex_new_def)

lemma reachable_run: "reachable s \<Longrightarrow> list_all op_ok cs \<Longrightarrow> reachable (run_ops cs s)"
  by (induction cs arbitrary: s) (simp_all add: reachable_step)

lemma ex_history_ok: "list_all op_ok ex_history"
  by (simp add: ex_history_def any_order_id ex_reservation_def)



end
