(* ===== verification/Auth_Store_History.thy ===== *)
theory Auth_Store_History
  imports Auth_Store_Correct
begin

text \<open>
  Single use in the in-memory store, stated over one interface. \<open>one_time\<close>: a credential that is
  spent stays spent under every call that does not issue it again, and a spent credential is
  accepted by no call. Challenges, sessions and browser states provide it; the claims on
  verification, resending, sign-out and browser state rest on its facts.
\<close>

section \<open>Single use\<close>

locale one_time =
  fixes spent :: "string \<Rightarrow> memoryStore \<Rightarrow> bool"
    and issues :: "string \<Rightarrow> store_op \<Rightarrow> bool"
    and accepts :: "string \<Rightarrow> store_op \<Rightarrow> memoryStore \<Rightarrow> bool"
  assumes spent_step: "spent k s \<Longrightarrow> \<not> issues k c \<Longrightarrow> spent k (run_op c s)"
    and spent_refused: "spent k s \<Longrightarrow> \<not> accepts k c s"
begin

lemma spent_forever: "spent k s \<Longrightarrow> list_all (\<lambda>c. \<not> issues k c) cs \<Longrightarrow> spent k (run_ops cs s)"
  by (induction cs arbitrary: s) (simp_all add: spent_step)

lemma refused_forever: "spent k s \<Longrightarrow> list_all (\<lambda>c. \<not> issues k c) cs \<Longrightarrow> \<not> accepts k c (run_ops cs s)"
  using spent_forever spent_refused by blast

end

subsection \<open>Challenges\<close>

definition spent_challenge :: "string \<Rightarrow> memoryStore \<Rightarrow> bool" where
  "spent_challenge i s \<longleftrightarrow>
     (case map_of (msChallenges s) i of
        None \<Rightarrow> True | Some c \<Rightarrow> \<not> scActive c \<or> scAttempts c \<ge> challengeAttempts)"

fun issues_challenge :: "string \<Rightarrow> store_op \<Rightarrow> bool" where
  "issues_challenge i (OpReserve it ctx r) = (rvID r = i)"
| "issues_challenge i _ = False"

fun accepts_challenge :: "string \<Rightarrow> store_op \<Rightarrow> memoryStore \<Rightarrow> bool" where
  "accepts_challenge i (OpVerify it ctx a) s = (vfID a = i \<and> (\<exists>x. snd (Verify it ctx a s) = Ok x))"
| "accepts_challenge i _ s = False"

text \<open>A stored challenge keeps its reservation, is never reactivated and never regains attempts.\<close>

definition challenge_ages :: "storedChallenge option \<Rightarrow> storedChallenge option \<Rightarrow> bool" where
  "challenge_ages x y \<longleftrightarrow>
     (case y of None \<Rightarrow> True
      | Some d \<Rightarrow> (case x of None \<Rightarrow> False
          | Some c \<Rightarrow> scReservation d = scReservation c \<and> scAttempts c \<le> scAttempts d \<and> (scActive d \<longrightarrow> scActive c)))"

lemma challenge_ages_refl [simp]: "challenge_ages x x"
  by (simp add: challenge_ages_def split: option.split)

lemma challenge_ages_trans: "challenge_ages x y \<Longrightarrow> challenge_ages y z \<Longrightarrow> challenge_ages x z"
  by (auto simp: challenge_ages_def split: option.splits)

lemma challenge_ages_deactivate:
  "challenge_ages (map_of (msChallenges s) j) (map_of (msChallenges (deactivate i s)) j)"
  by (auto simp: deactivate_lookup challenge_ages_def split: option.split)

lemma challenge_ages_reclaim:
  assumes "reclaimChallenge it now s = (s2, b)"
  shows "challenge_ages (map_of (msChallenges s) i) (map_of (msChallenges s2) i)"
  using reclaimChallenge_frame(10)[OF assms, of i] by (auto simp: challenge_ages_def split: option.splits)

lemma challenge_ages_install:
  "i \<noteq> rvID r \<Longrightarrow> challenge_ages (map_of (msChallenges s) i) (map_of (msChallenges (install_challenge r s)) i)"
  using challenge_ages_deactivate[of s i] by (simp add: install_challenge_def Let_def gm_set_lookup)

lemma challenge_ages_Reserve:
  assumes "rvID r \<noteq> i"
  shows "challenge_ages (map_of (msChallenges s) i) (map_of (msChallenges (fst (Reserve it ctx r s))) i)"
proof (cases ctx)
  case None
  obtain s' res where R: "Reserve it None r s = (s', res)" by (cases "Reserve it None r s")
  from R have "challenge_ages (map_of (msChallenges s) i) (map_of (msChallenges s') i)"
  proof (cases rule: Reserve_cases)
    case reclaimed
    then show ?thesis using challenge_ages_reclaim by fastforce
  next
    case (installed s2)
    have "challenge_ages (map_of (msChallenges s) i) (map_of (msChallenges s2) i)"
      using installed(2) challenge_ages_reclaim by fastforce
    moreover have "challenge_ages (map_of (msChallenges s2) i) (map_of (msChallenges s') i)"
      using assms challenge_ages_install[of i r "s2\<lparr>msAddressSends := a, msSourceSends := b\<rparr>" for a b]
      by (auto simp: installed(3))
    ultimately show ?thesis by (rule challenge_ages_trans)
  qed simp
  then show ?thesis using None R by simp
qed (simp add: Reserve_def)

lemma complete_attempt_challenges:
  assumes "complete_attempt it c a s = (s', res)"
  shows "msChallenges s' = msChallenges s \<or> (\<exists>i. res = Ok i) \<and> msChallenges s' = gm_set (vfID a) (c\<lparr>scActive := False\<rparr>) (msChallenges s)"
  using assms
proof (cases rule: complete_attempt_cases)
  case refused
  then show ?thesis using reclaimSession_frame by fastforce
next
  case (granted i s2 s3)
  have "msChallenges s2 = msChallenges s" using granted(4) reclaimSession_frame by fastforce
  moreover have "msChallenges s3 = msChallenges s2" using resolve_identity_cases[OF granted(5)] by auto
  ultimately show ?thesis by (simp add: granted(1,6))
qed

lemma challenge_ages_Verify:
  "challenge_ages (map_of (msChallenges s) i) (map_of (msChallenges (fst (Verify it ctx a s))) i)"
proof (cases ctx)
  case None
  have fail: "challenge_ages (map_of (msChallenges s) i) (map_of (msChallenges (fst (fail_attempt c a (charge_source a s)))) i)"
    if "map_of (msChallenges s) (vfID a) = Some c" for c
    using that by (auto simp: fail_attempt_def Let_def gm_set_lookup challenge_ages_def split: option.split)
  have done_c: "challenge_ages (map_of (msChallenges s) i) (map_of (msChallenges (fst (complete_attempt it c a (charge_source a s)))) i)"
    if "map_of (msChallenges s) (vfID a) = Some c" for c
  proof -
    obtain s' res where C: "complete_attempt it c a (charge_source a s) = (s', res)"
      by (cases "complete_attempt it c a (charge_source a s)")
    show ?thesis using that complete_attempt_challenges[OF C]
      by (auto simp: C gm_set_lookup challenge_ages_def split: option.splits if_splits)
  qed
  show ?thesis unfolding None Verify_charged using fail done_c by (auto split: option.split)
qed (simp add: Verify_def)

lemma run_op_keeps_challenges:
  "case c of OpReserve _ _ _ \<Rightarrow> True | OpVerify _ _ _ \<Rightarrow> True | OpInvalidate _ _ \<Rightarrow> True
   | _ \<Rightarrow> msChallenges (run_op c s) = msChallenges s"
proof (cases c)
  case (OpCreatePreAuth it ctx r)
  show ?thesis
  proof (cases ctx)
    case None
    obtain s' res where R: "CreatePreAuth it None r s = (s', res)" by (cases "CreatePreAuth it None r s")
    from R have "msChallenges s' = msChallenges s"
    proof (cases rule: CreatePreAuth_cases)
      case (created s2)
      have "msChallenges s2 = msChallenges s" using created(2) reclaimBrowserState_frame by fastforce
      then show ?thesis by (simp add: created(3))
    qed auto
    then show ?thesis by (simp add: OpCreatePreAuth None R)
  qed (simp add: OpCreatePreAuth CreatePreAuth_def)
qed (auto simp: AuthenticateSession_def RevokeSession_def RevokeAllSessions_def RevokeIdentitySessions_def
    revoke_identity_def AuthenticatePreAuth_def ConsumePreAuth_def split: option.split)

lemma challenge_ages_run_op:
  assumes "\<not> issues_challenge i c"
  shows "challenge_ages (map_of (msChallenges s) i) (map_of (msChallenges (run_op c s)) i)"
proof (cases c)
  case (OpInvalidate ctx j)
  then show ?thesis using challenge_ages_deactivate[of s i j]
    by (auto simp: Invalidate_def split: option.split)
qed (use assms run_op_keeps_challenges[of c s] challenge_ages_Reserve challenge_ages_Verify in auto)

lemma Verify_Ok_cases:
  assumes "Verify it ctx a s = (s', Ok i)"
  obtains c where "ctx = None" "source_free a s" "map_of (msChallenges s) (vfID a) = Some c"
    "open_challenge c (vfNow a)" "credentials_match (scReservation c) a"
    "complete_attempt it c a (charge_source a s) = (s', Ok i)"
proof (cases ctx)
  case None
  show ?thesis
    using assms that None unfolding None Verify_charged
    by (auto simp: fail_attempt_def Let_def split: if_splits option.splits)
qed (use assms in \<open>simp add: Verify_def\<close>)

interpretation challenge_use: one_time spent_challenge issues_challenge accepts_challenge
proof
  fix k s c assume "spent_challenge k s" "\<not> issues_challenge k c"
  then show "spent_challenge k (run_op c s)"
    using challenge_ages_run_op[of k c s]
    by (auto simp: spent_challenge_def challenge_ages_def split: option.splits)
next
  fix k s c assume sp: "spent_challenge k s"
  show "\<not> accepts_challenge k c s"
  proof (cases c)
    case (OpVerify it ctx a)
    have "snd (Verify it ctx a s) \<noteq> Ok x" if "vfID a = k" for x
    proof
      assume "snd (Verify it ctx a s) = Ok x"
      then obtain s' where "Verify it ctx a s = (s', Ok x)" by (cases "Verify it ctx a s") auto
      then show False
        using sp that by (auto elim!: Verify_Ok_cases simp: spent_challenge_def open_challenge_def)
    qed
    then show ?thesis by (auto simp: OpVerify)
  qed simp_all
qed

subsection \<open>Sessions\<close>

definition revoked_session :: "string \<Rightarrow> memoryStore \<Rightarrow> bool" where
  "revoked_session k s \<longleftrightarrow> (case map_of (msSessions s) k of None \<Rightarrow> True | Some x \<Rightarrow> \<not> ssActive x)"

fun issues_session :: "string \<Rightarrow> store_op \<Rightarrow> bool" where
  "issues_session k (OpVerify it ctx a) = (srID (vfSession a) = k)"
| "issues_session k _ = False"

fun accepts_session :: "string \<Rightarrow> store_op \<Rightarrow> memoryStore \<Rightarrow> bool" where
  "accepts_session k (OpAuthenticateSession ctx p) s = (spID p = k \<and> (\<exists>x. snd (AuthenticateSession ctx p s) = Ok x))"
| "accepts_session k (OpRevokeSession ctx p) s = (spID p = k \<and> snd (RevokeSession ctx p s) = None)"
| "accepts_session k (OpRevokeAllSessions ctx p) s = (spID p = k \<and> snd (RevokeAllSessions ctx p s) = None)"
| "accepts_session k _ s = False"

text \<open>The calls that leave the sessions alone.\<close>

lemma Reserve_sessions: "msSessions (fst (Reserve it ctx r s)) = msSessions s \<and> msBrowserStates (fst (Reserve it ctx r s)) = msBrowserStates s"
proof (cases ctx)
  case None
  obtain s' res where R: "Reserve it None r s = (s', res)" by (cases "Reserve it None r s")
  from R have "msSessions s' = msSessions s \<and> msBrowserStates s' = msBrowserStates s"
  proof (cases rule: Reserve_cases)
    case reclaimed
    then show ?thesis using reclaimChallenge_frame(7,8) by fastforce
  next
    case (installed s2)
    have "msSessions s2 = msSessions s \<and> msBrowserStates s2 = msBrowserStates s"
      using installed(2) reclaimChallenge_frame(7,8)[of it "rvIssuedAt r" "prune (rvIssuedAt r) s" s2 True] by auto
    then show ?thesis by (simp add: installed(3) install_challenge_def Let_def)
  qed simp
  then show ?thesis using None R by simp
qed (simp add: Reserve_def)

lemma CreatePreAuth_sessions: "msSessions (fst (CreatePreAuth it ctx r s)) = msSessions s"
proof (cases ctx)
  case None
  obtain s' res where R: "CreatePreAuth it None r s = (s', res)" by (cases "CreatePreAuth it None r s")
  from R have "msSessions s' = msSessions s"
  proof (cases rule: CreatePreAuth_cases)
    case (created s2)
    have "msSessions s2 = msSessions s" using created(2) reclaimBrowserState_frame by fastforce
    then show ?thesis by (simp add: created(3))
  qed auto
  then show ?thesis using None R by simp
qed (simp add: CreatePreAuth_def)

lemma complete_attempt_sessions:
  assumes "complete_attempt it c a s = (s', res)" and "k \<noteq> srID (vfSession a)"
  shows "(map_of (msSessions s') k = None \<or> map_of (msSessions s') k = map_of (msSessions s) k) \<and>
    msBrowserStates s' = msBrowserStates s"
  using assms(1)
proof (cases rule: complete_attempt_cases)
  case refused
  then show ?thesis using reclaimSession_frame by (fastforce simp: gm_delete_lookup)
next
  case (granted i s2 s3)
  have "(map_of (msSessions s2) k = None \<or> map_of (msSessions s2) k = map_of (msSessions s) k) \<and> msBrowserStates s2 = msBrowserStates s"
    using granted(4) reclaimSession_frame by (fastforce simp: gm_delete_lookup)
  moreover have "msSessions s3 = msSessions s2 \<and> msBrowserStates s3 = msBrowserStates s2"
    using resolve_identity_cases[OF granted(5)] by auto
  ultimately show ?thesis using assms(2) by (simp add: granted(6) gm_set_lookup)
qed

lemma complete_attempt_browser:
  assumes "complete_attempt it c a s = (s', res)"
  shows "msBrowserStates s' = msBrowserStates s"
  using complete_attempt_sessions[OF assms, of "srID (vfSession a) @ ''x''"] by simp

lemma fail_attempt_sessions:
  "msSessions (fst (fail_attempt c a s)) = msSessions s \<and> msBrowserStates (fst (fail_attempt c a s)) = msBrowserStates s"
  by (simp add: fail_attempt_def Let_def)

lemma Verify_sessions:
  assumes "k \<noteq> srID (vfSession a)"
  shows "map_of (msSessions (fst (Verify it ctx a s))) k = None \<or>
         map_of (msSessions (fst (Verify it ctx a s))) k = map_of (msSessions s) k"
proof (cases ctx)
  case None
  have "map_of (msSessions (fst (complete_attempt it c a (charge_source a s)))) k = None \<or>
      map_of (msSessions (fst (complete_attempt it c a (charge_source a s)))) k = map_of (msSessions s) k" for c
    using complete_attempt_sessions[of it c a "charge_source a s", OF _ assms]
    by (cases "complete_attempt it c a (charge_source a s)") simp
  then show ?thesis unfolding None Verify_charged by (auto simp: fail_attempt_sessions split: option.split)
qed (simp add: Verify_def)

lemma Verify_browser: "msBrowserStates (fst (Verify it ctx a s)) = msBrowserStates s"
proof (cases ctx)
  case None
  have "msBrowserStates (fst (complete_attempt it c a (charge_source a s))) = msBrowserStates s" for c
    using complete_attempt_browser[of it c a "charge_source a s"]
    by (cases "complete_attempt it c a (charge_source a s)") simp
  then show ?thesis unfolding None Verify_charged by (auto simp: fail_attempt_sessions split: option.split)
qed (simp add: Verify_def)

lemma Invalidate_sessions:
  "msSessions (fst (Invalidate ctx i s)) = msSessions s \<and> msBrowserStates (fst (Invalidate ctx i s)) = msBrowserStates s"
  by (simp add: Invalidate_def split: option.split)

interpretation session_use: one_time revoked_session issues_session accepts_session
proof
  fix k s c assume rv: "revoked_session k s" and ni: "\<not> issues_session k c"
  show "revoked_session k (run_op c s)"
  proof (cases c)
    case (OpVerify it ctx a)
    then show ?thesis using rv ni Verify_sessions[of k a it ctx s] by (auto simp: revoked_session_def)
  qed (use rv in \<open>auto simp: revoked_session_def Reserve_sessions CreatePreAuth_sessions Invalidate_sessions
      AuthenticateSession_def RevokeSession_def RevokeAllSessions_def RevokeIdentitySessions_def revoke_identity_def
      AuthenticatePreAuth_def ConsumePreAuth_def gm_set_lookup gm_mapv_lookup split: option.splits\<close>)
next
  fix k s c assume "revoked_session k s"
  then show "\<not> accepts_session k c s"
    by (cases c) (auto simp: revoked_session_def AuthenticateSession_def RevokeSession_def RevokeAllSessions_def
        live_session_def split: option.splits if_splits)
qed

subsection \<open>Browser states\<close>

definition consumed_browser :: "string \<Rightarrow> memoryStore \<Rightarrow> bool" where
  "consumed_browser k s \<longleftrightarrow> map_of (msBrowserStates s) k = None"

fun issues_browser :: "string \<Rightarrow> store_op \<Rightarrow> bool" where
  "issues_browser k (OpCreatePreAuth it ctx r) = (prID r = k)"
| "issues_browser k _ = False"

fun accepts_browser :: "string \<Rightarrow> store_op \<Rightarrow> memoryStore \<Rightarrow> bool" where
  "accepts_browser k (OpAuthenticatePreAuth ctx p) s = (ppID p = k \<and> snd (AuthenticatePreAuth ctx p s) = None)"
| "accepts_browser k (OpConsumePreAuth ctx p) s = (ppID p = k \<and> snd (ConsumePreAuth ctx p s) = None)"
| "accepts_browser k _ s = False"

lemma CreatePreAuth_browser:
  assumes "k \<noteq> prID r" "map_of (msBrowserStates s) k = None"
  shows "map_of (msBrowserStates (fst (CreatePreAuth it ctx r s))) k = None"
proof (cases ctx)
  case None
  obtain s' res where R: "CreatePreAuth it None r s = (s', res)" by (cases "CreatePreAuth it None r s")
  from R have "map_of (msBrowserStates s') k = None"
  proof (cases rule: CreatePreAuth_cases)
    case (created s2)
    have "map_of (msBrowserStates s2) k = None"
      using created(2) assms(2) reclaimBrowserState_frame by (fastforce simp: gm_delete_lookup)
    then show ?thesis using assms(1) by (simp add: created(3) gm_set_lookup)
  qed (use assms(2) in auto)
  then show ?thesis using None R by simp
qed (simp add: CreatePreAuth_def assms(2))

interpretation browser_use: one_time consumed_browser issues_browser accepts_browser
proof
  fix k s c assume rv: "consumed_browser k s" and ni: "\<not> issues_browser k c"
  show "consumed_browser k (run_op c s)"
    by (cases c) (use rv ni in \<open>auto simp: consumed_browser_def Reserve_sessions CreatePreAuth_browser Invalidate_sessions
      Verify_browser AuthenticateSession_def RevokeSession_def RevokeAllSessions_def RevokeIdentitySessions_def
      revoke_identity_def AuthenticatePreAuth_def ConsumePreAuth_def gm_delete_lookup split: option.splits\<close>)
next
  fix k s c assume "consumed_browser k s"
  then show "\<not> accepts_browser k c s"
    by (cases c) (auto simp: consumed_browser_def AuthenticatePreAuth_def ConsumePreAuth_def
        authenticateBrowserState_def split: option.splits if_splits)
qed

section \<open>Claims on verification and single use\<close>

lemma Verify_Ok_state:
  assumes ok: "store_ok s" and it: "any_order it" and V: "Verify it ctx a s = (s', Ok i)"
  obtains c where "map_of (msChallenges s) (vfID a) = Some c" "open_challenge c (vfNow a)"
    "credentials_match (scReservation c) a" "idEmail i = vfEmail a"
    "map_of (msIdentities s) (vfEmail a) = Some i \<or>
       idID i = vfIdentityID a \<and> (\<forall>j. map_of (msIdentities s) (vfEmail a) = Some j \<longrightarrow> idID j = [])"
    "map_of (msSessions s) (srID (vfSession a)) = None"
    "map_of (msChallenges s') (vfID a) = Some (c\<lparr>scActive := False\<rparr>)"
    "map_of (msSessions s') (srID (vfSession a)) =
       Some \<lparr>ssRecord = (vfSession a)\<lparr>srIdentityID := idID i\<rparr>, ssIdentity = i, ssActive = True\<rparr>"
  using V
proof (cases rule: Verify_Ok_cases)
  case (1 c)
  have c: "rvEmail (scReservation c) = vfEmail a" using 1(5) by (simp add: credentials_match_def)
  note oc = store_ok_charge_source[OF ok 1(2)]
  from 1(6) show thesis
  proof (cases rule: complete_attempt_cases)
    case (granted i' s2 s3)
    have i: "i' = i" using granted(1) by simp
    have s2: "store_ok s2 \<and> msIdentities s2 = msIdentities s"
      using granted(4)
    proof
      assume rc: "reclaimSession it (vfNow a) (charge_source a s) = (s2, True)"
      then show ?thesis using reclaimSession_ok[OF oc it rc] reclaimSession_frame[OF rc] by auto
    qed (use oc in simp)
    note ri = granted(5)[unfolded i c]
    have idn: "map_of (msIdentities s) (vfEmail a) = Some i \<or>
       idID i = vfIdentityID a \<and> (\<forall>j. map_of (msIdentities s) (vfEmail a) = Some j \<longrightarrow> idID j = [])"
      using ri s2 by (auto simp: resolve_identity_def Let_def split: option.splits if_splits)
    show thesis
      by (rule that[OF 1(3,4,5)])
        (use granted s2 resolve_identity_ok(2)[OF _ ri] idn in \<open>simp_all add: i gm_set_lookup\<close>)
  qed simp
qed

text \<open>C12: A code is accepted only for an open challenge: \<open>Verify\<close> returns an identity only if the
  named challenge is stored, active, within its five attempts and its validity period, and the
  attempt carries its address, purpose, key, verifier and binding. It then deactivates the challenge,
  stores a new session for the identity, and the identity is the one already known for the address,
  or a new one when there is none.\<close>

theorem Verify_grants_only_to_proof:
  assumes "reachable s" and "any_order it" and "Verify it ctx a s = (s', Ok i)"
  shows "\<exists>c. map_of (msChallenges s) (vfID a) = Some c \<and> scActive c \<and> scAttempts c < 5 \<and>
     rvIssuedAt (scReservation c) \<le> vfNow a \<and> vfNow a < rvExpiresAt (scReservation c) \<and>
     rvEmail (scReservation c) = vfEmail a \<and> rvPurpose (scReservation c) = vfPurpose a \<and>
     rvKeyID (scReservation c) = vfKeyID a \<and> rvVerifier (scReservation c) = vfVerifier a \<and>
     rvBinding (scReservation c) = vfBinding a \<and>
     map_of (msChallenges s') (vfID a) = Some (c\<lparr>scActive := False\<rparr>) \<and>
     map_of (msSessions s) (srID (vfSession a)) = None \<and>
     map_of (msSessions s') (srID (vfSession a)) =
       Some \<lparr>ssRecord = (vfSession a)\<lparr>srIdentityID := idID i\<rparr>, ssIdentity = i, ssActive = True\<rparr> \<and>
     idEmail i = vfEmail a \<and>
     (map_of (msIdentities s) (vfEmail a) = Some i \<or>
       idID i = vfIdentityID a \<and> (\<forall>j. map_of (msIdentities s) (vfEmail a) = Some j \<longrightarrow> idID j = []))"
  using reachable_ok[OF assms(1)] assms(2,3)
proof (cases rule: Verify_Ok_state)
  case (1 c)
  then show ?thesis
    by (intro exI[of _ c]) (auto simp: open_challenge_def credentials_match_def challengeAttempts_def)
qed

definition ex_issued :: memoryStore where
  "ex_issued = run_ops [hd ex_history] ex_new"

lemma reachable_ex_issued: "reachable ex_issued"
  unfolding ex_issued_def
  by (rule reachable_run[OF reachable_ex_new]) (simp add: ex_history_def any_order_id ex_reservation_def)

theorem Verify_grants_only_to_proof_witness:
  "\<exists>s' i. Verify (\<lambda>m. m) None (ex_attempt ''c1'' ''s1'' (2 * Hour + Minute)) ex_issued = (s', Ok i) \<and> idEmail i = ''ann@example.com''"
proof -
  have "case snd (Verify (\<lambda>m. m) None (ex_attempt ''c1'' ''s1'' (2 * Hour + Minute)) ex_issued) of Ok i \<Rightarrow> True | Err e \<Rightarrow> False"
    by code_simp
  then obtain s' i where V: "Verify (\<lambda>m. m) None (ex_attempt ''c1'' ''s1'' (2 * Hour + Minute)) ex_issued = (s', Ok i)"
    by (cases "Verify (\<lambda>m. m) None (ex_attempt ''c1'' ''s1'' (2 * Hour + Minute)) ex_issued") (auto split: sum.splits)
  show ?thesis
    using Verify_grants_only_to_proof[OF reachable_ex_issued any_order_id V] V by (auto simp: ex_attempt_def)
qed

text \<open>C13: A code is used at most once: after \<open>Verify\<close> has accepted a challenge, no later \<open>Verify\<close> on
  that challenge succeeds, whatever calls come between, unless the same challenge ID is reserved
  again.\<close>

theorem challenge_single_use:
  assumes "reachable s" and "any_order it" and "Verify it ctx a s = (s', Ok i)"
    and "list_all (\<lambda>c. \<not> issues_challenge (vfID a) c) cs" and "vfID b = vfID a"
  shows "\<exists>e. snd (Verify it2 ctx2 b (run_ops cs s')) = Err e"
proof -
  have "spent_challenge (vfID a) s'"
    using reachable_ok[OF assms(1)] assms(2,3)
    by (cases rule: Verify_Ok_state) (simp add: spent_challenge_def)
  from challenge_use.refused_forever[OF this assms(4), of "OpVerify it2 ctx2 b"] assms(5)
  show ?thesis by (cases "snd (Verify it2 ctx2 b (run_ops cs s'))") auto
qed

theorem challenge_single_use_witness:
  "\<exists>e. snd (Verify (\<lambda>m. m) None (ex_attempt ''c1'' ''s2'' (2 * Hour + 2 * Minute))
      (run_ops [OpInvalidate None ''c9''] (run_ops ex_history ex_new))) = Err e"
proof -
  let ?a = "ex_attempt ''c1'' ''s1'' (2 * Hour + Minute)"
  have "case snd (Verify (\<lambda>m. m) None ?a ex_issued) of Ok i \<Rightarrow> True | Err e \<Rightarrow> False"
    by code_simp
  then obtain s' i where V: "Verify (\<lambda>m. m) None ?a ex_issued = (s', Ok i)"
    by (cases "Verify (\<lambda>m. m) None ?a ex_issued") (auto split: sum.splits)
  have s': "s' = run_ops ex_history ex_new" using V by (simp add: ex_issued_def ex_history_def)
  show ?thesis
    using challenge_single_use[OF reachable_ex_issued any_order_id V,
        of "[OpInvalidate None ''c9'']" "ex_attempt ''c1'' ''s2'' (2 * Hour + 2 * Minute)" "\<lambda>m. m" None]
    by (simp add: s' ex_attempt_def)
qed

lemma install_challenge_replaces:
  assumes ok: "store_ok s" and c: "map_of (msChallenges s) k = Some c" "scActive c"
    and key: "challenge_key (scReservation c) = challenge_key r" and k: "k \<noteq> rvID r"
  shows "spent_challenge k (install_challenge r s)"
proof -
  have "get_str (msActive s) (challenge_key r) = k"
    using c key challenge_id[OF ok c(1)] by (simp add: get_str_iff index_iff[OF ok] active_at_def)
  then show ?thesis
    using c k challenge_id[OF ok c(1)]
    by (simp add: spent_challenge_def install_challenge_def Let_def gm_set_lookup deactivate_lookup)
qed

lemma Reserve_replaces:
  assumes ok: "store_ok s" and it: "any_order it" and R: "Reserve it ctx r s = (s', None)"
    and c: "map_of (msChallenges s) k = Some c" "scActive c"
    and key: "challenge_key (scReservation c) = challenge_key r"
  shows "spent_challenge k s' \<and> k \<noteq> rvID r"
proof (cases ctx)
  case None
  note p = store_ok_prune[OF ok, of "rvIssuedAt r"]
  from R[unfolded None] show ?thesis
  proof (cases rule: Reserve_cases)
    case (installed s2)
    have k: "k \<noteq> rvID r" using installed(7) c by auto
    let ?s3 = "s2\<lparr>msAddressSends := gm_set (rvEmail r) (entries (msAddressSends s2) (rvEmail r) @ [rvIssuedAt r]) (msAddressSends s2),
            msSourceSends := gm_set (rvSource r) (entries (msSourceSends s2) (rvSource r) @ [rvIssuedAt r]) (msSourceSends s2)\<rparr>"
    have s2: "store_ok s2 \<and> (map_of (msChallenges s2) k = None \<or> map_of (msChallenges s2) k = Some c)"
      using installed(2)
    proof
      assume rc: "reclaimChallenge it (rvIssuedAt r) (prune (rvIssuedAt r) s) = (s2, True)"
      show ?thesis using reclaimChallenge_ok(1)[OF p it rc] reclaimChallenge_frame(10)[OF rc, of k] c by simp
    qed (use p c in simp)
    have s3: "store_ok ?s3"
      using s2 store_ok_parts(2,3)[of s2] installed(4,5,8,9) by (intro store_ok_charge(1) budget_ok_charge) auto
    have "spent_challenge k (install_challenge r ?s3)"
    proof (cases "map_of (msChallenges s2) k")
      case None
      then show ?thesis
        using challenge_ages_install[of k r ?s3] k by (auto simp: spent_challenge_def challenge_ages_def split: option.splits)
    next
      case (Some d)
      with s2 have "d = c" by simp
      with Some show ?thesis using c(2) key k by (intro install_challenge_replaces[OF s3, of k c]) simp_all
    qed
    then show ?thesis using installed(3) k by simp
  qed simp_all
qed (use R in \<open>simp add: Reserve_def\<close>)



text \<open>C15: Signing out ends sessions for good. \<open>RevokeAllSessions\<close> ends every stored session of the
  presented session's identity, \<open>RevokeIdentitySessions\<close> every session of the named identity and
  \<open>RevokeSession\<close> the presented one: no later call authenticates them, whatever calls come between,
  unless a verification stores a session under the same ID again.\<close>

theorem revoked_sessions_stay_revoked:
  assumes "map_of (msSessions s) k = Some y"
    and "map_of (msSessions s) (spID p) = Some x \<and> idID (ssIdentity x) = idID (ssIdentity y) \<and> RevokeAllSessions ctx p s = (s', None) \<or>
         RevokeIdentitySessions None (idID (ssIdentity y)) s = (s', None) \<or>
         spID p = k \<and> RevokeSession ctx p s = (s', None)"
    and "list_all (\<lambda>c. \<not> issues_session k c) cs" and "spID q = k"
  shows "snd (AuthenticateSession ctx2 q (run_ops cs s')) = Err (case ctx2 of None \<Rightarrow> ErrSession | Some e \<Rightarrow> e) \<and>
         snd (RevokeAllSessions ctx2 q (run_ops cs s')) \<noteq> None"
proof -
  have "revoked_session k s'"
    using assms(2)
  proof (elim disjE conjE)
    assume "map_of (msSessions s) (spID p) = Some x" "idID (ssIdentity x) = idID (ssIdentity y)" "RevokeAllSessions ctx p s = (s', None)"
    then show ?thesis using assms(1)
      by (auto simp: RevokeAllSessions_def revoke_identity_def revoked_session_def gm_mapv_lookup split: option.splits if_splits)
  next
    assume "RevokeIdentitySessions None (idID (ssIdentity y)) s = (s', None)"
    then show ?thesis using assms(1)
      by (auto simp: RevokeIdentitySessions_def revoke_identity_def revoked_session_def gm_mapv_lookup)
  next
    assume "spID p = k" "RevokeSession ctx p s = (s', None)"
    then show ?thesis by (auto simp: RevokeSession_def revoked_session_def gm_set_lookup split: option.splits if_splits)
  qed
  note dead = session_use.spent_forever[OF this assms(3)]
  have "snd (AuthenticateSession ctx2 q (run_ops cs s')) = Err (case ctx2 of None \<Rightarrow> ErrSession | Some e \<Rightarrow> e)"
    using dead assms(4) by (auto simp: AuthenticateSession_def revoked_session_def live_session_def split: option.splits)
  with session_use.spent_refused[OF dead, of "OpRevokeAllSessions ctx2 q"] assms(4) show ?thesis by auto
qed

theorem revoked_sessions_stay_revoked_witness:
  "snd (AuthenticateSession None (ex_proof ''s1'' (2 * Hour + 2 * Minute)) (run_ops ex_history ex_new)) =
     Ok \<lparr>idID = ''user-1'', idEmail = ''ann@example.com'', idCreatedAt = 2 * Hour + Minute\<rparr> \<and>
   snd (AuthenticateSession None (ex_proof ''s1'' (2 * Hour + 3 * Minute))
      (fst (RevokeIdentitySessions None ''user-1'' (run_ops ex_history ex_new)))) = Err ErrSession"
proof
  show "snd (AuthenticateSession None (ex_proof ''s1'' (2 * Hour + 2 * Minute)) (run_ops ex_history ex_new)) =
     Ok \<lparr>idID = ''user-1'', idEmail = ''ann@example.com'', idCreatedAt = 2 * Hour + Minute\<rparr>" by code_simp
  let ?s = "run_ops ex_history ex_new"
  let ?x = "\<lparr>ssRecord = (vfSession (ex_attempt ''c1'' ''s1'' (2 * Hour + Minute)))\<lparr>srIdentityID := ''user-1''\<rparr>,
     ssIdentity = \<lparr>idID = ''user-1'', idEmail = ''ann@example.com'', idCreatedAt = 2 * Hour + Minute\<rparr>, ssActive = True\<rparr>"
  have x: "map_of (msSessions ?s) ''s1'' = Some ?x" by code_simp
  have r: "RevokeIdentitySessions None (idID (ssIdentity ?x)) ?s = (fst (RevokeIdentitySessions None ''user-1'' ?s), None)"
    by (simp add: RevokeIdentitySessions_def)
  from revoked_sessions_stay_revoked[OF x disjI2[OF disjI1[OF r]], of "[]" "ex_proof ''s1'' (2 * Hour + 3 * Minute)" None]
  show "snd (AuthenticateSession None (ex_proof ''s1'' (2 * Hour + 3 * Minute))
      (fst (RevokeIdentitySessions None ''user-1'' ?s))) = Err ErrSession"
    by (simp add: ex_proof_def)
qed

text \<open>Browser state is used at most once: after \<open>ConsumePreAuth\<close> has succeeded, neither
  \<open>AuthenticatePreAuth\<close> nor \<open>ConsumePreAuth\<close> accepts that credential again, unless the same ID is
  created again; and it succeeds only for a stored state within its ten minutes whose two digests
  match the presented ones.\<close>

theorem preauth_single_use:
  assumes "ConsumePreAuth ctx p s = (s', None)"
    and "list_all (\<lambda>c. \<not> issues_browser (ppID p) c) cs" and "ppID q = ppID p"
  shows "(\<exists>r. map_of (msBrowserStates s) (ppID p) = Some r \<and> prIssuedAt r \<le> ppNow p \<and> ppNow p < prExpiresAt r \<and>
            prDigest r = ppDigest p \<and> prCSRFDigest r = ppCSRFDigest p) \<and>
         snd (AuthenticatePreAuth ctx2 q (run_ops cs s')) \<noteq> None \<and>
         snd (ConsumePreAuth ctx2 q (run_ops cs s')) \<noteq> None"
proof -
  have "consumed_browser (ppID p) s'"
    using assms(1) by (auto simp: ConsumePreAuth_def consumed_browser_def gm_delete_lookup split: option.splits)
  note dead = browser_use.refused_forever[OF this assms(2)]
  have "\<exists>r. map_of (msBrowserStates s) (ppID p) = Some r \<and> prIssuedAt r \<le> ppNow p \<and> ppNow p < prExpiresAt r \<and>
            prDigest r = ppDigest p \<and> prCSRFDigest r = ppCSRFDigest p"
    using assms(1) by (auto simp: ConsumePreAuth_def authenticateBrowserState_def split: option.splits if_splits)
  then show ?thesis
    using dead[of "OpAuthenticatePreAuth ctx2 q"] dead[of "OpConsumePreAuth ctx2 q"] assms(3) by simp
qed

theorem preauth_single_use_witness:
  "\<exists>s'. ConsumePreAuth None (ex_preauth_proof (2 * Hour + Minute)) (fst (CreatePreAuth (\<lambda>m. m) None (ex_preauth (2 * Hour)) ex_new)) = (s', None) \<and>
     snd (ConsumePreAuth None (ex_preauth_proof (2 * Hour + 2 * Minute)) s') \<noteq> None"
proof -
  let ?s = "fst (CreatePreAuth (\<lambda>m. m) None (ex_preauth (2 * Hour)) ex_new)"
  have "snd (ConsumePreAuth None (ex_preauth_proof (2 * Hour + Minute)) ?s) = None" by code_simp
  then obtain s' where C: "ConsumePreAuth None (ex_preauth_proof (2 * Hour + Minute)) ?s = (s', None)"
    by (cases "ConsumePreAuth None (ex_preauth_proof (2 * Hour + Minute)) ?s") simp
  show ?thesis
    using C preauth_single_use[OF C, of "[]" "ex_preauth_proof (2 * Hour + 2 * Minute)" None]
    by (auto simp: ex_preauth_proof_def)
qed

end
