(* ===== verification/Auth_Store_Budgets.thy ===== *)
theory Auth_Store_Budgets
  imports Auth_Store_Correct
begin

text \<open>
  The abuse budgets of the in-memory store, stated over one interface. \<open>rolling_budget\<close>: a call that is
  charged to a key finds fewer than the limit of charges in the hour before it. Under a clock that
  does not run backwards, no window of one hour then holds more charges than the limit. The five
  budgets provide it; \<open>spaced_budget\<close> adds the minimum gap between sends to one address.
\<close>

section \<open>Rolling budgets\<close>

fun op_time :: "store_op \<Rightarrow> gotime option" where
  "op_time (OpReserve it None r) = Some (rvIssuedAt r)"
| "op_time (OpVerify it None a) = Some (vfNow a)"
| "op_time (OpCreatePreAuth it None r) = Some (prIssuedAt r)"
| "op_time _ = None"

text \<open>The clock of the store's calls does not run backwards.\<close>

definition clock_ok :: "store_op list \<Rightarrow> bool" where
  "clock_ok cs \<longleftrightarrow> sorted (List.map_filter op_time cs)"

lemma recent_recent: "p \<le> t \<Longrightarrow> recent (recent ts p) t = recent ts t"
  by (induction ts) (auto simp: recent_def)

lemma recent_snoc: "recent (ts @ [t]) t = recent ts t @ [t]"
  by (auto simp: recent_def budgetWindow_def dropWhile_append)

lemma sorted_le_last: "sorted ts \<Longrightarrow> x \<in> set ts \<Longrightarrow> x \<le> last ts"
  by (induction ts) auto

lemma recent_filter: "sorted ts \<Longrightarrow> recent ts t = filter (\<lambda>x. t - budgetWindow < x) ts"
proof (induction ts)
  case (Cons x xs)
  show ?case
  proof (cases "x \<le> t - budgetWindow")
    case False
    then have "filter (\<lambda>x. t - budgetWindow < x) xs = xs" using Cons.prems by (auto simp: filter_id_conv)
    with False show ?thesis by (simp add: recent_def)
  qed (use Cons in \<open>simp add: recent_def\<close>)
qed (simp add: recent_def)

definition window :: "gotime \<Rightarrow> gotime list \<Rightarrow> gotime list" where
  "window w ts = filter (\<lambda>t. w - budgetWindow < t \<and> t \<le> w) ts"

lemma window_snoc:
  assumes "sorted ts" "\<forall>x \<in> set ts. x \<le> t" "length (recent ts t) < lim" "\<forall>w. length (window w ts) \<le> lim"
  shows "length (window w (ts @ [t])) \<le> lim"
proof (cases "w - budgetWindow < t \<and> t \<le> w")
  case True
  have "length (filter (\<lambda>x. w - budgetWindow < x \<and> x \<le> w) ts) \<le> length (filter (\<lambda>x. t - budgetWindow < x) ts)"
    using True by (induction ts) auto
  then have "length (window w ts) < lim" using assms(1,3) by (simp add: window_def recent_filter)
  with True show ?thesis by (simp add: window_def)
qed (use assms(4) in \<open>auto simp: window_def\<close>)

text \<open>The times of the calls of a history that are charged to a key.\<close>

fun charge_log :: "(store_op \<Rightarrow> memoryStore \<Rightarrow> (string \<times> gotime) option) \<Rightarrow> string \<Rightarrow> store_op list \<Rightarrow> memoryStore \<Rightarrow> gotime list" where
  "charge_log charged k [] s = []"
| "charge_log charged k (c # cs) s =
     (case charged c s of None \<Rightarrow> [] | Some (k', t) \<Rightarrow> if k' = k then [t] else []) @ charge_log charged k cs (run_op c s)"

locale rolling_budget =
  fixes budget_of :: "memoryStore \<Rightarrow> budget"
    and charged :: "store_op \<Rightarrow> memoryStore \<Rightarrow> (string \<times> gotime) option"
    and limit :: nat
  assumes charge: "store_ok s \<Longrightarrow> op_ok c \<Longrightarrow> charged c s = Some (k, t) \<Longrightarrow>
      op_time c = Some t \<and> length (recent (entries (budget_of s) k) t) < limit \<and>
      entries (budget_of (run_op c s)) k = recent (entries (budget_of s) k) t @ [t]"
    and idle: "store_ok s \<Longrightarrow> op_ok c \<Longrightarrow> \<forall>t. charged c s \<noteq> Some (k, t) \<Longrightarrow>
      entries (budget_of (run_op c s)) k = entries (budget_of s) k \<or>
      (\<exists>t. op_time c = Some t \<and> entries (budget_of (run_op c s)) k = recent (entries (budget_of s) k) t)"
begin

text \<open>The budget is what is left of the log of charges after the last pruning.\<close>

definition tracks :: "string \<Rightarrow> gotime list \<Rightarrow> gotime \<Rightarrow> memoryStore \<Rightarrow> bool" where
  "tracks k ts now s \<longleftrightarrow> sorted ts \<and> (\<forall>t \<in> set ts. t \<le> now) \<and> (\<exists>p \<le> now. entries (budget_of s) k = recent ts p) \<and>
     (\<forall>w. length (window w ts) \<le> limit)"

lemma tracks_charge:
  assumes "store_ok s" "op_ok c" "tracks k ts now s" "charged c s = Some (k, t)" "now \<le> t"
  shows "tracks k (ts @ [t]) t (run_op c s)" "length (recent ts t) < limit" "op_time c = Some t"
proof -
  obtain p where p: "p \<le> now" "entries (budget_of s) k = recent ts p" using assms(3) by (auto simp: tracks_def)
  have rr: "recent (recent ts p) t = recent ts t" using p(1) assms(5) by (simp add: recent_recent)
  note ch = charge[OF assms(1,2,4)]
  show lt: "length (recent ts t) < limit" and "op_time c = Some t" using ch by (simp_all add: p(2) rr)
  have le: "\<forall>x \<in> set ts. x \<le> t" using assms(3,5) by (auto simp: tracks_def)
  have "entries (budget_of (run_op c s)) k = recent (ts @ [t]) t"
    using ch by (simp add: p(2) rr recent_snoc)
  moreover have "sorted (ts @ [t])" using assms(3) le by (simp add: tracks_def sorted_append)
  ultimately show "tracks k (ts @ [t]) t (run_op c s)"
    using le lt assms(3) window_snoc[of ts t limit] unfolding tracks_def by auto
qed

lemma tracks_idle:
  assumes "store_ok s" "op_ok c" "tracks k ts now s" "\<forall>t. charged c s \<noteq> Some (k, t)"
    and "\<forall>t. op_time c = Some t \<longrightarrow> now \<le> t"
  shows "tracks k ts (case op_time c of None \<Rightarrow> now | Some t \<Rightarrow> t) (run_op c s)"
proof -
  obtain p where p: "p \<le> now" "entries (budget_of s) k = recent ts p" using assms(3) by (auto simp: tracks_def)
  let ?now = "case op_time c of None \<Rightarrow> now | Some t \<Rightarrow> t"
  have now: "now \<le> ?now" using assms(5) by (auto split: option.split)
  have "\<exists>p \<le> ?now. entries (budget_of (run_op c s)) k = recent ts p"
    using idle[OF assms(1,2,4)]
  proof
    assume "\<exists>t. op_time c = Some t \<and> entries (budget_of (run_op c s)) k = recent (entries (budget_of s) k) t"
    then obtain t where t: "op_time c = Some t" "entries (budget_of (run_op c s)) k = recent (recent ts p) t"
      by (auto simp: p(2))
    have "p \<le> t" using assms(5) t(1) p(1) by force
    with t show ?thesis by (auto simp: recent_recent)
  next
    assume "entries (budget_of (run_op c s)) k = entries (budget_of s) k"
    then show ?thesis using p now by (intro exI[of _ p]) simp
  qed
  with assms(3) now show ?thesis unfolding tracks_def by force
qed

lemma tracks_run:
  assumes "store_ok s" "list_all op_ok cs" "tracks k ts now s" "clock_ok cs"
    and "\<forall>t \<in> set (List.map_filter op_time cs). now \<le> t" and "Q ts"
    and grow: "\<And>c s ts now t. store_ok s \<Longrightarrow> op_ok c \<Longrightarrow> tracks k ts now s \<Longrightarrow> charged c s = Some (k, t) \<Longrightarrow>
      now \<le> t \<Longrightarrow> Q ts \<Longrightarrow> Q (ts @ [t])"
  shows "\<exists>now'. tracks k (ts @ charge_log charged k cs s) now' (run_ops cs s) \<and> Q (ts @ charge_log charged k cs s)"
  using assms(1-6)
proof (induction cs arbitrary: s ts now)
  case (Cons c cs)
  let ?now = "case op_time c of None \<Rightarrow> now | Some t \<Rightarrow> t"
  have le: "\<forall>t. op_time c = Some t \<longrightarrow> now \<le> t" using Cons.prems(5) by (simp add: map_filter_simps)
  have later: "\<forall>t \<in> set (List.map_filter op_time cs). ?now \<le> t"
    using Cons.prems(4,5) by (auto simp: clock_ok_def map_filter_simps split: option.splits)
  have ck: "clock_ok cs" using Cons.prems(4) by (auto simp: clock_ok_def map_filter_simps split: option.splits)
  have ok: "store_ok (run_op c s)" "list_all op_ok cs" using Cons.prems(1,2) by (simp_all add: run_op_ok)
  show ?case
  proof (cases "\<exists>t. charged c s = Some (k, t)")
    case True
    then obtain t where t: "charged c s = Some (k, t)" by blast
    have oc: "op_ok c" using Cons.prems(2) by simp
    have "op_time c = Some t" using charge[OF Cons.prems(1) oc t] by blast
    then have "now \<le> t" "?now = t" using le by simp_all
    with tracks_charge(1)[OF Cons.prems(1) oc Cons.prems(3) t] have "tracks k (ts @ [t]) ?now (run_op c s)" by simp
    moreover have "Q (ts @ [t])" by (rule grow[OF Cons.prems(1) oc Cons.prems(3) t \<open>now \<le> t\<close> Cons.prems(6)])
    ultimately show ?thesis using Cons.IH[OF ok _ ck later, of "ts @ [t]"] by (simp add: t)
  next
    case False
    then have no: "\<forall>t. charged c s \<noteq> Some (k, t)" by blast
    have "tracks k ts ?now (run_op c s)"
      using tracks_idle[OF Cons.prems(1) _ Cons.prems(3) no le] Cons.prems(2) by simp
    from Cons.IH[OF ok this ck later Cons.prems(6)] no show ?thesis by (auto split: option.splits)
  qed
qed auto

lemma logged_run:
  assumes "store_ok s" "budget_of s = []" "list_all op_ok cs" "clock_ok cs" "Q []"
    and "\<And>c s ts now t. store_ok s \<Longrightarrow> op_ok c \<Longrightarrow> tracks k ts now s \<Longrightarrow> charged c s = Some (k, t) \<Longrightarrow>
      now \<le> t \<Longrightarrow> Q ts \<Longrightarrow> Q (ts @ [t])"
  shows "(\<exists>now. tracks k (charge_log charged k cs s) now (run_ops cs s)) \<and> Q (charge_log charged k cs s)"
proof -
  define now where "now = Min (insert 0 (set (List.map_filter op_time cs)))"
  have now: "\<forall>t \<in> set (List.map_filter op_time cs). now \<le> t" by (simp add: now_def)
  have "tracks k [] now s" using assms(2) by (auto simp: tracks_def entries_def recent_def window_def intro: exI[of _ now])
  from tracks_run[OF assms(1,3) this assms(4) now assms(5,6)] show ?thesis by auto
qed

lemma window_limited:
  assumes "store_ok s" "budget_of s = []" "list_all op_ok cs" "clock_ok cs"
  shows "length (window w (charge_log charged k cs s)) \<le> limit"
  using logged_run[OF assms, of "\<lambda>_. True"] by (auto simp: tracks_def)

end

locale spaced_budget = rolling_budget +
  fixes gap :: duration
  assumes gap_small: "gap \<le> budgetWindow"
    and spaced: "store_ok s \<Longrightarrow> op_ok c \<Longrightarrow> charged c s = Some (k, t) \<Longrightarrow>
      recent (entries (budget_of s) k) t \<noteq> [] \<Longrightarrow> last (recent (entries (budget_of s) k) t) + gap \<le> t"
begin

lemma charges_spaced:
  assumes "store_ok s" "budget_of s = []" "list_all op_ok cs" "clock_ok cs"
  shows "sorted_wrt (\<lambda>x y. x + gap \<le> y) (charge_log charged k cs s)"
proof -
  have "sorted_wrt (\<lambda>x y. x + gap \<le> y) (ts @ [t])"
    if ok: "store_ok s" "op_ok c" and tr: "tracks k ts now s" and ch: "charged c s = Some (k, t)" "now \<le> t"
      and sp: "sorted_wrt (\<lambda>x y. x + gap \<le> y) ts" for c s ts now t
  proof -
    obtain p where p: "p \<le> now" "entries (budget_of s) k = recent ts p" using tr by (auto simp: tracks_def)
    have rr: "recent (entries (budget_of s) k) t = recent ts t" using p ch(2) by (simp add: recent_recent)
    have srt: "sorted ts" using tr by (simp add: tracks_def)
    have "x + gap \<le> t" if x: "x \<in> set ts" for x
    proof (cases "recent ts t = []")
      case True
      then have "x \<le> t - budgetWindow" using x by (simp add: recent_def)
      with gap_small show ?thesis by simp
    next
      case False
      then have "last (recent ts t) = last ts" by (simp add: recent_def dropWhile_eq_drop last_drop)
      moreover have "x \<le> last ts" by (rule sorted_le_last[OF srt x])
      ultimately show ?thesis using spaced[OF ok ch(1)] False by (simp add: rr)
    qed
    with sp show ?thesis by (simp add: sorted_wrt_append)
  qed
  then show ?thesis using logged_run[OF assms, of "sorted_wrt (\<lambda>x y. x + gap \<le> y)"] by simp
qed

end

section \<open>What each call does to each budget\<close>

text \<open>
  A call leaves a budget as it is, prunes it, or prunes it and appends the call's time to one key.
\<close>

definition budget_step :: "gotime option \<Rightarrow> (string \<times> gotime) option \<Rightarrow> budget \<Rightarrow> budget \<Rightarrow> bool" where
  "budget_step ot ch m m' \<longleftrightarrow>
     (case ch of
        None \<Rightarrow> m' = m \<or> (\<exists>t. ot = Some t \<and> m' = prune_budget t m)
      | Some (k, t) \<Rightarrow> ot = Some t \<and> m' = gm_set k (entries (prune_budget t m) k @ [t]) (prune_budget t m))"

lemma budget_step_entries:
  assumes "gm_ok m" "budget_step ot ch m m'"
  shows "ch = Some (k, t) \<Longrightarrow> ot = Some t \<and> entries m' k = recent (entries m k) t @ [t]"
    and "\<forall>t. ch \<noteq> Some (k, t) \<Longrightarrow> entries m' k = entries m k \<or> (\<exists>t. ot = Some t \<and> entries m' k = recent (entries m k) t)"
  using assms by (auto simp: budget_step_def entries_set entries_prune split: option.splits)

lemma prune_budget_fields [simp]:
  "msAddressSends (prune t s) = prune_budget t (msAddressSends s)"
  "msSourceSends (prune t s) = prune_budget t (msSourceSends s)"
  "msBrowserBootstraps (prune t s) = prune_budget t (msBrowserBootstraps s)"
  "msAddressFailures (prune t s) = prune_budget t (msAddressFailures s)"
  "msSourceVerifications (prune t s) = prune_budget t (msSourceVerifications s)"
  by (simp_all add: prune_def)

fun charged_address :: "store_op \<Rightarrow> memoryStore \<Rightarrow> (string \<times> gotime) option" where
  "charged_address (OpReserve it ctx r) s = (if snd (Reserve it ctx r s) = None then Some (rvEmail r, rvIssuedAt r) else None)"
| "charged_address _ s = None"

fun charged_source :: "store_op \<Rightarrow> memoryStore \<Rightarrow> (string \<times> gotime) option" where
  "charged_source (OpReserve it ctx r) s = (if snd (Reserve it ctx r s) = None then Some (rvSource r, rvIssuedAt r) else None)"
| "charged_source _ s = None"

fun charged_bootstrap :: "store_op \<Rightarrow> memoryStore \<Rightarrow> (string \<times> gotime) option" where
  "charged_bootstrap (OpCreatePreAuth it ctx r) s = (if snd (CreatePreAuth it ctx r s) = None then Some (prSource r, prIssuedAt r) else None)"
| "charged_bootstrap _ s = None"

text \<open>A verification is charged to its source when it gets past the source's limit.\<close>

fun charged_verification :: "store_op \<Rightarrow> memoryStore \<Rightarrow> (string \<times> gotime) option" where
  "charged_verification (OpVerify it ctx a) s = (if ctx = None \<and> source_free a s then Some (vfSource a, vfNow a) else None)"
| "charged_verification _ s = None"

text \<open>A failure is charged to the challenge's address when it costs the challenge an attempt.\<close>

definition attempts_of :: "memoryStore \<Rightarrow> string \<Rightarrow> nat" where
  "attempts_of s i = (case map_of (msChallenges s) i of None \<Rightarrow> 0 | Some c \<Rightarrow> scAttempts c)"

fun charged_failure :: "store_op \<Rightarrow> memoryStore \<Rightarrow> (string \<times> gotime) option" where
  "charged_failure (OpVerify it ctx a) s =
     (case map_of (msChallenges s) (vfID a) of
        None \<Rightarrow> None
      | Some c \<Rightarrow> if attempts_of s (vfID a) < attempts_of (fst (Verify it ctx a s)) (vfID a)
                  then Some (rvEmail (scReservation c), vfNow a) else None)"
| "charged_failure _ s = None"

definition budgets_step :: "store_op \<Rightarrow> memoryStore \<Rightarrow> memoryStore \<Rightarrow> bool" where
  "budgets_step c s s' \<longleftrightarrow>
     budget_step (op_time c) (charged_address c s) (msAddressSends s) (msAddressSends s') \<and>
     budget_step (op_time c) (charged_source c s) (msSourceSends s) (msSourceSends s') \<and>
     budget_step (op_time c) (charged_bootstrap c s) (msBrowserBootstraps s) (msBrowserBootstraps s') \<and>
     budget_step (op_time c) (charged_failure c s) (msAddressFailures s) (msAddressFailures s') \<and>
     budget_step (op_time c) (charged_verification c s) (msSourceVerifications s) (msSourceVerifications s')"

lemma Reserve_budgets: "budgets_step (OpReserve it ctx r) s (fst (Reserve it ctx r s))"
proof (cases ctx)
  case None
  obtain s' res where R: "Reserve it None r s = (s', res)" by (cases "Reserve it None r s")
  from R show ?thesis
  proof (cases rule: Reserve_cases)
    case pruned
    then show ?thesis by (auto simp: None R budgets_step_def budget_step_def)
  next
    case reclaimed
    note fr = reclaimChallenge_frame(2-6)[OF reclaimed(1)]
    show ?thesis using reclaimed(2) by (auto simp: None R budgets_step_def budget_step_def fr)
  next
    case (installed s2)
    have fr: "msAddressSends s2 = prune_budget (rvIssuedAt r) (msAddressSends s)"
      "msSourceSends s2 = prune_budget (rvIssuedAt r) (msSourceSends s)"
      "msBrowserBootstraps s2 = prune_budget (rvIssuedAt r) (msBrowserBootstraps s)"
      "msAddressFailures s2 = prune_budget (rvIssuedAt r) (msAddressFailures s)"
      "msSourceVerifications s2 = prune_budget (rvIssuedAt r) (msSourceVerifications s)"
      using installed(2) reclaimChallenge_frame(2-6)[of it "rvIssuedAt r" "prune (rvIssuedAt r) s" s2 True] by auto
    show ?thesis
      unfolding None using installed(1)
      by (simp add: R installed(3) install_challenge_def Let_def budgets_step_def budget_step_def fr)
  qed
qed (simp add: Reserve_def budgets_step_def budget_step_def)

lemma CreatePreAuth_budgets: "budgets_step (OpCreatePreAuth it ctx r) s (fst (CreatePreAuth it ctx r s))"
proof (cases ctx)
  case None
  obtain s' res where R: "CreatePreAuth it None r s = (s', res)" by (cases "CreatePreAuth it None r s")
  from R show ?thesis
  proof (cases rule: CreatePreAuth_cases)
    case refused
    then show ?thesis by (auto simp: None R budgets_step_def budget_step_def)
  next
    case (created s2)
    have fr: "msAddressSends s2 = prune_budget (prIssuedAt r) (msAddressSends s)"
      "msSourceSends s2 = prune_budget (prIssuedAt r) (msSourceSends s)"
      "msBrowserBootstraps s2 = prune_budget (prIssuedAt r) (msBrowserBootstraps s)"
      "msAddressFailures s2 = prune_budget (prIssuedAt r) (msAddressFailures s)"
      "msSourceVerifications s2 = prune_budget (prIssuedAt r) (msSourceVerifications s)"
      using created(2) reclaimBrowserState_frame[of it "prIssuedAt r" "prune (prIssuedAt r) s" s2 True] by auto
    show ?thesis
      unfolding None using created(1) by (simp add: R created(3) budgets_step_def budget_step_def fr)
  qed
qed (simp add: CreatePreAuth_def budgets_step_def budget_step_def)

text \<open>The parts of a store that a verification prunes or leaves to \<open>complete_attempt\<close>.\<close>

lemma complete_attempt_budgets:
  assumes "complete_attempt it c a s = (s', res)"
  shows "msAddressSends s' = msAddressSends s \<and> msSourceSends s' = msSourceSends s \<and>
    msBrowserBootstraps s' = msBrowserBootstraps s \<and> msAddressFailures s' = msAddressFailures s \<and>
    msSourceVerifications s' = msSourceVerifications s \<and>
    (map_of (msChallenges s) (vfID a) = Some c \<longrightarrow> attempts_of s' (vfID a) = attempts_of s (vfID a))"
  using assms
proof (cases rule: complete_attempt_cases)
  case refused
  then show ?thesis using reclaimSession_frame[of it "vfNow a" s s' True] by (auto simp: attempts_of_def)
next
  case (granted i s2 s3)
  have "s2 = s \<or> (\<exists>k. s2 = s\<lparr>msSessions := gm_delete k (msSessions s)\<rparr>)"
    using granted(4) reclaimSession_frame[of it "vfNow a" s s2 True] by auto
  moreover have "s3 = s2 \<or> (\<exists>m. s3 = s2\<lparr>msIdentities := m\<rparr>)" using resolve_identity_cases[OF granted(5)] by auto
  ultimately show ?thesis by (auto simp: granted(6) attempts_of_def gm_set_lookup)
qed

lemma charge_source_verifications:
  "msSourceVerifications (charge_source a s) = gm_set (vfSource a)
     (entries (prune_budget (vfNow a) (msSourceVerifications s)) (vfSource a) @ [vfNow a]) (prune_budget (vfNow a) (msSourceVerifications s))"
  by (simp add: charge_source_def Let_def)

lemma Verify_budgets: "budgets_step (OpVerify it ctx a) s (fst (Verify it ctx a s))"
proof (cases "ctx = None \<and> source_free a s")
  case False
  then show ?thesis
    by (cases ctx) (auto simp: Verify_def[of _ "Some _"] Verify_charged budgets_step_def budget_step_def attempts_of_def split: option.split)
next
  case True
  then have ctx: "ctx = None" and sf: "source_free a s" by simp_all
  show ?thesis
  proof (cases "map_of (msChallenges s) (vfID a)")
    case None
    then show ?thesis
      by (simp add: ctx sf Verify_charged budgets_step_def budget_step_def charge_source_verifications)
  next
    case (Some c)
    consider (closed) "\<not> open_challenge c (vfNow a)" | (wrong) "open_challenge c (vfNow a)" "\<not> credentials_match (scReservation c) a"
      | (right) "open_challenge c (vfNow a)" "credentials_match (scReservation c) a" by blast
    then show ?thesis
    proof cases
      case closed
      then show ?thesis
        by (simp add: Some ctx sf Verify_charged budgets_step_def budget_step_def charge_source_verifications attempts_of_def)
    next
      case wrong
      then show ?thesis
        by (auto simp: Some ctx sf Verify_charged budgets_step_def budget_step_def charge_source_verifications
            attempts_of_def fail_attempt_def Let_def gm_set_lookup)
    next
      case right
      obtain s' res where C: "complete_attempt it c a (charge_source a s) = (s', res)"
        by (cases "complete_attempt it c a (charge_source a s)")
      have V: "Verify it None a s = (s', res)" using right by (simp add: Some sf Verify_charged C)
      have "attempts_of (charge_source a s) (vfID a) = attempts_of s (vfID a)" by (simp add: attempts_of_def)
      then show ?thesis
        using complete_attempt_budgets[OF C] Some
        by (simp add: ctx V sf budgets_step_def budget_step_def charge_source_verifications)
    qed
  qed
qed

lemma quiet_budgets:
  "(\<forall>it ctx r. c \<noteq> OpReserve it ctx r) \<Longrightarrow> (\<forall>it ctx a. c \<noteq> OpVerify it ctx a) \<Longrightarrow> (\<forall>it ctx r. c \<noteq> OpCreatePreAuth it ctx r) \<Longrightarrow>
     budgets_step c s (run_op c s)"
  by (cases c) (auto simp: Invalidate_def AuthenticateSession_def RevokeSession_def
    RevokeAllSessions_def RevokeIdentitySessions_def revoke_identity_def AuthenticatePreAuth_def ConsumePreAuth_def
    budgets_step_def budget_step_def split: option.split)

lemma run_op_budgets: "budgets_step c s (run_op c s)"
proof (cases "(\<forall>it ctx r. c \<noteq> OpReserve it ctx r) \<and> (\<forall>it ctx a. c \<noteq> OpVerify it ctx a) \<and> (\<forall>it ctx r. c \<noteq> OpCreatePreAuth it ctx r)")
  case False
  then show ?thesis
    using Reserve_budgets[of _ _ _ s] Verify_budgets[of _ _ _ s] CreatePreAuth_budgets[of _ _ _ s] by auto
qed (simp add: quiet_budgets)

section \<open>The limits\<close>

lemma charged_limits:
  shows "charged_address c s = Some (k, t) \<Longrightarrow> length (entries (prune_budget t (msAddressSends s)) k) < addressSendLimit \<and>
      (entries (prune_budget t (msAddressSends s)) k \<noteq> [] \<longrightarrow>
         \<not> time_sub t (last (entries (prune_budget t (msAddressSends s)) k)) < minimumSendGap)"
    and "charged_source c s = Some (k, t) \<Longrightarrow> length (entries (prune_budget t (msSourceSends s)) k) < sourceSendLimit"
proof -
  have R: "res = None \<Longrightarrow> Reserve it None r s = (s', res) \<Longrightarrow>
      length (entries (prune_budget (rvIssuedAt r) (msAddressSends s)) (rvEmail r)) < addressSendLimit \<and>
      (entries (prune_budget (rvIssuedAt r) (msAddressSends s)) (rvEmail r) \<noteq> [] \<longrightarrow>
        \<not> time_sub (rvIssuedAt r) (last (entries (prune_budget (rvIssuedAt r) (msAddressSends s)) (rvEmail r))) < minimumSendGap) \<and>
      length (entries (prune_budget (rvIssuedAt r) (msSourceSends s)) (rvSource r)) < sourceSendLimit" for it r s' res
  proof (erule Reserve_cases)
    fix s2 assume g: "s2 = prune (rvIssuedAt r) s \<and> length (msChallenges s) < msCapacity s \<or>
        reclaimChallenge it (rvIssuedAt r) (prune (rvIssuedAt r) s) = (s2, True)"
    have fr: "msAddressSends s2 = prune_budget (rvIssuedAt r) (msAddressSends s)" "msSourceSends s2 = prune_budget (rvIssuedAt r) (msSourceSends s)"
      using g reclaimChallenge_frame(2,3)[of it "rvIssuedAt r" "prune (rvIssuedAt r) s" s2 True] by auto
    assume "length (entries (msAddressSends s2) (rvEmail r)) < addressSendLimit"
      "length (entries (msSourceSends s2) (rvSource r)) < sourceSendLimit"
      "entries (msAddressSends s2) (rvEmail r) \<noteq> [] \<Longrightarrow>
         \<not> time_sub (rvIssuedAt r) (last (entries (msAddressSends s2) (rvEmail r))) < minimumSendGap"
    then show ?thesis by (simp add: fr)
  qed simp_all
  have live: "snd (Reserve it ctx r s) = None \<Longrightarrow> ctx = None \<and> Reserve it None r s = (fst (Reserve it None r s), None)" for it ctx r
    by (cases ctx; cases "Reserve it None r s") (auto simp: Reserve_def[of _ "Some _"])
  { assume "charged_address c s = Some (k, t)"
    then obtain it ctx r where "c = OpReserve it ctx r" "snd (Reserve it ctx r s) = None" "k = rvEmail r" "t = rvIssuedAt r"
      by (cases c) (auto split: if_splits)
    then show "length (entries (prune_budget t (msAddressSends s)) k) < addressSendLimit \<and>
      (entries (prune_budget t (msAddressSends s)) k \<noteq> [] \<longrightarrow>
         \<not> time_sub t (last (entries (prune_budget t (msAddressSends s)) k)) < minimumSendGap)"
      using R[OF refl, OF live[THEN conjunct2, of it ctx r]] by simp }
  { assume "charged_source c s = Some (k, t)"
    then obtain it ctx r where "c = OpReserve it ctx r" "snd (Reserve it ctx r s) = None" "k = rvSource r" "t = rvIssuedAt r"
      by (cases c) (auto split: if_splits)
    then show "length (entries (prune_budget t (msSourceSends s)) k) < sourceSendLimit"
      using R[OF refl, OF live[THEN conjunct2, of it ctx r]] by simp }
qed

lemma charged_bootstrap_limit:
  assumes "charged_bootstrap c s = Some (k, t)"
  shows "length (entries (prune_budget t (msBrowserBootstraps s)) k) < browserBootstrapLimit"
proof -
  obtain it ctx r where c: "c = OpCreatePreAuth it ctx r" "snd (CreatePreAuth it ctx r s) = None" "k = prSource r" "t = prIssuedAt r"
    using assms by (cases c) (auto split: if_splits)
  then have ctx: "ctx = None" by (cases ctx) (auto simp: CreatePreAuth_def)
  obtain s' where "CreatePreAuth it None r s = (s', None)" using c(2) ctx by (cases "CreatePreAuth it None r s") simp
  then show ?thesis
  proof (cases rule: CreatePreAuth_cases)
    case (created s2)
    have "msBrowserBootstraps s2 = prune_budget (prIssuedAt r) (msBrowserBootstraps s)"
      using created(2) reclaimBrowserState_frame[of it "prIssuedAt r" "prune (prIssuedAt r) s" s2 True] by auto
    then show ?thesis using created(4) c(3,4) by simp
  qed simp
qed

lemma charged_verify_limits:
  shows "charged_verification c s = Some (k, t) \<Longrightarrow> length (entries (prune_budget t (msSourceVerifications s)) k) < sourceVerifyLimit"
    and "charged_failure c s = Some (k, t) \<Longrightarrow> length (entries (prune_budget t (msAddressFailures s)) k) < addressVerifyLimit"
proof -
  show "charged_verification c s = Some (k, t) \<Longrightarrow> length (entries (prune_budget t (msSourceVerifications s)) k) < sourceVerifyLimit"
    by (cases c) (auto simp: source_free_def Let_def split: if_splits)
  assume ch: "charged_failure c s = Some (k, t)"
  then obtain it ctx a d where c: "c = OpVerify it ctx a" "map_of (msChallenges s) (vfID a) = Some d"
      "attempts_of s (vfID a) < attempts_of (fst (Verify it ctx a s)) (vfID a)" "k = rvEmail (scReservation d)" "t = vfNow a"
    by (cases c) (auto split: option.splits if_splits)
  have ctx: "ctx = None" using c(3) by (cases ctx) (auto simp: Verify_def)
  have cs: "attempts_of (charge_source a s) i = attempts_of s i" "attempts_of (prune t s) i = attempts_of s i" for t i
    by (simp_all add: attempts_of_def)
  have "\<not> credentials_match (scReservation d) a \<and> open_challenge d (vfNow a) \<and> source_free a s"
  proof (rule ccontr)
    assume "\<not> ?thesis"
    then have "attempts_of (fst (Verify it None a s)) (vfID a) = attempts_of s (vfID a)"
      using c(2) complete_attempt_budgets[of it d a "charge_source a s"]
      by (cases "complete_attempt it d a (charge_source a s)") (auto simp: Verify_charged cs)
    with c(3) ctx show False by simp
  qed
  then show "length (entries (prune_budget t (msAddressFailures s)) k) < addressVerifyLimit"
    using c ctx cs by (auto simp: Verify_charged fail_attempt_def Let_def split: if_splits)
qed

lemmas budget_gm_ok = store_ok_parts(2-6)[unfolded budget_ok_def, THEN conjunct1]

lemma rolling_budgetI:
  assumes gm: "\<And>s. store_ok s \<Longrightarrow> gm_ok (B s)"
    and st: "\<And>c s. budget_step (op_time c) (ch c s) (B s) (B (run_op c s))"
    and lim: "\<And>c s k t. ch c s = Some (k, t) \<Longrightarrow> length (entries (prune_budget t (B s)) k) < lim"
  shows "rolling_budget B ch lim"
proof
  fix s c k t assume ok: "store_ok s" and c: "ch c s = Some (k, t)"
  show "op_time c = Some t \<and> length (recent (entries (B s) k) t) < lim \<and>
      entries (B (run_op c s)) k = recent (entries (B s) k) t @ [t]"
    using budget_step_entries(1)[OF gm[OF ok] st c] lim[OF c] by (simp add: entries_prune[OF gm[OF ok]])
next
  fix s c k assume ok: "store_ok s" and c: "\<forall>t. ch c s \<noteq> Some (k, t)"
  show "entries (B (run_op c s)) k = entries (B s) k \<or>
      (\<exists>t. op_time c = Some t \<and> entries (B (run_op c s)) k = recent (entries (B s) k) t)"
    by (rule budget_step_entries(2)[OF gm[OF ok] st c])
qed

lemmas run_op_budget = run_op_budgets[unfolded budgets_step_def, THEN conjunct1]
  run_op_budgets[unfolded budgets_step_def, THEN conjunct2, THEN conjunct1]
  run_op_budgets[unfolded budgets_step_def, THEN conjunct2, THEN conjunct2, THEN conjunct1]
  run_op_budgets[unfolded budgets_step_def, THEN conjunct2, THEN conjunct2, THEN conjunct2, THEN conjunct1]
  run_op_budgets[unfolded budgets_step_def, THEN conjunct2, THEN conjunct2, THEN conjunct2, THEN conjunct2]

interpretation address_sends: spaced_budget msAddressSends charged_address addressSendLimit minimumSendGap
proof (intro spaced_budget.intro spaced_budget_axioms.intro)
  show "rolling_budget msAddressSends charged_address addressSendLimit"
    by (rule rolling_budgetI[OF budget_gm_ok(1) run_op_budget(1) charged_limits(1)[THEN conjunct1]])
  show "minimumSendGap \<le> budgetWindow" by (simp add: minimumSendGap_def budgetWindow_def)
  fix s c k t
  assume ok: "store_ok s" and ch: "charged_address c s = Some (k, t)" "recent (entries (msAddressSends s) k) t \<noteq> []"
  have "\<not> time_sub t (last (recent (entries (msAddressSends s) k) t)) < minimumSendGap"
    using charged_limits(1)[OF ch(1)] ch(2) by (simp add: entries_prune[OF budget_gm_ok(1)[OF ok]])
  moreover have "time_sub t u < minimumSendGap \<longleftrightarrow> t - u < minimumSendGap" for u
    by (rule time_sub_less) (simp_all add: minimumSendGap_def maxDuration_def minDuration_def)
  ultimately show "last (recent (entries (msAddressSends s) k) t) + minimumSendGap \<le> t" by simp
qed

interpretation source_sends: rolling_budget msSourceSends charged_source sourceSendLimit
  by (rule rolling_budgetI[OF budget_gm_ok(2) run_op_budget(2) charged_limits(2)])

interpretation bootstraps: rolling_budget msBrowserBootstraps charged_bootstrap browserBootstrapLimit
  by (rule rolling_budgetI[OF budget_gm_ok(3) run_op_budget(3) charged_bootstrap_limit])

interpretation address_failures: rolling_budget msAddressFailures charged_failure addressVerifyLimit
  by (rule rolling_budgetI[OF budget_gm_ok(4) run_op_budget(4) charged_verify_limits(2)])

interpretation source_verifications: rolling_budget msSourceVerifications charged_verification sourceVerifyLimit
  by (rule rolling_budgetI[OF budget_gm_ok(5) run_op_budget(5) charged_verify_limits(1)])



section \<open>Guesses that cost nothing\<close>

text \<open>
  Once the failure budget of an address is used up, a wrong guess is answered \<open>ErrRateLimited\<close> and
  costs the challenge no attempt, while the right code is still accepted: on a challenge opened in
  that state the limit of five attempts does not apply. Only the source's limit bounds the guesses,
  so guesses from many sources are not bounded at all.
\<close>

lemma free_guess:
  assumes "source_free a s" and "map_of (msChallenges s) (vfID a) = Some c" and "open_challenge c (vfNow a)"
    and "\<not> credentials_match (scReservation c) a"
    and "addressVerifyLimit \<le> length (entries (prune_budget (vfNow a) (msAddressFailures s)) (rvEmail (scReservation c)))"
  shows "Verify it None a s = (charge_source a s, Err ErrRateLimited) \<and> msChallenges (charge_source a s) = msChallenges s"
  using assms by (auto simp: Verify_charged fail_attempt_def Let_def)

text \<open>
  A run: four challenges take five wrong guesses each; the fifth, sent within the same hour, takes ten
  wrong guesses and then the right code.
\<close>

definition ex_wrong :: "string \<Rightarrow> gotime \<Rightarrow> store_op" where
  "ex_wrong i t = OpVerify (\<lambda>m. m) None ((ex_attempt i ''s1'' t)\<lparr>vfVerifier := ''guess''\<rparr>)"

definition ex_round :: "string \<Rightarrow> gotime \<Rightarrow> nat \<Rightarrow> store_op list" where
  "ex_round i t n = OpReserve (\<lambda>m. m) None (ex_reservation i t) # replicate n (ex_wrong i t)"

definition ex_guessing :: "store_op list" where
  "ex_guessing = ex_round ''c1'' (10 * Hour) 5 @ ex_round ''c2'' (10 * Hour + Minute) 5 @
     ex_round ''c3'' (10 * Hour + 2 * Minute) 5 @ ex_round ''c4'' (10 * Hour + 3 * Minute) 5 @
     ex_round ''c5'' (10 * Hour + 4 * Minute) 10"

lemma right_code_after_free_guesses:
  "let s = run_ops ex_guessing (ex_new\<lparr>msCapacity := 8\<rparr>); a = ex_attempt ''c5'' ''s1'' (10 * Hour + 4 * Minute)
   in attempts_of s ''c5'' = 0 \<and>
      snd (Verify (\<lambda>m. m) None (a\<lparr>vfVerifier := ''guess''\<rparr>) s) = Err ErrRateLimited \<and>
      (case snd (Verify (\<lambda>m. m) None a s) of Ok i \<Rightarrow> idID i = ''user-1'' | Err e \<Rightarrow> False)"
  by code_simp

end
