(* ===== verification/Auth_Service.thy ===== *)
theory Auth_Service
  imports Auth_Store Go_Encoding
begin

text \<open>
  The authentication services over a store: the email-code service (auth/auth.go, auth/challenge.go),
  the session manager (auth/session.go) and the browser pre-authentication manager (auth/browser.go).

  A store is a record of its methods on a state of its own, as the interfaces \<open>Store\<close>,
  \<open>SessionStore\<close> and \<open>PreAuthStore\<close> list them; \<open>memory_store\<close> is the in-memory one. \<open>hmac\<close> (HMAC-SHA256 of
  a key and a message), \<open>sha256\<close> and \<open>ParseAddress\<close> (net/mail, the display name and the address) are
  parameters. A random draw is the argument that says what \<open>crypto/rand\<close> returned. \<open>ctx\<close> arguments
  say what \<open>ctx.Err()\<close> is at each point where the code or the store looks at it. Errors the code
  compares with \<open>errors.Is\<close> are compared for equality.
\<close>

section \<open>Challenges (challenge.go)\<close>

type_synonym 'a draw = "(string, 'a) result"

record challenge =
  chID :: string
  chEmail :: string
  chDigest :: digest
  chIssued :: gotime
  chExpires :: gotime
  chAttempts :: int
  chSpent :: bool

definition frame_fields :: "string list \<Rightarrow> string" where
  "frame_fields fs = concat (map (\<lambda>f. PutUint64 (length f) @ f) fs)"

definition verifier :: "(string \<Rightarrow> string \<Rightarrow> digest) \<Rightarrow> string \<Rightarrow> string list \<Rightarrow> digest" where
  "verifier hmac key fs = hmac key (frame_fields fs)"

text \<open>\<open>strings.LastIndexByte\<close>, or \<open>None\<close> for -1.\<close>

definition LastIndexByte :: "string \<Rightarrow> char \<Rightarrow> nat option" where
  "LastIndexByte s c = (let is = filter (\<lambda>i. s ! i = c) [0..<length s] in if is = [] then None else Some (last is))"

definition invalid_email :: auth_err where
  "invalid_email = OtherErr ''auth: invalid email address''"

definition canonicalEmail :: "(string \<Rightarrow> (string \<times> string) option) \<Rightarrow> string \<Rightarrow> (auth_err, string) result" where
  "canonicalEmail ParseAddress v =
     (if v = [] \<or> length v > 254 then Err invalid_email
      else if \<exists>c \<in> set v. of_char c \<le> (32 :: nat) \<or> of_char c \<ge> (127 :: nat) then Err invalid_email
      else if ParseAddress v \<noteq> Some ([], v) then Err invalid_email
      else (case LastIndexByte v (CHR ''@'') of
              None \<Rightarrow> Err invalid_email
            | Some at \<Rightarrow>
                if at = 0 \<or> at = length v - 1 then Err invalid_email
                else Ok (take (at + 1) v @ map ascii_lower (drop (at + 1) v))))"

text \<open>\<open>fmt.Sprintf("%08d", n)\<close> of a number below 100,000,000.\<close>

definition format_code :: "nat \<Rightarrow> string" where
  "format_code n = map (\<lambda>i. digit_char (n div 10 ^ i mod 10)) [7, 6, 5, 4, 3, 2, 1, 0]"

lemma format_code_code [code]:
  "format_code n =
     (let v = int n in map (\<lambda>d. digit_char (nat (v div d mod 10))) [10000000, 1000000, 100000, 10000, 1000, 100, 10, 1])"
  by (simp add: format_code_def Let_def nat_int_div_mod nat_int_mod)

definition newChallenge ::
    "(string \<Rightarrow> string \<Rightarrow> digest) \<Rightarrow> (string \<Rightarrow> (string \<times> string) option) \<Rightarrow> string draw \<Rightarrow> nat draw \<Rightarrow>
     string \<Rightarrow> string \<Rightarrow> string \<Rightarrow> gotime \<Rightarrow> (auth_err, challenge \<times> string) result" where
  "newChallenge hmac ParseAddress rid rn key email purpose now =
     (if length key < 32 \<or> (purpose \<noteq> ''native'' \<and> purpose \<noteq> ''browser'')
      then Err (OtherErr ''auth: invalid challenge configuration'')
      else case canonicalEmail ParseAddress email of
        Err e \<Rightarrow> Err e
      | Ok canonical \<Rightarrow>
          (case rid of
             Err e \<Rightarrow> Err (OtherErr (''auth: generate challenge ID: '' @ e))
           | Ok bytes \<Rightarrow>
               (case rn of
                  Err e \<Rightarrow> Err (OtherErr (''auth: generate code: '' @ e))
                | Ok n \<Rightarrow>
                    let code = format_code n; i = hex bytes
                    in Ok (\<lparr>chID = i, chEmail = canonical, chDigest = verifier hmac key [purpose, i, canonical, code],
                           chIssued = now, chExpires = now + 5 * Minute, chAttempts = 5, chSpent = False\<rparr>, code))))"

definition consume ::
    "(string \<Rightarrow> string \<Rightarrow> digest) \<Rightarrow> string \<Rightarrow> string \<Rightarrow> string \<Rightarrow> string \<Rightarrow> string \<Rightarrow> gotime \<Rightarrow> challenge \<Rightarrow> challenge \<times> bool" where
  "consume hmac key purpose i email code now c =
     (if chSpent c \<or> chAttempts c \<le> 0 \<or> now < chIssued c \<or> \<not> now < chExpires c then (c, False)
      else
        (let c = c\<lparr>chAttempts := chAttempts c - 1\<rparr>
         in if length key < 32 \<or> length code \<noteq> 8 then (c, False)
            else if \<not> list_all is_digit code then (c, False)
            else if verifier hmac key [purpose, i, email, code] \<noteq> chDigest c then (c, False)
            else (c\<lparr>chSpent := True\<rparr>, True)))"

section \<open>The store interfaces\<close>

record 'st store_ops =
  opReserve :: "ctx_err \<Rightarrow> reservation \<Rightarrow> 'st \<Rightarrow> 'st \<times> auth_err option"
  opVerify :: "ctx_err \<Rightarrow> verification \<Rightarrow> 'st \<Rightarrow> 'st \<times> (auth_err, identity) result"
  opInvalidate :: "ctx_err \<Rightarrow> string \<Rightarrow> 'st \<Rightarrow> 'st \<times> auth_err option"
  opAuthenticateSession :: "ctx_err \<Rightarrow> sessionProof \<Rightarrow> 'st \<Rightarrow> 'st \<times> (auth_err, identity) result"
  opRevokeSession :: "ctx_err \<Rightarrow> sessionProof \<Rightarrow> 'st \<Rightarrow> 'st \<times> auth_err option"
  opRevokeAllSessions :: "ctx_err \<Rightarrow> sessionProof \<Rightarrow> 'st \<Rightarrow> 'st \<times> auth_err option"
  opRevokeIdentitySessions :: "ctx_err \<Rightarrow> string \<Rightarrow> 'st \<Rightarrow> 'st \<times> auth_err option"

record 'st preauth_ops =
  opCreatePreAuth :: "ctx_err \<Rightarrow> preAuthRecord \<Rightarrow> 'st \<Rightarrow> 'st \<times> auth_err option"
  opAuthenticatePreAuth :: "ctx_err \<Rightarrow> preAuthProof \<Rightarrow> 'st \<Rightarrow> 'st \<times> auth_err option"
  opConsumePreAuth :: "ctx_err \<Rightarrow> preAuthProof \<Rightarrow> 'st \<Rightarrow> 'st \<times> auth_err option"

definition memory_store ::
    "(string, storedChallenge) map_order \<Rightarrow> (string, storedSession) map_order \<Rightarrow> memoryStore store_ops" where
  "memory_store itc its =
     \<lparr>opReserve = Reserve itc, opVerify = Verify its, opInvalidate = Invalidate,
      opAuthenticateSession = AuthenticateSession, opRevokeSession = RevokeSession,
      opRevokeAllSessions = RevokeAllSessions, opRevokeIdentitySessions = RevokeIdentitySessions\<rparr>"

definition memory_preauth :: "(string, preAuthRecord) map_order \<Rightarrow> memoryStore preauth_ops" where
  "memory_preauth itb =
     \<lparr>opCreatePreAuth = CreatePreAuth itb, opAuthenticatePreAuth = AuthenticatePreAuth, opConsumePreAuth = ConsumePreAuth\<rparr>"

section \<open>Sessions (session.go)\<close>

record session =
  snCredential :: string
  snCSRFToken :: string
  snExpiresAt :: gotime

record authentication =
  auIdentity :: identity
  auSession :: session

definition newSession ::
    "(string \<Rightarrow> digest) \<Rightarrow> string draw \<Rightarrow> string draw \<Rightarrow> string draw \<Rightarrow> gotime \<Rightarrow>
     (string, session \<times> sessionRecord) result" where
  "newSession sha256 rid rsecret rcsrf now =
     (case rid of Err e \<Rightarrow> Err e | Ok i \<Rightarrow>
      case rsecret of Err e \<Rightarrow> Err e | Ok secret \<Rightarrow>
      case rcsrf of Err e \<Rightarrow> Err e | Ok csrf \<Rightarrow>
      let encodedID = EncodeToString i; encodedSecret = EncodeToString secret; encodedCSRF = EncodeToString csrf;
          expires = now + sessionAbsoluteTTL
      in Ok (\<lparr>snCredential = encodedID @ ''.'' @ encodedSecret, snCSRFToken = encodedCSRF, snExpiresAt = expires\<rparr>,
             \<lparr>srID = encodedID, srIdentityID = [], srDigest = sha256 secret, srCSRFDigest = sha256 csrf,
              srCreatedAt = now, srLastSeenAt = now, srExpiresAt = expires\<rparr>))"

text \<open>\<open>strings.Cut\<close> at a dot that is known to be there.\<close>

definition cut_dot :: "string \<Rightarrow> string \<times> string" where
  "cut_dot s = (takeWhile (\<lambda>c. c \<noteq> CHR ''.'') s, tl (dropWhile (\<lambda>c. c \<noteq> CHR ''.'') s))"

definition make_proof :: "(string \<Rightarrow> digest) \<Rightarrow> string \<Rightarrow> gotime \<Rightarrow> (auth_err, sessionProof) result" where
  "make_proof sha256 credential now =
     (if length credential \<noteq> 87 \<or> length (filter (\<lambda>c. c = CHR ''.'') credential) \<noteq> 1 then Err ErrSession
      else
        (let (i, encodedSecret) = cut_dot credential
         in case DecodeString i of
              None \<Rightarrow> Err ErrSession
            | Some decodedID \<Rightarrow>
                if length decodedID \<noteq> 32 then Err ErrSession
                else case DecodeString encodedSecret of
                  None \<Rightarrow> Err ErrSession
                | Some secret \<Rightarrow>
                    if length secret \<noteq> 32 then Err ErrSession
                    else Ok \<lparr>spID = i, spDigest = sha256 secret, spCSRFDigest = zeroDigest, spNow = now\<rparr>))"

definition sessionCSRFProof :: "(string \<Rightarrow> digest) \<Rightarrow> string \<Rightarrow> string \<Rightarrow> gotime \<Rightarrow> (auth_err, sessionProof) result" where
  "sessionCSRFProof sha256 credential csrf now =
     (case make_proof sha256 credential now of
        Err e \<Rightarrow> Err e
      | Ok p \<Rightarrow>
          (case DecodeString csrf of
             None \<Rightarrow> Err ErrSession
           | Some v \<Rightarrow> if length csrf \<noteq> 43 \<or> length v \<noteq> 32 then Err ErrSession
                      else Ok (p\<lparr>spCSRFDigest := sha256 v\<rparr>)))"

definition sessionStoreError :: "auth_err option \<Rightarrow> auth_err option" where
  "sessionStoreError e =
     (case e of None \<Rightarrow> None
      | Some e \<Rightarrow> if e = ErrSession \<or> e = Canceled \<or> e = DeadlineExceeded then Some e else Some ErrUnavailable)"

definition mask_session :: "auth_err \<Rightarrow> auth_err" where
  "mask_session e = the (sessionStoreError (Some e))"

definition NewSessionManager :: "'st store_ops option \<Rightarrow> (auth_err, 'st store_ops) result" where
  "NewSessionManager store = (case store of None \<Rightarrow> Err (OtherErr ''auth: session store is required'') | Some ops \<Rightarrow> Ok ops)"

definition Current ::
    "(string \<Rightarrow> digest) \<Rightarrow> 'st store_ops \<Rightarrow> ctx_err \<Rightarrow> ctx_err \<Rightarrow> gotime \<Rightarrow> string \<Rightarrow> 'st \<Rightarrow> 'st \<times> (auth_err, identity) result" where
  "Current sha256 ops ctx ctx' now credential st =
     (case ctx of Some e \<Rightarrow> (st, Err e) | None \<Rightarrow>
      case make_proof sha256 credential now of Err _ \<Rightarrow> (st, Err ErrSession) | Ok p \<Rightarrow>
      case opAuthenticateSession ops ctx' p st of
        (st, Err e) \<Rightarrow> (st, Err (mask_session e))
      | (st, Ok i) \<Rightarrow> (st, Ok i))"

definition ValidateCSRF ::
    "(string \<Rightarrow> digest) \<Rightarrow> 'st store_ops \<Rightarrow> ctx_err \<Rightarrow> ctx_err \<Rightarrow> gotime \<Rightarrow> string \<Rightarrow> string \<Rightarrow> 'st \<Rightarrow> 'st \<times> auth_err option" where
  "ValidateCSRF sha256 ops ctx ctx' now credential csrf st =
     (case ctx of Some e \<Rightarrow> (st, Some e) | None \<Rightarrow>
      case sessionCSRFProof sha256 credential csrf now of Err _ \<Rightarrow> (st, Some ErrSession) | Ok p \<Rightarrow>
      case opAuthenticateSession ops ctx' p st of
        (st, Err e) \<Rightarrow> (st, sessionStoreError (Some e))
      | (st, Ok i) \<Rightarrow> (st, None))"

definition Logout ::
    "(string \<Rightarrow> digest) \<Rightarrow> 'st store_ops \<Rightarrow> ctx_err \<Rightarrow> ctx_err \<Rightarrow> gotime \<Rightarrow> string \<Rightarrow> 'st \<Rightarrow> 'st \<times> auth_err option" where
  "Logout sha256 ops ctx ctx' now credential st =
     (case ctx of Some e \<Rightarrow> (st, Some e) | None \<Rightarrow>
      case make_proof sha256 credential now of Err _ \<Rightarrow> (st, Some ErrSession) | Ok p \<Rightarrow>
      case opRevokeSession ops ctx' p st of (st, r) \<Rightarrow> (st, sessionStoreError r))"

definition LogoutAll ::
    "(string \<Rightarrow> digest) \<Rightarrow> 'st store_ops \<Rightarrow> ctx_err \<Rightarrow> ctx_err \<Rightarrow> gotime \<Rightarrow> string \<Rightarrow> 'st \<Rightarrow> 'st \<times> auth_err option" where
  "LogoutAll sha256 ops ctx ctx' now credential st =
     (case ctx of Some e \<Rightarrow> (st, Some e) | None \<Rightarrow>
      case make_proof sha256 credential now of Err _ \<Rightarrow> (st, Some ErrSession) | Ok p \<Rightarrow>
      case opRevokeAllSessions ops ctx' p st of (st, r) \<Rightarrow> (st, sessionStoreError r))"

definition RevokeIdentity ::
    "'st store_ops \<Rightarrow> ctx_err \<Rightarrow> ctx_err \<Rightarrow> string \<Rightarrow> 'st \<Rightarrow> 'st \<times> auth_err option" where
  "RevokeIdentity ops ctx ctx' identityID st =
     (case ctx of Some e \<Rightarrow> (st, Some e) | None \<Rightarrow>
      if identityID = [] \<or> length identityID > 128 then (st, Some ErrUnavailable)
      else case opRevokeIdentitySessions ops ctx' identityID st of (st, r) \<Rightarrow> (st, sessionStoreError r))"

section \<open>Browser pre-authentication (browser.go)\<close>

record preAuth =
  paCredential :: string
  paCSRFToken :: string
  paExpiresAt :: gotime

definition preAuthError :: "auth_err option \<Rightarrow> auth_err option" where
  "preAuthError e =
     (case e of None \<Rightarrow> None
      | Some e \<Rightarrow> if e = ErrPreAuth \<or> e = ErrRateLimited \<or> e = Canceled \<or> e = DeadlineExceeded then Some e
                 else Some ErrUnavailable)"

definition randomEncoded :: "string draw \<Rightarrow> (string, string) result" where
  "randomEncoded r = (case r of Err e \<Rightarrow> Err e | Ok bytes \<Rightarrow> Ok (EncodeToString bytes))"

definition make_preAuthProof :: "(string \<Rightarrow> digest) \<Rightarrow> string \<Rightarrow> string \<Rightarrow> gotime \<Rightarrow> (auth_err, preAuthProof) result" where
  "make_preAuthProof sha256 credential csrf now =
     (case make_proof sha256 credential now of
        Err e \<Rightarrow> Err e
      | Ok p \<Rightarrow>
          (case DecodeString csrf of
             None \<Rightarrow> Err ErrPreAuth
           | Some v \<Rightarrow> if length v \<noteq> 32 \<or> length csrf \<noteq> 43 then Err ErrPreAuth
                      else Ok \<lparr>ppID = spID p, ppDigest = spDigest p, ppCSRFDigest = sha256 v, ppNow = now\<rparr>))"

definition NewPreAuthManager :: "'st preauth_ops option \<Rightarrow> (auth_err, 'st preauth_ops) result" where
  "NewPreAuthManager store =
     (case store of None \<Rightarrow> Err (OtherErr ''auth: browser state store is required'') | Some ops \<Rightarrow> Ok ops)"

text \<open>The bytes of a string the service has just encoded: decoding them does not fail.\<close>

definition decoded :: "string \<Rightarrow> string" where
  "decoded s = (case DecodeString s of None \<Rightarrow> [] | Some b \<Rightarrow> b)"

definition Bootstrap ::
    "(string \<Rightarrow> digest) \<Rightarrow> 'st preauth_ops \<Rightarrow> string draw \<Rightarrow> string draw \<Rightarrow> string draw \<Rightarrow> ctx_err \<Rightarrow> ctx_err \<Rightarrow> gotime \<Rightarrow>
     string \<Rightarrow> 'st \<Rightarrow> 'st \<times> (auth_err, preAuth) result" where
  "Bootstrap sha256 ops rid rsecret rcsrf ctx ctx' now source st =
     (case ctx of Some e \<Rightarrow> (st, Err e) | None \<Rightarrow>
      if source = [] \<or> length source > 256 then (st, Err ErrRateLimited)
      else case randomEncoded rid of Err _ \<Rightarrow> (st, Err ErrUnavailable) | Ok i \<Rightarrow>
           case randomEncoded rsecret of Err _ \<Rightarrow> (st, Err ErrUnavailable) | Ok secret \<Rightarrow>
           case randomEncoded rcsrf of Err _ \<Rightarrow> (st, Err ErrUnavailable) | Ok csrf \<Rightarrow>
           let state = \<lparr>paCredential = i @ ''.'' @ secret, paCSRFToken = csrf, paExpiresAt = now + preAuthTTL\<rparr>;
               record = \<lparr>prID = i, prSource = source, prDigest = sha256 (decoded secret),
                 prCSRFDigest = sha256 (decoded csrf), prIssuedAt = now, prExpiresAt = paExpiresAt state\<rparr>
           in (case opCreatePreAuth ops ctx' record st of
                 (st, Some e) \<Rightarrow> (st, Err (the (preAuthError (Some e))))
               | (st, None) \<Rightarrow> (st, Ok state)))"

definition Authenticate ::
    "(string \<Rightarrow> digest) \<Rightarrow> 'st preauth_ops \<Rightarrow> ctx_err \<Rightarrow> ctx_err \<Rightarrow> gotime \<Rightarrow> string \<Rightarrow> string \<Rightarrow> 'st \<Rightarrow> 'st \<times> auth_err option" where
  "Authenticate sha256 ops ctx ctx' now credential csrf st =
     (case ctx of Some e \<Rightarrow> (st, Some e) | None \<Rightarrow>
      case make_preAuthProof sha256 credential csrf now of Err _ \<Rightarrow> (st, Some ErrPreAuth) | Ok p \<Rightarrow>
      case opAuthenticatePreAuth ops ctx' p st of (st, r) \<Rightarrow> (st, preAuthError r))"

definition Consume ::
    "(string \<Rightarrow> digest) \<Rightarrow> 'st preauth_ops \<Rightarrow> ctx_err \<Rightarrow> ctx_err \<Rightarrow> gotime \<Rightarrow> string \<Rightarrow> string \<Rightarrow> 'st \<Rightarrow> 'st \<times> auth_err option" where
  "Consume sha256 ops ctx ctx' now credential csrf st =
     (case ctx of Some e \<Rightarrow> (st, Some e) | None \<Rightarrow>
      case make_preAuthProof sha256 credential csrf now of Err _ \<Rightarrow> (st, Some ErrPreAuth) | Ok p \<Rightarrow>
      case opConsumePreAuth ops ctx' p st of (st, r) \<Rightarrow> (st, preAuthError r))"

section \<open>The email-code service (auth.go)\<close>

record message =
  msTo :: string
  msSubject :: string
  msText :: string

record challenge_ref =
  crID :: string
  crExpiresAt :: gotime

datatype challengeOption = WithBinding string

record challengeSettings =
  csBinding :: digest
  csValid :: bool

definition apply_option :: "(string \<Rightarrow> digest) \<Rightarrow> challengeOption \<Rightarrow> challengeSettings \<Rightarrow> challengeSettings" where
  "apply_option sha256 opt s =
     (case opt of WithBinding v \<Rightarrow>
        if v = [] \<or> length v > 256 then s\<lparr>csValid := False\<rparr> else s\<lparr>csBinding := sha256 v\<rparr>)"

text \<open>A nil option in the list is \<open>None\<close>.\<close>

fun apply_options :: "(string \<Rightarrow> digest) \<Rightarrow> challengeOption option list \<Rightarrow> challengeSettings \<Rightarrow> challengeSettings option" where
  "apply_options sha256 [] s = Some s"
| "apply_options sha256 (None # opts) s = None"
| "apply_options sha256 (Some opt # opts) s = apply_options sha256 opts (apply_option sha256 opt s)"

definition challengeBinding :: "(string \<Rightarrow> digest) \<Rightarrow> challengeOption option list \<Rightarrow> (auth_err, digest) result" where
  "challengeBinding sha256 opts =
     (case apply_options sha256 opts \<lparr>csBinding = zeroDigest, csValid = True\<rparr> of
        None \<Rightarrow> Err ErrAuthentication
      | Some s \<Rightarrow> if csValid s then Ok (csBinding s) else Err ErrAuthentication)"

definition storeError :: "auth_err \<Rightarrow> auth_err" where
  "storeError e =
     (if e = ErrAuthentication \<or> e = ErrRateLimited \<or> e = Canceled \<or> e = DeadlineExceeded then e else ErrUnavailable)"

definition validKeyID :: "string \<Rightarrow> bool" where
  "validKeyID v \<longleftrightarrow> v \<noteq> [] \<and> length v \<le> 64 \<and>
     list_all (\<lambda>c. is_lower c \<or> is_upper c \<or> is_digit c \<or> c = CHR ''-'' \<or> c = CHR ''_'' \<or> c = CHR ''.'') v"

text \<open>What \<open>New\<close> looks at of the store and the sender it is given: nil, the development backend, another.\<close>

datatype backend = NilBackend | DevBackend | OtherBackend

datatype serviceOption = WithProduction

record service =
  svKeyID :: string
  svKey :: string

fun new_settings :: "nat \<Rightarrow> serviceOption option list \<Rightarrow> bool \<Rightarrow> (auth_err, bool) result" where
  "new_settings i [] production = Ok production"
| "new_settings i (None # opts) production = Err (OtherErr (''auth: option '' @ Itoa i @ '' is nil''))"
| "new_settings i (Some WithProduction # opts) production = new_settings (i + 1) opts True"

definition New :: "backend \<Rightarrow> backend \<Rightarrow> string \<Rightarrow> string \<Rightarrow> serviceOption option list \<Rightarrow> (auth_err, service) result" where
  "New store sender keyID key opts =
     (if store = NilBackend \<or> sender = NilBackend \<or> \<not> validKeyID keyID \<or> length key < 32
      then Err (OtherErr ''auth: store, sender, key ID and a 32-byte key are required'')
      else case new_settings 0 opts False of
        Err e \<Rightarrow> Err e
      | Ok production \<Rightarrow>
          if production \<and> store = DevBackend then Err ErrUnsafeProduction
          else if production \<and> sender = DevBackend then Err ErrUnsafeProduction
          else Ok \<lparr>svKeyID = keyID, svKey = key\<rparr>)"

definition code_message :: "string \<Rightarrow> string \<Rightarrow> message" where
  "code_message email code =
     \<lparr>msTo = email, msSubject = ''Your Fabrin sign-in code'', msText = ''Your Fabrin sign-in code is: '' @ code\<rparr>"

text \<open>
  \<open>Request\<close> returns the messages it gave to the sender beside the challenge. \<open>send\<close> is what
  \<open>Sender.Send\<close> returns for a message, \<open>ctx''\<close> the state of the clean-up context.
\<close>

definition Service_Request ::
    "(string \<Rightarrow> string \<Rightarrow> digest) \<Rightarrow> (string \<Rightarrow> digest) \<Rightarrow> (string \<Rightarrow> (string \<times> string) option) \<Rightarrow> 'st store_ops \<Rightarrow>
     (message \<Rightarrow> auth_err option) \<Rightarrow> string draw \<Rightarrow> nat draw \<Rightarrow> service \<Rightarrow> ctx_err \<Rightarrow> ctx_err \<Rightarrow> ctx_err \<Rightarrow> gotime \<Rightarrow>
     string \<Rightarrow> string \<Rightarrow> string \<Rightarrow> challengeOption option list \<Rightarrow> 'st \<Rightarrow>
     'st \<times> message list \<times> (auth_err, challenge_ref) result" where
  "Service_Request hmac sha256 ParseAddress ops send rid rn svc ctx ctx' ctx'' now email purpose source opts st =
     (case ctx of Some e \<Rightarrow> (st, [], Err e) | None \<Rightarrow>
      if source = [] \<or> length source > 256 then (st, [], Err ErrRateLimited)
      else case challengeBinding sha256 opts of Err _ \<Rightarrow> (st, [], Err ErrAuthentication) | Ok binding \<Rightarrow>
      case newChallenge hmac ParseAddress rid rn (svKey svc) email purpose now of
        Err _ \<Rightarrow> (st, [], Err ErrAuthentication)
      | Ok (c, code) \<Rightarrow>
          let r = \<lparr>rvID = chID c, rvEmail = chEmail c, rvKeyID = svKeyID svc, rvPurpose = purpose,
                   rvVerifier = chDigest c, rvBinding = binding, rvIssuedAt = chIssued c, rvExpiresAt = chExpires c,
                   rvSource = source\<rparr>
          in (case opReserve ops ctx' r st of
                (st, Some e) \<Rightarrow> (st, [], Err (storeError e))
              | (st, None) \<Rightarrow>
                  let msg = code_message (chEmail c) code
                  in (case send msg of
                        None \<Rightarrow> (st, [msg], Ok \<lparr>crID = chID c, crExpiresAt = chExpires c\<rparr>)
                      | Some e \<Rightarrow>
                          if e \<noteq> Canceled \<and> e \<noteq> DeadlineExceeded
                          then (fst (opInvalidate ops ctx'' (chID c) st), [msg], Err ErrDelivery)
                          else (st, [msg], Err ErrDelivery))))"

definition randomHex :: "string draw \<Rightarrow> (string, string) result" where
  "randomHex r = (case r of Err e \<Rightarrow> Err e | Ok bytes \<Rightarrow> Ok (hex bytes))"

definition Service_Verify ::
    "(string \<Rightarrow> string \<Rightarrow> digest) \<Rightarrow> (string \<Rightarrow> digest) \<Rightarrow> (string \<Rightarrow> (string \<times> string) option) \<Rightarrow> 'st store_ops \<Rightarrow>
     string draw \<Rightarrow> string draw \<times> string draw \<times> string draw \<Rightarrow> service \<Rightarrow> ctx_err \<Rightarrow> ctx_err \<Rightarrow> gotime \<Rightarrow>
     string \<Rightarrow> string \<Rightarrow> string \<Rightarrow> string \<Rightarrow> string \<Rightarrow> challengeOption option list \<Rightarrow> 'st \<Rightarrow>
     'st \<times> (auth_err, authentication) result" where
  "Service_Verify hmac sha256 ParseAddress ops ridn rsession svc ctx ctx' now i email code purpose source opts st =
     (case ctx of Some e \<Rightarrow> (st, Err e) | None \<Rightarrow>
      if source = [] \<or> length source > 256 then (st, Err ErrRateLimited)
      else case challengeBinding sha256 opts of Err _ \<Rightarrow> (st, Err ErrAuthentication) | Ok binding \<Rightarrow>
      let canonical = (case canonicalEmail ParseAddress email of Err _ \<Rightarrow> [] | Ok e \<Rightarrow> e)
      in case randomHex ridn of
           Err e \<Rightarrow> (st, Err (OtherErr (''auth: generate identity ID: '' @ e)))
         | Ok identityID \<Rightarrow>
             (case newSession sha256 (fst rsession) (fst (snd rsession)) (snd (snd rsession)) now of
                Err e \<Rightarrow> (st, Err (OtherErr (''auth: generate session: '' @ e)))
              | Ok (sess, record) \<Rightarrow>
                  let a = \<lparr>vfID = i, vfEmail = canonical, vfKeyID = svKeyID svc, vfPurpose = purpose,
                           vfVerifier = verifier hmac (svKey svc) [purpose, i, canonical, code], vfBinding = binding,
                           vfNow = now, vfSource = source, vfIdentityID = identityID, vfSession = record\<rparr>
                  in (case opVerify ops ctx' a st of
                        (st, Err e) \<Rightarrow> (st, Err (storeError e))
                      | (st, Ok idn) \<Rightarrow> (st, Ok \<lparr>auIdentity = idn, auSession = sess\<rparr>))))"

end
