(* ===== verification/Auth_Service_Correct.thy ===== *)
theory Auth_Service_Correct
  imports Auth_Service Auth_Store_History
begin

text \<open>
  Correctness of the authentication services.

  \<open>sign_in_store\<close> is the interface the services rely on: a reservation that is accepted is pending, a
  pending reservation grants a matching attempt, and a granted session authenticates. The chain from
  request to signed-in session is proved once over it, for every store that provides it, and the
  in-memory store provides it. The rest covers the credential encoding, the domain separation of the
  verifier, the public errors, delivery failures, and that the store's verification refines the
  single-challenge state machine of auth/challenge.go.
\<close>

section \<open>Credentials\<close>

lemma takeWhile_no_dot: "CHR ''.'' \<notin> set a \<Longrightarrow> takeWhile (\<lambda>c. c \<noteq> CHR ''.'') (a @ CHR ''.'' # b) = a"
  by (induction a) auto

lemma dropWhile_no_dot: "CHR ''.'' \<notin> set a \<Longrightarrow> dropWhile (\<lambda>c. c \<noteq> CHR ''.'') (a @ CHR ''.'' # b) = CHR ''.'' # b"
  by (induction a) auto

lemma encoded_no_dot: "CHR ''.'' \<notin> set (EncodeToString s)"
  using encoded_chars by blast

lemma make_proof_encoded:
  assumes "length i = 32" "length secret = 32"
  shows "make_proof sha256 (EncodeToString i @ ''.'' @ EncodeToString secret) now =
    Ok \<lparr>spID = EncodeToString i, spDigest = sha256 secret, spCSRFDigest = zeroDigest, spNow = now\<rparr>"
proof -
  let ?a = "EncodeToString i" and ?b = "EncodeToString secret"
  have len: "length ?a = 43" "length ?b = 43" using assms by (simp_all add: length_encode)
  have "filter (\<lambda>c. c = CHR ''.'') ?a = []" "filter (\<lambda>c. c = CHR ''.'') ?b = []"
    using encoded_no_dot[of i] encoded_no_dot[of secret] by (auto simp: filter_empty_conv)
  then have "length (filter (\<lambda>c. c = CHR ''.'') (?a @ ''.'' @ ?b)) = 1" by simp
  moreover have "cut_dot (?a @ ''.'' @ ?b) = (?a, ?b)"
    by (simp add: cut_dot_def takeWhile_no_dot dropWhile_no_dot encoded_no_dot)
  ultimately show ?thesis
    using assms len by (simp add: make_proof_def base64_round_trip)
qed

lemma sessionCSRFProof_encoded:
  assumes "length i = 32" "length secret = 32" "length csrf = 32"
  shows "sessionCSRFProof sha256 (EncodeToString i @ ''.'' @ EncodeToString secret) (EncodeToString csrf) now =
    Ok \<lparr>spID = EncodeToString i, spDigest = sha256 secret, spCSRFDigest = sha256 csrf, spNow = now\<rparr>"
  using assms unfolding sessionCSRFProof_def make_proof_encoded[OF assms(1,2)]
  by (simp add: base64_round_trip length_encode)

lemma encode_nonempty: "length i = 32 \<Longrightarrow> EncodeToString i \<noteq> []"
  using length_encode[of i] by auto

section \<open>The interface of the services\<close>

text \<open>What a session proof has to show of a session record.\<close>

definition proves :: "sessionProof \<Rightarrow> sessionRecord \<Rightarrow> bool" where
  "proves p r \<longleftrightarrow> spID p = srID r \<and> spDigest p = srDigest r \<and>
     (spCSRFDigest p = zeroDigest \<or> spCSRFDigest p = srCSRFDigest r) \<and>
     srCreatedAt r \<le> spNow p \<and> spNow p < srExpiresAt r \<and> spNow p < srLastSeenAt r + sessionIdleTTL"

definition fresh_session :: "sessionRecord \<Rightarrow> gotime \<Rightarrow> bool" where
  "fresh_session r now \<longleftrightarrow> srID r \<noteq> [] \<and> srCreatedAt r = now \<and> srLastSeenAt r = now \<and> now < srExpiresAt r"

locale sign_in_store =
  fixes ops :: "'st store_ops"
    and pending :: "reservation \<Rightarrow> 'st \<Rightarrow> bool"
    and ready :: "verification \<Rightarrow> 'st \<Rightarrow> bool"
    and live :: "sessionRecord \<Rightarrow> identity \<Rightarrow> 'st \<Rightarrow> bool"
  assumes reserve_pending: "opReserve ops None r st = (st', None) \<Longrightarrow> pending r st'"
    and verify_grants: "pending r st \<Longrightarrow> credentials_match r a \<Longrightarrow> vfID a = rvID r \<Longrightarrow> rvIssuedAt r \<le> vfNow a \<Longrightarrow>
      vfNow a < rvExpiresAt r \<Longrightarrow> fresh_session (vfSession a) (vfNow a) \<Longrightarrow> ready a st \<Longrightarrow>
      \<exists>st' i. opVerify ops None a st = (st', Ok i) \<and> idEmail i = rvEmail r \<and> live (vfSession a) i st'"
    and live_authenticates: "live sr i st \<Longrightarrow> proves p sr \<Longrightarrow> snd (opAuthenticateSession ops None p st) = Ok i"
begin

lemma request_pending:
  assumes "Service_Request hmac sha256 ParseAddress ops send rid rn svc None None ctx'' now email purpose source opts st = (st', msgs, Ok ref)"
  obtains c code binding where
    "challengeBinding sha256 opts = Ok binding"
    "newChallenge hmac ParseAddress rid rn (svKey svc) email purpose now = Ok (c, code)"
    "msgs = [code_message (chEmail c) code]" "ref = \<lparr>crID = chID c, crExpiresAt = chExpires c\<rparr>"
    "pending \<lparr>rvID = chID c, rvEmail = chEmail c, rvKeyID = svKeyID svc, rvPurpose = purpose,
                   rvVerifier = chDigest c, rvBinding = binding, rvIssuedAt = chIssued c, rvExpiresAt = chExpires c,
                   rvSource = source\<rparr> st'"
proof -
  obtain binding where b: "challengeBinding sha256 opts = Ok binding"
    using assms by (auto simp: Service_Request_def split: if_splits sum.splits)
  obtain c code where c: "newChallenge hmac ParseAddress rid rn (svKey svc) email purpose now = Ok (c, code)"
    using assms by (auto simp: Service_Request_def b split: if_splits sum.splits)
  let ?r = "\<lparr>rvID = chID c, rvEmail = chEmail c, rvKeyID = svKeyID svc, rvPurpose = purpose,
                   rvVerifier = chDigest c, rvBinding = binding, rvIssuedAt = chIssued c, rvExpiresAt = chExpires c,
                   rvSource = source\<rparr>"
  obtain st1 res where R: "opReserve ops None ?r st = (st1, res)" by (cases "opReserve ops None ?r st")
  have "res = None \<and> st' = st1 \<and> msgs = [code_message (chEmail c) code] \<and> ref = \<lparr>crID = chID c, crExpiresAt = chExpires c\<rparr>"
    using assms by (auto simp: Service_Request_def b c R Let_def split: if_splits option.splits)
  then show thesis using that[OF b c] reserve_pending[of ?r st st1] R by simp
qed

text \<open>The chain: the code that was sent verifies, and the credential that comes back authenticates.\<close>

lemma sent_code_signs_in:
  assumes req: "Service_Request hmac sha256 ParseAddress ops send rid rn svc None None ctx'' now email purpose source opts st = (st', msgs, Ok ref)"
    and draws: "ridn = Ok ib" "rsession = (Ok sid, Ok secret, Ok csrf)" "length sid = 32" "length secret = 32" "length csrf = 32"
    and code: "msgs = [m]" "msText m = ''Your Fabrin sign-in code is: '' @ code"
    and time: "now \<le> t" "t < now + 5 * Minute"
    and src: "source' \<noteq> []" "length source' \<le> 256"
    and ready: "\<And>a. vfSession a = \<lparr>srID = EncodeToString sid, srIdentityID = [], srDigest = sha256 secret,
        srCSRFDigest = sha256 csrf, srCreatedAt = t, srLastSeenAt = t, srExpiresAt = t + sessionAbsoluteTTL\<rparr> \<Longrightarrow>
        vfNow a = t \<Longrightarrow> vfSource a = source' \<Longrightarrow> vfID a = crID ref \<Longrightarrow> ready a st'"
  shows "\<exists>st2 au. Service_Verify hmac sha256 ParseAddress ops ridn rsession svc None None t (crID ref) email code purpose source' opts st' = (st2, Ok au) \<and>
    canonicalEmail ParseAddress email = Ok (idEmail (auIdentity au)) \<and>
    snCredential (auSession au) = EncodeToString sid @ ''.'' @ EncodeToString secret \<and>
    live \<lparr>srID = EncodeToString sid, srIdentityID = [], srDigest = sha256 secret, srCSRFDigest = sha256 csrf,
      srCreatedAt = t, srLastSeenAt = t, srExpiresAt = t + sessionAbsoluteTTL\<rparr> (auIdentity au) st2 \<and>
    (\<forall>t'. t \<le> t' \<longrightarrow> t' < t + sessionIdleTTL \<longrightarrow>
       snd (Current sha256 ops None None t' (snCredential (auSession au)) st2) = Ok (auIdentity au) \<and>
       snd (ValidateCSRF sha256 ops None None t' (snCredential (auSession au)) (snCSRFToken (auSession au)) st2) = None)"
proof -
  from req obtain c code' binding where b: "challengeBinding sha256 opts = Ok binding"
    and c: "newChallenge hmac ParseAddress rid rn (svKey svc) email purpose now = Ok (c, code')"
    and msgs: "msgs = [code_message (chEmail c) code']" and ref: "ref = \<lparr>crID = chID c, crExpiresAt = chExpires c\<rparr>"
    and p: "pending \<lparr>rvID = chID c, rvEmail = chEmail c, rvKeyID = svKeyID svc, rvPurpose = purpose,
                   rvVerifier = chDigest c, rvBinding = binding, rvIssuedAt = chIssued c, rvExpiresAt = chExpires c,
                   rvSource = source\<rparr> st'" (is "pending ?r st'")
    by (rule request_pending)
  have cc: "code' = code" using code msgs by (auto simp: code_message_def)
  have ch: "canonicalEmail ParseAddress email = Ok (chEmail c)" "chIssued c = now" "chExpires c = now + 5 * Minute"
    "chDigest c = verifier hmac (svKey svc) [purpose, chID c, chEmail c, code]"
    using c cc by (auto simp: newChallenge_def Let_def split: if_splits sum.splits)
  define rec where "rec = \<lparr>srID = EncodeToString sid, srIdentityID = [], srDigest = sha256 secret,
        srCSRFDigest = sha256 csrf, srCreatedAt = t, srLastSeenAt = t, srExpiresAt = t + sessionAbsoluteTTL\<rparr>"
  define a where "a = \<lparr>vfID = chID c, vfEmail = chEmail c, vfKeyID = svKeyID svc, vfPurpose = purpose,
     vfVerifier = verifier hmac (svKey svc) [purpose, chID c, chEmail c, code], vfBinding = binding,
     vfNow = t, vfSource = source', vfIdentityID = hex ib, vfSession = rec\<rparr>"
  have fr: "fresh_session rec t" using encode_nonempty[OF draws(3)] by (simp add: fresh_session_def rec_def sessionAbsoluteTTL_def)
  have "ready a st'" using ready[of a] by (simp add: a_def rec_def ref)
  moreover have "credentials_match ?r a" using ch(4) by (simp add: credentials_match_def a_def)
  ultimately obtain st2 i where V: "opVerify ops None a st' = (st2, Ok i)" "idEmail i = chEmail c" "live rec i st2"
    using verify_grants[OF p, of a] fr time ch by (auto simp: a_def)
  let ?cred = "EncodeToString sid @ ''.'' @ EncodeToString secret"
  have "snd (Current sha256 ops None None t' ?cred st2) = Ok i \<and>
      snd (ValidateCSRF sha256 ops None None t' ?cred (EncodeToString csrf) st2) = None"
    if "t \<le> t'" "t' < t + sessionIdleTTL" for t'
  proof -
    have "proves \<lparr>spID = EncodeToString sid, spDigest = sha256 secret, spCSRFDigest = d, spNow = t'\<rparr> rec"
      if "d = zeroDigest \<or> d = sha256 csrf" for d
      using \<open>t \<le> t'\<close> \<open>t' < t + sessionIdleTTL\<close> that
      by (auto simp: proves_def rec_def sessionAbsoluteTTL_def sessionIdleTTL_def)
    from live_authenticates[OF V(3) this]
    have "snd (opAuthenticateSession ops None \<lparr>spID = EncodeToString sid, spDigest = sha256 secret, spCSRFDigest = zeroDigest, spNow = t'\<rparr> st2) = Ok i"
      "snd (opAuthenticateSession ops None \<lparr>spID = EncodeToString sid, spDigest = sha256 secret, spCSRFDigest = sha256 csrf, spNow = t'\<rparr> st2) = Ok i"
      by simp_all
    then show ?thesis
      unfolding Current_def ValidateCSRF_def option.case make_proof_encoded[OF draws(3,4)] sessionCSRFProof_encoded[OF draws(3,4,5)] sum.case
      by (auto split: prod.splits sum.splits)
  qed
  moreover have "Service_Verify hmac sha256 ParseAddress ops ridn rsession svc None None t (crID ref) email code purpose source' opts st' =
      (st2, Ok \<lparr>auIdentity = i, auSession = \<lparr>snCredential = ?cred, snCSRFToken = EncodeToString csrf, snExpiresAt = t + sessionAbsoluteTTL\<rparr>\<rparr>)"
    using src V(1) unfolding a_def rec_def
    by (simp add: Service_Verify_def b ch(1) draws randomHex_def newSession_def Let_def ref)
  ultimately show ?thesis using V(2,3) ch(1) by (auto simp: rec_def)
qed

end

section \<open>The in-memory store provides it\<close>

definition memory_pending :: "reservation \<Rightarrow> memoryStore \<Rightarrow> bool" where
  "memory_pending r s \<longleftrightarrow> map_of (msChallenges s) (rvID r) = Some \<lparr>scReservation = r, scAttempts = 0, scActive = True\<rparr>"

text \<open>Room for a verification: its source has budget left, and there is a free slot for its session and,
  for an unknown address, for its identity.\<close>

definition memory_ready :: "verification \<Rightarrow> memoryStore \<Rightarrow> bool" where
  "memory_ready a s \<longleftrightarrow> store_ok s \<and> source_free a s \<and> map_of (msSessions s) (srID (vfSession a)) = None \<and>
     length (msSessions s) < msCapacity s \<and> length (msIdentities s) < msCapacity s"

definition memory_live :: "sessionRecord \<Rightarrow> identity \<Rightarrow> memoryStore \<Rightarrow> bool" where
  "memory_live r i s \<longleftrightarrow> map_of (msSessions s) (srID r) =
     Some \<lparr>ssRecord = r\<lparr>srIdentityID := idID i\<rparr>, ssIdentity = i, ssActive = True\<rparr>"

lemma Reserve_pending:
  assumes "Reserve it None r s = (s', None)"
  shows "memory_pending r s'"
  using assms by (cases rule: Reserve_cases) (simp_all add: memory_pending_def install_challenge_def Let_def gm_set_lookup)

lemma Verify_grants:
  assumes p: "memory_pending r s" and m: "credentials_match r a" and i: "vfID a = rvID r"
    and t: "rvIssuedAt r \<le> vfNow a" "vfNow a < rvExpiresAt r"
    and f: "fresh_session (vfSession a) (vfNow a)" and rd: "memory_ready a s"
  shows "\<exists>s' i. Verify it None a s = (s', Ok i) \<and> idEmail i = rvEmail r \<and> memory_live (vfSession a) i s'"
proof -
  let ?c = "\<lparr>scReservation = r, scAttempts = 0, scActive = True\<rparr>"
  let ?s = "charge_source a s"
  have ok: "store_ok ?s" using rd by (simp add: memory_ready_def store_ok_charge_source)
  have "open_challenge ?c (vfNow a)" using t by (simp add: open_challenge_def challengeAttempts_def)
  then have V: "Verify it None a s = complete_attempt it ?c a ?s"
    using p rd m by (simp add: Verify_charged memory_pending_def memory_ready_def i)
  have room: "make_room (length (msSessions ?s)) (reclaimSession it (vfNow a)) ?s = (?s, True)"
    using rd by (simp add: make_room_def memory_ready_def)
  have "resolve_identity (rvEmail r) a ?s \<noteq> None"
    using rd by (simp add: resolve_identity_def memory_ready_def Let_def split: option.split)
  then obtain s3 j where R: "resolve_identity (rvEmail r) a ?s = Some (s3, j)" by auto
  have "complete_attempt it ?c a ?s = (s3\<lparr>msSessions := gm_set (srID (vfSession a))
              \<lparr>ssRecord = (vfSession a)\<lparr>srIdentityID := idID j\<rparr>, ssIdentity = j, ssActive = True\<rparr> (msSessions s3),
           msChallenges := gm_set (vfID a) (?c\<lparr>scActive := False\<rparr>) (msChallenges s3),
           msActive := gm_delete (challenge_key r) (msActive s3)\<rparr>, Ok j)"
    unfolding complete_attempt_def room Let_def using f rd R by (simp add: fresh_session_def memory_ready_def)
  then show ?thesis
    using V resolve_identity_ok(2)[OF ok R] by (simp add: memory_live_def gm_set_lookup)
qed

lemma live_session_authenticates:
  assumes "memory_live r i s" "proves p r"
  shows "snd (AuthenticateSession None p s) = Ok i"
  using assms by (auto simp: memory_live_def proves_def AuthenticateSession_def live_session_def)

interpretation memory: sign_in_store "memory_store itc its" memory_pending memory_ready memory_live
proof
  show "memory_pending r st'" if "opReserve (memory_store itc its) None r st = (st', None)" for r st st'
    using that Reserve_pending by (simp add: memory_store_def)
  show "\<exists>st' i. opVerify (memory_store itc its) None a st = (st', Ok i) \<and> idEmail i = rvEmail r \<and> memory_live (vfSession a) i st'"
    if "memory_pending r st" "credentials_match r a" "vfID a = rvID r" "rvIssuedAt r \<le> vfNow a"
      "vfNow a < rvExpiresAt r" "fresh_session (vfSession a) (vfNow a)" "memory_ready a st" for r st a
    using Verify_grants[OF that] by (simp add: memory_store_def)
  show "snd (opAuthenticateSession (memory_store itc its) None p st) = Ok i" if "memory_live sr i st" "proves p sr" for sr i st p
    using live_session_authenticates[OF that] by (simp add: memory_store_def)
qed

lemma newChallenge_id:
  assumes "newChallenge hmac ParseAddress (Ok bytes) rn key email purpose now = Ok (c, code)" "length bytes = 32"
  shows "chID c = hex bytes" "chID c \<noteq> []"
proof -
  show "chID c = hex bytes" using assms(1) by (auto simp: newChallenge_def Let_def split: if_splits sum.splits)
  moreover have "length (hex bytes) = 64" using assms(2) by simp
  ultimately show "chID c \<noteq> []" by (metis list.size(3) zero_neq_numeral)
qed

text \<open>A request is one reservation, or none, and at most one invalidation.\<close>

lemma Service_Request_ok:
  assumes ok: "store_ok s" and it: "any_order itc" and b: "length bytes = 32"
  shows "store_ok (fst (Service_Request hmac sha256 ParseAddress (memory_store itc its) send (Ok bytes) rn svc ctx ctx' ctx'' now email purpose source opts s))"
proof -
  have R: "store_ok (fst (Reserve itc ctx' r s))" if "rvID r \<noteq> []" for r
    by (rule store_ok_Reserve[OF ok it that])
  have I: "store_ok (fst (Invalidate ctx'' i x))" if "store_ok x" for i x by (rule store_ok_Invalidate[OF that])
  have id: "newChallenge hmac ParseAddress (Ok bytes) rn (svKey svc) email purpose now = Ok (c, code) \<Longrightarrow> chID c \<noteq> []" for c code
    by (rule newChallenge_id(2)[OF _ b])
  obtain x where x: "x = newChallenge hmac ParseAddress (Ok bytes) rn (svKey svc) email purpose now" by simp
  show ?thesis
  proof (cases "ctx = None \<and> source \<noteq> [] \<and> length source \<le> 256 \<and> (\<exists>bd c code. challengeBinding sha256 opts = Ok bd \<and> x = Ok (c, code))")
    case True
    then obtain bd c code where bd: "ctx = None" "source \<noteq> []" "length source \<le> 256" "challengeBinding sha256 opts = Ok bd" "x = Ok (c, code)" by auto
    let ?r = "\<lparr>rvID = chID c, rvEmail = chEmail c, rvKeyID = svKeyID svc, rvPurpose = purpose,
                   rvVerifier = chDigest c, rvBinding = bd, rvIssuedAt = chIssued c, rvExpiresAt = chExpires c,
                   rvSource = source\<rparr>"
    obtain s1 res where Rs: "Reserve itc ctx' ?r s = (s1, res)" by (cases "Reserve itc ctx' ?r s")
    have s1: "store_ok s1" using R[of ?r] id[of c code] bd(5) by (simp add: x Rs)
    show ?thesis
      using bd s1 I[OF s1]
      by (auto simp: Service_Request_def x[symmetric] memory_store_def Rs Let_def split: option.split)
  next
    case False
    then show ?thesis
      using ok by (auto simp: Service_Request_def x[symmetric] split: option.split sum.split)
  qed
qed

section \<open>Signing in and out\<close>

lemma logout_ends_session:
  assumes live: "memory_live r i s" and r: "srID r = EncodeToString sid" "srDigest r = sha256 secret"
    and len: "length sid = 32" "length secret = 32"
  shows "\<exists>s'. Logout sha256 (memory_store itc its) None None t (EncodeToString sid @ ''.'' @ EncodeToString secret) s = (s', None) \<and>
     snd (Current sha256 (memory_store itc its) None None t' (EncodeToString sid @ ''.'' @ EncodeToString secret) s') = Err ErrSession"
proof -
  let ?x = "\<lparr>ssRecord = r\<lparr>srIdentityID := idID i\<rparr>, ssIdentity = i, ssActive = True\<rparr>"
  have m: "map_of (msSessions s) (EncodeToString sid) = Some ?x" using live r by (simp add: memory_live_def)
  let ?s' = "s\<lparr>msSessions := gm_set (EncodeToString sid) (?x\<lparr>ssActive := False\<rparr>) (msSessions s)\<rparr>"
  have "Logout sha256 (memory_store itc its) None None t (EncodeToString sid @ ''.'' @ EncodeToString secret) s = (?s', None)"
    unfolding Logout_def option.case make_proof_encoded[OF len] sum.case
    using m r(2) by (simp add: memory_store_def RevokeSession_def sessionStoreError_def)
  moreover have "snd (Current sha256 (memory_store itc its) None None t' (EncodeToString sid @ ''.'' @ EncodeToString secret) ?s') = Err ErrSession"
    unfolding Current_def option.case make_proof_encoded[OF len] sum.case
    by (simp add: memory_store_def AuthenticateSession_def gm_set_lookup live_session_def mask_session_def sessionStoreError_def)
  ultimately show ?thesis by blast
qed

text \<open>C17: The code that \<open>Request\<close> mails signs its recipient in. On the in-memory store, when \<open>Request\<close>
  has returned a challenge, \<open>Verify\<close> with the code of the message within five minutes, the same
  purpose and binding, budget left for the source and a free slot for session and identity, returns
  an authentication for the canonical address. Its credential passes \<open>Current\<close>, and with its CSRF
  token \<open>ValidateCSRF\<close>, for the next 24 hours; \<open>Logout\<close> accepts it, and after that \<open>Current\<close> refuses it
  forever.\<close>

theorem mailed_code_signs_in:
  assumes "reachable s" and "any_order itc" and "length bytes = 32"
    and req: "Service_Request hmac sha256 ParseAddress (memory_store itc its) send (Ok bytes) rn svc None None None now email purpose source opts s = (s1, [m], Ok ref)"
    and "msText m = ''Your Fabrin sign-in code is: '' @ code"
    and "length sid = 32" and "length secret = 32" and "length csrf = 32"
    and "now \<le> t" and "t < now + 5 * Minute" and "source' \<noteq> []" and "length source' \<le> 256"
    and "map_of (msSessions s1) (EncodeToString sid) = None"
    and "length (msSessions s1) < msCapacity s1" and "length (msIdentities s1) < msCapacity s1"
    and "length (entries (prune_budget t (msSourceVerifications s1)) source') < sourceVerifyLimit"
    and "map_of (prune_budget t (msSourceVerifications s1)) source' \<noteq> None \<or>
         length (prune_budget t (msSourceVerifications s1)) < msCapacity s1"
  shows "\<exists>s2 au. Service_Verify hmac sha256 ParseAddress (memory_store itc its) (Ok ib) (Ok sid, Ok secret, Ok csrf) svc None None t (crID ref) email code purpose source' opts s1 = (s2, Ok au) \<and>
    canonicalEmail ParseAddress email = Ok (idEmail (auIdentity au)) \<and>
    (\<forall>t'. t \<le> t' \<longrightarrow> t' < t + sessionIdleTTL \<longrightarrow>
       snd (Current sha256 (memory_store itc its) None None t' (snCredential (auSession au)) s2) = Ok (auIdentity au) \<and>
       snd (ValidateCSRF sha256 (memory_store itc its) None None t' (snCredential (auSession au)) (snCSRFToken (auSession au)) s2) = None) \<and>
    (\<forall>t' t''. \<exists>s3. Logout sha256 (memory_store itc its) None None t' (snCredential (auSession au)) s2 = (s3, None) \<and>
       snd (Current sha256 (memory_store itc its) None None t'' (snCredential (auSession au)) s3) = Err ErrSession)"
proof -
  have ok: "store_ok s1"
    using Service_Request_ok[OF reachable_ok[OF assms(1)] assms(2,3), of hmac sha256 ParseAddress its send rn svc None None None now email purpose source opts]
    by (simp only: req fst_conv)
  have ready: "memory_ready a s1"
    if "vfSession a = \<lparr>srID = EncodeToString sid, srIdentityID = [], srDigest = sha256 secret,
        srCSRFDigest = sha256 csrf, srCreatedAt = t, srLastSeenAt = t, srExpiresAt = t + sessionAbsoluteTTL\<rparr>"
      "vfNow a = t" "vfSource a = source'" for a
    using that ok assms(13-17) by (simp add: memory_ready_def source_free_def Let_def)
  obtain s2 au where V: "Service_Verify hmac sha256 ParseAddress (memory_store itc its) (Ok ib) (Ok sid, Ok secret, Ok csrf) svc None None t (crID ref) email code purpose source' opts s1 = (s2, Ok au)"
    "canonicalEmail ParseAddress email = Ok (idEmail (auIdentity au))"
    and cred: "snCredential (auSession au) = EncodeToString sid @ ''.'' @ EncodeToString secret"
    and live: "memory_live \<lparr>srID = EncodeToString sid, srIdentityID = [], srDigest = sha256 secret, srCSRFDigest = sha256 csrf,
      srCreatedAt = t, srLastSeenAt = t, srExpiresAt = t + sessionAbsoluteTTL\<rparr> (auIdentity au) s2"
    and cur: "\<forall>t'. t \<le> t' \<longrightarrow> t' < t + sessionIdleTTL \<longrightarrow>
       snd (Current sha256 (memory_store itc its) None None t' (snCredential (auSession au)) s2) = Ok (auIdentity au) \<and>
       snd (ValidateCSRF sha256 (memory_store itc its) None None t' (snCredential (auSession au)) (snCSRFToken (auSession au)) s2) = None"
    using memory.sent_code_signs_in[OF req refl refl assms(6,7,8) refl assms(5,9,10,11,12), where ib = ib] ready
    by blast
  have "\<forall>t' t''. \<exists>s3. Logout sha256 (memory_store itc its) None None t' (snCredential (auSession au)) s2 = (s3, None) \<and>
       snd (Current sha256 (memory_store itc its) None None t'' (snCredential (auSession au)) s3) = Err ErrSession"
    unfolding cred using logout_ends_session[OF live _ _ assms(6,7)] by simp
  with V cur show ?thesis by blast
qed

text \<open>A concrete service: toy digests, every address parses, the draws are given.\<close>

definition ex_hmac :: "string \<Rightarrow> string \<Rightarrow> digest" where
  "ex_hmac key m = take 32 (rev m @ key)"

definition ex_sha :: "string \<Rightarrow> digest" where
  "ex_sha m = take 32 (m @ replicate 32 (CHR ''0''))"

definition ex_parse :: "string \<Rightarrow> (string \<times> string) option" where
  "ex_parse v = Some ([], v)"

definition ex_service :: service where
  "ex_service = \<lparr>svKeyID = ''k1'', svKey = replicate 32 (CHR ''k'')\<rparr>"

definition ex_bytes :: "char \<Rightarrow> string" where
  "ex_bytes c = replicate 32 c"

abbreviation ex_ops :: "memoryStore store_ops" where
  "ex_ops \<equiv> memory_store (\<lambda>m. m) (\<lambda>m. m)"

definition ex_request :: "(message \<Rightarrow> auth_err option) \<Rightarrow> memoryStore \<times> message list \<times> (auth_err, challenge_ref) result" where
  "ex_request send = Service_Request ex_hmac ex_sha ex_parse ex_ops send (Ok (ex_bytes (CHR ''i''))) (Ok 42)
     ex_service None None None (2 * Hour) ''ann@Example.com'' ''native'' ''192.0.2.1'' [] ex_new"

lemma ex_request_sent:
  "case ex_request (\<lambda>_. None) of (s1, msgs, res) \<Rightarrow>
     msgs = [code_message ''ann@example.com'' ''00000042''] \<and>
     res = Ok \<lparr>crID = hex (ex_bytes (CHR ''i'')), crExpiresAt = 2 * Hour + 5 * Minute\<rparr> \<and>
     msSessions s1 = [] \<and> msIdentities s1 = [] \<and> msSourceVerifications s1 = [] \<and> msCapacity s1 = 2"
  by code_simp

theorem mailed_code_signs_in_witness:
  "\<exists>s2 au. Service_Verify ex_hmac ex_sha ex_parse ex_ops (Ok (ex_bytes (CHR ''u'')))
      (Ok (ex_bytes (CHR ''a'')), Ok (ex_bytes (CHR ''b'')), Ok (ex_bytes (CHR ''c''))) ex_service None None (2 * Hour + Minute)
      (hex (ex_bytes (CHR ''i''))) ''ann@Example.com'' ''00000042'' ''native'' ''192.0.2.1'' [] (fst (ex_request (\<lambda>_. None))) = (s2, Ok au) \<and>
    idEmail (auIdentity au) = ''ann@example.com''"
proof -
  let ?s1 = "fst (ex_request (\<lambda>_. None))" and ?m = "code_message ''ann@example.com'' ''00000042''"
  have req: "Service_Request ex_hmac ex_sha ex_parse ex_ops (\<lambda>_. None) (Ok (ex_bytes (CHR ''i''))) (Ok 42)
     ex_service None None None (2 * Hour) ''ann@Example.com'' ''native'' ''192.0.2.1'' [] ex_new =
     (?s1, [?m], Ok \<lparr>crID = hex (ex_bytes (CHR ''i'')), crExpiresAt = 2 * Hour + 5 * Minute\<rparr>)"
    and e: "msSessions ?s1 = []" "msIdentities ?s1 = []" "msSourceVerifications ?s1 = []" "msCapacity ?s1 = 2"
    using ex_request_sent unfolding ex_request_def[symmetric] by (auto split: prod.splits)
  have text_m: "msText ?m = ''Your Fabrin sign-in code is: '' @ ''00000042''" by (simp add: code_message_def)
  have len: "length (ex_bytes c) = 32" for c by (simp add: ex_bytes_def)
  have st: "map_of (msSessions ?s1) (EncodeToString (ex_bytes (CHR ''a''))) = None" "length (msSessions ?s1) < msCapacity ?s1"
    "length (msIdentities ?s1) < msCapacity ?s1"
    "length (entries (prune_budget (2 * Hour + Minute) (msSourceVerifications ?s1)) ''192.0.2.1'') < sourceVerifyLimit"
    "map_of (prune_budget (2 * Hour + Minute) (msSourceVerifications ?s1)) ''192.0.2.1'' \<noteq> None \<or>
       length (prune_budget (2 * Hour + Minute) (msSourceVerifications ?s1)) < msCapacity ?s1"
    by (simp_all add: e prune_budget_def gm_mapv_def gm_filterv_def entries_def sourceVerifyLimit_def)
  have em: "canonicalEmail ex_parse ''ann@Example.com'' = Ok ''ann@example.com''" by code_simp
  show ?thesis
    using mailed_code_signs_in[OF reachable_ex_new any_order_id len req text_m len len[of "CHR ''b''"] len[of "CHR ''c''"] _ _ _ _ st,
        of "ex_bytes (CHR ''u'')"] em by auto
qed

section \<open>Delivery failures\<close>

text \<open>A known delivery failure ends the challenge that was reserved for it: when \<open>Request\<close> reports
  \<open>ErrDelivery\<close> for a rejection (neither a cancellation nor a deadline) and the clean-up call went
  through, no later \<open>Verify\<close> accepts that challenge, unless its ID is reserved again. A message is
  given to the sender only after its challenge has been reserved.\<close>

theorem rejected_delivery_ends_challenge:
  assumes "Service_Request hmac sha256 ParseAddress (memory_store itc its) send (Ok bytes) rn svc ctx ctx' None now email purpose source opts s = (s1, msgs, res)"
    and "send = (\<lambda>_. Some e)" and "e \<noteq> Canceled" and "e \<noteq> DeadlineExceeded"
    and "list_all (\<lambda>c. \<not> issues_challenge (hex bytes) c) cs" and "vfID a = hex bytes" and "msgs \<noteq> []"
  shows "res = Err ErrDelivery \<and> (\<exists>m. msgs = [m]) \<and> (\<exists>r s'. rvID r = hex bytes \<and> Reserve itc ctx' r s = (s', None)) \<and>
    (\<exists>err. snd (Verify it2 ctx2 a (run_ops cs s1)) = Err err)"
proof -
  have live: "ctx = None" "source \<noteq> []" "\<not> length source > 256"
    using assms(1,7) by (auto simp: Service_Request_def split: option.splits if_splits)
  obtain bd where bd: "challengeBinding sha256 opts = Ok bd"
    using assms(1,7) live by (auto simp: Service_Request_def split: sum.splits)
  obtain c code where c: "newChallenge hmac ParseAddress (Ok bytes) rn (svKey svc) email purpose now = Ok (c, code)"
    using assms(1,7) live bd by (auto simp: Service_Request_def split: sum.splits)
  have i: "chID c = hex bytes" using c by (auto simp: newChallenge_def Let_def split: if_splits sum.splits)
  let ?r = "\<lparr>rvID = chID c, rvEmail = chEmail c, rvKeyID = svKeyID svc, rvPurpose = purpose,
                   rvVerifier = chDigest c, rvBinding = bd, rvIssuedAt = chIssued c, rvExpiresAt = chExpires c,
                   rvSource = source\<rparr>"
  obtain s' rr where R: "Reserve itc ctx' ?r s = (s', rr)" by (cases "Reserve itc ctx' ?r s")
  have rr: "rr = None"
    using assms(1,7) live bd c by (auto simp: Service_Request_def memory_store_def R Let_def split: option.splits)
  have s1: "s1 = fst (Invalidate None (chID c) s')" "res = Err ErrDelivery" "\<exists>m. msgs = [m]"
    using assms(1,2,3,4) live bd c rr by (auto simp: Service_Request_def memory_store_def R Let_def)
  have "spent_challenge (hex bytes) s1"
    unfolding s1(1) i by (auto simp: Invalidate_def spent_challenge_def deactivate_lookup split: option.splits)
  from challenge_use.refused_forever[OF this assms(5), of "OpVerify it2 ctx2 a"] assms(6)
  have "\<exists>err. snd (Verify it2 ctx2 a (run_ops cs s1)) = Err err"
    by (cases "snd (Verify it2 ctx2 a (run_ops cs s1))") auto
  moreover have "\<exists>r s'. rvID r = hex bytes \<and> Reserve itc ctx' r s = (s', None)"
    using R rr i by (intro exI[of _ ?r] exI[of _ s']) simp
  ultimately show ?thesis using s1 by blast
qed

theorem rejected_delivery_ends_challenge_witness:
  "\<exists>s1 m err. ex_request (\<lambda>_. Some (OtherErr ''rejected'')) = (s1, [m], Err ErrDelivery) \<and>
     snd (Verify (\<lambda>m. m) None (ex_attempt (hex (ex_bytes (CHR ''i''))) ''s1'' (2 * Hour + Minute)) (run_ops [] s1)) = Err err"
proof -
  obtain s1 msgs res where R: "ex_request (\<lambda>_. Some (OtherErr ''rejected'')) = (s1, msgs, res)"
    by (cases "ex_request (\<lambda>_. Some (OtherErr ''rejected''))")
  have "fst (snd (ex_request (\<lambda>_. Some (OtherErr ''rejected'')))) \<noteq> []" by code_simp
  then have "msgs \<noteq> []" by (simp add: R)
  from rejected_delivery_ends_challenge[OF R[unfolded ex_request_def] refl, where cs = "[]" and a = "ex_attempt (hex (ex_bytes (CHR ''i''))) ''s1'' (2 * Hour + Minute)"
    and ?it2.0 = "\<lambda>m. m" and ?ctx2.0 = None] this
  show ?thesis using R by (auto simp: ex_attempt_def)
qed

section \<open>Public errors\<close>

definition public_errors :: "auth_err set" where
  "public_errors = {ErrAuthentication, ErrRateLimited, ErrUnavailable, ErrDelivery, Canceled, DeadlineExceeded}"

definition session_errors :: "auth_err set" where
  "session_errors = {ErrSession, ErrUnavailable, Canceled, DeadlineExceeded}"

definition preauth_errors :: "auth_err set" where
  "preauth_errors = {ErrPreAuth, ErrRateLimited, ErrUnavailable, Canceled, DeadlineExceeded}"

lemma masked_errors:
  "storeError e \<in> public_errors" "mask_session e \<in> session_errors"
  "sessionStoreError r = Some e \<Longrightarrow> e \<in> session_errors" "preAuthError r = Some e \<Longrightarrow> e \<in> preauth_errors"
  "the (preAuthError (Some e)) \<in> preauth_errors"
  by (auto simp: storeError_def mask_session_def sessionStoreError_def preAuthError_def public_errors_def
      session_errors_def preauth_errors_def split: option.splits if_splits)

lemma Request_errors:
  "snd (snd (Service_Request hmac sha256 ParseAddress ops send rid rn svc None ctx' ctx'' now email purpose source opts st)) = Err e \<Longrightarrow> e \<in> public_errors"
  using masked_errors(1)
  by (auto simp: Service_Request_def Let_def public_errors_def split: if_splits sum.splits option.splits prod.splits)

lemma Verify_errors:
  "snd (Service_Verify hmac sha256 ParseAddress ops (Ok ib) (Ok sid, Ok secret, Ok csrf) svc None ctx' now i email code purpose source opts st) = Err e \<Longrightarrow> e \<in> public_errors"
  using masked_errors(1)
  by (auto simp: Service_Verify_def Let_def randomHex_def newSession_def public_errors_def split: if_splits sum.splits prod.splits)

lemma session_manager_errors:
  "snd (Current sha256 ops None ctx' now cred st) = Err e \<Longrightarrow> e \<in> session_errors"
  "snd (ValidateCSRF sha256 ops None ctx' now cred tok st) = Some e \<Longrightarrow> e \<in> session_errors"
  "snd (Logout sha256 ops None ctx' now cred st) = Some e \<Longrightarrow> e \<in> session_errors"
  "snd (LogoutAll sha256 ops None ctx' now cred st) = Some e \<Longrightarrow> e \<in> session_errors"
  "snd (RevokeIdentity ops None ctx' i st) = Some e \<Longrightarrow> e \<in> session_errors"
  using masked_errors(2,3)
  by (auto simp: Current_def ValidateCSRF_def Logout_def LogoutAll_def RevokeIdentity_def session_errors_def
      split: sum.splits prod.splits if_splits)

lemma preauth_manager_errors:
  "snd (Bootstrap sha256 pops rid rsecret rcsrf None ctx' now source st) = Err e \<Longrightarrow> e \<in> preauth_errors"
  "snd (Authenticate sha256 pops None ctx' now cred tok st) = Some e \<Longrightarrow> e \<in> preauth_errors"
  "snd (Consume sha256 pops None ctx' now cred tok st) = Some e \<Longrightarrow> e \<in> preauth_errors"
  using masked_errors(4,5)
  by (auto simp: Bootstrap_def Authenticate_def Consume_def Let_def preauth_errors_def
      split: sum.splits prod.splits if_splits option.splits)



section \<open>Domain separation of the verifier\<close>

text \<open>The message that the verifier authenticates determines its fields: two lists of fields (of
  less than \<open>2 ^ 64\<close> bytes each) that are framed to the same bytes are the same list. No choice of
  purpose, challenge ID, address and code can stand for another choice.\<close>

theorem framing_injective:
  assumes "frame_fields xs = frame_fields ys"
    and "\<forall>f \<in> set xs \<union> set ys. length f < 2 ^ 64"
  shows "xs = ys"
  using assms
proof (induction xs arbitrary: ys)
  case Nil
  then show ?case by (cases ys) (auto simp: frame_fields_def PutUint64_def)
next
  case (Cons x xs)
  then obtain y ys' where ys: "ys = y # ys'" by (cases ys) (auto simp: frame_fields_def PutUint64_def)
  have e: "PutUint64 (length x) @ (x @ frame_fields xs) = PutUint64 (length y) @ (y @ frame_fields ys')"
    using Cons.prems(1) by (simp add: ys frame_fields_def)
  then have p: "PutUint64 (length x) = PutUint64 (length y)" "x @ frame_fields xs = y @ frame_fields ys'"
    using append_eq_append_conv[of "PutUint64 (length x)" "PutUint64 (length y)"] by simp_all
  have "length x = length y" using PutUint64_inj[OF _ _ p(1)] Cons.prems(2) by (simp add: ys)
  with p(2) have "x = y" "frame_fields xs = frame_fields ys'" by simp_all
  with Cons.IH[of ys'] Cons.prems(2) show ?case by (simp add: ys)
qed

theorem framing_injective_witness:
  "frame_fields [''native'', ''a'', ''bc''] \<noteq> frame_fields [''native'', ''ab'', ''c'']"
  using framing_injective[of "[''native'', ''a'', ''bc'']" "[''native'', ''ab'', ''c'']"] by fastforce

section \<open>The store refines the challenge state machine\<close>

text \<open>A stored challenge implements a challenge of auth/challenge.go: the same data, spent when it is no
  longer active, and, while it is active, five attempts less the counted failures.\<close>

definition implements :: "storedChallenge \<Rightarrow> challenge \<Rightarrow> bool" where
  "implements c d \<longleftrightarrow> chID d = rvID (scReservation c) \<and> chEmail d = rvEmail (scReservation c) \<and>
     chDigest d = rvVerifier (scReservation c) \<and> chIssued d = rvIssuedAt (scReservation c) \<and>
     chExpires d = rvExpiresAt (scReservation c) \<and> chSpent d = (\<not> scActive c) \<and>
     (scActive c \<longrightarrow> chAttempts d = 5 - int (scAttempts c))"

lemma implements_open:
  "implements c d \<Longrightarrow> (chSpent d \<or> chAttempts d \<le> 0 \<or> now < chIssued d \<or> \<not> now < chExpires d) = (\<not> open_challenge c now)"
  by (auto simp: implements_def open_challenge_def challengeAttempts_def)

text \<open>C19: \<open>MemoryStore.Verify\<close> refines \<open>challenge.consume\<close>. For an attempt with a well-formed code that
  names the challenge's own address, purpose, key and binding: when the store accepts, the state
  machine accepts; when the store answers \<open>ErrAuthentication\<close>, it refuses; and in both cases the
  stored challenge after the call implements the challenge after \<open>consume\<close>.\<close>

theorem Verify_refines_consume:
  assumes "map_of (msChallenges s) (vfID a) = Some c" and "implements c d"
    and "credentials_match (scReservation c) (a\<lparr>vfVerifier := rvVerifier (scReservation c)\<rparr>)"
    and "vfVerifier a = verifier hmac key [vfPurpose a, vfID a, vfEmail a, code]"
    and "32 \<le> length key" and "length code = 8" and "list_all is_digit code"
    and "Verify it None a s = (s', res)" and "res \<in> {Ok i, Err ErrAuthentication}" and "source_free a s"
  shows "snd (consume hmac key (vfPurpose a) (vfID a) (vfEmail a) code (vfNow a) d) = is_ok res \<and>
    (\<exists>c'. map_of (msChallenges s') (vfID a) = Some c' \<and>
       implements c' (fst (consume hmac key (vfPurpose a) (vfID a) (vfEmail a) code (vfNow a) d)))"
proof (cases "open_challenge c (vfNow a)")
  case False
  then have "consume hmac key (vfPurpose a) (vfID a) (vfEmail a) code (vfNow a) d = (d, False)"
    unfolding consume_def implements_open[OF assms(2), of "vfNow a"] by simp
  moreover have "s' = charge_source a s \<and> res = Err ErrAuthentication"
    using assms(8,10) False by (auto simp: Verify_charged assms(1))
  ultimately show ?thesis using assms(1,2) by auto
next
  case True
  have m: "credentials_match (scReservation c) a \<longleftrightarrow> vfVerifier a = chDigest d"
    using assms(2,3) by (auto simp: credentials_match_def implements_def)
  have k: "\<not> (length key < 32 \<or> length code \<noteq> 8)" using assms(5,6) by auto
  show ?thesis
  proof (cases "vfVerifier a = chDigest d")
    case match: True
    then have "consume hmac key (vfPurpose a) (vfID a) (vfEmail a) code (vfNow a) d =
        (d\<lparr>chAttempts := chAttempts d - 1, chSpent := True\<rparr>, True)"
      unfolding consume_def implements_open[OF assms(2), of "vfNow a"] using True k assms(4,7) by (simp add: Let_def)
    moreover have C: "complete_attempt it c a (charge_source a s) = (s', res)"
      using assms(8,10) True match m by (simp add: Verify_charged assms(1))
    moreover have "\<exists>j. res = Ok j"
      using C assms(9) by (cases rule: complete_attempt_cases) auto
    moreover have "msChallenges s' = gm_set (vfID a) (c\<lparr>scActive := False\<rparr>) (msChallenges s)"
      using C \<open>\<exists>j. res = Ok j\<close>
    proof (cases rule: complete_attempt_cases)
      case (granted i s2 s3)
      have "msChallenges s2 = msChallenges s" using granted(4) reclaimSession_frame by fastforce
      moreover have "msChallenges s3 = msChallenges s2" using resolve_identity_cases[OF granted(5)] by auto
      ultimately show ?thesis by (simp add: granted(6))
    qed auto
    ultimately show ?thesis using assms(2) by (auto simp: implements_def gm_set_lookup)
  next
    case False
    then have "consume hmac key (vfPurpose a) (vfID a) (vfEmail a) code (vfNow a) d = (d\<lparr>chAttempts := chAttempts d - 1\<rparr>, False)"
      unfolding consume_def implements_open[OF assms(2), of "vfNow a"] using True k assms(4,7) by (simp add: Let_def)
    moreover have F: "fail_attempt c a (charge_source a s) = (s', res)"
      using assms(8,10) True False m by (simp add: Verify_charged assms(1))
    moreover have "res = Err ErrAuthentication \<and> map_of (msChallenges s') (vfID a) = Some (c\<lparr>scAttempts := scAttempts c + 1\<rparr>)"
      using F assms(9) by (auto simp: fail_attempt_def Let_def gm_set_lookup split: if_splits)
    ultimately show ?thesis using assms(2) by (auto simp: implements_def)
  qed
qed

definition ex_digest :: "string \<Rightarrow> digest" where
  "ex_digest code = verifier ex_hmac (svKey ex_service) [''native'', ''c1'', ''ann@example.com'', code]"

definition ex_open :: memoryStore where
  "ex_open = fst (Reserve (\<lambda>m. m) None ((ex_reservation ''c1'' (2 * Hour))\<lparr>rvVerifier := ex_digest ''12345678''\<rparr>) ex_new)"

definition ex_try :: "string \<Rightarrow> verification" where
  "ex_try code = (ex_attempt ''c1'' ''s1'' (2 * Hour + Minute))\<lparr>vfVerifier := ex_digest code\<rparr>"

definition ex_machine :: challenge where
  "ex_machine = \<lparr>chID = ''c1'', chEmail = ''ann@example.com'', chDigest = ex_digest ''12345678'',
     chIssued = 2 * Hour, chExpires = 2 * Hour + 5 * Minute, chAttempts = 5, chSpent = False\<rparr>"

theorem Verify_refines_consume_witness:
  "\<not> snd (consume ex_hmac (svKey ex_service) ''native'' ''c1'' ''ann@example.com'' ''00000000'' (2 * Hour + Minute) ex_machine) \<and>
   (\<exists>c'. map_of (msChallenges (fst (Verify (\<lambda>m. m) None (ex_try ''00000000'') ex_open))) ''c1'' = Some c' \<and>
      implements c' (fst (consume ex_hmac (svKey ex_service) ''native'' ''c1'' ''ann@example.com'' ''00000000'' (2 * Hour + Minute) ex_machine)))"
proof -
  let ?c = "\<lparr>scReservation = (ex_reservation ''c1'' (2 * Hour))\<lparr>rvVerifier := ex_digest ''12345678''\<rparr>, scAttempts = 0, scActive = True\<rparr>"
  let ?a = "ex_try ''00000000''"
  have c: "map_of (msChallenges ex_open) (vfID ?a) = Some ?c" by code_simp
  have d: "implements ?c ex_machine" by (simp add: implements_def ex_machine_def ex_reservation_def)
  have m: "credentials_match (scReservation ?c) (?a\<lparr>vfVerifier := rvVerifier (scReservation ?c)\<rparr>)"
    by (simp add: credentials_match_def ex_try_def ex_attempt_def ex_reservation_def)
  have v: "vfVerifier ?a = verifier ex_hmac (svKey ex_service) [vfPurpose ?a, vfID ?a, vfEmail ?a, ''00000000'']"
    by (simp add: ex_try_def ex_attempt_def ex_digest_def)
  have r: "case snd (Verify (\<lambda>m. m) None ?a ex_open) of Ok i \<Rightarrow> False | Err e \<Rightarrow> (case e of ErrAuthentication \<Rightarrow> True | _ \<Rightarrow> False)" by code_simp
  have V: "Verify (\<lambda>m. m) None ?a ex_open = (fst (Verify (\<lambda>m. m) None ?a ex_open), Err ErrAuthentication)"
    using r by (cases "Verify (\<lambda>m. m) None ?a ex_open") (auto split: sum.splits auth_err.splits)
  have key: "32 \<le> length (svKey ex_service)" by (simp add: ex_service_def)
  have dig: "list_all is_digit ''00000000''" by code_simp
  have sf: "source_free ?a ex_open" by code_simp
  from Verify_refines_consume[OF c d m v key _ dig V _ sf, of undefined]
  show ?thesis by (simp add: ex_try_def ex_attempt_def)
qed

end
