(* ===== verification/Cli.thy ===== *)
theory Cli
  imports Go_Prelude
begin

text \<open>
  The package \<open>cli\<close> (cli/cli.go): dispatch of subcommands, interspersed flags, usage text and the
  suggestion for an unknown command.

  The standard library's \<open>flag.FlagSet\<close> is modelled as far as the package uses it: its parser, byte for
  byte, over flags that say whether they are boolean and which values they accept. The text of
  \<open>FlagSet.PrintDefaults\<close> and \<open>strconv.Quote\<close> are parameters. A command's \<open>Run\<close> is a function of the
  values set, the writer and the positional arguments.
\<close>

section \<open>Flag sets\<close>

datatype flag_err =
    BadSyntax string
  | NotDefined string
  | InvalidValue string string string
  | NeedsArgument string
  | ErrHelp

record flag =
  fgName :: string
  fgBool :: bool
  fgSet :: "string \<Rightarrow> string option"

type_synonym flag_values = "(string \<times> string) list"

text \<open>\<open>FlagSet.parseOne\<close>: \<open>Inr (vals, args, seen)\<close>, where \<open>seen\<close> says whether to go on.\<close>

definition find_flag :: "flag list \<Rightarrow> string \<Rightarrow> flag option" where
  "find_flag fs name = find (\<lambda>f. fgName f = name) fs"

definition set_flag :: "flag \<Rightarrow> string \<Rightarrow> flag_values \<Rightarrow> (flag_err, flag_values) result" where
  "set_flag f v vals =
     (case fgSet f v of Some e \<Rightarrow> Err (InvalidValue v (fgName f) e) | None \<Rightarrow> Ok (vals @ [(fgName f, v)]))"

definition parse_named ::
    "flag list \<Rightarrow> string \<Rightarrow> string option \<Rightarrow> flag_values \<Rightarrow> string list \<Rightarrow> (flag_err, flag_values \<times> string list) result" where
  "parse_named fs name v vals args =
     (case find_flag fs name of
        None \<Rightarrow> if name = ''help'' \<or> name = ''h'' then Err ErrHelp else Err (NotDefined name)
      | Some f \<Rightarrow>
          if fgBool f
          then map_sum id (\<lambda>vals. (vals, args)) (set_flag f (case v of None \<Rightarrow> ''true'' | Some v \<Rightarrow> v) vals)
          else (case v of
                  Some v \<Rightarrow> map_sum id (\<lambda>vals. (vals, args)) (set_flag f v vals)
                | None \<Rightarrow> (case args of
                            [] \<Rightarrow> Err (NeedsArgument name)
                          | v # args \<Rightarrow> map_sum id (\<lambda>vals. (vals, args)) (set_flag f v vals))))"

definition parseOne :: "flag list \<Rightarrow> flag_values \<Rightarrow> string list \<Rightarrow> (flag_err, flag_values \<times> string list \<times> bool) result" where
  "parseOne fs vals args =
     (case args of
        [] \<Rightarrow> Ok (vals, [], False)
      | s # rest \<Rightarrow>
          if length s < 2 \<or> hd s \<noteq> CHR ''-'' then Ok (vals, args, False)
          else if s = ''--'' then Ok (vals, rest, False)
          else
            (let name = drop (if s ! 1 = CHR ''-'' then 2 else 1) s
             in if name = [] \<or> hd name = CHR ''-'' \<or> hd name = CHR ''='' then Err (BadSyntax s)
                else
                  (let (n, v, f) = Cut (CHR ''='') name
                   in map_sum id (\<lambda>(vals, args). (vals, args, True)) (parse_named fs n (if f then Some v else None) vals rest))))"

lemma parse_named_shorter:
  "parse_named fs name v vals args = Ok (vals', args') \<Longrightarrow> length args' \<le> length args"
  by (auto simp: parse_named_def set_flag_def split: option.splits if_splits list.splits)

lemma parseOne_shorter: "parseOne fs vals args = Ok (vals', args', True) \<Longrightarrow> length args' < length args"
  by (auto simp: parseOne_def Let_def map_sum_def split: list.splits if_splits prod.splits sum.splits
      dest!: parse_named_shorter)

lemma parseOne_not_longer: "parseOne fs vals args = Ok (vals', args', seen) \<Longrightarrow> length args' \<le> length args"
  by (auto simp: parseOne_def Let_def map_sum_def split: list.splits if_splits prod.splits sum.splits
      dest!: parse_named_shorter)

text \<open>\<open>FlagSet.Parse\<close> with \<open>ContinueOnError\<close>: the values set and the arguments that are left.\<close>

function Parse :: "flag list \<Rightarrow> flag_values \<Rightarrow> string list \<Rightarrow> (flag_err, flag_values \<times> string list) result" where
  "Parse fs vals args =
     (case parseOne fs vals args of
        Err e \<Rightarrow> Err e
      | Ok (vals', args', seen) \<Rightarrow> if seen then Parse fs vals' args' else Ok (vals', args'))"
  by pat_completeness auto
termination
  by (relation "measure (\<lambda>(_, _, args). length args)") (auto dest: parseOne_shorter)

declare Parse.simps [simp del]

lemma Parse_code [code]:
  "Parse fs vals args =
     (case parseOne fs vals args of
        Err e \<Rightarrow> Err e
      | Ok (vals', args', seen) \<Rightarrow> (case seen of True \<Rightarrow> Parse fs vals' args' | False \<Rightarrow> Ok (vals', args')))"
  by (subst Parse.simps) (auto split: sum.splits prod.splits bool.splits)

lemma Parse_not_longer: "Parse fs vals args = Ok (vals', rest) \<Longrightarrow> length rest \<le> length args"
proof (induction fs vals args arbitrary: vals' rest rule: Parse.induct)
  case (1 fs vals args)
  show ?case
  proof (cases "parseOne fs vals args")
    case (Inr r)
    obtain v a s where r: "r = (v, a, s)" by (cases r)
    have le: "length a \<le> length args" using parseOne_not_longer Inr r by blast
    show ?thesis
    proof (cases s)
      case True
      have "Parse fs v a = Ok (vals', rest)" using "1.prems" Inr r True by (simp add: Parse.simps[of fs vals args])
      then have "length rest \<le> length a" using "1.IH"[of r v "(a, s)" a s] Inr r True by simp
      with le show ?thesis by simp
    next
      case False
      then show ?thesis using "1.prems" Inr r le by (simp add: Parse.simps[of fs vals args])
    qed
  qed (use "1.prems" in \<open>simp add: Parse.simps[of fs vals args]\<close>)
qed

section \<open>Commands\<close>

record command =
  cmName :: string
  cmShort :: string
  cmFlags :: "flag list option"
  cmRun :: "(flag_values \<Rightarrow> writer \<Rightarrow> string list \<Rightarrow> writer \<times> string option) option"

datatype dispatch_err =
    DuplicateCommand string
  | UnknownCommand string
  | NoRun string
  | FlagError string flag_err
  | WriteError
  | RunError string

definition isHelp :: "string \<Rightarrow> bool" where
  "isHelp arg \<longleftrightarrow> arg = ''-h'' \<or> arg = ''-help'' \<or> arg = ''--help'' \<or> arg = ''help''"

definition find_cmd :: "command list \<Rightarrow> string \<Rightarrow> command option" where
  "find_cmd cmds name = find (\<lambda>c. cmName c = name) cmds"

fun duplicates_loop :: "string list \<Rightarrow> command list \<Rightarrow> string option" where
  "duplicates_loop seen [] = None"
| "duplicates_loop seen (c # cs) = (if cmName c \<in> set seen then Some (cmName c) else duplicates_loop (cmName c # seen) cs)"

definition checkDuplicates :: "command list \<Rightarrow> string option" where
  "checkDuplicates cmds = duplicates_loop [] cmds"

text \<open>\<open>slices.Index(args, "--")\<close> splits the arguments; what follows is positional.\<close>

definition split_terminator :: "string list \<Rightarrow> string list \<times> string list" where
  "split_terminator args = (takeWhile (\<lambda>a. a \<noteq> ''--'') args, tl (dropWhile (\<lambda>a. a \<noteq> ''--'') args))"

function intersperse_loop ::
    "flag list \<Rightarrow> flag_values \<Rightarrow> string list \<Rightarrow> string list \<Rightarrow> (flag_err, flag_values \<times> string list) result" where
  "intersperse_loop fs vals positional args =
     (case Parse fs vals args of
        Err e \<Rightarrow> Err e
      | Ok (vals', []) \<Rightarrow> Ok (vals', positional)
      | Ok (vals', p # rest) \<Rightarrow> intersperse_loop fs vals' (positional @ [p]) rest)"
  by pat_completeness auto
termination
proof (relation "measure (\<lambda>(_, _, _, args). length args)", goal_cases)
  case (2 fs vals positional args r vals' ps p rest)
  have "Parse fs vals args = Ok (vals', p # rest)" using 2 by simp
  from Parse_not_longer[OF this] show ?case by simp
qed simp

declare intersperse_loop.simps [simp del]

definition parseInterspersed :: "flag list \<Rightarrow> string list \<Rightarrow> (flag_err, flag_values \<times> string list) result" where
  "parseInterspersed fs args =
     (let (args, terminated) = split_terminator args
      in case intersperse_loop fs [] [] args of
           Err e \<Rightarrow> Err e
         | Ok (vals, positional) \<Rightarrow> Ok (vals, positional @ terminated))"

section \<open>Suggestions\<close>

text \<open>
  One row of the table: \<open>prev\<close> holds the entries \<open>j - 1, j, \<dots>\<close> of the row above and \<open>left\<close> is the
  entry to the left.
\<close>

fun next_row :: "char \<Rightarrow> string \<Rightarrow> nat list \<Rightarrow> nat \<Rightarrow> nat list" where
  "next_row x (y # ys) (p # q # ps) left =
     (let v = min (min (q + 1) (left + 1)) (p + (if x = y then 0 else 1)) in v # next_row x ys (q # ps) v)"
| "next_row x _ _ _ = []"

fun distance_rows :: "nat \<Rightarrow> string \<Rightarrow> string \<Rightarrow> nat list \<Rightarrow> nat list" where
  "distance_rows i [] b prev = prev"
| "distance_rows i (x # xs) b prev = distance_rows (i + 1) xs b (i # next_row x b prev i)"

definition distance :: "string \<Rightarrow> string \<Rightarrow> nat" where
  "distance a b = distance_rows 1 a b [0..<length b + 1] ! length b"

fun closest_loop :: "string \<Rightarrow> (string \<times> nat) option \<Rightarrow> string list \<Rightarrow> (string \<times> nat) option" where
  "closest_loop name best [] = best"
| "closest_loop name best (c # cs) =
     (let d = distance name c
      in closest_loop name (case best of None \<Rightarrow> Some (c, d) | Some (b, bd) \<Rightarrow> if d < bd then Some (c, d) else Some (b, bd)) cs)"

definition suggestion_limit :: "string \<Rightarrow> nat" where
  "suggestion_limit name = max ((length name + 2) div 3) 1"

definition closest :: "string \<Rightarrow> string list \<Rightarrow> string option" where
  "closest name candidates =
     (case closest_loop name None candidates of
        None \<Rightarrow> None
      | Some (b, d) \<Rightarrow> if d > suggestion_limit name then None else Some b)"

definition unknownCommand :: "(string \<Rightarrow> string) \<Rightarrow> string \<Rightarrow> command list \<Rightarrow> string" where
  "unknownCommand quote name cmds =
     (let names = sort (map cmName cmds); nl = [CHR 0x0A]
      in ''fabrin: unknown command '' @ quote name @
         (case closest name names of None \<Rightarrow> [] | Some near \<Rightarrow> nl @ nl @ ''    Did you mean '' @ quote near @ ''?'') @
         nl @ nl @ ''    Available commands: '' @ Join '', '' names)"

section \<open>Usage and dispatch\<close>

text \<open>\<open>%-*s\<close>: padding on the right (the width counts runes; command names are ASCII).\<close>

definition pad_right :: "nat \<Rightarrow> string \<Rightarrow> string" where
  "pad_right n s = s @ replicate (n - length s) (CHR '' '')"

definition usage_text :: "command list \<Rightarrow> string" where
  "usage_text cmds =
     (let nl = [CHR 0x0A]; cs = sort_key cmName cmds; width = foldl max 0 (map (\<lambda>c. length (cmName c)) cs)
      in ''Usage:'' @ nl @ ''    <command> [flags] [arguments]'' @ nl @ nl @ ''Commands:'' @ nl @
         concat (map (\<lambda>c. ''    '' @ pad_right width (cmName c) @ ''  '' @ cmShort c @ nl) cs) @
         nl @ ''Run a command with -h to see its flags.'' @ nl)"

definition write_all :: "string \<Rightarrow> writer \<Rightarrow> writer \<times> dispatch_err option" where
  "write_all s out = (case Fprint s out of (out, ok) \<Rightarrow> (out, if ok then None else Some WriteError))"

definition usage :: "command list \<Rightarrow> writer \<Rightarrow> writer \<times> dispatch_err option" where
  "usage cmds out = write_all (usage_text cmds) out"

definition commandUsage :: "(flag list \<Rightarrow> string) \<Rightarrow> command \<Rightarrow> flag list \<Rightarrow> writer \<Rightarrow> writer \<times> dispatch_err option" where
  "commandUsage printDefaults cmd fs out =
     (let nl = [CHR 0x0A]
      in write_all
           (''Usage:'' @ nl @ ''    '' @ cmName cmd @ '' [flags] [arguments]'' @ nl @
            (if cmShort cmd \<noteq> [] then nl @ cmShort cmd @ nl else []) @
            (if fs \<noteq> [] then nl @ ''Flags:'' @ nl @ printDefaults fs else [])) out)"

definition Dispatch ::
    "(string \<Rightarrow> string) \<Rightarrow> (flag list \<Rightarrow> string) \<Rightarrow> command list \<Rightarrow> string list \<Rightarrow> writer \<Rightarrow> writer \<times> dispatch_err option" where
  "Dispatch quote printDefaults cmds args out =
     (case checkDuplicates cmds of
        Some n \<Rightarrow> (out, Some (DuplicateCommand n))
      | None \<Rightarrow>
          (case args of
             [] \<Rightarrow> usage cmds out
           | name # rest \<Rightarrow>
               if isHelp name then usage cmds out
               else (case find_cmd cmds name of
                       None \<Rightarrow> (out, Some (UnknownCommand (unknownCommand quote name cmds)))
                     | Some cmd \<Rightarrow>
                         (case cmRun cmd of
                            None \<Rightarrow> (out, Some (NoRun name))
                          | Some run \<Rightarrow>
                              (let fs = (case cmFlags cmd of None \<Rightarrow> [] | Some fs \<Rightarrow> fs)
                               in case parseInterspersed fs rest of
                                    Err ErrHelp \<Rightarrow> commandUsage printDefaults cmd fs out
                                  | Err e \<Rightarrow> (out, Some (FlagError name e))
                                  | Ok (vals, positional) \<Rightarrow>
                                      (case run vals out positional of (out, r) \<Rightarrow> (out, map_option RunError r)))))))"

end
