(* ===== verification/Cli_Correct.thy ===== *)
theory Cli_Correct
  imports Cli
begin

text \<open>
  Correctness of the package \<open>cli\<close>: the distance is the length of a shortest edit script, a suggestion
  is a nearest candidate within the limit, flags may stand anywhere among the positional arguments,
  and dispatch runs exactly the named command.
\<close>

section \<open>Edit distance\<close>

text \<open>\<open>edits n a b\<close>: \<open>n\<close> insertions, deletions and replacements turn \<open>a\<close> into \<open>b\<close>.\<close>

inductive edits :: "nat \<Rightarrow> string \<Rightarrow> string \<Rightarrow> bool" where
  edits_nil: "edits 0 [] []"
| edits_keep: "edits n a b \<Longrightarrow> edits n (x # a) (x # b)"
| edits_replace: "edits n a b \<Longrightarrow> edits (n + 1) (x # a) (y # b)"
| edits_delete: "edits n a b \<Longrightarrow> edits (n + 1) (x # a) b"
| edits_insert: "edits n a b \<Longrightarrow> edits (n + 1) a (y # b)"

inductive_cases edits_Cons_Cons: "edits n (x # a) (y # b)"
inductive_cases edits_Nil_left: "edits n [] b"
inductive_cases edits_Nil_right: "edits n a []"

lemma edits_append: "edits m a b \<Longrightarrow> edits n c d \<Longrightarrow> edits (m + n) (a @ c) (b @ d)"
proof (induction rule: edits.induct)
  case (edits_replace m a b x y)
  then show ?case using edits.edits_replace[of "m + n"] by simp
next
  case (edits_delete m a b x)
  then show ?case using edits.edits_delete[of "m + n"] by simp
next
  case (edits_insert m a b y)
  then show ?case using edits.edits_insert[of "m + n"] by simp
qed (auto intro: edits.intros)

lemma edits_singles: "edits 0 [x] [x]" "edits 1 [x] [y]" "edits 1 [x] []" "edits 1 [] [y]"
  using edits.intros(2)[OF edits_nil] edits.intros(3-5)[OF edits_nil] by simp_all

lemma edits_rev: "edits n a b \<Longrightarrow> edits n (rev a) (rev b)"
proof (induction rule: edits.induct)
  case (edits_keep n a b x)
  then show ?case using edits_append[OF _ edits_singles(1)] by fastforce
next
  case (edits_replace n a b x y)
  then show ?case using edits_append[OF edits_replace.IH edits_singles(2)[of x y]] by simp
next
  case (edits_delete n a b x)
  then show ?case using edits_append[OF edits_delete.IH edits_singles(3)[of x]] by simp
next
  case (edits_insert n a b y)
  then show ?case using edits_append[OF edits_insert.IH edits_singles(4)[of y]] by simp
qed (simp add: edits_nil)

text \<open>The recursive distance, on strings read from the end.\<close>

fun lev :: "string \<Rightarrow> string \<Rightarrow> nat" where
  "lev [] b = length b"
| "lev a [] = length a"
| "lev (x # a) (y # b) = min (min (lev a (y # b) + 1) (lev (x # a) b + 1)) (lev a b + (if x = y then 0 else 1))"

lemma lev_Nil_right [simp]: "lev a [] = length a"
  by (cases a) simp_all

lemma edits_all_insert: "edits (length b) [] b"
proof (induction b)
  case (Cons y b)
  then show ?case using edits_insert[of "length b" "[]" b y] by simp
qed (simp add: edits_nil)

lemma edits_all_delete: "edits (length a) a []"
proof (induction a)
  case (Cons x a)
  then show ?case using edits_delete[of "length a" a "[]" x] by simp
qed (simp add: edits_nil)

lemma lev_reachable: "edits (lev a b) a b"
proof (induction a b rule: lev.induct)
  case (3 x a y b)
  have c: "lev (x # a) (y # b) = lev a (y # b) + 1 \<or> lev (x # a) (y # b) = lev (x # a) b + 1 \<or>
      lev (x # a) (y # b) = lev a b + (if x = y then 0 else 1)" by (auto simp: min_def)
  then show ?case using 3 edits_delete[of "lev a (y # b)" a "y # b" x] edits_insert[of "lev (x # a) b" "x # a" b y]
      edits_keep[of "lev a b" a b x] edits_replace[of "lev a b" a b x y]
    by (auto split: if_splits)
next
  case (2 x a)
  then show ?case using edits_all_delete[of "x # a"] by simp
qed (simp add: edits_all_insert)

lemma lev_minimal: "edits n a b \<Longrightarrow> lev a b \<le> n"
proof (induction rule: edits.induct)
  case (edits_delete n a b x)
  then show ?case by (cases b) auto
next
  case (edits_insert n a b y)
  then show ?case by (cases a) auto
qed auto

text \<open>A row of the table holds the distances to the prefixes of \<open>b\<close>.\<close>

fun lev_row :: "string \<Rightarrow> string \<Rightarrow> string \<Rightarrow> nat list" where
  "lev_row r z [] = [lev r z]"
| "lev_row r z (y # ys) = lev r z # lev_row r (y # z) ys"

lemma lev_row_hd: "\<exists>ps. lev_row r z ys = lev r z # ps"
  by (cases ys) auto

lemma next_row_correct: "lev (x # r) z # next_row x ys (lev_row r z ys) (lev (x # r) z) = lev_row (x # r) z ys"
proof (induction ys arbitrary: z)
  case (Cons y ys)
  obtain ps where ps: "lev_row r (y # z) ys = lev r (y # z) # ps" using lev_row_hd by blast
  show ?case using Cons.IH[of "y # z"] by (simp add: ps Let_def)
qed simp

lemma distance_rows_correct:
  "distance_rows (length r + 1) a b (lev_row r [] b) = lev_row (rev a @ r) [] b"
proof (induction a arbitrary: r)
  case (Cons x a)
  have "(length r + 1) # next_row x b (lev_row r [] b) (length r + 1) = lev_row (x # r) [] b"
    using next_row_correct[of x r "[]" b] by simp
  then show ?case using Cons.IH[of "x # r"] by simp
qed simp

lemma lev_row_last: "lev_row r z ys ! length ys = lev r (rev ys @ z)"
  by (induction ys arbitrary: z) simp_all

lemma lev_row_first: "lev_row [] z ys = [length z..<length z + length ys + 1]"
  by (induction ys arbitrary: z) (simp_all add: upt_conv_Cons del: upt_Suc)

lemma distance_lev: "distance a b = lev (rev a) (rev b)"
  using distance_rows_correct[of "[]" a b] lev_row_first[of "[]" b] lev_row_last[of "rev a" "[]" b]
  by (simp add: distance_def)

lemma edits_rev_iff: "edits n (rev a) (rev b) \<longleftrightarrow> edits n a b"
  using edits_rev[of n a b] edits_rev[of n "rev a" "rev b"] by auto

text \<open>C20: The two-row table of \<open>distance\<close> computes the Levenshtein distance: some sequence of that many
  insertions, deletions and replacements turns the first string into the second, and no shorter one
  does.\<close>

theorem distance_is_shortest_edit:
  "edits (distance a b) a b \<and> (\<forall>n. edits n a b \<longrightarrow> distance a b \<le> n)"
  using lev_reachable[of "rev a" "rev b"] lev_minimal[of _ "rev a" "rev b"]
  by (simp add: distance_lev edits_rev_iff)

theorem distance_is_shortest_edit_witness:
  "distance ''migarte'' ''migrate'' = 2 \<and> edits 2 ''migarte'' ''migrate''"
proof -
  have d: "distance ''migarte'' ''migrate'' = 2" by code_simp
  then show ?thesis using distance_is_shortest_edit[of "''migarte''" "''migrate''"] by simp
qed

section \<open>Suggestions\<close>

definition better :: "string \<Rightarrow> string \<Rightarrow> (string \<times> nat) option \<Rightarrow> (string \<times> nat) option" where
  "better name c best =
     (case best of None \<Rightarrow> Some (c, distance name c)
      | Some (b, bd) \<Rightarrow> if distance name c < bd then Some (c, distance name c) else Some (b, bd))"

lemma closest_loop_step: "closest_loop name best (c # cs) = closest_loop name (better name c best) cs"
  by (simp add: better_def Let_def)

lemma closest_loop_None: "closest_loop name best cs = None \<longleftrightarrow> best = None \<and> cs = []"
proof (induction cs arbitrary: best)
  case (Cons c cs)
  have "better name c best \<noteq> None" by (auto simp: better_def split: option.splits)
  then show ?case unfolding closest_loop_step Cons.IH by simp
qed simp

lemma closest_loop_min:
  assumes "closest_loop name best cs = Some (c, d)" "\<forall>b e. best = Some (b, e) \<longrightarrow> e = distance name b"
  shows "d = distance name c \<and> (c \<in> set cs \<or> best = Some (c, d)) \<and> (\<forall>x \<in> set cs. d \<le> distance name x) \<and>
      (\<forall>b e. best = Some (b, e) \<longrightarrow> d \<le> e)"
  using assms
proof (induction cs arbitrary: best)
  case (Cons x cs)
  have "better name x best \<noteq> None" by (auto simp: better_def split: option.splits)
  then obtain b e where be: "better name x best = Some (b, e)" by auto
  have b: "e = distance name b" "e \<le> distance name x" "best = Some (b, e) \<or> b = x"
    "\<forall>b' e'. best = Some (b', e') \<longrightarrow> e \<le> e'"
    using be Cons.prems(2) by (auto simp: better_def split: option.splits if_splits)
  have "d = distance name c \<and> (c \<in> set cs \<or> Some (b, e) = Some (c, d)) \<and> (\<forall>x \<in> set cs. d \<le> distance name x) \<and> d \<le> e"
    using Cons.IH[OF Cons.prems(1)[unfolded closest_loop_step]] be b(1) by auto
  then show ?case using b by (auto intro: order_trans)
qed auto

text \<open>A suggestion is one of the candidates, no candidate is nearer, and it is within the limit; there is
  none exactly when every candidate is beyond the limit.\<close>

lemma closest_correct:
  "closest name cs = Some c \<Longrightarrow> c \<in> set cs \<and> (\<forall>x \<in> set cs. distance name c \<le> distance name x) \<and> distance name c \<le> suggestion_limit name"
  "closest name cs = None \<longleftrightarrow> (\<forall>x \<in> set cs. suggestion_limit name < distance name x)"
proof -
  note m = closest_loop_None[of name None cs, simplified] closest_loop_min[of name None cs, simplified]
  show "closest name cs = Some c \<Longrightarrow> c \<in> set cs \<and> (\<forall>x \<in> set cs. distance name c \<le> distance name x) \<and> distance name c \<le> suggestion_limit name"
    using m(2) by (auto simp: closest_def split: option.splits if_splits)
  show "closest name cs = None \<longleftrightarrow> (\<forall>x \<in> set cs. suggestion_limit name < distance name x)"
  proof (cases "closest_loop name None cs")
    case None
    then show ?thesis using m(1) by (simp add: closest_def)
  next
    case (Some r)
    obtain b d where r: "r = (b, d)" by (cases r)
    note mm = m(2)[OF Some[unfolded r]]
    show ?thesis using mm Some r by (auto simp: closest_def dest: leD intro: less_le_trans)
  qed
qed

section \<open>Interspersed flags\<close>

text \<open>A command line as the user means it: flags with their values, switches and positional arguments.\<close>

datatype token =
    Assign flag string
  | Separate flag string
  | Switch flag
  | Positional string

fun render :: "token \<Rightarrow> string list" where
  "render (Assign f v) = [''-'' @ fgName f @ ''='' @ v]"
| "render (Separate f v) = [''-'' @ fgName f, v]"
| "render (Switch f) = [''-'' @ fgName f]"
| "render (Positional p) = [p]"

fun token_value :: "token \<Rightarrow> flag_values" where
  "token_value (Assign f v) = [(fgName f, v)]"
| "token_value (Separate f v) = [(fgName f, v)]"
| "token_value (Switch f) = [(fgName f, ''true'')]"
| "token_value (Positional p) = []"

fun token_positional :: "token \<Rightarrow> string list" where
  "token_positional (Positional p) = [p]"
| "token_positional _ = []"

definition flag_ok :: "flag list \<Rightarrow> flag \<Rightarrow> bool" where
  "flag_ok fs f \<longleftrightarrow> find_flag fs (fgName f) = Some f \<and> fgName f \<noteq> [] \<and> hd (fgName f) \<noteq> CHR ''-'' \<and> CHR ''='' \<notin> set (fgName f)"

fun token_ok :: "flag list \<Rightarrow> token \<Rightarrow> bool" where
  "token_ok fs (Assign f v) = (flag_ok fs f \<and> fgSet f v = None)"
| "token_ok fs (Separate f v) = (flag_ok fs f \<and> fgSet f v = None \<and> \<not> fgBool f \<and> v \<noteq> ''--'')"
| "token_ok fs (Switch f) = (flag_ok fs f \<and> fgSet f ''true'' = None \<and> fgBool f)"
| "token_ok fs (Positional p) = (length p < 2 \<or> hd p \<noteq> CHR ''-'')"

lemma flag_ok_name:
  assumes "flag_ok fs f"
  obtains c n where "fgName f = c # n" "c \<noteq> CHR ''-''" "c \<noteq> CHR ''=''" "CHR ''='' \<notin> set n"
  using assms by (cases "fgName f") (auto simp: flag_ok_def)

lemma Cut_eq_char: "CHR ''='' \<notin> set n \<Longrightarrow> Cut (CHR ''='') (n @ CHR ''='' # v) = (n, v, True)"
  by simp

lemma parseOne_flag:
  assumes "flag_ok fs f"
  shows "fgSet f v = None \<Longrightarrow> parseOne fs vals ((''-'' @ fgName f @ ''='' @ v) # rest) = Ok (vals @ [(fgName f, v)], rest, True)"
    and "fgSet f v = None \<Longrightarrow> \<not> fgBool f \<Longrightarrow> parseOne fs vals ((''-'' @ fgName f) # v # rest) = Ok (vals @ [(fgName f, v)], rest, True)"
    and "fgSet f ''true'' = None \<Longrightarrow> fgBool f \<Longrightarrow> parseOne fs vals ((''-'' @ fgName f) # rest) = Ok (vals @ [(fgName f, ''true'')], rest, True)"
proof -
  obtain c n where n: "fgName f = c # n" "c \<noteq> CHR ''-''" "c \<noteq> CHR ''=''" "CHR ''='' \<notin> set n" by (rule flag_ok_name[OF assms])
  have ff: "find_flag fs (c # n) = Some f" using assms n(1) by (simp add: flag_ok_def)
  have c1: "Cut (CHR ''='') (c # n @ CHR ''='' # v) = (c # n, v, True)" using Cut_eq_char[of "c # n" v] n(3,4) by simp
  have c2: "Cut (CHR ''='') (c # n) = (c # n, [], False)" using n(3,4) by (simp add: Cut_absent)
  show "fgSet f v = None \<Longrightarrow> parseOne fs vals ((''-'' @ fgName f @ ''='' @ v) # rest) = Ok (vals @ [(fgName f, v)], rest, True)"
    using n(2,3) by (simp add: parseOne_def n(1) c1 parse_named_def ff set_flag_def del: Cut.simps)
  show "fgSet f v = None \<Longrightarrow> \<not> fgBool f \<Longrightarrow> parseOne fs vals ((''-'' @ fgName f) # v # rest) = Ok (vals @ [(fgName f, v)], rest, True)"
    using n(2,3) by (simp add: parseOne_def n(1) c2 parse_named_def ff set_flag_def del: Cut.simps)
  show "fgSet f ''true'' = None \<Longrightarrow> fgBool f \<Longrightarrow> parseOne fs vals ((''-'' @ fgName f) # rest) = Ok (vals @ [(fgName f, ''true'')], rest, True)"
    using n(2,3) by (simp add: parseOne_def n(1) c2 parse_named_def ff set_flag_def del: Cut.simps)
qed

lemma intersperse_flag:
  "parseOne fs vals args = Ok (vals', args', True) \<Longrightarrow>
     intersperse_loop fs vals pos args = intersperse_loop fs vals' pos args'"
  by (subst (1 2) intersperse_loop.simps) (simp add: Parse.simps[of fs vals args])

lemma intersperse_positional:
  "length p < 2 \<or> hd p \<noteq> CHR ''-'' \<Longrightarrow> intersperse_loop fs vals pos (p # args) = intersperse_loop fs vals (pos @ [p]) args"
  by (subst intersperse_loop.simps) (auto simp: Parse.simps[of fs vals "p # args"] parseOne_def)

lemma intersperse_tokens:
  "list_all (token_ok fs) ts \<Longrightarrow>
     intersperse_loop fs vals pos (concat (map render ts)) =
     Ok (vals @ concat (map token_value ts), pos @ concat (map token_positional ts))"
proof (induction ts arbitrary: vals pos)
  case Nil
  show ?case by (subst intersperse_loop.simps) (simp add: Parse.simps[of fs vals "[]"] parseOne_def)
next
  case (Cons tk ts)
  have ok: "token_ok fs tk" "list_all (token_ok fs) ts" using Cons.prems by simp_all
  show ?case
  proof (cases tk)
    case (Assign f v)
    then show ?thesis
      using ok Cons.IH[OF ok(2)] intersperse_flag[OF parseOne_flag(1)[of fs f v vals "concat (map render ts)"], of pos] by simp
  next
    case (Separate f v)
    then show ?thesis
      using ok Cons.IH[OF ok(2)] intersperse_flag[OF parseOne_flag(2)[of fs f v vals "concat (map render ts)"], of pos] by simp
  next
    case (Switch f)
    then show ?thesis
      using ok Cons.IH[OF ok(2)] intersperse_flag[OF parseOne_flag(3)[of fs f vals "concat (map render ts)"], of pos] by simp
  next
    case (Positional p)
    then show ?thesis using ok Cons.IH[OF ok(2)] intersperse_positional[of p fs vals pos] by simp
  qed
qed

lemma rendered_not_terminator: "token_ok fs tk \<Longrightarrow> a \<in> set (render tk) \<Longrightarrow> a \<noteq> ''--''"
  by (cases tk) (auto elim!: flag_ok_name)

lemma split_rendered:
  assumes "list_all (token_ok fs) ts"
  shows "split_terminator (concat (map render ts)) = (concat (map render ts), [])"
    and "split_terminator (concat (map render ts) @ ''--'' # rest) = (concat (map render ts), rest)"
proof -
  have no: "\<forall>a \<in> set (concat (map render ts)). a \<noteq> ''--''"
    using assms rendered_not_terminator by (fastforce simp: list_all_iff)
  then have t: "takeWhile (\<lambda>a. a \<noteq> ''--'') (concat (map render ts)) = concat (map render ts)"
    and d: "dropWhile (\<lambda>a. a \<noteq> ''--'') (concat (map render ts)) = []"
    by (simp_all only: takeWhile_eq_all_conv dropWhile_eq_Nil_conv)
  show "split_terminator (concat (map render ts)) = (concat (map render ts), [])"
    unfolding split_terminator_def t d by simp
  have "takeWhile (\<lambda>a. a \<noteq> ''--'') (concat (map render ts) @ ''--'' # rest) = concat (map render ts)"
    using no by (subst takeWhile_append2) auto
  moreover have "dropWhile (\<lambda>a. a \<noteq> ''--'') (concat (map render ts) @ ''--'' # rest) = ''--'' # rest"
    using no by (subst dropWhile_append2) auto
  ultimately show "split_terminator (concat (map render ts) @ ''--'' # rest) = (concat (map render ts), rest)"
    by (simp add: split_terminator_def)
qed

text \<open>Flags may stand anywhere among the positional arguments. For every command line of defined flags
  with acceptable values, in any of the three spellings, and positional arguments, in any order,
  \<open>parseInterspersed\<close> returns exactly the flag values in the order given and exactly the positional
  arguments in the order given; what follows a bare \<open>--\<close> is positional and is not parsed.\<close>

theorem parseInterspersed_correct:
  assumes "list_all (token_ok fs) ts"
  shows "parseInterspersed fs (concat (map render ts)) =
      Ok (concat (map token_value ts), concat (map token_positional ts)) \<and>
    parseInterspersed fs (concat (map render ts) @ ''--'' # rest) =
      Ok (concat (map token_value ts), concat (map token_positional ts) @ rest)"
  unfolding parseInterspersed_def split_rendered[OF assms] Let_def prod.case intersperse_tokens[OF assms]
  by simp

definition ex_flags :: "flag list" where
  "ex_flags = [\<lparr>fgName = ''module'', fgBool = False, fgSet = (\<lambda>_. None)\<rparr>, \<lparr>fgName = ''force'', fgBool = True, fgSet = (\<lambda>_. None)\<rparr>]"

theorem parseInterspersed_correct_witness:
  "parseInterspersed ex_flags ([''demo'', ''-module'', ''example.com/demo'', ''-force'', ''extra''] @ ''--'' # [''-weird'']) =
     Ok ([(''module'', ''example.com/demo''), (''force'', ''true'')], [''demo'', ''extra'', ''-weird''])"
proof -
  let ?m = "ex_flags ! 0" and ?f = "ex_flags ! 1"
  have "list_all (token_ok ex_flags) [Positional ''demo'', Separate ?m ''example.com/demo'', Switch ?f, Positional ''extra'']"
    by (simp add: ex_flags_def flag_ok_def find_flag_def)
  from parseInterspersed_correct[OF this, of "[''-weird'']"] show ?thesis by (simp add: ex_flags_def)
qed

section \<open>Dispatch\<close>

lemma duplicates_loop_None: "duplicates_loop seen cs = None \<longleftrightarrow> distinct (map cmName cs) \<and> set seen \<inter> set (map cmName cs) = {}"
  by (induction cs arbitrary: seen) auto

text \<open>Dispatch of a command line reaches \<open>Run\<close> of the named command with the parsed values, and of no other.\<close>

lemma Dispatch_runs_named:
  assumes "distinct (map cmName cmds)" "cmd \<in> set cmds" "\<not> isHelp (cmName cmd)" "cmRun cmd = Some run"
    and "parseInterspersed (case cmFlags cmd of None \<Rightarrow> [] | Some fs \<Rightarrow> fs) rest = Ok (vals, pos)"
  shows "Dispatch quote pd cmds (cmName cmd # rest) out = (case run vals out pos of (out, r) \<Rightarrow> (out, map_option RunError r))"
proof -
  have "find_cmd cmds (cmName cmd) = Some cmd"
    unfolding find_cmd_def using assms(1,2)
    by (induction cmds) (auto simp: image_iff)
  moreover have "checkDuplicates cmds = None" using assms(1) by (simp add: checkDuplicates_def duplicates_loop_None)
  ultimately show ?thesis using assms(3-5) by (simp add: Dispatch_def Let_def)
qed

text \<open>A name that no command has never runs anything: it is an error that leaves the writer alone.\<close>

lemma Dispatch_unknown:
  assumes "distinct (map cmName cmds)" "name \<notin> set (map cmName cmds)" "\<not> isHelp name"
  shows "Dispatch quote pd cmds (name # rest) out = (out, Some (UnknownCommand (unknownCommand quote name cmds)))"
proof -
  have "find_cmd cmds name = None" using assms(2) by (auto simp: find_cmd_def find_None_iff)
  moreover have "checkDuplicates cmds = None" using assms(1) by (simp add: checkDuplicates_def duplicates_loop_None)
  ultimately show ?thesis using assms(3) by (simp add: Dispatch_def)
qed

end
