(* ===== verification/Config.thy ===== *)
theory Config
  imports Cli
begin

text \<open>
  The package \<open>config\<close>: settings files (config/dotenv.go), the layers of settings and their resolution
  (config/config.go), the options and their defaults (config/options.go).

  The process environment, the arguments and the file system are inputs: a path is absent, cannot be
  opened, or holds bytes that may end in a read error. \<open>time.ParseDuration\<close> and the rune count that
  \<open>fmt\<close> pads by are parameters.
\<close>

section \<open>Settings files\<close>

text \<open>
  \<open>bufio.Scanner\<close> with its default split function: lines without their end marker, a final line that
  need not end in one, and a failure at a line that does not fit its buffer of 64 KiB.
\<close>

definition maxScanTokenSize :: nat where
  "maxScanTokenSize = 64 * 1024"

definition dropCR :: "string \<Rightarrow> string" where
  "dropCR s = (if s \<noteq> [] \<and> last s = CHR 0x0D then butlast s else s)"

lemma Cut_shorter: "d \<noteq> [] \<Longrightarrow> Cut c d = (a, b, f) \<Longrightarrow> length b < length d"
  by (cases f) (auto dest: Cut_foundD Cut_not_found)

function scan_lines :: "string \<Rightarrow> string list \<times> bool" where
  "scan_lines d =
     (if d = [] then ([], False)
      else
        (case Cut (CHR 0x0A) d of
           (a, b, _) \<Rightarrow>
             if length a \<ge> maxScanTokenSize then ([], True)
             else (case scan_lines b of (ls, tooLong) \<Rightarrow> (dropCR a # ls, tooLong))))"
  by pat_completeness auto
termination
  by (relation "measure length") (auto intro: Cut_shorter[OF _ sym])

declare scan_lines.simps [simp del]

datatype line_err =
    NoEquals nat string
  | EmptyKey nat
  | TokenTooLong
  | ReadFailed string

definition stripQuotes :: "string \<Rightarrow> string \<times> bool" where
  "stripQuotes s =
     (if length s < 2 then (s, False)
      else
        (let first = hd s; last = last s
         in if first \<noteq> last then (s, False)
            else if first \<noteq> CHR 0x22 \<and> first \<noteq> CHR 0x27 then (s, False)
            else (butlast (tl s), True)))"

definition dotenv_value :: "string \<Rightarrow> string" where
  "dotenv_value val =
     (let val = TrimSpace val
      in case stripQuotes val of
           (unquoted, True) \<Rightarrow> unquoted
         | (_, False) \<Rightarrow>
             if CHR ''#'' \<in> set val then TrimSpace (takeWhile (\<lambda>c. c \<noteq> CHR ''#'') val) else val)"

text \<open>One line: nothing, or a key with its value.\<close>

definition dotenv_line :: "nat \<Rightarrow> string \<Rightarrow> (line_err, (string \<times> string) option) result" where
  "dotenv_line lineNo raw =
     (let line = TrimSpace raw
      in if line = [] \<or> HasPrefix line ''#'' then Ok None
         else
           (let line = TrimPrefix line ''export ''
            in case Cut (CHR ''='') line of
                 (key, val, found) \<Rightarrow>
                   if \<not> found then Err (NoEquals lineNo raw)
                   else
                     (let key = TrimSpace key
                      in if key = [] then Err (EmptyKey lineNo) else Ok (Some (key, dotenv_value val)))))"

fun dotenv_loop :: "nat \<Rightarrow> (string, string) gomap \<Rightarrow> string list \<Rightarrow> (line_err, (string, string) gomap) result" where
  "dotenv_loop lineNo out [] = Ok out"
| "dotenv_loop lineNo out (l # ls) =
     (case dotenv_line lineNo l of
        Err e \<Rightarrow> Err e
      | Ok None \<Rightarrow> dotenv_loop (lineNo + 1) out ls
      | Ok (Some (k, v)) \<Rightarrow> dotenv_loop (lineNo + 1) (gm_set k v out) ls)"

text \<open>The reader is its bytes and the error it ends in, if it does not end in \<open>io.EOF\<close>.\<close>

definition parseDotenv :: "string \<Rightarrow> string option \<Rightarrow> (line_err, (string, string) gomap) result" where
  "parseDotenv content readErr =
     (case scan_lines content of
        (ls, tooLong) \<Rightarrow>
          (case dotenv_loop 1 [] ls of
             Err e \<Rightarrow> Err e
           | Ok out \<Rightarrow>
               if tooLong then Err TokenTooLong
               else (case readErr of Some e \<Rightarrow> Err (ReadFailed e) | None \<Rightarrow> Ok out)))"

section \<open>Options\<close>

definition DefaultAddr :: string where "DefaultAddr = '':8080''"
definition DefaultShutdownTimeout :: duration where "DefaultShutdownTimeout = 15 * Second"
definition DefaultReadHeaderTimeout :: duration where "DefaultReadHeaderTimeout = 10 * Second"
definition DefaultLogFormat :: string where "DefaultLogFormat = ''json''"
definition DefaultLogLevel :: string where "DefaultLogLevel = ''info''"

text \<open>The logger and the database are handles the program passes in; no layer of settings sets them.\<close>

record options =
  oAddr :: string
  oModules :: "string list"
  oDebug :: bool
  oLogger :: "nat option"
  oLogFormat :: string
  oLogLevel :: string
  oShutdownTimeout :: duration
  oReadHeaderTimeout :: duration
  oTrustedProxies :: "string list"
  oDB :: "nat option"

definition zeroOptions :: options where
  "zeroOptions =
     \<lparr>oAddr = [], oModules = [], oDebug = False, oLogger = None, oLogFormat = [], oLogLevel = [],
      oShutdownTimeout = 0, oReadHeaderTimeout = 0, oTrustedProxies = [], oDB = None\<rparr>"

definition WithDefaults :: "options \<Rightarrow> options" where
  "WithDefaults opt =
     opt\<lparr>oAddr := (if oAddr opt = [] then DefaultAddr else oAddr opt),
       oLogFormat := (if oLogFormat opt = [] then DefaultLogFormat else oLogFormat opt),
       oLogLevel := (if oLogLevel opt = [] then DefaultLogLevel else oLogLevel opt),
       oShutdownTimeout := (if oShutdownTimeout opt = 0 then DefaultShutdownTimeout else oShutdownTimeout opt),
       oReadHeaderTimeout := (if oReadHeaderTimeout opt = 0 then DefaultReadHeaderTimeout else oReadHeaderTimeout opt)\<rparr>"

section \<open>Keys and sources\<close>

definition keyPrefix :: string where "keyPrefix = ''FABRIN_''"
definition KeyAddr :: string where "KeyAddr = ''FABRIN_ADDR''"
definition KeyModules :: string where "KeyModules = ''FABRIN_MODULES''"
definition KeyDebug :: string where "KeyDebug = ''FABRIN_DEBUG''"
definition KeyLogFormat :: string where "KeyLogFormat = ''FABRIN_LOG_FORMAT''"
definition KeyLogLevel :: string where "KeyLogLevel = ''FABRIN_LOG_LEVEL''"
definition KeyShutdownTimeout :: string where "KeyShutdownTimeout = ''FABRIN_SHUTDOWN_TIMEOUT''"
definition KeyReadHeaderTimeout :: string where "KeyReadHeaderTimeout = ''FABRIN_READ_HEADER_TIMEOUT''"
definition KeyTrustedProxies :: string where "KeyTrustedProxies = ''FABRIN_TRUSTED_PROXIES''"

lemmas key_defs = KeyAddr_def KeyModules_def KeyDebug_def KeyLogFormat_def KeyLogLevel_def
  KeyShutdownTimeout_def KeyReadHeaderTimeout_def KeyTrustedProxies_def

definition knownKeys :: "string list" where
  "knownKeys =
     [KeyAddr, KeyModules, KeyDebug, KeyLogFormat, KeyLogLevel,
      KeyShutdownTimeout, KeyReadHeaderTimeout, KeyTrustedProxies]"

datatype config_err =
    ErrInvalidValue string string string string
  | ErrUnknownKey string string string
  | ErrBadFile_open string string
  | ErrBadFile_parse string line_err
  | ErrNoSources
  | ErrParseFlags flag_err

datatype file_state =
    NotExist string
  | OpenFails string
  | Content string "string option"

type_synonym filesystem = "string \<Rightarrow> file_state"

datatype source =
    DefaultsSource
  | EnvSource "(string, string) gomap"
  | FileSource string bool
  | FlagSource "string list"

definition OSEnv :: "string list \<Rightarrow> (string, string) gomap" where
  "OSEnv environ = foldl (\<lambda>out kv. case Cut (CHR ''='') kv of (k, v, ok) \<Rightarrow> if ok then gm_set k v out else out) [] environ"

definition FromEnv :: "string list \<Rightarrow> (string, string) gomap option \<Rightarrow> source" where
  "FromEnv environ lookup = EnvSource (case lookup of None \<Rightarrow> OSEnv environ | Some m \<Rightarrow> m)"

definition FromFile :: "string \<Rightarrow> source" where
  "FromFile path = FileSource path False"

definition FromRequiredFile :: "string \<Rightarrow> source" where
  "FromRequiredFile path = FileSource path True"

definition FromFlags :: "string list \<Rightarrow> source" where
  "FromFlags args = FlagSource args"

definition Defaults :: source where
  "Defaults = DefaultsSource"

definition Standard :: "string list \<Rightarrow> string list \<Rightarrow> source list" where
  "Standard environ args = [FromFile ''.env'', FromEnv environ None, FromFlags args]"

fun source_name :: "source \<Rightarrow> string" where
  "source_name DefaultsSource = ''defaults''"
| "source_name (EnvSource _) = ''env''"
| "source_name (FileSource path _) = ''file '' @ path"
| "source_name (FlagSource _) = ''flag''"

definition prefixed :: "(string, string) gomap \<Rightarrow> (string, string) gomap" where
  "prefixed m = filter (\<lambda>(k, _). HasPrefix k keyPrefix) m"

text \<open>\<open>strconv.ParseBool\<close>, and the boolean flag value of the package \<open>flag\<close>.\<close>

definition ParseBool :: "string \<Rightarrow> bool option" where
  "ParseBool s =
     (if s \<in> {''1'', ''t'', ''T'', ''TRUE'', ''true'', ''True''} then Some True
      else if s \<in> {''0'', ''f'', ''F'', ''FALSE'', ''false'', ''False''} then Some False
      else None)"

definition FormatBool :: "bool \<Rightarrow> string" where
  "FormatBool b = (if b then ''true'' else ''false'')"

definition byFlag :: "(string \<times> string) list" where
  "byFlag =
     [(''addr'', KeyAddr), (''debug'', KeyDebug), (''log-format'', KeyLogFormat), (''log-level'', KeyLogLevel),
      (''modules'', KeyModules), (''read-header-timeout'', KeyReadHeaderTimeout),
      (''shutdown-timeout'', KeyShutdownTimeout), (''trusted-proxies'', KeyTrustedProxies)]"

definition config_flag :: "string \<times> string \<Rightarrow> flag" where
  "config_flag nk =
     (if snd nk = KeyDebug
      then \<lparr>fgName = fst nk, fgBool = True, fgSet = (\<lambda>v. if ParseBool v = None then Some ''parse error'' else None)\<rparr>
      else \<lparr>fgName = fst nk, fgBool = False, fgSet = (\<lambda>v. None)\<rparr>)"

definition config_flags :: "flag list" where
  "config_flags = map config_flag byFlag"

text \<open>
  \<open>FlagSet.Parse\<close> together with the flags it had set when it stopped, which \<open>FlagSet.Visit\<close> walks
  also after an error.
\<close>

function ParseVisit :: "flag list \<Rightarrow> flag_values \<Rightarrow> string list \<Rightarrow> flag_values \<times> (flag_err, string list) result" where
  "ParseVisit fs vals args =
     (case parseOne fs vals args of
        Err e \<Rightarrow> (vals, Err e)
      | Ok (vals', args', seen) \<Rightarrow> if seen then ParseVisit fs vals' args' else (vals', Ok args'))"
  by pat_completeness auto
termination
  by (relation "measure (\<lambda>(_, _, args). length args)") (auto dest: parseOne_shorter)

declare ParseVisit.simps [simp del]

definition flag_value_string :: "string \<Rightarrow> string \<Rightarrow> string" where
  "flag_value_string name v =
     (if name = ''debug'' then (case ParseBool v of Some b \<Rightarrow> FormatBool b | None \<Rightarrow> v) else v)"

definition visit_settings :: "flag_values \<Rightarrow> (string, string) gomap" where
  "visit_settings vals =
     foldl (\<lambda>out (name, v).
       (case map_of byFlag name of None \<Rightarrow> out | Some k \<Rightarrow> gm_set k (flag_value_string name v) out)) [] vals"

definition flag_settings :: "string list \<Rightarrow> (config_err, (string, string) gomap) result" where
  "flag_settings args =
     (case ParseVisit config_flags [] args of
        (vals, r) \<Rightarrow>
          (case r of
             Err e \<Rightarrow> if e = ErrHelp then Ok (visit_settings vals) else Err (ErrParseFlags e)
           | Ok _ \<Rightarrow> Ok (visit_settings vals)))"

definition file_settings :: "filesystem \<Rightarrow> string \<Rightarrow> bool \<Rightarrow> (config_err, (string, string) gomap) result" where
  "file_settings fsys path required =
     (case fsys path of
        NotExist e \<Rightarrow> if required then Err (ErrBadFile_open path e) else Ok []
      | OpenFails e \<Rightarrow> Err (ErrBadFile_open path e)
      | Content d readErr \<Rightarrow>
          (case parseDotenv d readErr of
             Err e \<Rightarrow> Err (ErrBadFile_parse path e)
           | Ok kv \<Rightarrow> Ok (prefixed kv)))"

fun source_values :: "filesystem \<Rightarrow> source \<Rightarrow> (config_err, (string, string) gomap) result" where
  "source_values fsys DefaultsSource = Ok []"
| "source_values fsys (EnvSource m) = Ok (prefixed m)"
| "source_values fsys (FileSource path required) = file_settings fsys path required"
| "source_values fsys (FlagSource args) = flag_settings args"

section \<open>Resolution\<close>

record resolved =
  rsValues :: "(string, string) gomap"
  rsSources :: "(string, string) gomap"

definition Get :: "resolved \<Rightarrow> string \<Rightarrow> string option" where
  "Get r key = map_of (rsValues r) key"

definition SourceOf :: "resolved \<Rightarrow> string \<Rightarrow> string" where
  "SourceOf r key =
     (case map_of (rsSources r) key of
        Some s \<Rightarrow> s
      | None \<Rightarrow> if key \<in> set knownKeys then ''default'' else [])"

definition pad_runes :: "(string \<Rightarrow> nat) \<Rightarrow> nat \<Rightarrow> string \<Rightarrow> string" where
  "pad_runes runes n s = s @ replicate (n - runes s) (CHR '' '')"

definition Resolved_String :: "(string \<Rightarrow> nat) \<Rightarrow> resolved \<Rightarrow> string" where
  "Resolved_String runes r =
     concat (map (\<lambda>k.
       pad_runes runes 28 k @ '' '' @
       pad_runes runes 24 (case Get r k of None \<Rightarrow> ''(default)'' | Some v \<Rightarrow> v) @ '' ['' @ SourceOf r k @ '']'' @ [CHR 0x0A])
       (sort knownKeys))"

fun commonPrefixLen :: "string \<Rightarrow> string \<Rightarrow> nat" where
  "commonPrefixLen (a # as) (b # bs) = (if a \<noteq> b then 0 else Suc (commonPrefixLen as bs))"
| "commonPrefixLen _ _ = 0"

definition suggest_best :: "string \<Rightarrow> string \<times> nat" where
  "suggest_best key =
     foldl (\<lambda>(best, score) k. let n = commonPrefixLen k key in if n > score then (k, n) else (best, score)) ([], 0) knownKeys"

definition suggest :: "string \<Rightarrow> string" where
  "suggest key =
     (case suggest_best key of
        (best, score) \<Rightarrow>
          if best = [] \<or> score \<le> length keyPrefix then [] else '', did you mean '' @ best @ ''?'')"

fun resolve_keys ::
    "string \<Rightarrow> (string, string) gomap \<Rightarrow> string list \<Rightarrow> resolved \<Rightarrow> (config_err, resolved) result" where
  "resolve_keys name vals [] res = Ok res"
| "resolve_keys name vals (k # ks) res =
     (if k \<notin> set knownKeys then Err (ErrUnknownKey k name (suggest k))
      else resolve_keys name vals ks
             \<lparr>rsValues = gm_set k (the (map_of vals k)) (rsValues res), rsSources = gm_set k name (rsSources res)\<rparr>)"

fun resolve_sources :: "filesystem \<Rightarrow> source list \<Rightarrow> resolved \<Rightarrow> (config_err, resolved) result" where
  "resolve_sources fsys [] res = Ok res"
| "resolve_sources fsys (src # srcs) res =
     (case source_values fsys src of
        Err e \<Rightarrow> Err e
      | Ok vals \<Rightarrow>
          (case resolve_keys (source_name src) vals (sort (map fst vals)) res of
             Err e \<Rightarrow> Err e
           | Ok res \<Rightarrow> resolve_sources fsys srcs res))"

definition Resolve :: "filesystem \<Rightarrow> source list \<Rightarrow> (config_err, resolved) result" where
  "Resolve fsys sources =
     (if sources = [] then Err ErrNoSources else resolve_sources fsys sources \<lparr>rsValues = [], rsSources = []\<rparr>)"

section \<open>Loading\<close>

definition splitList :: "string \<Rightarrow> string list" where
  "splitList s = filter (\<lambda>part. part \<noteq> []) (map TrimSpace (Split (CHR '','') s))"

definition invalid :: "resolved \<Rightarrow> string \<Rightarrow> string \<Rightarrow> string \<Rightarrow> (config_err, 'a) result" where
  "invalid res key val want = Err (ErrInvalidValue key val (SourceOf res key) want)"

definition load_debug :: "resolved \<Rightarrow> options \<Rightarrow> (config_err, options) result" where
  "load_debug res opt =
     (case Get res KeyDebug of
        None \<Rightarrow> Ok opt
      | Some v \<Rightarrow>
          (case ParseBool v of
             None \<Rightarrow> invalid res KeyDebug v ''a boolean (true, false, 1, 0)''
           | Some b \<Rightarrow> Ok (opt\<lparr>oDebug := b\<rparr>)))"

definition load_duration ::
    "(string \<Rightarrow> duration option) \<Rightarrow> resolved \<Rightarrow> string \<Rightarrow> (duration \<Rightarrow> options) \<Rightarrow> options \<Rightarrow> (config_err, options) result" where
  "load_duration parseDuration res key dest opt =
     (case Get res key of
        None \<Rightarrow> Ok opt
      | Some v \<Rightarrow>
          (case parseDuration v of
             None \<Rightarrow> invalid res key v ''a duration such as \"15s\" or \"1m30s\"''
           | Some d \<Rightarrow> if d < 0 then invalid res key v ''a non-negative duration'' else Ok (dest d)))"

definition load_choice ::
    "resolved \<Rightarrow> string \<Rightarrow> string list \<Rightarrow> string \<Rightarrow> (string \<Rightarrow> options) \<Rightarrow> options \<Rightarrow> (config_err, options) result" where
  "load_choice res key choices want dest opt =
     (case Get res key of
        None \<Rightarrow> Ok opt
      | Some v \<Rightarrow> if v \<notin> set choices then invalid res key v want else Ok (dest v))"

definition load_lists :: "resolved \<Rightarrow> options" where
  "load_lists res =
     zeroOptions
       \<lparr>oAddr := (case Get res KeyAddr of None \<Rightarrow> [] | Some v \<Rightarrow> v),
        oModules := (case Get res KeyModules of None \<Rightarrow> [] | Some v \<Rightarrow> splitList v),
        oTrustedProxies := (case Get res KeyTrustedProxies of None \<Rightarrow> [] | Some v \<Rightarrow> splitList v)\<rparr>"

definition load_resolved :: "(string \<Rightarrow> duration option) \<Rightarrow> resolved \<Rightarrow> (config_err, options) result" where
  "load_resolved parseDuration res =
     (case load_debug res (load_lists res) of Err e \<Rightarrow> Err e | Ok opt \<Rightarrow>
      case load_duration parseDuration res KeyShutdownTimeout (\<lambda>d. opt\<lparr>oShutdownTimeout := d\<rparr>) opt of
        Err e \<Rightarrow> Err e | Ok opt \<Rightarrow>
      case load_duration parseDuration res KeyReadHeaderTimeout (\<lambda>d. opt\<lparr>oReadHeaderTimeout := d\<rparr>) opt of
        Err e \<Rightarrow> Err e | Ok opt \<Rightarrow>
      case load_choice res KeyLogFormat [''json'', ''text''] ''\"json\" or \"text\"'' (\<lambda>v. opt\<lparr>oLogFormat := v\<rparr>) opt of
        Err e \<Rightarrow> Err e | Ok opt \<Rightarrow>
      case load_choice res KeyLogLevel [''debug'', ''info'', ''warn'', ''error'']
             ''\"debug\", \"info\", \"warn\", or \"error\"'' (\<lambda>v. opt\<lparr>oLogLevel := v\<rparr>) opt of
        Err e \<Rightarrow> Err e | Ok opt \<Rightarrow> Ok (WithDefaults opt))"

definition Load :: "(string \<Rightarrow> duration option) \<Rightarrow> filesystem \<Rightarrow> source list \<Rightarrow> (config_err, options) result" where
  "Load parseDuration fsys sources =
     (case Resolve fsys sources of Err e \<Rightarrow> Err e | Ok res \<Rightarrow> load_resolved parseDuration res)"

end
