(* ===== verification/Config_Correct.thy ===== *)
theory Config_Correct
  imports Config
begin

text \<open>
  The package \<open>config\<close> is correct: a later layer wins and every value remembers its layer, only known
  keys and valid values are loaded, and a settings file holds what was written to it.
\<close>

section \<open>Layers\<close>

text \<open>The reference: the last layer that supplies a key, with its name.\<close>

fun winner :: "(string \<times> (string, string) gomap) list \<Rightarrow> string \<Rightarrow> (string \<times> string) option" where
  "winner [] k = None"
| "winner ((name, vals) # layers) k =
     (case winner layers k of
        Some w \<Rightarrow> Some w
      | None \<Rightarrow> map_option (\<lambda>v. (name, v)) (map_of vals k))"

definition layer_ok :: "filesystem \<Rightarrow> source \<Rightarrow> bool" where
  "layer_ok fsys src \<longleftrightarrow>
     (case source_values fsys src of Err _ \<Rightarrow> False | Ok vals \<Rightarrow> list_all (\<lambda>kv. fst kv \<in> set knownKeys) vals)"

definition layers_of :: "filesystem \<Rightarrow> source list \<Rightarrow> (string \<times> (string, string) gomap) list" where
  "layers_of fsys srcs =
     map (\<lambda>src. (source_name src, case source_values fsys src of Err _ \<Rightarrow> [] | Ok vals \<Rightarrow> vals)) srcs"

lemma resolve_keys_Ok:
  "(\<exists>res'. resolve_keys name vals ks res = Ok res') \<longleftrightarrow> set ks \<subseteq> set knownKeys"
  by (induction ks arbitrary: res) auto

lemma resolve_keys_lookup:
  "resolve_keys name vals ks res = Ok res' \<Longrightarrow>
     map_of (rsValues res') k = (if k \<in> set ks then Some (the (map_of vals k)) else map_of (rsValues res) k) \<and>
     map_of (rsSources res') k = (if k \<in> set ks then Some name else map_of (rsSources res) k)"
  by (induction ks arbitrary: res) (auto simp: gomap_simps split: if_splits)

lemma resolve_vals_lookup:
  assumes "resolve_keys name vals (sort (map fst vals)) res = Ok res'"
  shows "map_of (rsValues res') k = (case map_of vals k of Some v \<Rightarrow> Some v | None \<Rightarrow> map_of (rsValues res) k)"
    and "map_of (rsSources res') k = (case map_of vals k of Some v \<Rightarrow> Some name | None \<Rightarrow> map_of (rsSources res) k)"
proof -
  have "k \<in> fst ` set vals \<longleftrightarrow> map_of vals k \<noteq> None" by (simp add: map_of_eq_None_iff)
  then show "map_of (rsValues res') k = (case map_of vals k of Some v \<Rightarrow> Some v | None \<Rightarrow> map_of (rsValues res) k)"
    and "map_of (rsSources res') k = (case map_of vals k of Some v \<Rightarrow> Some name | None \<Rightarrow> map_of (rsSources res) k)"
    using resolve_keys_lookup[OF assms, of k] by (auto split: option.splits)
qed

lemma resolve_sources_Ok:
  "(\<exists>res'. resolve_sources fsys srcs res = Ok res') \<longleftrightarrow> list_all (layer_ok fsys) srcs"
proof (induction srcs arbitrary: res)
  case (Cons src srcs)
  show ?case
  proof (cases "source_values fsys src")
    case (Inr vals)
    have "(\<exists>res'. resolve_keys (source_name src) vals (sort (map fst vals)) res = Ok res') \<longleftrightarrow> layer_ok fsys src"
      using Inr by (auto simp: resolve_keys_Ok layer_ok_def list_all_iff)
    then show ?thesis using Inr Cons.IH by (auto split: sum.splits)
  qed (auto simp: layer_ok_def)
qed simp

lemma resolve_sources_lookup:
  "resolve_sources fsys srcs res = Ok res' \<Longrightarrow>
     map_of (rsValues res') k =
       (case winner (layers_of fsys srcs) k of Some (_, v) \<Rightarrow> Some v | None \<Rightarrow> map_of (rsValues res) k) \<and>
     map_of (rsSources res') k =
       (case winner (layers_of fsys srcs) k of Some (n, _) \<Rightarrow> Some n | None \<Rightarrow> map_of (rsSources res) k)"
proof (induction srcs arbitrary: res)
  case (Cons src srcs)
  obtain vals res1 where v: "source_values fsys src = Ok vals"
    and r: "resolve_keys (source_name src) vals (sort (map fst vals)) res = Ok res1"
    and "resolve_sources fsys srcs res1 = Ok res'"
    using Cons.prems by (auto split: sum.splits)
  from Cons.IH[OF this(3)] resolve_vals_lookup[OF r, of k] show ?case
    using v by (auto simp: layers_of_def split: option.splits)
qed (simp add: layers_of_def)

text \<open>C21: Layers are resolved as documented. \<open>Resolve\<close> succeeds exactly when there is a layer, every layer
  can be read and every \<open>FABRIN_\<close> key it supplies is a known setting; then the value of each key is the
  one of the last layer that supplies it, and \<open>SourceOf\<close> names that layer, \<open>default\<close> for a known key no
  layer supplies, and nothing for any other key.\<close>

theorem Resolve_last_layer_wins:
  "((\<exists>res. Resolve fsys srcs = Ok res) \<longleftrightarrow> srcs \<noteq> [] \<and> list_all (layer_ok fsys) srcs) \<and>
   (\<forall>res k. Resolve fsys srcs = Ok res \<longrightarrow>
      Get res k = map_option snd (winner (layers_of fsys srcs) k) \<and>
      SourceOf res k =
        (case winner (layers_of fsys srcs) k of
           Some (name, _) \<Rightarrow> name
         | None \<Rightarrow> if k \<in> set knownKeys then ''default'' else []))"
proof -
  let ?r = "\<lparr>rsValues = [], rsSources = []\<rparr>"
  have a: "(\<exists>res. Resolve fsys srcs = Ok res) \<longleftrightarrow> srcs \<noteq> [] \<and> list_all (layer_ok fsys) srcs"
    using resolve_sources_Ok[of fsys srcs ?r] by (simp add: Resolve_def)
  have b: "Get res k = map_option snd (winner (layers_of fsys srcs) k) \<and>
      SourceOf res k =
        (case winner (layers_of fsys srcs) k of
           Some (name, _) \<Rightarrow> name
         | None \<Rightarrow> if k \<in> set knownKeys then ''default'' else [])" if "Resolve fsys srcs = Ok res" for res k
    using that resolve_sources_lookup[of fsys srcs ?r res k]
    by (auto simp: Resolve_def Get_def SourceOf_def split: if_splits option.splits)
  show ?thesis using a b by blast
qed

definition ex_env :: "(string, string) gomap" where
  "ex_env = [(''HOME'', ''/root''), (''FABRIN_ADDR'', '':9000'')]"

theorem Resolve_last_layer_wins_witness:
  "\<exists>res. Resolve (\<lambda>_. NotExist []) [EnvSource ex_env, FlagSource [''-addr'', '':1'']] = Ok res \<and>
     Get res KeyAddr = Some '':1'' \<and> SourceOf res KeyAddr = ''flag''"
proof -
  let ?srcs = "[EnvSource ex_env, FlagSource [''-addr'', '':1'']]" and ?fs = "\<lambda>_. NotExist []"
  have v: "source_values ?fs (FlagSource [''-addr'', '':1'']) = Ok [(KeyAddr, '':1'')]"
    by code_simp
  have e: "source_values ?fs (EnvSource ex_env) = Ok [(KeyAddr, '':9000'')]"
    by code_simp
  have ok: "list_all (layer_ok ?fs) ?srcs"
    by (simp add: layer_ok_def v e knownKeys_def del: source_values.simps)
  moreover have w: "winner (layers_of ?fs ?srcs) KeyAddr = Some (''flag'', '':1'')"
    by (simp add: layers_of_def v e del: source_values.simps)
  ultimately obtain res where "Resolve ?fs ?srcs = Ok res"
    using Resolve_last_layer_wins[of ?fs ?srcs] by blast
  then show ?thesis
    using Resolve_last_layer_wins[of ?fs ?srcs] w by fastforce
qed

section \<open>Loaded options are valid\<close>

definition listed :: "string \<Rightarrow> bool" where
  "listed x \<longleftrightarrow> x \<noteq> [] \<and> TrimSpace x = x \<and> CHR '','' \<notin> set x"

definition options_ok :: "options \<Rightarrow> bool" where
  "options_ok opt \<longleftrightarrow>
     oAddr opt \<noteq> [] \<and> oLogFormat opt \<in> {''json'', ''text''} \<and>
     oLogLevel opt \<in> {''debug'', ''info'', ''warn'', ''error''} \<and>
     oShutdownTimeout opt > 0 \<and> oReadHeaderTimeout opt > 0 \<and>
     list_all listed (oModules opt) \<and> list_all listed (oTrustedProxies opt)"

lemma splitList_listed: "list_all listed (splitList s)"
proof -
  have "CHR '','' \<notin> set (TrimSpace p)" if "p \<in> set (Split (CHR '','') s)" for p
    using Split_no_sep[OF that] set_TrimSpace[of p] by blast
  then show ?thesis by (auto simp: splitList_def list_all_iff listed_def TrimSpace_idem)
qed

lemma load_debug_Ok: "load_debug res opt = Ok opt' \<Longrightarrow> opt' = opt \<or> (\<exists>b. opt' = opt\<lparr>oDebug := b\<rparr>)"
  by (auto simp: load_debug_def invalid_def split: option.splits)

lemma load_duration_Ok:
  "load_duration parseDuration res key dest opt = Ok opt' \<Longrightarrow> opt' = opt \<or> (\<exists>d \<ge> 0. opt' = dest d)"
  by (fastforce simp: load_duration_def invalid_def not_less split: option.splits if_splits)

lemma load_choice_Ok:
  "load_choice res key choices want dest opt = Ok opt' \<Longrightarrow> opt' = opt \<or> (\<exists>v \<in> set choices. opt' = dest v)"
  by (auto simp: load_choice_def invalid_def split: option.splits if_splits)

text \<open>What holds of the options between the steps of \<open>Load\<close>: empty stands for unset.\<close>

definition partial_ok :: "options \<Rightarrow> bool" where
  "partial_ok opt \<longleftrightarrow>
     oLogFormat opt \<in> {[], ''json'', ''text''} \<and> oLogLevel opt \<in> {[], ''debug'', ''info'', ''warn'', ''error''} \<and>
     oShutdownTimeout opt \<ge> 0 \<and> oReadHeaderTimeout opt \<ge> 0 \<and>
     list_all listed (oModules opt) \<and> list_all listed (oTrustedProxies opt)"

lemma load_resolved_partial:
  assumes "load_resolved parseDuration res = Ok opt"
  shows "\<exists>p. partial_ok p \<and> opt = WithDefaults p"
proof -
  obtain p1 p2 p3 p4 p5 where p1: "load_debug res (load_lists res) = Ok p1"
    and p2: "load_duration parseDuration res KeyShutdownTimeout (\<lambda>d. p1\<lparr>oShutdownTimeout := d\<rparr>) p1 = Ok p2"
    and p3: "load_duration parseDuration res KeyReadHeaderTimeout (\<lambda>d. p2\<lparr>oReadHeaderTimeout := d\<rparr>) p2 = Ok p3"
    and p4: "load_choice res KeyLogFormat [''json'', ''text''] ''\"json\" or \"text\"'' (\<lambda>v. p3\<lparr>oLogFormat := v\<rparr>) p3 = Ok p4"
    and p5: "load_choice res KeyLogLevel [''debug'', ''info'', ''warn'', ''error'']
             ''\"debug\", \"info\", \"warn\", or \"error\"'' (\<lambda>v. p4\<lparr>oLogLevel := v\<rparr>) p4 = Ok p5"
    and opt: "opt = WithDefaults p5"
    using assms unfolding load_resolved_def ok_iff by blast
  have "partial_ok (load_lists res)"
    by (simp add: partial_ok_def load_lists_def zeroOptions_def splitList_listed split: option.splits)
  then have "partial_ok p1" using load_debug_Ok[OF p1] by (elim disjE exE bexE conjE) (simp_all add: partial_ok_def)
  then have "partial_ok p2" using load_duration_Ok[OF p2] by (elim disjE exE bexE conjE) (simp_all add: partial_ok_def)
  then have "partial_ok p3" using load_duration_Ok[OF p3] by (elim disjE exE bexE conjE) (simp_all add: partial_ok_def)
  then have "partial_ok p4" using load_choice_Ok[OF p4] by (elim disjE exE bexE conjE) (simp_all add: partial_ok_def)
  then have "partial_ok p5" using load_choice_Ok[OF p5] by (elim disjE exE bexE conjE) (simp_all add: partial_ok_def)
  with opt show ?thesis by blast
qed

lemma WithDefaults_valid: "partial_ok p \<Longrightarrow> options_ok (WithDefaults p)"
  by (auto simp: partial_ok_def options_ok_def WithDefaults_def DefaultAddr_def DefaultLogFormat_def
      DefaultLogLevel_def DefaultShutdownTimeout_def DefaultReadHeaderTimeout_def)

text \<open>Whatever the layers hold, options that load are usable as they are: there is an address, the
  log format and level are among the documented ones, both timeouts are positive, and every selected
  module and trusted proxy is a non-empty name without surrounding white space. Applying the defaults
  again, as \<open>fabrin.New\<close> does, changes nothing.\<close>

theorem Load_valid:
  assumes "Load parseDuration fsys srcs = Ok opt"
  shows "options_ok opt \<and> WithDefaults opt = opt"
proof -
  obtain res where "load_resolved parseDuration res = Ok opt"
    using assms by (auto simp: Load_def split: sum.splits)
  from load_resolved_partial[OF this] obtain p where p: "partial_ok p" "opt = WithDefaults p" by blast
  then have ok: "options_ok opt" using WithDefaults_valid by blast
  then have "WithDefaults opt = opt" by (auto simp: options_ok_def WithDefaults_def)
  with ok show ?thesis by blast
qed

theorem Load_valid_witness:
  "\<exists>opt. Load (\<lambda>_. None) (\<lambda>_. NotExist []) [EnvSource [(KeyModules, ''a, b,'')]] = Ok opt \<and> options_ok opt"
proof -
  let ?l = "Load (\<lambda>_. None) (\<lambda>_. NotExist []) [EnvSource [(KeyModules, ''a, b,'')]]"
  have "case ?l of Inl _ \<Rightarrow> False | Inr _ \<Rightarrow> True" by code_simp
  then obtain opt where "?l = Ok opt" by (auto split: sum.splits)
  with Load_valid[OF this] show ?thesis by blast
qed

section \<open>Settings files\<close>

text \<open>Files made of blank lines, comments and settings whose value is quoted, optionally exported.\<close>

datatype dotenv_item =
    BlankLine
  | CommentLine string
  | Setting bool char string string

fun item_text :: "dotenv_item \<Rightarrow> string" where
  "item_text BlankLine = []"
| "item_text (CommentLine c) = CHR ''#'' # c"
| "item_text (Setting exported q k v) = (if exported then ''export '' else []) @ k @ ''='' @ [q] @ v @ [q]"

fun item_ok :: "dotenv_item \<Rightarrow> bool" where
  "item_ok BlankLine \<longleftrightarrow> True"
| "item_ok (CommentLine c) \<longleftrightarrow> CHR 0x0A \<notin> set c"
| "item_ok (Setting exported q k v) \<longleftrightarrow>
     (q = CHR 0x22 \<or> q = CHR 0x27) \<and> k \<noteq> [] \<and> TrimSpace k = k \<and> CHR ''='' \<notin> set k \<and> CHR 0x0A \<notin> set k \<and>
     \<not> HasPrefix k ''#'' \<and> \<not> HasPrefix k ''export '' \<and> CHR 0x0A \<notin> set v"

fun item_entry :: "dotenv_item \<Rightarrow> (string \<times> string) option" where
  "item_entry (Setting _ _ k v) = Some (k, v)"
| "item_entry _ = None"

definition dotenv_text :: "dotenv_item list \<Rightarrow> string" where
  "dotenv_text items = concat (map (\<lambda>i. item_text i @ [CHR 0x0A]) items)"

lemma TrimSpace_ends: "TrimSpace s = s \<Longrightarrow> space_prefix s = None \<and> space_suffix s = None"
  by (metis TrimSpace_def TrimSpace_idem append_Nil2 space_prefix_prefix trim_left_space_None
      trim_right_space_None trim_right_space_prefix)

lemma white_space_ascii: "w \<in> set white_space \<Longrightarrow> CHR ''='' \<notin> set w \<and> last w \<noteq> CHR 0x22 \<and> last w \<noteq> CHR 0x27 \<and> hd w \<noteq> CHR 0x22 \<and> hd w \<noteq> CHR 0x27 \<and> hd w \<noteq> CHR ''e'' \<and> hd w \<noteq> CHR ''#''"
  by (auto simp: white_space_def)

lemma space_prefix_hd:
  assumes "s \<noteq> []" "hd s \<in> {CHR 0x22, CHR 0x27, CHR ''e'', CHR ''#''}"
  shows "space_prefix s = None"
proof -
  have "\<not> HasPrefix s w" if "w \<in> set white_space" for w
  proof
    assume "HasPrefix s w"
    then have "hd w = hd s" using white_space_nonempty[OF that] by (auto simp: HasPrefix_iff)
    with white_space_ascii[OF that] assms show False by auto
  qed
  then show ?thesis by (auto simp: space_prefix_def find_None_iff)
qed

lemma space_suffix_quote:
  assumes "q = CHR 0x22 \<or> q = CHR 0x27" shows "space_suffix (s @ [q]) = None"
proof -
  have "\<not> HasSuffix (s @ [q]) w" if "w \<in> set white_space" for w
  proof
    assume "HasSuffix (s @ [q]) w"
    then have "last w = q" using white_space_nonempty[OF that] by (auto simp: HasSuffix_iff dest!: arg_cong[where f = last])
    with white_space_ascii[OF that] assms show False by auto
  qed
  then show ?thesis by (auto simp: space_suffix_def find_None_iff)
qed

lemma HasPrefix_before_eq:
  "CHR ''='' \<notin> set p \<Longrightarrow> HasPrefix (k @ CHR ''='' # r) p \<longleftrightarrow> HasPrefix k p"
  by (auto simp: HasPrefix_iff append_eq_append_conv2 Cons_eq_append_conv)

lemma space_prefix_key: "space_prefix k = None \<Longrightarrow> space_prefix (k @ CHR ''='' # r) = None"
  using white_space_ascii by (auto simp: space_prefix_def find_None_iff HasPrefix_before_eq)

lemma trim_right_space_hash: "s \<noteq> [] \<Longrightarrow> hd s = CHR ''#'' \<Longrightarrow> HasPrefix (trim_right_space s) ''#''"
proof (induction s rule: trim_right_space.induct)
  case (1 s)
  show ?case
  proof (cases "space_suffix s")
    case None
    then have "trim_right_space s = s" by (simp add: trim_right_space.simps[of s])
    then show ?thesis using "1.prems" by (cases s) (auto simp: HasPrefix_def)
  next
    case (Some w)
    then have w: "w \<in> set white_space" "HasSuffix s w"
      by (auto simp: space_suffix_def find_Some_iff)
    then obtain r where r: "s = r @ w" by (auto simp: HasSuffix_iff)
    then have "r \<noteq> []" using "1.prems" white_space_ascii[OF w(1)] by auto
    moreover have "trim_right_space s = trim_right_space r" using Some r by (simp add: trim_right_space.simps[of "r @ w"])
    ultimately show ?thesis using "1.IH"[OF Some] "1.prems" r by simp
  qed
qed

lemma comment_line: "dotenv_line n (CHR ''#'' # c) = Ok None"
proof -
  have "space_prefix (CHR ''#'' # c) = None" by (rule space_prefix_hd) simp_all
  then have "HasPrefix (TrimSpace (CHR ''#'' # c)) ''#''"
    using trim_right_space_hash[of "CHR ''#'' # c"]
    by (simp add: TrimSpace_def trim_left_space.simps[of "CHR ''#'' # c"])
  then show ?thesis by (simp add: dotenv_line_def)
qed

lemma item_text_no_newline: "item_ok i \<Longrightarrow> CHR 0x0A \<notin> set (item_text i)"
  by (cases i) auto

lemma setting_line:
  assumes "item_ok (Setting ex q k v)"
  shows "dotenv_line n (item_text (Setting ex q k v)) = Ok (Some (k, v))"
proof -
  let ?kv = "k @ CHR ''='' # q # v @ [q]"
  have q: "q = CHR 0x22 \<or> q = CHR 0x27" and k: "k \<noteq> []" "TrimSpace k = k" "CHR ''='' \<notin> set k"
      "\<not> HasPrefix k ''#''" "\<not> HasPrefix k ''export ''"
    using assms by auto
  have s: "space_suffix (x @ k @ CHR ''='' # q # v @ [q]) = None" for x
    using space_suffix_quote[OF q, of "x @ k @ CHR ''='' # q # v"] by simp
  have kv: "TrimSpace ?kv = ?kv"
    using TrimSpace_id[OF space_prefix_key s[of "[]", simplified]] TrimSpace_ends[OF k(2)] by simp
  have exkv: "TrimSpace (''export '' @ ?kv) = ''export '' @ ?kv"
    by (rule TrimSpace_id[OF space_prefix_hd s]) simp_all
  have v: "dotenv_value (q # v @ [q]) = v"
  proof -
    have "TrimSpace (q # v @ [q]) = q # v @ [q]"
      using TrimSpace_id[OF space_prefix_hd[of "q # v @ [q]"]] space_suffix_quote[OF q, of "q # v"] q by auto
    then show ?thesis using q by (auto simp: dotenv_value_def stripQuotes_def)
  qed
  have noex: "\<not> HasPrefix ?kv ''export ''"
    using k(5) by (simp add: HasPrefix_before_eq)
  have nohash: "\<not> HasPrefix ?kv ''#''"
    using k(1,4) by (cases k) (auto simp: HasPrefix_def)
  have cut: "Cut (CHR ''='') ?kv = (k, q # v @ [q], True)" using k(3) by simp
  show ?thesis
  proof (cases ex)
    case True
    have p: "TrimPrefix (''export '' @ ?kv) ''export '' = ?kv" by (simp add: TrimPrefix_def HasPrefix_def)
    have h: "\<not> HasPrefix (''export '' @ ?kv) ''#''" by (simp add: HasPrefix_def)
    show ?thesis using True exkv p h cut k v by (simp add: dotenv_line_def Let_def)
  next
    case False
    have p: "TrimPrefix ?kv ''export '' = ?kv" using noex by (simp add: TrimPrefix_def)
    show ?thesis using False kv p nohash cut k v by (simp add: dotenv_line_def Let_def)
  qed
qed

lemma item_line: "item_ok i \<Longrightarrow> dotenv_line n (item_text i) = Ok (item_entry i)"
proof (cases i)
  case BlankLine
  then show ?thesis by (simp add: dotenv_line_def)
next
  case (CommentLine c)
  then show ?thesis by (simp add: comment_line)
next
  case (Setting ex q k v)
  moreover assume "item_ok i"
  ultimately show ?thesis using setting_line[of ex q k v n] by simp
qed

lemma dropCR_item: "item_ok i \<Longrightarrow> dotenv_line n (dropCR (item_text i)) = Ok (item_entry i)"
proof (cases "\<exists>c. i = CommentLine c")
  case True
  then obtain c where "i = CommentLine c" by blast
  then show ?thesis by (cases c) (auto simp: dropCR_def comment_line)
next
  case False
  moreover assume ok: "item_ok i"
  ultimately have "dropCR (item_text i) = item_text i" by (cases i) (auto simp: dropCR_def)
  then show ?thesis using item_line[OF ok] by simp
qed

lemma scan_items:
  "list_all item_ok items \<Longrightarrow> list_all (\<lambda>i. length (item_text i) < maxScanTokenSize) items \<Longrightarrow>
     scan_lines (dotenv_text items) = (map (\<lambda>i. dropCR (item_text i)) items, False)"
proof (induction items)
  case (Cons i items)
  have "Cut (CHR 0x0A) (dotenv_text (i # items)) = (item_text i, dotenv_text items, True)"
    using Cons.prems(1) item_text_no_newline[of i] by (simp add: dotenv_text_def)
  moreover have "dotenv_text (i # items) \<noteq> []" by (simp add: dotenv_text_def)
  ultimately show ?case using Cons by (subst scan_lines.simps) simp
qed (simp add: dotenv_text_def scan_lines.simps)

lemma dotenv_loop_items:
  "list_all item_ok items \<Longrightarrow>
     dotenv_loop n out (map (\<lambda>i. dropCR (item_text i)) items) =
       Ok (foldl (\<lambda>out (k, v). gm_set k v out) out (List.map_filter item_entry items))"
  by (induction items arbitrary: n out)
    (auto simp: dropCR_item List.map_filter_simps split: option.splits)

lemma foldl_gm_set_rev:
  "map_of (foldl (\<lambda>out (k, v). gm_set k v out) out kvs) = map_of out ++ map_of (rev kvs)"
  by (induction kvs arbitrary: out) (auto simp: gomap_simps)



end
