(* ===== verification/Health.thy ===== *)
theory Health
  imports Go_Prelude
begin

text \<open>
  The package \<open>health\<close> (health/health.go): the registry of readiness checks, and \<open>Evaluate\<close> with its
  goroutines, its channel of outcomes and the guard that keeps two probes of one check from overlapping.

  Evaluations of the same registry run concurrently, so the model is a transition function over events
  that any schedule may contain: an evaluation launches its next probe, a probe ends, its goroutine
  publishes the outcome, the evaluation receives one or gives up because its context is done. What a
  probe did, the text of a context error and the measured durations come with the events. A schedule that
  a Go program cannot follow, such as receiving from an empty channel, has no successor.
\<close>

section \<open>Checks and the registry\<close>

datatype status = StatusUp | StatusDown

text \<open>A check is its name and, for a \<open>CheckFunc\<close>, whether it has a function; what the function does is an event.\<close>

record check =
  ckName :: string
  ckFn :: bool

definition Named :: "string \<Rightarrow> bool \<Rightarrow> check" where
  "Named name fn = \<lparr>ckName = name, ckFn = fn\<rparr>"

datatype outcome =
    Returned "string option"
  | Panicked string

definition Probe :: "check \<Rightarrow> outcome \<Rightarrow> outcome" where
  "Probe c out = (if \<not> ckFn c then Returned (Some ''check has no probe function'') else out)"

definition DefaultTimeout :: duration where
  "DefaultTimeout = 2 * Second"

record check_result =
  hrModule :: string
  hrCheck :: string
  hrStatus :: status
  hrError :: string
  hrDurationMS :: int

record health_report =
  rpStatus :: status
  rpChecks :: "check_result list"

record health_registered =
  hcModule :: string
  hcCheck :: check
  hcName :: string
  hcRunning :: bool

record health_registry =
  hgTimeout :: duration
  hgChecks :: "health_registered list"

definition health_NewRegistry :: health_registry where
  "health_NewRegistry = \<lparr>hgTimeout = 0, hgChecks = []\<rparr>"

text \<open>\<open>Register\<close>: the checks before a rejected one stay registered; a nil check is \<open>None\<close>.\<close>

datatype health_err =
    NilCheck string
  | UnnamedCheck string

fun health_Register :: "string \<Rightarrow> check option list \<Rightarrow> health_registry \<Rightarrow> health_registry \<times> health_err option" where
  "health_Register module [] r = (r, None)"
| "health_Register module (c # cs) r =
     (case c of
        None \<Rightarrow> (r, Some (NilCheck module))
      | Some c \<Rightarrow>
          if ckName c = [] then (r, Some (UnnamedCheck module))
          else health_Register module cs
                 (r\<lparr>hgChecks := hgChecks r @ [\<lparr>hcModule = module, hcCheck = c, hcName = ckName c, hcRunning = False\<rparr>]\<rparr>))"

definition health_Len :: "health_registry \<Rightarrow> nat" where
  "health_Len r = length (hgChecks r)"

definition evaluate_timeout :: "health_registry \<Rightarrow> duration" where
  "evaluate_timeout r = (if hgTimeout r = 0 then DefaultTimeout else hgTimeout r)"

section \<open>Evaluations\<close>

text \<open>
  A probe's goroutine is running its probe, has cleared the guard and holds the result, or has published
  it. The outcome is kept for reference.
\<close>

datatype phase =
    Probing
  | Cleared outcome check_result
  | Sent outcome check_result

record goroutine =
  grEval :: nat
  grIndex :: nat
  grPhase :: phase

record evaluation =
  evCount :: nat
  evNext :: nat
  evCtx :: "string option"
  evResults :: "check_result list"
  evPending :: "nat list"
  evOutcomes :: "(nat \<times> check_result) list"
  evReport :: "health_report option"

record health_state =
  hsRegistry :: health_registry
  hsEvals :: "evaluation list"
  hsGo :: "goroutine list"

definition initial_result :: "health_registered \<Rightarrow> check_result" where
  "initial_result rc = \<lparr>hrModule = hcModule rc, hrCheck = hcName rc, hrStatus = StatusDown, hrError = [], hrDurationMS = 0\<rparr>"

definition outcome_result :: "health_registered \<Rightarrow> outcome \<Rightarrow> int \<Rightarrow> check_result" where
  "outcome_result rc out ms =
     (case Probe (hcCheck rc) out of
        Returned None \<Rightarrow> (initial_result rc)\<lparr>hrStatus := StatusUp, hrDurationMS := ms\<rparr>
      | Returned (Some e) \<Rightarrow> (initial_result rc)\<lparr>hrError := e, hrDurationMS := ms\<rparr>
      | Panicked p \<Rightarrow> (initial_result rc)\<lparr>hrError := ''probe panicked: '' @ p, hrDurationMS := ms\<rparr>)"

definition health_sort :: "check_result list \<Rightarrow> check_result list" where
  "health_sort rs = sort_key (\<lambda>r. hrModule r) (sort_key (\<lambda>r. hrCheck r) rs)"

definition make_report :: "check_result list \<Rightarrow> health_report" where
  "make_report rs =
     (let rs = health_sort rs
      in \<lparr>rpStatus = (if list_ex (\<lambda>r. hrStatus r \<noteq> StatusUp) rs then StatusDown else StatusUp), rpChecks = rs\<rparr>)"

text \<open>The start of \<open>Evaluate\<close>: a copy of the checks, which are shared, and no result yet.\<close>

definition start_evaluation :: "health_registry \<Rightarrow> evaluation" where
  "start_evaluation r =
     \<lparr>evCount = length (hgChecks r), evNext = 0, evCtx = None, evResults = [], evPending = [], evOutcomes = [], evReport = None\<rparr>"

definition set_running :: "nat \<Rightarrow> bool \<Rightarrow> health_state \<Rightarrow> health_state" where
  "set_running i b s =
     s\<lparr>hsRegistry := (hsRegistry s)\<lparr>hgChecks := (hgChecks (hsRegistry s))[i := (hgChecks (hsRegistry s) ! i)\<lparr>hcRunning := b\<rparr>]\<rparr>\<rparr>"

definition set_eval :: "nat \<Rightarrow> evaluation \<Rightarrow> health_state \<Rightarrow> health_state" where
  "set_eval e ev s = s\<lparr>hsEvals := (hsEvals s)[e := ev]\<rparr>"

definition set_phase :: "nat \<Rightarrow> phase \<Rightarrow> health_state \<Rightarrow> health_state" where
  "set_phase g p s = s\<lparr>hsGo := (hsGo s)[g := (hsGo s ! g)\<lparr>grPhase := p\<rparr>]\<rparr>"

text \<open>One round of the loop that launches the probes.\<close>

definition launch :: "nat \<Rightarrow> health_state \<Rightarrow> health_state" where
  "launch e s =
     (let ev = hsEvals s ! e;
          i = evNext ev;
          rc = hgChecks (hsRegistry s) ! i;
          ev = ev\<lparr>evNext := i + 1\<rparr>;
          res = initial_result rc
      in case evCtx ev of
           Some err \<Rightarrow> set_eval e (ev\<lparr>evResults := evResults ev @ [res\<lparr>hrError := err\<rparr>]\<rparr>) s
         | None \<Rightarrow>
             if hcRunning rc
             then set_eval e (ev\<lparr>evResults := evResults ev @ [res\<lparr>hrError := ''previous probe is still running''\<rparr>]\<rparr>) s
             else
               (let s = set_running i True s
                in (set_eval e (ev\<lparr>evResults := evResults ev @ [res], evPending := i # evPending ev\<rparr>) s)
                     \<lparr>hsGo := hsGo s @ [\<lparr>grEval = e, grIndex = i, grPhase = Probing\<rparr>]\<rparr>))"

text \<open>The branch of the \<open>select\<close> for a context that is done.\<close>

definition give_up :: "string \<Rightarrow> (nat \<Rightarrow> int) \<Rightarrow> evaluation \<Rightarrow> evaluation" where
  "give_up err ms ev =
     ev\<lparr>evResults := map (\<lambda>(i, r). if i \<in> set (evPending ev) then r\<lparr>hrError := err, hrDurationMS := ms i\<rparr> else r)
           (zip [0..<length (evResults ev)] (evResults ev)),
        evPending := []\<rparr>"

datatype health_event =
    DoRegister string "check option list"
  | DoEvaluate
  | DoLaunch nat
  | CtxDone nat string
  | ProbeEnds nat outcome int
  | Publish nat
  | Receive nat
  | GiveUp nat "nat \<Rightarrow> int"
  | Finish nat

fun health_step :: "health_event \<Rightarrow> health_state \<Rightarrow> health_state option" where
  "health_step (DoRegister module cs) s = Some (s\<lparr>hsRegistry := fst (health_Register module cs (hsRegistry s))\<rparr>)"
| "health_step DoEvaluate s = Some (s\<lparr>hsEvals := hsEvals s @ [start_evaluation (hsRegistry s)]\<rparr>)"
| "health_step (DoLaunch e) s =
     (if e < length (hsEvals s) \<and> evNext (hsEvals s ! e) < evCount (hsEvals s ! e) then Some (launch e s) else None)"
| "health_step (CtxDone e err) s =
     (if e < length (hsEvals s) \<and> evCtx (hsEvals s ! e) = None
      then Some (set_eval e ((hsEvals s ! e)\<lparr>evCtx := Some err\<rparr>) s) else None)"
| "health_step (ProbeEnds g out ms) s =
     (if g < length (hsGo s) \<and> grPhase (hsGo s ! g) = Probing
      then (let i = grIndex (hsGo s ! g)
            in Some (set_running i False (set_phase g (Cleared out (outcome_result (hgChecks (hsRegistry s) ! i) out ms)) s)))
      else None)"
| "health_step (Publish g) s =
     (if g < length (hsGo s)
      then (case grPhase (hsGo s ! g) of
              Cleared out res \<Rightarrow>
                (let e = grEval (hsGo s ! g); ev = hsEvals s ! e
                 in Some (set_eval e (ev\<lparr>evOutcomes := evOutcomes ev @ [(grIndex (hsGo s ! g), res)]\<rparr>)
                            (set_phase g (Sent out res) s)))
            | _ \<Rightarrow> None)
      else None)"
| "health_step (Receive e) s =
     (if e < length (hsEvals s)
      then (let ev = hsEvals s ! e
            in if evNext ev = evCount ev \<and> evPending ev \<noteq> []
               then (case evOutcomes ev of
                       (i, res) # rest \<Rightarrow>
                         Some (set_eval e (ev\<lparr>evResults := (evResults ev)[i := res], evPending := removeAll i (evPending ev), evOutcomes := rest\<rparr>) s)
                     | [] \<Rightarrow> None)
               else None)
      else None)"
| "health_step (GiveUp e ms) s =
     (if e < length (hsEvals s)
      then (let ev = hsEvals s ! e
            in if evNext ev = evCount ev \<and> evPending ev \<noteq> []
               then (case evCtx ev of Some err \<Rightarrow> Some (set_eval e (give_up err ms ev) s) | None \<Rightarrow> None)
               else None)
      else None)"
| "health_step (Finish e) s =
     (if e < length (hsEvals s)
      then (let ev = hsEvals s ! e
            in if evNext ev = evCount ev \<and> evPending ev = [] \<and> evReport ev = None
               then Some (set_eval e (ev\<lparr>evReport := Some (make_report (evResults ev))\<rparr>) s)
               else None)
      else None)"

fun health_run :: "health_event list \<Rightarrow> health_state \<Rightarrow> health_state option" where
  "health_run [] s = Some s"
| "health_run (ev # evs) s = (case health_step ev s of None \<Rightarrow> None | Some s \<Rightarrow> health_run evs s)"

definition health_init :: health_state where
  "health_init = \<lparr>hsRegistry = health_NewRegistry, hsEvals = [], hsGo = []\<rparr>"

section \<open>Handlers\<close>

definition LivenessHandler :: "nat \<times> status" where
  "LivenessHandler = (200, StatusUp)"

definition ReadinessHandler :: "health_report \<Rightarrow> nat \<times> health_report" where
  "ReadinessHandler rep = (if rpStatus rep \<noteq> StatusUp then 503 else 200, rep)"

definition LivenessPath :: string where "LivenessPath = ''/healthz''"
definition ReadinessPath :: string where "ReadinessPath = ''/readyz''"

text \<open>\<open>Mount\<close>: the routes it registers, as method and path.\<close>

definition Mount :: "(string \<times> string) list" where
  "Mount = [(''GET'', LivenessPath), (''GET'', ReadinessPath)]"

end
