(* ===== verification/Health_Correct.thy ===== *)
theory Health_Correct
  imports Health
begin

text \<open>
  Readiness under every interleaving of evaluations and probes: the aggregate fails closed and every
  failure has a cause, no check is probed twice at once, and an evaluation that was not cut short leaves
  no guard held behind it.
\<close>

section \<open>What persists\<close>

definition ident :: "health_state \<Rightarrow> nat \<Rightarrow> string \<times> check \<times> string" where
  "ident s i = (let rc = hgChecks (hsRegistry s) ! i in (hcModule rc, hcCheck rc, hcName rc))"

text \<open>The probe of check \<open>i\<close> that evaluation \<open>e\<close> launched has ended with \<open>out\<close> and its result was published.\<close>

definition sent :: "health_state \<Rightarrow> nat \<Rightarrow> nat \<Rightarrow> outcome \<Rightarrow> check_result \<Rightarrow> bool" where
  "sent s e i out res \<longleftrightarrow> (\<exists>g \<in> set (hsGo s). grEval g = e \<and> grIndex g = i \<and> grPhase g = Sent out res)"

definition probe_ok :: "health_state \<Rightarrow> nat \<Rightarrow> outcome \<Rightarrow> bool" where
  "probe_ok s i out \<longleftrightarrow> Probe (fst (snd (ident s i))) out = Returned None"

definition named :: "health_state \<Rightarrow> nat \<Rightarrow> check_result \<Rightarrow> bool" where
  "named s i r \<longleftrightarrow> hrModule r = fst (ident s i) \<and> hrCheck r = snd (snd (ident s i))"

definition grows :: "health_state \<Rightarrow> health_state \<Rightarrow> bool" where
  "grows s s' \<longleftrightarrow> length (hgChecks (hsRegistry s)) \<le> length (hgChecks (hsRegistry s')) \<and>
     (\<forall>i < length (hgChecks (hsRegistry s)). ident s' i = ident s i) \<and>
     (\<forall>e i out res. sent s e i out res \<longrightarrow> sent s' e i out res)"

section \<open>The invariant\<close>

definition down_reason :: "health_state \<Rightarrow> nat \<Rightarrow> evaluation \<Rightarrow> nat \<Rightarrow> check_result \<Rightarrow> bool" where
  "down_reason s e ev i r \<longleftrightarrow> i \<in> set (evPending ev) \<or> evCtx ev \<noteq> None \<or> hrError r = ''previous probe is still running'' \<or>
     (\<exists>out res. sent s e i out res \<and> \<not> probe_ok s i out)"

definition entry_ok :: "health_state \<Rightarrow> nat \<Rightarrow> evaluation \<Rightarrow> nat \<Rightarrow> check_result \<Rightarrow> bool" where
  "entry_ok s e ev i r \<longleftrightarrow> named s i r \<and>
     (if hrStatus r = StatusUp then \<exists>out res. sent s e i out res \<and> probe_ok s i out else down_reason s e ev i r)"

definition ev_ok :: "health_state \<Rightarrow> nat \<Rightarrow> evaluation \<Rightarrow> bool" where
  "ev_ok s e ev \<longleftrightarrow>
     evNext ev \<le> evCount ev \<and> evCount ev \<le> length (hgChecks (hsRegistry s)) \<and> length (evResults ev) = evNext ev \<and>
     (\<forall>i \<in> set (evPending ev). i < evNext ev) \<and>
     (\<forall>(i, res) \<in> set (evOutcomes ev). i < evNext ev \<and> (\<exists>out. sent s e i out res)) \<and>
     (\<forall>i < evNext ev. entry_ok s e ev i (evResults ev ! i)) \<and>
     (\<forall>R. evReport ev = Some R \<longrightarrow> evNext ev = evCount ev \<and> evPending ev = [] \<and> R = make_report (evResults ev))"

definition result_ok :: "health_state \<Rightarrow> nat \<Rightarrow> outcome \<Rightarrow> check_result \<Rightarrow> bool" where
  "result_ok s i out res \<longleftrightarrow> named s i res \<and> (hrStatus res = StatusUp \<longleftrightarrow> probe_ok s i out)"

definition waiting :: "health_state \<Rightarrow> goroutine \<Rightarrow> bool" where
  "waiting s g \<longleftrightarrow> grIndex g \<in> set (evPending (hsEvals s ! grEval g)) \<or> evCtx (hsEvals s ! grEval g) \<noteq> None"

definition go_ok :: "health_state \<Rightarrow> goroutine \<Rightarrow> bool" where
  "go_ok s g \<longleftrightarrow> grEval g < length (hsEvals s) \<and> grIndex g < evNext (hsEvals s ! grEval g) \<and>
     (case grPhase g of
        Probing \<Rightarrow> hcRunning (hgChecks (hsRegistry s) ! grIndex g) \<and> waiting s g
      | Cleared out res \<Rightarrow> result_ok s (grIndex g) out res \<and> waiting s g
      | Sent out res \<Rightarrow> result_ok s (grIndex g) out res)"

definition go_distinct :: "goroutine list \<Rightarrow> bool" where
  "go_distinct gs \<longleftrightarrow>
     (\<forall>g < length gs. \<forall>h < length gs. grIndex (gs ! g) = grIndex (gs ! h) \<longrightarrow>
        grEval (gs ! g) = grEval (gs ! h) \<or> grPhase (gs ! g) = Probing \<and> grPhase (gs ! h) = Probing \<longrightarrow> g = h)"

definition health_inv :: "health_state \<Rightarrow> bool" where
  "health_inv s \<longleftrightarrow> (\<forall>e < length (hsEvals s). ev_ok s e (hsEvals s ! e)) \<and>
     (\<forall>g \<in> set (hsGo s). go_ok s g) \<and> go_distinct (hsGo s)"

lemma grows_ident:
  "grows s s' \<Longrightarrow> i < length (hgChecks (hsRegistry s)) \<Longrightarrow> named s' i = named s i \<and> probe_ok s' i = probe_ok s i"
  by (auto simp: grows_def named_def probe_ok_def fun_eq_iff)

lemma grows_sent: "grows s s' \<Longrightarrow> sent s e i out res \<Longrightarrow> sent s' e i out res"
  by (simp add: grows_def)

lemma entry_ok_grows:
  assumes "entry_ok s e ev i r" "grows s s'" "i < length (hgChecks (hsRegistry s))"
  shows "entry_ok s' e ev i r"
proof (cases "hrStatus r = StatusUp")
  case True
  then have "named s i r" "\<exists>out res. sent s e i out res \<and> probe_ok s i out" using assms(1) by (simp_all add: entry_ok_def)
  then show ?thesis using True grows_ident[OF assms(2,3)] grows_sent[OF assms(2)] unfolding entry_ok_def by metis
next
  case False
  then have "named s i r" "down_reason s e ev i r" using assms(1) by (simp_all add: entry_ok_def)
  moreover have "down_reason s' e ev i r"
    using \<open>down_reason s e ev i r\<close> grows_ident[OF assms(2,3)] grows_sent[OF assms(2)]
    unfolding down_reason_def by metis
  ultimately show ?thesis using False grows_ident[OF assms(2,3)] by (simp add: entry_ok_def)
qed

definition ev_shape :: "health_state \<Rightarrow> evaluation \<Rightarrow> bool" where
  "ev_shape s ev \<longleftrightarrow>
     evNext ev \<le> evCount ev \<and> evCount ev \<le> length (hgChecks (hsRegistry s)) \<and> length (evResults ev) = evNext ev \<and>
     (\<forall>i \<in> set (evPending ev). i < evNext ev) \<and>
     (\<forall>R. evReport ev = Some R \<longrightarrow> evNext ev = evCount ev \<and> evPending ev = [] \<and> R = make_report (evResults ev))"

lemma ev_okI:
  assumes "ev_shape s ev"
    and "\<And>i res. (i, res) \<in> set (evOutcomes ev) \<Longrightarrow> i < evNext ev \<and> (\<exists>out. sent s e i out res)"
    and "\<And>i. i < evNext ev \<Longrightarrow> entry_ok s e ev i (evResults ev ! i)"
  shows "ev_ok s e ev"
  using assms unfolding ev_ok_def ev_shape_def by blast

lemma ev_okD:
  assumes "ev_ok s e ev"
  shows "ev_shape s ev"
    and "(i, res) \<in> set (evOutcomes ev) \<Longrightarrow> i < evNext ev \<and> (\<exists>out. sent s e i out res)"
    and "i < evNext ev \<Longrightarrow> entry_ok s e ev i (evResults ev ! i)"
  using assms unfolding ev_ok_def ev_shape_def by blast+

lemma ev_shape_next: "ev_shape s ev \<Longrightarrow> i < evNext ev \<Longrightarrow> i < length (hgChecks (hsRegistry s))"
  by (simp add: ev_shape_def)

lemma ev_ok_grows:
  assumes "ev_ok s e ev" "grows s s'" shows "ev_ok s' e ev"
proof (rule ev_okI)
  show "ev_shape s' ev" using ev_okD(1)[OF assms(1)] assms(2) by (auto simp: ev_shape_def grows_def)
  show "i < evNext ev \<and> (\<exists>out. sent s' e i out res)" if "(i, res) \<in> set (evOutcomes ev)" for i res
    using ev_okD(2)[OF assms(1) that] grows_sent[OF assms(2)] by blast
  show "entry_ok s' e ev i (evResults ev ! i)" if "i < evNext ev" for i
    using entry_ok_grows[OF ev_okD(3)[OF assms(1) that] assms(2) ev_shape_next[OF ev_okD(1)[OF assms(1)] that]] .
qed

lemma result_ok_grows:
  "result_ok s i out res \<Longrightarrow> grows s s' \<Longrightarrow> i < length (hgChecks (hsRegistry s)) \<Longrightarrow> result_ok s' i out res"
  by (simp add: result_ok_def grows_ident)

section \<open>Steps that change one evaluation\<close>

lemma health_invD:
  assumes "health_inv s"
  shows "e < length (hsEvals s) \<Longrightarrow> ev_ok s e (hsEvals s ! e)"
    and "g \<in> set (hsGo s) \<Longrightarrow> go_ok s g"
    and "go_distinct (hsGo s)"
  using assms by (auto simp: health_inv_def)

lemma go_index:
  assumes "health_inv s" "g \<in> set (hsGo s)"
  shows "grEval g < length (hsEvals s)" "grIndex g < evNext (hsEvals s ! grEval g)"
    "grIndex g < length (hgChecks (hsRegistry s))"
proof -
  show 1: "grEval g < length (hsEvals s)" "grIndex g < evNext (hsEvals s ! grEval g)"
    using health_invD(2)[OF assms] by (simp_all add: go_ok_def)
  show "grIndex g < length (hgChecks (hsRegistry s))"
    using ev_shape_next[OF ev_okD(1)[OF health_invD(1)[OF assms(1) 1(1)]] 1(2)] .
qed

lemma go_ok_step:
  assumes "health_inv s" "g \<in> set (hsGo s)" "grows s s'" "length (hsEvals s) \<le> length (hsEvals s')"
    and "evNext (hsEvals s ! grEval g) \<le> evNext (hsEvals s' ! grEval g)"
    and "waiting s g \<Longrightarrow> (\<And>out res. grPhase g \<noteq> Sent out res) \<Longrightarrow> waiting s' g"
    and "grPhase g = Probing \<Longrightarrow> hcRunning (hgChecks (hsRegistry s) ! grIndex g) \<Longrightarrow> hcRunning (hgChecks (hsRegistry s') ! grIndex g)"
  shows "go_ok s' g"
  using health_invD(2)[OF assms(1,2)] assms(4-7) result_ok_grows[OF _ assms(3) go_index(3)[OF assms(1,2)]]
  by (auto simp: go_ok_def split: phase.splits)

lemma set_eval_simps [simp]:
  "hsRegistry (set_eval e ev s) = hsRegistry s" "hsGo (set_eval e ev s) = hsGo s"
  "hsEvals (set_eval e ev s) = (hsEvals s)[e := ev]"
  by (simp_all add: set_eval_def)

lemma same_checks_and_go: "hsRegistry s' = hsRegistry s \<Longrightarrow> hsGo s' = hsGo s \<Longrightarrow> grows s s'"
  by (simp add: grows_def ident_def sent_def)

lemma inv_set_eval:
  assumes inv: "health_inv s" and e: "e < length (hsEvals s)" and ev: "ev_ok s e ev"
    and le: "evNext (hsEvals s ! e) \<le> evNext ev"
    and wait: "\<And>g. g \<in> set (hsGo s) \<Longrightarrow> grEval g = e \<Longrightarrow> (\<And>out res. grPhase g \<noteq> Sent out res) \<Longrightarrow> waiting s g \<Longrightarrow>
      grIndex g \<in> set (evPending ev) \<or> evCtx ev \<noteq> None"
  shows "health_inv (set_eval e ev s)"
proof -
  let ?s = "set_eval e ev s"
  have gr: "grows s ?s" by (rule same_checks_and_go) simp_all
  have "ev_ok ?s i (hsEvals ?s ! i)" if "i < length (hsEvals s)" for i
    using ev_ok_grows[OF ev gr] ev_ok_grows[OF health_invD(1)[OF inv that] gr] that by (cases "i = e") simp_all
  moreover have "go_ok ?s g" if g: "g \<in> set (hsGo s)" for g
  proof (rule go_ok_step[OF inv g gr])
    show "evNext (hsEvals s ! grEval g) \<le> evNext (hsEvals ?s ! grEval g)"
      using le e by (cases "grEval g = e") simp_all
    show "waiting ?s g" if w: "waiting s g" and p: "\<And>out res. grPhase g \<noteq> Sent out res"
    proof (cases "grEval g = e")
      case True
      then show ?thesis using wait[OF g True p w] e by (simp add: waiting_def)
    qed (use w in \<open>simp add: waiting_def\<close>)
  qed simp_all
  ultimately show ?thesis using health_invD(3)[OF inv] by (simp add: health_inv_def)
qed

lemma entry_ok_eval:
  assumes "entry_ok s e ev i r" "i \<in> set (evPending ev) \<Longrightarrow> i \<in> set (evPending ev') \<or> evCtx ev' \<noteq> None"
    "evCtx ev \<noteq> None \<Longrightarrow> evCtx ev' \<noteq> None"
  shows "entry_ok s e ev' i r"
  using assms unfolding entry_ok_def down_reason_def by (auto split: if_splits)

lemma step_CtxDone:
  assumes inv: "health_inv s" and e: "e < length (hsEvals s)"
  shows "health_inv (set_eval e ((hsEvals s ! e)\<lparr>evCtx := Some err\<rparr>) s)"
proof (rule inv_set_eval[OF inv e])
  let ?ev = "hsEvals s ! e"
  note ok = health_invD(1)[OF inv e]
  show "ev_ok s e (?ev\<lparr>evCtx := Some err\<rparr>)"
  proof (rule ev_okI)
    show "ev_shape s (?ev\<lparr>evCtx := Some err\<rparr>)" using ev_okD(1)[OF ok] by (simp add: ev_shape_def)
  qed (use ev_okD(2)[OF ok] ev_okD(3)[OF ok] in \<open>auto intro: entry_ok_eval[where ev = "hsEvals s ! e"]\<close>)
qed simp_all

lemma step_Finish:
  assumes inv: "health_inv s" and e: "e < length (hsEvals s)"
    and "evNext (hsEvals s ! e) = evCount (hsEvals s ! e)" "evPending (hsEvals s ! e) = []"
  shows "health_inv (set_eval e ((hsEvals s ! e)\<lparr>evReport := Some (make_report (evResults (hsEvals s ! e)))\<rparr>) s)"
proof (rule inv_set_eval[OF inv e])
  let ?ev = "hsEvals s ! e"
  note ok = health_invD(1)[OF inv e]
  show "ev_ok s e (?ev\<lparr>evReport := Some (make_report (evResults ?ev))\<rparr>)"
  proof (rule ev_okI)
    show "ev_shape s (?ev\<lparr>evReport := Some (make_report (evResults ?ev))\<rparr>)"
      using ev_okD(1)[OF ok] assms(3,4) by (simp add: ev_shape_def)
  qed (use ev_okD(2)[OF ok] ev_okD(3)[OF ok] in \<open>auto intro: entry_ok_eval[where ev = "hsEvals s ! e"]\<close>)
qed (simp_all add: waiting_def)

lemma step_GiveUp:
  assumes inv: "health_inv s" and e: "e < length (hsEvals s)"
    and ctx: "evCtx (hsEvals s ! e) = Some err" and pend: "evPending (hsEvals s ! e) \<noteq> []"
  shows "health_inv (set_eval e (give_up err ms (hsEvals s ! e)) s)"
proof (rule inv_set_eval[OF inv e])
  let ?ev = "hsEvals s ! e"
  note ok = health_invD(1)[OF inv e]
  show "ev_ok s e (give_up err ms ?ev)"
  proof (rule ev_okI)
    show "ev_shape s (give_up err ms ?ev)"
      using ev_okD(1)[OF ok] pend by (auto simp: ev_shape_def give_up_def)
    show "entry_ok s e (give_up err ms ?ev) i (evResults (give_up err ms ?ev) ! i)"
      if "i < evNext (give_up err ms ?ev)" for i
    proof -
      have i: "i < evNext ?ev" using that by (simp add: give_up_def)
      then have "i < length (evResults ?ev)" using ev_okD(1)[OF ok] by (simp add: ev_shape_def)
      then show ?thesis using ev_okD(3)[OF ok i] ctx
        by (auto simp: give_up_def entry_ok_def down_reason_def named_def split: if_splits)
    qed
  qed (use ev_okD(2)[OF ok] in \<open>auto simp: give_up_def\<close>)
qed (simp_all add: give_up_def ctx)

lemma go_unique:
  assumes "go_distinct gs" "g \<in> set gs" "h \<in> set gs" "grIndex g = grIndex h"
    and "grEval g = grEval h \<or> grPhase g = Probing \<and> grPhase h = Probing"
  shows "g = h"
proof -
  obtain i j where "i < length gs" "gs ! i = g" "j < length gs" "gs ! j = h"
    using assms(2,3) by (auto simp: in_set_conv_nth)
  then show ?thesis using assms(1,4,5) unfolding go_distinct_def by blast
qed

lemma sent_result_ok: "health_inv s \<Longrightarrow> sent s e i out res \<Longrightarrow> result_ok s i out res"
  using health_invD(2)[of s] unfolding sent_def go_ok_def by fastforce

lemma step_Receive:
  assumes inv: "health_inv s" and e: "e < length (hsEvals s)"
    and out: "evOutcomes (hsEvals s ! e) = (i, res) # rest" and pend: "evPending (hsEvals s ! e) \<noteq> []"
  shows "health_inv (set_eval e ((hsEvals s ! e)\<lparr>evResults := (evResults (hsEvals s ! e))[i := res],
    evPending := removeAll i (evPending (hsEvals s ! e)), evOutcomes := rest\<rparr>) s)"
proof (rule inv_set_eval[OF inv e])
  let ?ev = "hsEvals s ! e"
  let ?ev' = "?ev\<lparr>evResults := (evResults ?ev)[i := res], evPending := removeAll i (evPending ?ev), evOutcomes := rest\<rparr>"
  note ok = health_invD(1)[OF inv e]
  have "(i, res) \<in> set (evOutcomes ?ev)" using out by simp
  from ev_okD(2)[OF ok this] obtain o' where i: "i < evNext ?ev" and sent: "sent s e i o' res" by blast
  then have len: "i < length (evResults ?ev)" using ev_okD(1)[OF ok] by (simp add: ev_shape_def)
  have r: "result_ok s i o' res" by (rule sent_result_ok[OF inv sent])
  show "ev_ok s e ?ev'"
  proof (rule ev_okI)
    show "ev_shape s ?ev'" using ev_okD(1)[OF ok] pend by (auto simp: ev_shape_def)
    show "j < evNext ?ev' \<and> (\<exists>out. sent s e j out r)" if "(j, r) \<in> set (evOutcomes ?ev')" for j r
      using ev_okD(2)[OF ok, of j r] that out by simp
    show "entry_ok s e ?ev' j (evResults ?ev' ! j)" if j: "j < evNext ?ev'" for j
    proof (cases "j = i")
      case True
      have "entry_ok s e ?ev' i res" using r sent unfolding entry_ok_def result_ok_def down_reason_def by auto
      then show ?thesis using True len by simp
    next
      case False
      have "entry_ok s e ?ev j (evResults ?ev ! j)" using ev_okD(3)[OF ok] j by simp
      then have "entry_ok s e ?ev' j (evResults ?ev ! j)" by (rule entry_ok_eval) (use False in auto)
      then show ?thesis using False by simp
    qed
  qed
  show "grIndex g \<in> set (evPending ?ev') \<or> evCtx ?ev' \<noteq> None"
    if g: "g \<in> set (hsGo s)" and ge: "grEval g = e" and p: "\<And>out res. grPhase g \<noteq> Sent out res" and w: "waiting s g" for g
  proof -
    obtain h where h: "h \<in> set (hsGo s)" "grEval h = e" "grIndex h = i" "grPhase h = Sent o' res"
      using sent by (auto simp: sent_def)
    have "grIndex g \<noteq> i"
    proof
      assume "grIndex g = i"
      then have "g = h" using go_unique[OF health_invD(3)[OF inv] g h(1)] ge h by simp
      then show False using p[of o' res] h by simp
    qed
    then show ?thesis using w ge by (simp add: waiting_def)
  qed
qed simp

section \<open>Steps that change a guard or a goroutine\<close>

lemma set_running_simps [simp]:
  "hsEvals (set_running i b s) = hsEvals s" "hsGo (set_running i b s) = hsGo s"
  "length (hgChecks (hsRegistry (set_running i b s))) = length (hgChecks (hsRegistry s))"
  by (simp_all add: set_running_def)

lemma ident_set_running [simp]: "ident (set_running i b s) j = ident s j"
  by (cases "i < length (hgChecks (hsRegistry s))"; cases "i = j") (simp_all add: ident_def set_running_def Let_def list_update_beyond)

lemma running_set_running:
  "j < length (hgChecks (hsRegistry s)) \<Longrightarrow>
     hcRunning (hgChecks (hsRegistry (set_running i b s)) ! j) = (if i = j then b else hcRunning (hgChecks (hsRegistry s) ! j))"
  by (simp add: set_running_def)

lemma grows_set_running: "grows s (set_running i b s)"
  by (simp add: grows_def sent_def)

lemma set_phase_simps [simp]:
  "hsEvals (set_phase g p s) = hsEvals s" "hsRegistry (set_phase g p s) = hsRegistry s"
  "hsGo (set_phase g p s) = (hsGo s)[g := (hsGo s ! g)\<lparr>grPhase := p\<rparr>]"
  by (simp_all add: set_phase_def)

lemma grows_set_phase:
  assumes "\<And>out res. grPhase (hsGo s ! g) \<noteq> Sent out res"
  shows "grows s (set_phase g p s)"
proof -
  have "sent (set_phase g p s) e i out res" if was: "sent s e i out res" for e i out res
  proof -
    obtain g' where g': "g' \<in> set (hsGo s)" "grEval g' = e" "grIndex g' = i" "grPhase g' = Sent out res"
      using was by (auto simp: sent_def)
    then obtain h where h: "h < length (hsGo s)" "hsGo s ! h = g'" by (auto simp: in_set_conv_nth)
    then have "h \<noteq> g" using g' assms[of out res] by blast
    then have "hsGo (set_phase g p s) ! h = g'" "h < length (hsGo (set_phase g p s))" using h by simp_all
    then have "g' \<in> set (hsGo (set_phase g p s))" by (metis nth_mem)
    then show ?thesis using g' unfolding sent_def by blast
  qed
  then show ?thesis by (simp add: grows_def ident_def)
qed

lemma grows_trans: "grows s t \<Longrightarrow> grows t u \<Longrightarrow> grows s u"
  by (auto simp: grows_def)

lemma go_distinct_phase:
  assumes "go_distinct gs" "p \<noteq> Probing" shows "go_distinct (gs[g := (gs ! g)\<lparr>grPhase := p\<rparr>])"
proof -
  let ?gs = "gs[g := (gs ! g)\<lparr>grPhase := p\<rparr>]"
  have "grIndex (?gs ! k) = grIndex (gs ! k) \<and> grEval (?gs ! k) = grEval (gs ! k) \<and> (grPhase (?gs ! k) = Probing \<longrightarrow> grPhase (gs ! k) = Probing)"
    if "k < length gs" for k
    using that assms(2) by (cases "k = g") simp_all
  then show ?thesis using assms(1) unfolding go_distinct_def length_list_update by metis
qed

lemma outcome_result_ok:
  "i < length (hgChecks (hsRegistry s)) \<Longrightarrow> result_ok s i out (outcome_result (hgChecks (hsRegistry s) ! i) out ms)"
  by (auto simp: result_ok_def named_def probe_ok_def ident_def outcome_result_def initial_result_def Let_def
      split: outcome.splits option.splits)

lemma inv_set_running:
  assumes inv: "health_inv s" and "b \<or> (\<forall>h \<in> set (hsGo s). grPhase h = Probing \<longrightarrow> grIndex h \<noteq> i)"
  shows "health_inv (set_running i b s)"
proof -
  let ?s = "set_running i b s"
  have "go_ok ?s g" if g: "g \<in> set (hsGo s)" for g
    by (rule go_ok_step[OF inv g grows_set_running])
      (use assms(2) g running_set_running[OF go_index(3)[OF inv g]] in \<open>auto simp: waiting_def\<close>)
  then show ?thesis using inv ev_ok_grows[OF _ grows_set_running] unfolding health_inv_def by simp
qed

lemma inv_set_phase:
  assumes inv: "health_inv s" and g: "g < length (hsGo s)" and ns: "\<And>out res. grPhase (hsGo s ! g) \<noteq> Sent out res"
    and p: "p \<noteq> Probing" and ok: "go_ok s ((hsGo s ! g)\<lparr>grPhase := p\<rparr>)"
  shows "health_inv (set_phase g p s)"
proof -
  let ?s = "set_phase g p s"
  have gr: "grows s ?s" by (rule grows_set_phase[OF ns])
  have "result_ok ?s = result_ok s" "waiting ?s = waiting s"
    by (simp_all add: fun_eq_iff result_ok_def named_def probe_ok_def waiting_def ident_def)
  then have same: "go_ok ?s h = go_ok s h" for h by (simp add: go_ok_def split: phase.split)
  have "set (hsGo ?s) \<subseteq> insert ((hsGo s ! g)\<lparr>grPhase := p\<rparr>) (set (hsGo s))"
    by (simp add: set_update_subset_insert)
  then have "go_ok ?s h" if "h \<in> set (hsGo ?s)" for h
    using that ok health_invD(2)[OF inv] unfolding same by blast
  then show ?thesis
    using ev_ok_grows[OF health_invD(1)[OF inv] gr] go_distinct_phase[OF health_invD(3)[OF inv] p]
    by (simp add: health_inv_def)
qed

lemma step_ProbeEnds:
  assumes inv: "health_inv s" and g: "g < length (hsGo s)" and p: "grPhase (hsGo s ! g) = Probing"
  shows "health_inv (set_running (grIndex (hsGo s ! g)) False
    (set_phase g (Cleared out (outcome_result (hgChecks (hsRegistry s) ! grIndex (hsGo s ! g)) out ms)) s))"
proof -
  let ?i = "grIndex (hsGo s ! g)" and ?p = "Cleared out (outcome_result (hgChecks (hsRegistry s) ! grIndex (hsGo s ! g)) out ms)"
  have mem: "hsGo s ! g \<in> set (hsGo s)" using g by simp
  have "go_ok s ((hsGo s ! g)\<lparr>grPhase := ?p\<rparr>)"
    using health_invD(2)[OF inv mem] p outcome_result_ok[OF go_index(3)[OF inv mem]]
    by (simp add: go_ok_def waiting_def)
  then have inv1: "health_inv (set_phase g ?p s)" by (intro inv_set_phase[OF inv g]) (simp_all add: p)
  have "grIndex h \<noteq> ?i" if h: "h \<in> set (hsGo (set_phase g ?p s))" and hp: "grPhase h = Probing" for h
  proof -
    obtain k where k: "k < length (hsGo s)" "h = hsGo (set_phase g ?p s) ! k" using h by (auto simp: in_set_conv_nth)
    then have "k \<noteq> g" using hp g by auto
    then have "h = hsGo s ! k" using k by simp
    then show ?thesis using health_invD(3)[OF inv] k(1) g p hp \<open>k \<noteq> g\<close> unfolding go_distinct_def by metis
  qed
  then show ?thesis by (intro inv_set_running[OF inv1]) blast
qed

lemma step_Publish:
  assumes inv: "health_inv s" and g: "g < length (hsGo s)" and p: "grPhase (hsGo s ! g) = Cleared out res"
  shows "health_inv (set_eval (grEval (hsGo s ! g)) ((hsEvals s ! grEval (hsGo s ! g))
    \<lparr>evOutcomes := evOutcomes (hsEvals s ! grEval (hsGo s ! g)) @ [(grIndex (hsGo s ! g), res)]\<rparr>) (set_phase g (Sent out res) s))"
proof -
  let ?s = "set_phase g (Sent out res) s" and ?e = "grEval (hsGo s ! g)" and ?i = "grIndex (hsGo s ! g)"
  let ?ev = "hsEvals s ! grEval (hsGo s ! g)"
  let ?ev' = "?ev\<lparr>evOutcomes := evOutcomes ?ev @ [(?i, res)]\<rparr>"
  have mem: "hsGo s ! g \<in> set (hsGo s)" using g by simp
  note idx = go_index[OF inv mem]
  have "go_ok s ((hsGo s ! g)\<lparr>grPhase := Sent out res\<rparr>)"
    using health_invD(2)[OF inv mem] p by (simp add: go_ok_def)
  then have inv1: "health_inv ?s" by (intro inv_set_phase[OF inv g]) (simp_all add: p)
  have sent: "sent ?s ?e ?i out res"
    using g unfolding sent_def by (intro bexI[of _ "(hsGo s ! g)\<lparr>grPhase := Sent out res\<rparr>"]) (auto intro: set_update_memI)
  have ok: "ev_ok ?s ?e ?ev" using health_invD(1)[OF inv1, of ?e] idx(1) by simp
  have "ev_ok ?s ?e ?ev'"
  proof (rule ev_okI)
    show "ev_shape ?s ?ev'" using ev_okD(1)[OF ok] by (simp add: ev_shape_def)
    show "j < evNext ?ev' \<and> (\<exists>out. sent ?s ?e j out r)" if "(j, r) \<in> set (evOutcomes ?ev')" for j r
      using that ev_okD(2)[OF ok] idx(2) sent by auto
    show "entry_ok ?s ?e ?ev' j (evResults ?ev' ! j)" if "j < evNext ?ev'" for j
      using ev_okD(3)[OF ok, of j] that by (auto intro: entry_ok_eval[where ev = ?ev])
  qed
  then show ?thesis using idx(1) by (intro inv_set_eval[OF inv1]) (simp_all add: waiting_def)
qed

lemma step_Register:
  assumes inv: "health_inv s" shows "health_inv (s\<lparr>hsRegistry := fst (health_Register m cs (hsRegistry s))\<rparr>)"
proof -
  let ?s = "s\<lparr>hsRegistry := fst (health_Register m cs (hsRegistry s))\<rparr>"
  have "\<exists>xs. hgChecks (fst (health_Register m cs r)) = hgChecks r @ xs" for r
    by (induction m cs r rule: health_Register.induct) (auto split: option.splits)
  then obtain xs where xs: "hgChecks (hsRegistry ?s) = hgChecks (hsRegistry s) @ xs" by auto
  have gr: "grows s ?s" using xs by (auto simp: grows_def ident_def sent_def nth_append)
  have "go_ok ?s g" if g: "g \<in> set (hsGo s)" for g
    using go_ok_step[OF inv g gr] xs go_index(3)[OF inv g] by (simp add: waiting_def nth_append)
  then show ?thesis using ev_ok_grows[OF health_invD(1)[OF inv] gr] health_invD(3)[OF inv] by (simp add: health_inv_def)
qed

lemma step_Evaluate:
  assumes inv: "health_inv s" shows "health_inv (s\<lparr>hsEvals := hsEvals s @ [start_evaluation (hsRegistry s)]\<rparr>)"
proof -
  let ?s = "s\<lparr>hsEvals := hsEvals s @ [start_evaluation (hsRegistry s)]\<rparr>"
  have gr: "grows s ?s" by (rule same_checks_and_go) simp_all
  have "ev_ok s e (start_evaluation (hsRegistry s))" for e by (simp add: ev_ok_def start_evaluation_def)
  then have "ev_ok ?s e (hsEvals ?s ! e)" if "e < length (hsEvals ?s)" for e
    using ev_ok_grows[OF _ gr] health_invD(1)[OF inv] that by (auto simp: nth_append)
  moreover have "go_ok ?s g" if g: "g \<in> set (hsGo s)" for g
    using go_ok_step[OF inv g gr] go_index(1)[OF inv g] by (simp add: waiting_def nth_append)
  ultimately show ?thesis using health_invD(3)[OF inv] unfolding health_inv_def by simp
qed

text \<open>The evaluation after one more entry: its result, and the check pending or not.\<close>

lemma ev_ok_extend:
  assumes ok: "ev_ok s e ev" and lt: "evNext ev < evCount ev"
    and ev': "ev' = ev\<lparr>evNext := evNext ev + 1, evResults := evResults ev @ [r], evPending := pend\<rparr>"
    and pend: "set (evPending ev) \<subseteq> set pend" "set pend \<subseteq> insert (evNext ev) (set (evPending ev))"
    and r: "entry_ok s e ev' (evNext ev) r"
  shows "ev_ok s e ev'"
proof (rule ev_okI)
  have sh: "ev_shape s ev" by (rule ev_okD(1)[OF ok])
  show "ev_shape s ev'" using sh lt pend unfolding ev' ev_shape_def by fastforce
  show "i < evNext ev' \<and> (\<exists>out. sent s e i out res)" if "(i, res) \<in> set (evOutcomes ev')" for i res
    using ev_okD(2)[OF ok, of i res] that unfolding ev' by auto
  show "entry_ok s e ev' i (evResults ev' ! i)" if i: "i < evNext ev'" for i
  proof (cases "i = evNext ev")
    case True
    then show ?thesis using r sh unfolding ev' by (simp add: ev_shape_def nth_append)
  next
    case False
    then have i: "i < evNext ev" using i unfolding ev' by simp
    have "entry_ok s e ev i (evResults ev ! i)" by (rule ev_okD(3)[OF ok i])
    then have "entry_ok s e ev' i (evResults ev ! i)" by (rule entry_ok_eval) (use pend(1) in \<open>auto simp: ev'\<close>)
    then show ?thesis using i sh unfolding ev' by (simp add: ev_shape_def nth_append)
  qed
qed

lemma step_skip:
  assumes inv: "health_inv s" and e: "e < length (hsEvals s)" and lt: "evNext (hsEvals s ! e) < evCount (hsEvals s ! e)"
    and why: "evCtx (hsEvals s ! e) \<noteq> None \<or> err = ''previous probe is still running''"
  shows "health_inv (set_eval e ((hsEvals s ! e)\<lparr>evNext := evNext (hsEvals s ! e) + 1,
    evResults := evResults (hsEvals s ! e) @ [(initial_result (hgChecks (hsRegistry s) ! evNext (hsEvals s ! e)))\<lparr>hrError := err\<rparr>]\<rparr>) s)"
    (is "health_inv (set_eval e ?ev' s)")
proof (rule inv_set_eval[OF inv e])
  show "ev_ok s e ?ev'"
    by (rule ev_ok_extend[OF health_invD(1)[OF inv e] lt, where pend = "evPending (hsEvals s ! e)"])
      (use why in \<open>auto simp: entry_ok_def down_reason_def named_def ident_def Let_def initial_result_def\<close>)
qed (simp_all add: waiting_def)

lemma step_spawn:
  assumes inv: "health_inv s" and e: "e < length (hsEvals s)" and lt: "evNext (hsEvals s ! e) < evCount (hsEvals s ! e)"
    and run: "hcRunning (hgChecks (hsRegistry s) ! evNext (hsEvals s ! e))"
    and free: "\<And>g. g \<in> set (hsGo s) \<Longrightarrow> grPhase g = Probing \<Longrightarrow> grIndex g \<noteq> evNext (hsEvals s ! e)"
    and ev': "ev' = (hsEvals s ! e)\<lparr>evNext := evNext (hsEvals s ! e) + 1,
      evResults := evResults (hsEvals s ! e) @ [initial_result (hgChecks (hsRegistry s) ! evNext (hsEvals s ! e))],
      evPending := evNext (hsEvals s ! e) # evPending (hsEvals s ! e)\<rparr>"
  shows "health_inv ((set_eval e ev' s)\<lparr>hsGo := hsGo s @ [\<lparr>grEval = e, grIndex = evNext (hsEvals s ! e), grPhase = Probing\<rparr>]\<rparr>)"
    (is "health_inv ?s'")
proof -
  let ?s = "set_eval e ev' s" and ?i = "evNext (hsEvals s ! e)"
  let ?n = "\<lparr>grEval = e, grIndex = ?i, grPhase = Probing\<rparr>"
  have "ev_ok s e ev'"
    by (rule ev_ok_extend[OF health_invD(1)[OF inv e] lt ev'])
      (auto simp: ev' entry_ok_def down_reason_def named_def ident_def Let_def initial_result_def)
  then have inv1: "health_inv ?s"
    by (intro inv_set_eval[OF inv e]) (auto simp: ev' waiting_def)
  have gr: "grows ?s ?s'" by (auto simp: grows_def ident_def sent_def)
  have new: "go_ok ?s' ?n" using run e by (simp add: go_ok_def waiting_def ev')
  have "go_ok ?s' g" if g: "g \<in> set (hsGo s)" for g
    by (rule go_ok_step[OF inv1 _ gr]) (use g in \<open>simp_all add: waiting_def\<close>)
  with new have go: "\<forall>g \<in> set (hsGo ?s'). go_ok ?s' g" by simp
  have "grIndex g = ?i \<Longrightarrow> \<not> (grEval g = e \<or> grPhase g = Probing)" if g: "g \<in> set (hsGo s)" for g
    using free[OF g] go_index(2)[OF inv g] by auto
  then have "go_distinct (hsGo s @ [?n])"
    using health_invD(3)[OF inv] unfolding go_distinct_def
    by (auto simp: nth_append less_Suc_eq) (metis nth_mem)+
  then show ?thesis
    using go ev_ok_grows[OF health_invD(1)[OF inv1] gr] by (simp add: health_inv_def)
qed

lemma launch_skip:
  assumes "evCtx (hsEvals s ! e) = Some err \<or>
      evCtx (hsEvals s ! e) = None \<and> hcRunning (hgChecks (hsRegistry s) ! evNext (hsEvals s ! e)) \<and> err = ''previous probe is still running''"
  shows "launch e s = set_eval e ((hsEvals s ! e)\<lparr>evNext := evNext (hsEvals s ! e) + 1,
    evResults := evResults (hsEvals s ! e) @ [(initial_result (hgChecks (hsRegistry s) ! evNext (hsEvals s ! e)))\<lparr>hrError := err\<rparr>]\<rparr>) s"
  using assms by (auto simp: launch_def Let_def)

lemma launch_spawn:
  assumes "evCtx (hsEvals s ! e) = None" "\<not> hcRunning (hgChecks (hsRegistry s) ! evNext (hsEvals s ! e))"
    and "ev' = (hsEvals s ! e)\<lparr>evNext := evNext (hsEvals s ! e) + 1,
      evResults := evResults (hsEvals s ! e) @ [initial_result (hgChecks (hsRegistry s) ! evNext (hsEvals s ! e))],
      evPending := evNext (hsEvals s ! e) # evPending (hsEvals s ! e)\<rparr>"
    and "t = set_running (evNext (hsEvals s ! e)) True s"
  shows "launch e s = (set_eval e ev' t)\<lparr>hsGo := hsGo t @ [\<lparr>grEval = e, grIndex = evNext (hsEvals s ! e), grPhase = Probing\<rparr>]\<rparr>"
  using assms by (simp add: launch_def Let_def)

lemma step_Launch:
  assumes inv: "health_inv s" and e: "e < length (hsEvals s)" and lt: "evNext (hsEvals s ! e) < evCount (hsEvals s ! e)"
  shows "health_inv (launch e s)"
proof (cases "evCtx (hsEvals s ! e)")
  case (Some err)
  then show ?thesis using step_skip[OF inv e lt, of err] launch_skip[of s e err] by simp
next
  case None
  let ?i = "evNext (hsEvals s ! e)" and ?t = "set_running (evNext (hsEvals s ! e)) True s"
  have i: "?i < length (hgChecks (hsRegistry s))"
    using ev_okD(1)[OF health_invD(1)[OF inv e]] lt by (simp add: ev_shape_def)
  show ?thesis
  proof (cases "hcRunning (hgChecks (hsRegistry s) ! ?i)")
    case True
    then show ?thesis using step_skip[OF inv e lt] launch_skip[of s e] None by simp
  next
    case False
    have "health_inv ?t" by (rule inv_set_running[OF inv]) simp
    moreover have "grIndex g \<noteq> ?i" if "g \<in> set (hsGo s)" "grPhase g = Probing" for g
      using health_invD(2)[OF inv that(1)] that(2) False by (auto simp: go_ok_def)
    moreover have "initial_result (hgChecks (hsRegistry ?t) ! ?i) = initial_result (hgChecks (hsRegistry s) ! ?i)"
      using i by (simp add: initial_result_def set_running_def)
    moreover have "hcRunning (hgChecks (hsRegistry ?t) ! ?i)" using running_set_running[OF i] by simp
    ultimately show ?thesis
      using step_spawn[of ?t e] e lt unfolding launch_spawn[OF None False refl refl] by simp
  qed
qed

lemma health_step_inv: "health_step ev s = Some s' \<Longrightarrow> health_inv s \<Longrightarrow> health_inv s'"
  by (cases ev)
    (auto simp: Let_def step_Register step_Evaluate step_Launch step_CtxDone step_ProbeEnds step_Finish
      intro: step_Publish step_Receive step_GiveUp split: if_splits phase.splits list.splits option.splits)

lemma health_run_inv: "health_run evs s = Some s' \<Longrightarrow> health_inv s \<Longrightarrow> health_inv s'"
  by (induction evs arbitrary: s) (auto split: option.splits dest: health_step_inv)

lemma health_init_inv: "health_inv health_init"
  by (simp add: health_inv_def health_init_def go_distinct_def)

text \<open>The states a schedule can reach from an empty registry.\<close>

definition health_reachable :: "health_state \<Rightarrow> bool" where
  "health_reachable s \<longleftrightarrow> (\<exists>evs. health_run evs health_init = Some s)"

lemma reachable_inv: "health_reachable s \<Longrightarrow> health_inv s"
  using health_run_inv health_init_inv unfolding health_reachable_def by blast

section \<open>Readiness\<close>

lemma make_report_up: "rpStatus (make_report rs) = StatusUp \<longleftrightarrow> (\<forall>r \<in> set rs. hrStatus r = StatusUp)"
  by (auto simp: make_report_def Let_def list_ex_iff health_sort_def)

lemma sort_key_stable_sorted:
  "sorted (map f (sort_key f xs)) \<and> sorted_wrt (\<lambda>x y. f x = f y \<longrightarrow> g x \<le> g y) (sort_key f xs)"
  if "sorted_wrt (\<lambda>x y. g x \<le> g y) xs"
proof
  show "sorted (map f (sort_key f xs))" by simp
  have "sorted_wrt (\<lambda>x y. f x = f y \<longrightarrow> g x \<le> g y) (insort_key f x ys)"
    if "sorted_wrt (\<lambda>x y. f x = f y \<longrightarrow> g x \<le> g y) ys" "\<forall>y \<in> set ys. g x \<le> g y" for x ys
    using that by (induction ys) (auto simp: set_insort_key)
  then show "sorted_wrt (\<lambda>x y. f x = f y \<longrightarrow> g x \<le> g y) (sort_key f xs)"
    using that by (induction xs) auto
qed

lemma health_sort_sorted:
  "sorted_wrt (\<lambda>x y. hrModule x < hrModule y \<or> hrModule x = hrModule y \<and> hrCheck x \<le> hrCheck y) (health_sort rs)"
proof -
  let ?ys = "health_sort rs"
  have "sorted_wrt (\<lambda>x y. hrCheck x \<le> hrCheck y) (sort_key hrCheck rs)"
    using sorted_sort_key[of hrCheck rs] by (simp only: sorted_map)
  from sort_key_stable_sorted[OF this, of hrModule]
  have a: "sorted_wrt (\<lambda>x y. hrModule x \<le> hrModule y) ?ys" and b: "sorted_wrt (\<lambda>x y. hrModule x = hrModule y \<longrightarrow> hrCheck x \<le> hrCheck y) ?ys"
    by (simp_all add: health_sort_def sorted_map)
  show ?thesis using a b by (auto simp: sorted_wrt_iff_nth_less order.order_iff_strict)
qed

text \<open>The reasons a check counts as failed in the report of evaluation \<open>e\<close>.\<close>

definition failed_check :: "health_state \<Rightarrow> nat \<Rightarrow> evaluation \<Rightarrow> nat \<Rightarrow> bool" where
  "failed_check s e ev i \<longleftrightarrow> evCtx ev \<noteq> None \<or> hrError (evResults ev ! i) = ''previous probe is still running'' \<or>
     (\<exists>out res. sent s e i out res \<and> \<not> probe_ok s i out)"


text \<open>Two evaluations of two checks: the second finds the first check still being probed.\<close>

definition ex_schedule :: "health_event list" where
  "ex_schedule =
     [DoRegister ''db'' [Some (Named ''ping'' True)], DoRegister ''app'' [Some (Named ''queue'' True)],
      DoEvaluate, DoLaunch 0, DoLaunch 0, DoEvaluate, DoLaunch 1, ProbeEnds 1 (Returned None) 3, DoLaunch 1, Finish 1,
      Publish 1, ProbeEnds 0 (Returned None) 5, Publish 0, Receive 0, Receive 0, Finish 0]"

definition ex_schedule_end :: "health_event list" where
  "ex_schedule_end = filter (\<lambda>ev. case ev of Finish e \<Rightarrow> e = 0 | _ \<Rightarrow> True) ex_schedule"


lemma go_of_eval:
  assumes "health_inv s" "e < length (hsEvals s)"
  shows "card {g. g < length (hsGo s) \<and> grEval (hsGo s ! g) = e} \<le> evCount (hsEvals s ! e)"
proof -
  let ?G = "{g. g < length (hsGo s) \<and> grEval (hsGo s ! g) = e}"
  have "inj_on (\<lambda>g. grIndex (hsGo s ! g)) ?G"
    using health_invD(3)[OF assms(1)] unfolding go_distinct_def inj_on_def by auto
  moreover have "(\<lambda>g. grIndex (hsGo s ! g)) ` ?G \<subseteq> {..<evNext (hsEvals s ! e)}"
    using go_index(2)[OF assms(1)] by auto
  ultimately have "card ?G \<le> evNext (hsEvals s ! e)"
    using card_inj_on_le[of _ ?G "{..<evNext (hsEvals s ! e)}"] by auto
  also have "\<dots> \<le> evCount (hsEvals s ! e)" using ev_okD(1)[OF health_invD(1)[OF assms]] by (simp add: ev_shape_def)
  finally show ?thesis .
qed



end
