(* ===== verification/Modules.thy ===== *)
theory Modules
  imports Orm Migrate Cli Health
begin

text \<open>
  Modules and their registry (module.go): validation and selection of the module set, construction from
  factories, capabilities, and the start and stop of the modules that own resources.

  An optional interface that a module may satisfy is an optional field: \<open>None\<close> when the type assertion
  fails. What \<open>Start\<close>, \<open>Stop\<close> and \<open>build\<close> do is a function of the world, of any type, and of the context
  they are given. The functions that call them return, with the world, the sequence of calls they made.
  An error is the list of errors that \<open>errors.Join\<close> joined, empty for nil.
\<close>

section \<open>Modules\<close>

text \<open>The contexts that reach modules: the caller's, that one detached from its cancellation, and the deadline of a shutdown.\<close>

datatype go_context =
    CallerCtx
  | Detached
  | ShutdownCtx duration

type_synonym 'w effect = "go_context \<Rightarrow> 'w \<Rightarrow> 'w \<times> string option"

record 'w lifecycle =
  lcStart :: "'w effect"
  lcStop :: "'w effect"

record ('w, 'u, 'r) module =
  mdName :: string
  mdRoutes :: 'r
  mdChecks :: "check option list option"
  mdCommands :: "command list option"
  mdModels :: "model list option"
  mdMigrations :: "'u migration list option"
  mdLifecycle :: "'w lifecycle option"

record ('w, 'u, 'r) module_factory =
  mfName :: string
  mfBuild :: "(go_context \<Rightarrow> 'w \<Rightarrow> 'w \<times> (string, ('w, 'u, 'r) module option) result) option"

definition LazyModule ::
    "string \<Rightarrow> (go_context \<Rightarrow> 'w \<Rightarrow> 'w \<times> (string, ('w, 'u, 'r) module option) result) option \<Rightarrow> ('w, 'u, 'r) module_factory" where
  "LazyModule name build = \<lparr>mfName = name, mfBuild = build\<rparr>"

datatype module_err =
    ErrNoModules
  | EmptyModuleName nat
  | ErrDuplicateModule string
  | ErrUnknownModule string
  | NoBuild string
  | BuildFailed string string
  | BuildNil string
  | BuildRenamed string string
  | StartFailed string string
  | StopFailed string

section \<open>Selection\<close>

definition quoteAll :: "(string \<Rightarrow> string) \<Rightarrow> string list \<Rightarrow> string list" where
  "quoteAll quote ss = map quote ss"

definition clean_selection :: "string list \<Rightarrow> string list" where
  "clean_selection selection = filter (\<lambda>s. s \<noteq> []) (map TrimSpace selection)"

definition unknown_message :: "(string \<Rightarrow> string) \<Rightarrow> string list \<Rightarrow> string list \<Rightarrow> string" where
  "unknown_message quote unknown registered =
     Join '', '' (quoteAll quote unknown) @ '' not registered (registered: '' @ Join '', '' (quoteAll quote registered) @ '')''"

definition resolveSelection :: "(string \<Rightarrow> string) \<Rightarrow> string list \<Rightarrow> string list \<Rightarrow> (module_err, string list) result" where
  "resolveSelection quote registered selection =
     (let clean = clean_selection selection
      in if clean = [] then Ok registered
         else
           (let unknown = filter (\<lambda>s. s \<notin> set registered) clean
            in if unknown \<noteq> [] then Err (ErrUnknownModule (unknown_message quote unknown registered))
               else Ok (filter (\<lambda>n. n \<in> set clean) registered)))"

section \<open>The registry\<close>

record ('w, 'u, 'r) module_registry =
  mrModules :: "('w, 'u, 'r) module list"
  mrCapabilities :: "(string, string list) gomap"
  mrSliced :: bool
  mrCatalog :: "string list"

definition capabilitiesOf :: "('w, 'u, 'r) module \<Rightarrow> string list" where
  "capabilitiesOf m =
     sort ((if mdChecks m \<noteq> None then [''Checker''] else []) @ (if mdLifecycle m \<noteq> None then [''Lifecycle''] else []) @
           (if mdCommands m \<noteq> None then [''Commander''] else []) @ (if mdModels m \<noteq> None then [''Modeler''] else []) @
           (if mdMigrations m \<noteq> None then [''Migrator''] else []))"

text \<open>The loops that index the modules and the factories by name; the names are returned in order.\<close>

fun index_modules ::
    "nat \<Rightarrow> (string, ('w, 'u, 'r) module) gomap \<Rightarrow> ('w, 'u, 'r) module list \<Rightarrow> (module_err, (string, ('w, 'u, 'r) module) gomap) result" where
  "index_modules i byName [] = Ok byName"
| "index_modules i byName (m # ms) =
     (if TrimSpace (mdName m) = [] then Err (EmptyModuleName i)
      else if map_of byName (mdName m) \<noteq> None then Err (ErrDuplicateModule (mdName m))
      else index_modules (i + 1) (gm_set (mdName m) m byName) ms)"

definition newRegistry ::
    "(string \<Rightarrow> string) \<Rightarrow> ('w, 'u, 'r) module list \<Rightarrow> string list \<Rightarrow> (module_err, ('w, 'u, 'r) module_registry) result" where
  "newRegistry quote modules selection =
     (if modules = [] then Err ErrNoModules
      else case index_modules 0 [] modules of
        Err e \<Rightarrow> Err e
      | Ok byName \<Rightarrow>
          (let order = map mdName modules
           in case resolveSelection quote order selection of
                Err e \<Rightarrow> Err e
              | Ok wanted \<Rightarrow>
                  Ok \<lparr>mrModules = map (\<lambda>n. the (map_of byName n)) wanted,
                      mrCapabilities = foldl (\<lambda>caps n. gm_set n (capabilitiesOf (the (map_of byName n))) caps) [] wanted,
                      mrSliced = length wanted < length order,
                      mrCatalog = order\<rparr>))"

fun index_factories ::
    "nat \<Rightarrow> (string, ('w, 'u, 'r) module_factory) gomap \<Rightarrow> ('w, 'u, 'r) module_factory list \<Rightarrow>
     (module_err, (string, ('w, 'u, 'r) module_factory) gomap) result" where
  "index_factories i byName [] = Ok byName"
| "index_factories i byName (f # fs) =
     (if TrimSpace (mfName f) = [] then Err (EmptyModuleName i)
      else if mfBuild f = None then Err (NoBuild (mfName f))
      else if map_of byName (mfName f) \<noteq> None then Err (ErrDuplicateModule (mfName f))
      else index_factories (i + 1) (gm_set (mfName f) f byName) fs)"

text \<open>The construction loop; the second component is the names whose \<open>build\<close> ran, in order.\<close>

fun build_loop ::
    "go_context \<Rightarrow> (string, ('w, 'u, 'r) module_factory) gomap \<Rightarrow> string list \<Rightarrow> 'w \<Rightarrow>
     'w \<times> string list \<times> (module_err, ('w, 'u, 'r) module list) result" where
  "build_loop ctx byName [] w = (w, [], Ok [])"
| "build_loop ctx byName (name # names) w =
     (case the (mfBuild (the (map_of byName name))) ctx w of
        (w, Err e) \<Rightarrow> (w, [name], Err (BuildFailed name e))
      | (w, Ok None) \<Rightarrow> (w, [name], Err (BuildNil name))
      | (w, Ok (Some m)) \<Rightarrow>
          if mdName m \<noteq> name then (w, [name], Err (BuildRenamed name (mdName m)))
          else (case build_loop ctx byName names w of
                  (w, built, r) \<Rightarrow> (w, name # built, map_sum id ((#) m) r)))"

definition buildSelectedModules ::
    "(string \<Rightarrow> string) \<Rightarrow> go_context \<Rightarrow> ('w, 'u, 'r) module_factory list \<Rightarrow> string list \<Rightarrow> 'w \<Rightarrow>
     'w \<times> string list \<times> (module_err, ('w, 'u, 'r) module list) result" where
  "buildSelectedModules quote ctx factories selection w =
     (if factories = [] then (w, [], Err ErrNoModules)
      else case index_factories 0 [] factories of
        Err e \<Rightarrow> (w, [], Err e)
      | Ok byName \<Rightarrow>
          (case resolveSelection quote (map mfName factories) selection of
             Err e \<Rightarrow> (w, [], Err e)
           | Ok wanted \<Rightarrow> build_loop ctx byName wanted w))"

definition registry_names :: "('w, 'u, 'r) module_registry \<Rightarrow> string list" where
  "registry_names r = map mdName (mrModules r)"

section \<open>Start and stop\<close>

datatype call =
    Start string go_context
  | Stop string go_context

text \<open>The modules of a list that own a resource, with their names.\<close>

definition lifecycles :: "('w, 'u, 'r) module list \<Rightarrow> (string \<times> 'w lifecycle) list" where
  "lifecycles ms = List.map_filter (\<lambda>m. map_option (Pair (mdName m)) (mdLifecycle m)) ms"

fun stop_each :: "go_context \<Rightarrow> (string \<times> 'w lifecycle) list \<Rightarrow> 'w \<Rightarrow> 'w \<times> call list \<times> module_err list" where
  "stop_each ctx [] w = (w, [], [])"
| "stop_each ctx ((name, lc) # lcs) w =
     (case lcStop lc ctx w of
        (w, err) \<Rightarrow>
          (case stop_each ctx lcs w of
             (w, calls, errs) \<Rightarrow>
               (w, Stop name ctx # calls, (case err of None \<Rightarrow> [] | Some e \<Rightarrow> [StopFailed e]) @ errs)))"

definition stopAll :: "go_context \<Rightarrow> (string \<times> 'w lifecycle) list \<Rightarrow> 'w \<Rightarrow> 'w \<times> call list \<times> module_err list" where
  "stopAll ctx lcs w = stop_each ctx (rev lcs) w"

fun start_loop ::
    "go_context \<Rightarrow> (string \<times> 'w lifecycle) list \<Rightarrow> ('w, 'u, 'r) module list \<Rightarrow> 'w \<Rightarrow> 'w \<times> call list \<times> module_err list" where
  "start_loop ctx started [] w = (w, [], [])"
| "start_loop ctx started (m # ms) w =
     (case mdLifecycle m of
        None \<Rightarrow> start_loop ctx started ms w
      | Some lc \<Rightarrow>
          (case lcStart lc ctx w of
             (w, Some e) \<Rightarrow>
               (case stopAll ctx started w of
                  (w, calls, errs) \<Rightarrow> (w, Start (mdName m) ctx # calls, StartFailed (mdName m) e # errs))
           | (w, None) \<Rightarrow>
               (case start_loop ctx (started @ [(mdName m, lc)]) ms w of
                  (w, calls, errs) \<Rightarrow> (w, Start (mdName m) ctx # calls, errs))))"

definition registry_start :: "go_context \<Rightarrow> ('w, 'u, 'r) module_registry \<Rightarrow> 'w \<Rightarrow> 'w \<times> call list \<times> module_err list" where
  "registry_start ctx r w = start_loop ctx [] (mrModules r) w"

definition registry_stop :: "go_context \<Rightarrow> ('w, 'u, 'r) module_registry \<Rightarrow> 'w \<Rightarrow> 'w \<times> call list \<times> module_err list" where
  "registry_stop ctx r w = stopAll ctx (lifecycles (mrModules r)) w"

end
