(* ===== verification/App.thy ===== *)
theory App
  imports Modules Config
begin

text \<open>
  The application (app.go) and its command line (execute.go): construction from the mounted modules, the
  routes and their owners, the run of the server with the lifecycle of the modules, and \<open>Execute\<close>.

  Gin is a parameter: an engine with the operations the code calls on it. So is \<open>logging.New\<close>, which
  gives a logger handle. What the network does to a run is an input: the outcome of listening, whether the
  server ends on its own or the context ends first, and what the shutdown returns.
\<close>

section \<open>Collecting what modules contribute\<close>

datatype app_err =
    ModuleSet module_err
  | BadProxies string
  | ChecksFailed string health_err
  | CommandUnnamed string
  | CommandReserved string string
  | CommandTwice string string string
  | ModelsFailed string orm_err
  | MigrationTwice string string string
  | MigrationWidths string string

fun collect_checks_loop ::
    "health_registry \<Rightarrow> ('w, 'u, 'r) module list \<Rightarrow> (app_err, health_registry) result" where
  "collect_checks_loop checks [] = Ok checks"
| "collect_checks_loop checks (m # ms) =
     (case mdChecks m of
        None \<Rightarrow> collect_checks_loop checks ms
      | Some cs \<Rightarrow>
          (case health_Register (mdName m) cs checks of
             (checks, Some e) \<Rightarrow> Err (ChecksFailed (mdName m) e)
           | (checks, None) \<Rightarrow> collect_checks_loop checks ms))"

definition collectChecks :: "('w, 'u, 'r) module_registry \<Rightarrow> (app_err, health_registry) result" where
  "collectChecks reg = collect_checks_loop health_NewRegistry (mrModules reg)"

fun collect_models_loop :: "registry \<Rightarrow> ('w, 'u, 'r) module list \<Rightarrow> (app_err, registry) result" where
  "collect_models_loop tables [] = Ok tables"
| "collect_models_loop tables (m # ms) =
     (case mdModels m of
        None \<Rightarrow> collect_models_loop tables ms
      | Some mods \<Rightarrow>
          (case Register tables (mdName m) mods of
             (tables, Some e) \<Rightarrow> Err (ModelsFailed (mdName m) e)
           | (tables, None) \<Rightarrow> collect_models_loop tables ms))"

definition collectModels :: "('w, 'u, 'r) module_registry \<Rightarrow> (app_err, registry) result" where
  "collectModels reg = collect_models_loop NewRegistry (mrModules reg)"

text \<open>
  The state of the loops of \<open>collectMigrations\<close>: the migrations so far, who claimed each version, and the
  width with the version that set it.
\<close>

record 'u migration_acc =
  maOut :: "'u migration list"
  maSeen :: "(string, string) gomap"
  maWidth :: nat
  maWidthVersion :: string

fun collect_module_migrations ::
    "string \<Rightarrow> 'u migration_acc \<Rightarrow> 'u migration list \<Rightarrow> (app_err, 'u migration_acc) result" where
  "collect_module_migrations name acc [] = Ok acc"
| "collect_module_migrations name acc (g # gs) =
     (case map_of (maSeen acc) (mgVersion g) of
        Some prev \<Rightarrow> Err (MigrationTwice (mgVersion g) prev name)
      | None \<Rightarrow>
          (if maWidth acc \<noteq> 0 \<and> length (mgVersion g) \<noteq> maWidth acc
           then Err (MigrationWidths (maWidthVersion acc) (mgVersion g))
           else
             collect_module_migrations name
               \<lparr>maOut = maOut acc @ [g], maSeen = gm_set (mgVersion g) name (maSeen acc),
                maWidth = (if maWidth acc = 0 then length (mgVersion g) else maWidth acc),
                maWidthVersion = (if maWidth acc = 0 then mgVersion g else maWidthVersion acc)\<rparr> gs))"

fun collect_migrations_loop ::
    "'u migration_acc \<Rightarrow> ('w, 'u, 'r) module list \<Rightarrow> (app_err, 'u migration_acc) result" where
  "collect_migrations_loop acc [] = Ok acc"
| "collect_migrations_loop acc (m # ms) =
     (case mdMigrations m of
        None \<Rightarrow> collect_migrations_loop acc ms
      | Some gs \<Rightarrow>
          (case collect_module_migrations (mdName m) acc gs of
             Err e \<Rightarrow> Err e
           | Ok acc \<Rightarrow> collect_migrations_loop acc ms))"

definition collectMigrations :: "('w, 'u, 'r) module_registry \<Rightarrow> (app_err, 'u migration list) result" where
  "collectMigrations reg =
     map_sum id maOut (collect_migrations_loop \<lparr>maOut = [], maSeen = [], maWidth = 0, maWidthVersion = []\<rparr> (mrModules reg))"

text \<open>An owner that is empty stands for Fabrin itself.\<close>

fun collect_module_commands ::
    "string \<Rightarrow> (string, string) gomap \<times> command list \<Rightarrow> command list \<Rightarrow> (app_err, (string, string) gomap \<times> command list) result" where
  "collect_module_commands name acc [] = Ok acc"
| "collect_module_commands name acc (c # cs) =
     (if TrimSpace (cmName c) = [] then Err (CommandUnnamed name)
      else case map_of (fst acc) (cmName c) of
        Some prev \<Rightarrow> if prev = [] then Err (CommandReserved name (cmName c)) else Err (CommandTwice prev name (cmName c))
      | None \<Rightarrow> collect_module_commands name (gm_set (cmName c) name (fst acc), snd acc @ [c]) cs)"

fun collect_commands_loop ::
    "(string, string) gomap \<times> command list \<Rightarrow> ('w, 'u, 'r) module list \<Rightarrow> (app_err, command list) result" where
  "collect_commands_loop acc [] = Ok (snd acc)"
| "collect_commands_loop acc (m # ms) =
     (case mdCommands m of
        None \<Rightarrow> collect_commands_loop acc ms
      | Some cs \<Rightarrow>
          (case collect_module_commands (mdName m) acc cs of
             Err e \<Rightarrow> Err e
           | Ok acc \<Rightarrow> collect_commands_loop acc ms))"

definition collectCommands ::
    "command list \<Rightarrow> ('w, 'u, 'r) module_registry \<Rightarrow> (app_err, command list) result" where
  "collectCommands builtins reg =
     collect_commands_loop (foldl (\<lambda>owner c. gm_set (cmName c) [] owner) [] builtins, []) (mrModules reg)"

section \<open>Built-in commands\<close>

type_synonym command_run = "flag_values \<Rightarrow> writer \<Rightarrow> string list \<Rightarrow> writer \<times> string option"

definition toFlag :: string where "toFlag = ''to''"

definition migrateCommand :: "command_run \<Rightarrow> command" where
  "migrateCommand run =
     \<lparr>cmName = ''migrate'', cmShort = ''apply the modules'' @ [CHR 0x27] @ '' schema migrations, or roll back to a version with -to'',
      cmFlags = Some [\<lparr>fgName = toFlag, fgBool = False, fgSet = (\<lambda>_. None)\<rparr>], cmRun = Some run\<rparr>"

definition makemigrationsCommand :: "command_run \<Rightarrow> command" where
  "makemigrationsCommand run =
     \<lparr>cmName = ''makemigrations'', cmShort = ''generate migration files for schema changes the modules declared'',
      cmFlags = Some [\<lparr>fgName = ''no-input'', fgBool = True,
        fgSet = (\<lambda>v. if ParseBool v = None then Some ''parse error'' else None)\<rparr>], cmRun = Some run\<rparr>"

text \<open>What the five commands run: serving, listing routes, the two migration commands, and the version.\<close>

record builtin_runs =
  brServe :: command_run
  brRoutes :: command_run
  brMigrate :: command_run
  brMakemigrations :: command_run
  brVersion :: command_run

definition app_builtins :: "builtin_runs \<Rightarrow> command list" where
  "app_builtins br =
     [\<lparr>cmName = ''serve'', cmShort = ''serve HTTP until the context is cancelled or a signal arrives'', cmFlags = None, cmRun = Some (brServe br)\<rparr>,
      \<lparr>cmName = ''routes'', cmShort = ''list mounted routes with the module that owns each'', cmFlags = None, cmRun = Some (brRoutes br)\<rparr>,
      migrateCommand (brMigrate br),
      makemigrationsCommand (brMakemigrations br),
      \<lparr>cmName = ''version'', cmShort = ''print the Fabrin version this binary was built against'', cmFlags = None, cmRun = Some (brVersion br)\<rparr>]"

section \<open>Construction\<close>

type_synonym route_info = "string \<times> string"

record ('g, 'r) gin_ops =
  ginNew :: 'g
  ginProxies :: "string list \<Rightarrow> 'g \<Rightarrow> (string, 'g) result"
  ginUse :: "string \<Rightarrow> 'g \<Rightarrow> 'g"
  ginGET :: "string \<Rightarrow> 'g \<Rightarrow> 'g"
  ginGroup :: "'r \<Rightarrow> 'g \<Rightarrow> 'g"
  ginRoutes :: "'g \<Rightarrow> route_info list"

datatype gin_mode = DebugMode | ReleaseMode

text \<open>\<open>gin.SetMode\<close> is called only when the environment does not set a mode.\<close>

definition ginMode :: "string \<Rightarrow> options \<Rightarrow> gin_mode option" where
  "ginMode env opt = (if env = [] then Some (if oDebug opt then DebugMode else ReleaseMode) else None)"

record ('w, 'u, 'r, 'g) app =
  apOpts :: options
  apRegistry :: "('w, 'u, 'r) module_registry"
  apEngine :: 'g
  apRouteOwner :: "(string, string) gomap"
  apModuleCommands :: "command list"
  apModels :: registry
  apMigrations :: "'u migration list"
  apChecks :: health_registry
  apRunning :: bool
  apAddr :: string

definition routeKey :: "string \<Rightarrow> string \<Rightarrow> string" where
  "routeKey method path = method @ '' '' @ path"

definition route_keys :: "route_info list \<Rightarrow> string list" where
  "route_keys ris = map (\<lambda>(m, p). routeKey m p) ris"

text \<open>The inner loop: every route nobody has claimed becomes the module's.\<close>

fun claim_routes :: "string \<Rightarrow> string list \<times> (string, string) gomap \<Rightarrow> string list \<Rightarrow> string list \<times> (string, string) gomap" where
  "claim_routes name acc [] = acc"
| "claim_routes name acc (k # ks) =
     claim_routes name (if k \<in> set (fst acc) then acc else (k # fst acc, gm_set k name (snd acc))) ks"

fun mount_loop ::
    "('g, 'r) gin_ops \<Rightarrow> 'g \<times> string list \<times> (string, string) gomap \<Rightarrow> ('w, 'u, 'r) module list \<Rightarrow>
     'g \<times> string list \<times> (string, string) gomap" where
  "mount_loop gin (eng, acc) [] = (eng, acc)"
| "mount_loop gin (eng, acc) (m # ms) =
     (let eng = ginGroup gin (mdRoutes m) eng
      in mount_loop gin (eng, claim_routes (mdName m) acc (route_keys (ginRoutes gin eng))) ms)"

definition new_engine :: "('g, 'r) gin_ops \<Rightarrow> options \<Rightarrow> (string, 'g) result" where
  "new_engine gin opt =
     (case ginProxies gin (oTrustedProxies opt) (ginNew gin) of
        Err e \<Rightarrow> Err e
      | Ok eng \<Rightarrow> Ok (ginUse gin ''Logger'' (ginUse gin ''RequestID'' (ginUse gin ''Recovery'' eng))))"

definition health_mount :: "('g, 'r) gin_ops \<Rightarrow> 'g \<Rightarrow> 'g" where
  "health_mount gin eng = foldl (\<lambda>eng (_, path). ginGET gin path eng) eng Mount"

definition app_New ::
    "(string \<Rightarrow> string) \<Rightarrow> ('g, 'r) gin_ops \<Rightarrow> (string \<Rightarrow> string \<Rightarrow> nat) \<Rightarrow> builtin_runs \<Rightarrow> options \<Rightarrow>
     ('w, 'u, 'r) module list \<Rightarrow> (app_err, ('w, 'u, 'r, 'g) app) result" where
  "app_New quote gin newLogger br opt modules =
     (let opt = WithDefaults opt;
          opt = opt\<lparr>oLogger := Some (case oLogger opt of None \<Rightarrow> newLogger (oLogFormat opt) (oLogLevel opt) | Some l \<Rightarrow> l)\<rparr>
      in case newRegistry quote modules (oModules opt) of Err e \<Rightarrow> Err (ModuleSet e) | Ok reg \<Rightarrow>
      case new_engine gin opt of Err e \<Rightarrow> Err (BadProxies e) | Ok eng \<Rightarrow>
      case collectChecks reg of Err e \<Rightarrow> Err e | Ok checks \<Rightarrow>
      case (let eng = health_mount gin eng
            in mount_loop gin (eng, remdups (route_keys (ginRoutes gin eng)), []) (mrModules reg)) of (eng, _, owner) \<Rightarrow>
      case collectCommands (app_builtins br) reg of Err e \<Rightarrow> Err e | Ok cmds \<Rightarrow>
      case collectModels reg of Err e \<Rightarrow> Err e | Ok tables \<Rightarrow>
      case collectMigrations reg of Err e \<Rightarrow> Err e | Ok gs \<Rightarrow>
        Ok \<lparr>apOpts = opt, apRegistry = reg, apEngine = eng, apRouteOwner = owner, apModuleCommands = cmds, apModels = tables,
            apMigrations = gs, apChecks = checks, apRunning = False, apAddr = []\<rparr>)"

definition NewFromFactories ::
    "(string \<Rightarrow> string) \<Rightarrow> ('g, 'r) gin_ops \<Rightarrow> (string \<Rightarrow> string \<Rightarrow> nat) \<Rightarrow> builtin_runs \<Rightarrow> go_context \<Rightarrow> options \<Rightarrow>
     ('w, 'u, 'r) module_factory list \<Rightarrow> 'w \<Rightarrow> 'w \<times> string list \<times> (app_err, ('w, 'u, 'r, 'g) app) result" where
  "NewFromFactories quote gin newLogger br ctx opt factories w =
     (case buildSelectedModules quote ctx factories (oModules opt) w of
        (w, built, Err e) \<Rightarrow> (w, built, Err (ModuleSet e))
      | (w, built, Ok modules) \<Rightarrow> (w, built, app_New quote gin newLogger br opt modules))"

section \<open>Accessors and routes\<close>

definition app_Models :: "(string, registered) map_order \<Rightarrow> ('w, 'u, 'r, 'g) app \<Rightarrow> registered list" where
  "app_Models it a = Models it (apModels a)"

definition app_Modules :: "('w, 'u, 'r, 'g) app \<Rightarrow> string list" where
  "app_Modules a = registry_names (apRegistry a)"

definition app_Capabilities :: "('w, 'u, 'r, 'g) app \<Rightarrow> (string, string list) gomap" where
  "app_Capabilities a = mrCapabilities (apRegistry a)"

record route =
  rtMethod :: string
  rtPath :: string
  rtModule :: string

definition app_Routes :: "('g, 'r) gin_ops \<Rightarrow> ('w, 'u, 'r, 'g) app \<Rightarrow> route list" where
  "app_Routes gin a =
     sort_key rtPath (sort_key rtMethod
       (map (\<lambda>(m, p). \<lparr>rtMethod = m, rtPath = p,
               rtModule = (case map_of (apRouteOwner a) (routeKey m p) of None \<Rightarrow> [] | Some n \<Rightarrow> n)\<rparr>)
          (ginRoutes gin (apEngine a))))"

fun write_lines :: "string list \<Rightarrow> writer \<Rightarrow> writer \<times> bool" where
  "write_lines [] out = (out, True)"
| "write_lines (l # ls) out = (case Fprint l out of (out, False) \<Rightarrow> (out, False) | (out, True) \<Rightarrow> write_lines ls out)"

definition route_line :: "(string \<Rightarrow> nat) \<Rightarrow> nat \<Rightarrow> nat \<Rightarrow> route \<Rightarrow> string" where
  "route_line runes mw pw r =
     pad_runes runes mw (rtMethod r) @ ''  '' @ pad_runes runes pw (rtPath r) @ ''  '' @
     (if rtModule r = [] then ''(framework)'' else rtModule r) @ [CHR 0x0A]"

definition printRoutes :: "(string \<Rightarrow> nat) \<Rightarrow> ('g, 'r) gin_ops \<Rightarrow> ('w, 'u, 'r, 'g) app \<Rightarrow> writer \<Rightarrow> writer \<times> bool" where
  "printRoutes runes gin a out =
     (let rs = app_Routes gin a;
          mw = foldl max 0 (map (\<lambda>r. length (rtMethod r)) rs);
          pw = foldl max 0 (map (\<lambda>r. length (rtPath r)) rs)
      in write_lines (map (route_line runes mw pw) rs) out)"

record build_dep =
  bdPath :: string
  bdVersion :: string
  bdReplace :: "string option"

record build_info =
  biMain :: build_dep
  biDeps :: "build_dep list"

definition modulePath :: string where "modulePath = ''github.com/usefabrin/fabrin''"

definition fabrinVersion :: "build_info option \<Rightarrow> string" where
  "fabrinVersion info =
     (case info of
        None \<Rightarrow> ''unknown''
      | Some bi \<Rightarrow>
          if bdPath (biMain bi) = modulePath \<and> bdVersion (biMain bi) \<noteq> [] then bdVersion (biMain bi)
          else (case find (\<lambda>d. bdPath d = modulePath) (biDeps bi) of
                  None \<Rightarrow> ''unknown''
                | Some d \<Rightarrow> (case bdReplace d of Some v \<Rightarrow> v @ '' (replaced)'' | None \<Rightarrow> bdVersion d)))"

definition printVersion :: "build_info option \<Rightarrow> writer \<Rightarrow> writer \<times> bool" where
  "printVersion info out = Fprint (''fabrin '' @ fabrinVersion info @ [CHR 0x0A]) out"

section \<open>Run\<close>

datatype serve_result = ServerClosed | ServeFailed string

text \<open>
  What ends the \<open>select\<close>: the server, with its error, or the context; then the result of the HTTP shutdown
  and of the server after it.
\<close>

datatype serve_event =
    ServerDied serve_result
  | ContextDone "string option" serve_result

record run_env =
  reListen :: "(string, string) result"
  reEvent :: serve_event

datatype run_call =
    Module call
  | Listen string
  | Serve string
  | HttpShutdown go_context

datatype run_err =
    ErrAlreadyRunning
  | ListenFailed string string
  | ServeErr string
  | HttpShutdownErr string
  | ModuleErr module_err
  | StopModules "module_err list"

definition serve_errs :: "serve_result \<Rightarrow> run_err list" where
  "serve_errs r = (case r of ServerClosed \<Rightarrow> [] | ServeFailed e \<Rightarrow> [ServeErr e])"

definition app_Start :: "go_context \<Rightarrow> ('w, 'u, 'r, 'g) app \<Rightarrow> 'w \<Rightarrow> 'w \<times> call list \<times> module_err list" where
  "app_Start ctx a w = registry_start ctx (apRegistry a) w"

definition app_Stop :: "go_context \<Rightarrow> ('w, 'u, 'r, 'g) app \<Rightarrow> 'w \<Rightarrow> 'w \<times> call list \<times> module_err list" where
  "app_Stop ctx a w = registry_stop ctx (apRegistry a) w"

text \<open>The branches of the \<open>select\<close> in \<open>Run\<close> and what follows them.\<close>

definition serve_until_done ::
    "serve_event \<Rightarrow> ('w, 'u, 'r, 'g) app \<Rightarrow> 'w \<Rightarrow> 'w \<times> run_call list \<times> run_err list" where
  "serve_until_done ev a w =
     (case ev of
        ServerDied r \<Rightarrow>
          (case app_Stop Detached a w of
             (w, calls, errs) \<Rightarrow> (w, map Module calls, serve_errs r @ map ModuleErr errs))
      | ContextDone shutdownErr r \<Rightarrow>
          (let ctx = ShutdownCtx (oShutdownTimeout (apOpts a))
           in case app_Stop ctx a w of
                (w, calls, errs) \<Rightarrow>
                  (w, HttpShutdown ctx # map Module calls,
                   (case shutdownErr of None \<Rightarrow> [] | Some e \<Rightarrow> [HttpShutdownErr e]) @ serve_errs r @
                   (if errs = [] then [] else [StopModules errs]))))"

text \<open>The body between taking and releasing the \<open>running\<close> flag.\<close>

definition run_app ::
    "run_env \<Rightarrow> ('w, 'u, 'r, 'g) app \<Rightarrow> 'w \<Rightarrow> 'w \<times> run_call list \<times> run_err list" where
  "run_app env a w =
     (case app_Start CallerCtx a w of
        (w, calls, errs) \<Rightarrow>
          if errs \<noteq> [] then (w, map Module calls, map ModuleErr errs)
          else
            (case reListen env of
               Err e \<Rightarrow>
                 (case app_Stop CallerCtx a w of
                    (w, stops, errs) \<Rightarrow>
                      (w, map Module calls @ Listen (oAddr (apOpts a)) # map Module stops,
                       ListenFailed (oAddr (apOpts a)) e # map ModuleErr errs))
             | Ok addr \<Rightarrow>
                 (case serve_until_done (reEvent env) (a\<lparr>apAddr := addr\<rparr>) w of
                    (w, calls', errs) \<Rightarrow>
                      (w, map Module calls @ Listen (oAddr (apOpts a)) # Serve addr # calls', errs))))"

definition app_Run ::
    "run_env \<Rightarrow> ('w, 'u, 'r, 'g) app \<Rightarrow> 'w \<Rightarrow> ('w, 'u, 'r, 'g) app \<times> 'w \<times> run_call list \<times> run_err list" where
  "app_Run env a w =
     (if apRunning a then (a, w, [], [ErrAlreadyRunning])
      else (case run_app env (a\<lparr>apRunning := True\<rparr>) w of
              (w, calls, errs) \<Rightarrow> (a\<lparr>apRunning := False, apAddr := []\<rparr>, w, calls, errs)))"

section \<open>Execute\<close>

definition valueFlags :: "string list" where
  "valueFlags = [''addr'', ''log-format'', ''log-level'', ''modules'', ''read-header-timeout'', ''shutdown-timeout'', ''trusted-proxies'']"

definition help_arg :: "string \<Rightarrow> bool" where
  "help_arg arg \<longleftrightarrow> arg = ''-h'' \<or> arg = ''-help'' \<or> arg = ''--help'' \<or>
     HasPrefix arg ''-h='' \<or> HasPrefix arg ''-help='' \<or> HasPrefix arg ''--help=''"

text \<open>The loop; after a flag that takes a value its value is skipped.\<close>

fun leadingHelpRequest :: "string list \<Rightarrow> bool" where
  "leadingHelpRequest [] = False"
| "leadingHelpRequest (arg # rest) =
     (if arg = ''--'' \<or> arg = ''-'' \<or> \<not> HasPrefix arg ''-'' then False
      else if help_arg arg then True
      else
        (let name = dropWhile (\<lambda>c. c = CHR ''-'') arg
         in if CHR ''='' \<in> set name then leadingHelpRequest rest
            else if name \<in> set valueFlags then (case rest of [] \<Rightarrow> False | _ # rest \<Rightarrow> leadingHelpRequest rest)
            else leadingHelpRequest rest))"

definition app_commands :: "builtin_runs \<Rightarrow> ('w, 'u, 'r, 'g) app \<Rightarrow> command list" where
  "app_commands br a = app_builtins br @ apModuleCommands a"

datatype execution =
    RunServer
  | Dispatched "writer \<times> dispatch_err option"

definition Execute ::
    "(string \<Rightarrow> string) \<Rightarrow> (flag list \<Rightarrow> string) \<Rightarrow> builtin_runs \<Rightarrow> ('w, 'u, 'r, 'g) app \<Rightarrow> writer \<Rightarrow> string list \<Rightarrow> execution" where
  "Execute quote printDefaults br a out args =
     (if leadingHelpRequest args then Dispatched (Dispatch quote printDefaults (app_commands br a) [''--help''] out)
      else case args of
        [] \<Rightarrow> RunServer
      | arg # _ \<Rightarrow>
          if HasPrefix arg ''-'' then RunServer
          else Dispatched (Dispatch quote printDefaults (app_commands br a) args out))"

end
