(* ===== verification/App_Correct.thy ===== *)
theory App_Correct
  imports App Cli_Correct
begin

text \<open>
  The application is correct: the selection decides what is built and mounted, wiring mistakes surface at
  construction, a run stops what it started in reverse order on every path, and the help request that
  \<open>Execute\<close> recognises is the one the settings layer leaves to it.
\<close>

section \<open>Selection\<close>

definition selected :: "string list \<Rightarrow> string \<Rightarrow> bool" where
  "selected selection n \<longleftrightarrow> clean_selection selection = [] \<or> n \<in> set (clean_selection selection)"

lemma resolveSelection_Ok:
  "resolveSelection quote names selection = Ok wanted \<longleftrightarrow>
     set (clean_selection selection) \<subseteq> set names \<and> wanted = filter (selected selection) names"
  by (auto simp: resolveSelection_def Let_def selected_def[abs_def] filter_empty_conv)

lemma resolveSelection_filtered:
  "set (clean_selection selection) \<subseteq> set names \<Longrightarrow>
     resolveSelection quote (filter (selected selection) names) selection = Ok (filter (selected selection) names)"
  by (auto simp: resolveSelection_Ok selected_def[abs_def])

definition named_once :: "('a \<Rightarrow> string) \<Rightarrow> 'a list \<Rightarrow> bool" where
  "named_once name xs \<longleftrightarrow> list_all (\<lambda>x. TrimSpace (name x) \<noteq> []) xs \<and> distinct (map name xs)"

lemma index_modules_Ok:
  "index_modules i acc ms = Ok byName \<longleftrightarrow>
     named_once mdName ms \<and> (\<forall>m \<in> set ms. map_of acc (mdName m) = None) \<and>
     byName = foldl (\<lambda>out m. gm_set (mdName m) m out) acc ms"
  by (induction ms arbitrary: i acc) (auto simp: named_once_def gomap_simps image_iff split: if_splits)

lemma index_factories_Ok:
  "index_factories i acc fs = Ok byName \<longleftrightarrow>
     named_once mfName fs \<and> list_all (\<lambda>f. mfBuild f \<noteq> None) fs \<and> (\<forall>f \<in> set fs. map_of acc (mfName f) = None) \<and>
     byName = foldl (\<lambda>out f. gm_set (mfName f) f out) acc fs"
  by (induction fs arbitrary: i acc) (auto simp: named_once_def gomap_simps image_iff split: if_splits)

lemma byName_lookup:
  assumes "distinct (map name xs)" "x \<in> set xs"
  shows "map_of (foldl (\<lambda>out x. gm_set (name x) x out) [] xs) (name x) = Some x"
proof -
  have "map_of (map (\<lambda>x. (name x, x)) xs) (name x) = Some x"
    using assms by (induction xs) (auto simp: image_iff)
  then show ?thesis using foldl_gm_set_lookup[OF assms(1), of "[]"] by simp
qed

lemma byName_select:
  assumes "distinct (map name xs)" "set ys \<subseteq> set xs"
  shows "map (\<lambda>y. the (map_of (foldl (\<lambda>out x. gm_set (name x) x out) [] xs) (name y))) ys = ys"
  using byName_lookup[OF assms(1)] assms(2) by (auto intro!: map_idI)

lemma filter_shorter: "length (filter P xs) < length xs \<longleftrightarrow> (\<exists>x \<in> set xs. \<not> P x)"
  by (metis filter_True length_filter_less less_irrefl)

lemma newRegistry_Ok:
  "newRegistry quote ms selection = Ok r \<Longrightarrow>
     ms \<noteq> [] \<and> named_once mdName ms \<and> set (clean_selection selection) \<subseteq> set (map mdName ms) \<and>
     mrModules r = filter (\<lambda>m. selected selection (mdName m)) ms \<and> mrCatalog r = map mdName ms \<and>
     (mrSliced r \<longleftrightarrow> (\<exists>m \<in> set ms. \<not> selected selection (mdName m)))"
  by (auto simp: newRegistry_def Let_def index_modules_Ok resolveSelection_Ok byName_select named_once_def
      filter_map filter_shorter comp_def split: if_splits sum.splits)

lemma newRegistry_succeeds:
  assumes "ms \<noteq> []" "named_once mdName ms" "set (clean_selection selection) \<subseteq> set (map mdName ms)"
  shows "\<exists>r. newRegistry quote ms selection = Ok r"
proof -
  have "index_modules 0 [] ms = Ok (foldl (\<lambda>out m. gm_set (mdName m) m out) [] ms)"
    using assms by (simp add: index_modules_Ok)
  moreover have "resolveSelection quote (map mdName ms) selection = Ok (filter (selected selection) (map mdName ms))"
    using assms by (simp add: resolveSelection_Ok)
  ultimately show ?thesis using assms(1) by (simp add: newRegistry_def Let_def)
qed

section \<open>Construction from factories\<close>

lemma build_loop_prefix: "build_loop ctx byName names w = (w', built, r) \<Longrightarrow> prefix built names"
  by (induction ctx byName names w arbitrary: w' built r rule: build_loop.induct)
    (auto split: prod.splits sum.splits option.splits if_splits)

lemma build_loop_Ok:
  "build_loop ctx byName names w = (w', built, Ok ms) \<Longrightarrow> built = names \<and> map mdName ms = names"
  by (induction ctx byName names w arbitrary: w' built ms rule: build_loop.induct)
    (auto simp: ok_iff split: prod.splits sum.splits option.splits if_splits)

lemma oModules_WithDefaults [simp]: "oModules (WithDefaults opt) = oModules opt"
  by (simp add: WithDefaults_def)

lemma app_New_Ok:
  assumes "app_New quote gin newLogger br opt ms = Ok a"
  shows "newRegistry quote ms (oModules opt) = Ok (apRegistry a) \<and> collectChecks (apRegistry a) = Ok (apChecks a) \<and>
     collectCommands (app_builtins br) (apRegistry a) = Ok (apModuleCommands a) \<and> collectModels (apRegistry a) = Ok (apModels a) \<and>
     collectMigrations (apRegistry a) = Ok (apMigrations a) \<and> \<not> apRunning a"
  using assms by (auto simp: app_New_def Let_def split: sum.splits prod.splits)

lemma selected_set: "set (clean_selection selection) \<subseteq> set names \<Longrightarrow> set (clean_selection selection) \<subseteq> set (filter (selected selection) names)"
  by (auto simp: selected_def)

definition catalogue_ok :: "('w, 'u, 'r) module_factory list \<Rightarrow> string list \<Rightarrow> bool" where
  "catalogue_ok fs selection \<longleftrightarrow> fs \<noteq> [] \<and> named_once mfName fs \<and> list_all (\<lambda>f. mfBuild f \<noteq> None) fs \<and>
     set (clean_selection selection) \<subseteq> set (map mfName fs)"

lemma build_catalogue:
  "catalogue_ok fs selection \<Longrightarrow> buildSelectedModules quote ctx fs selection w =
     build_loop ctx (foldl (\<lambda>out f. gm_set (mfName f) f out) [] fs) (filter (selected selection) (map mfName fs)) w"
  "\<not> catalogue_ok fs selection \<Longrightarrow> \<exists>e. buildSelectedModules quote ctx fs selection w = (w, [], Err e)"
proof -
  show "buildSelectedModules quote ctx fs selection w =
      build_loop ctx (foldl (\<lambda>out f. gm_set (mfName f) f out) [] fs) (filter (selected selection) (map mfName fs)) w"
    if ok: "catalogue_ok fs selection"
  proof -
    have "index_factories 0 [] fs = Ok (foldl (\<lambda>out f. gm_set (mfName f) f out) [] fs)"
      using ok by (simp add: index_factories_Ok catalogue_ok_def)
    moreover have "resolveSelection quote (map mfName fs) selection = Ok (filter (selected selection) (map mfName fs))"
      using ok by (simp add: resolveSelection_Ok catalogue_ok_def)
    ultimately show ?thesis using ok by (simp add: buildSelectedModules_def catalogue_ok_def)
  qed
  show "\<exists>e. buildSelectedModules quote ctx fs selection w = (w, [], Err e)" if bad: "\<not> catalogue_ok fs selection"
  proof (cases "\<exists>b n. index_factories 0 [] fs = Ok b \<and> resolveSelection quote (map mfName fs) selection = Ok n")
    case True
    then have "fs = []" using bad by (auto simp: index_factories_Ok resolveSelection_Ok catalogue_ok_def)
    then show ?thesis by (simp add: buildSelectedModules_def)
  next
    case False
    then show ?thesis
      by (cases "index_factories 0 [] fs"; cases "resolveSelection quote (map mfName fs) selection")
        (auto simp: buildSelectedModules_def)
  qed
qed

text \<open>C27: Selection comes before construction. When the catalogue or the selection is invalid (no factories, a
  blank or repeated name, a factory without a function, a selection that names something unregistered), no
  factory runs and the world is as it was. Otherwise the factories run in registration order, never in the
  order of the selection, each at most once and only if selected, up to the first failure; and an app that is
  constructed mounts exactly the selected modules in that order. Such an app never counts as sliced, since the
  modules left out were never registered with it.\<close>

theorem factories_build_selection:
  assumes "NewFromFactories quote gin newLogger br ctx opt fs w = (w', built, r)"
  shows "(\<not> catalogue_ok fs (oModules opt) \<longrightarrow> w' = w \<and> built = [] \<and> (\<exists>e. r = Err (ModuleSet e))) \<and>
     prefix built (filter (selected (oModules opt)) (map mfName fs)) \<and>
     (\<forall>a. r = Ok a \<longrightarrow>
        built = filter (selected (oModules opt)) (map mfName fs) \<and> app_Modules a = built \<and> \<not> mrSliced (apRegistry a))"
proof (cases "catalogue_ok fs (oModules opt)")
  case False
  from build_catalogue(2)[OF this, of quote ctx w] obtain e where
    "buildSelectedModules quote ctx fs (oModules opt) w = (w, [], Err e)" by blast
  then show ?thesis using assms by (auto simp: NewFromFactories_def)
next
  case True
  let ?names = "filter (selected (oModules opt)) (map mfName fs)"
  let ?loop = "build_loop ctx (foldl (\<lambda>out f. gm_set (mfName f) f out) [] fs) ?names w"
  obtain w1 b1 r1 where l: "?loop = (w1, b1, r1)" by (cases ?loop)
  then have b: "buildSelectedModules quote ctx fs (oModules opt) w = (w1, b1, r1)"
    using build_catalogue(1)[OF True] by simp
  then have built: "built = b1" using assms by (cases r1) (auto simp: NewFromFactories_def)
  have "built = ?names \<and> app_Modules a = built \<and> \<not> mrSliced (apRegistry a)" if ra: "r = Ok a" for a
  proof -
    obtain ms where ms: "r1 = Ok ms" and a: "app_New quote gin newLogger br opt ms = Ok a"
      using assms b ra by (cases r1) (auto simp: NewFromFactories_def)
    have names: "map mdName ms = ?names" "b1 = ?names" using build_loop_Ok[OF l[unfolded ms]] by auto
    then have all: "selected (oModules opt) (mdName m)" if "m \<in> set ms" for m
    proof -
      have "mdName m \<in> set (map mdName ms)" using that by simp
      then show ?thesis unfolding names by simp
    qed
    from newRegistry_Ok[OF app_New_Ok[OF a, THEN conjunct1]] all names built
    show ?thesis by (simp add: app_Modules_def registry_names_def)
  qed
  moreover have "prefix built ?names" using build_loop_prefix[OF l] built by simp
  ultimately show ?thesis using True by blast
qed

text \<open>A world that counts nothing, an engine that is its routes, and modules that only have a name.\<close>

definition ex_gin :: "(route_info list, route_info list) gin_ops" where
  "ex_gin = \<lparr>ginNew = [], ginProxies = (\<lambda>_ eng. Ok eng), ginUse = (\<lambda>_ eng. eng),
     ginGET = (\<lambda>p eng. eng @ [(''GET'', p)]), ginGroup = (\<lambda>rs eng. eng @ rs), ginRoutes = (\<lambda>eng. eng)\<rparr>"

definition ex_module :: "string \<Rightarrow> (string list, nat, route_info list) module" where
  "ex_module name =
     \<lparr>mdName = name, mdRoutes = [(''GET'', ''/'' @ name)], mdChecks = None, mdCommands = None, mdModels = None,
      mdMigrations = None,
      mdLifecycle = Some \<lparr>lcStart = (\<lambda>_ w. (w @ [name], None)), lcStop = (\<lambda>_ w. (w, Some name))\<rparr>\<rparr>"

definition ex_factory :: "string \<Rightarrow> (string list, nat, route_info list) module_factory" where
  "ex_factory name = LazyModule name (Some (\<lambda>_ w. (name # w, Ok (Some (ex_module name)))))"

definition ex_runs :: builtin_runs where
  "ex_runs = \<lparr>brServe = (\<lambda>_ out _. (out, None)), brRoutes = (\<lambda>_ out _. (out, None)), brMigrate = (\<lambda>_ out _. (out, None)),
     brMakemigrations = (\<lambda>_ out _. (out, None)), brVersion = (\<lambda>_ out _. (out, None))\<rparr>"

theorem factories_build_selection_witness:
  "\<exists>w' a. NewFromFactories id ex_gin (\<lambda>_ _. 0) ex_runs CallerCtx (zeroOptions\<lparr>oModules := [''c'', '' a'']\<rparr>)
       [ex_factory ''a'', ex_factory ''b'', ex_factory ''c''] [] = (w', [''a'', ''c''], Ok a) \<and>
     app_Modules a = [''a'', ''c''] \<and> \<not> mrSliced (apRegistry a)"
proof -
  let ?n = "NewFromFactories id ex_gin (\<lambda>_ _. 0) ex_runs CallerCtx (zeroOptions\<lparr>oModules := [''c'', '' a'']\<rparr>)
       [ex_factory ''a'', ex_factory ''b'', ex_factory ''c''] []"
  have "fst (snd ?n) = [''a'', ''c''] \<and> (case snd (snd ?n) of Inl _ \<Rightarrow> False | Inr _ \<Rightarrow> True)" by code_simp
  then obtain w' a where n: "?n = (w', [''a'', ''c''], Ok a)" by (cases ?n) (auto split: sum.splits)
  from factories_build_selection[OF n] show ?thesis using n by auto
qed

section \<open>What modules contribute\<close>

definition contributed :: "(('w, 'u, 'r) module \<Rightarrow> 'a list option) \<Rightarrow> ('w, 'u, 'r) module list \<Rightarrow> 'a list" where
  "contributed f ms = concat (map (\<lambda>m. case f m of None \<Rightarrow> [] | Some xs \<Rightarrow> xs) ms)"

lemma contributed_simps [simp]:
  "contributed f [] = []"
  "contributed f (m # ms) = (case f m of None \<Rightarrow> [] | Some xs \<Rightarrow> xs) @ contributed f ms"
  by (simp_all add: contributed_def)

text \<open>Commands: the owners are the names taken, the built-in ones included.\<close>

definition names_ok :: "command list \<Rightarrow> command list \<Rightarrow> bool" where
  "names_ok builtins cs \<longleftrightarrow> distinct (map cmName (builtins @ cs)) \<and> list_all (\<lambda>c. TrimSpace (cmName c) \<noteq> []) cs"

definition commands_ok :: "command list \<Rightarrow> (string, string) gomap \<times> command list \<Rightarrow> bool" where
  "commands_ok builtins acc \<longleftrightarrow> distinct (map cmName (builtins @ snd acc)) \<and>
     dom (map_of (fst acc)) = cmName ` set (builtins @ snd acc) \<and> list_all (\<lambda>c. TrimSpace (cmName c) \<noteq> []) (snd acc)"

lemma collect_module_commands_ok:
  "collect_module_commands name acc cs = Ok acc' \<Longrightarrow> commands_ok bs acc \<Longrightarrow> commands_ok bs acc' \<and> snd acc' = snd acc @ cs"
proof (induction name acc cs rule: collect_module_commands.induct)
  case (2 name acc c cs)
  then have n: "TrimSpace (cmName c) \<noteq> []" "map_of (fst acc) (cmName c) = None"
    and rest: "collect_module_commands name (gm_set (cmName c) name (fst acc), snd acc @ [c]) cs = Ok acc'"
    by (auto split: if_splits option.splits)
  have "cmName c \<notin> dom (map_of (fst acc))" using n(2) by (simp add: domIff)
  then have "cmName c \<notin> cmName ` set (bs @ snd acc)" using "2.prems"(2) unfolding commands_ok_def by blast
  then have "commands_ok bs (gm_set (cmName c) name (fst acc), snd acc @ [c])"
    using "2.prems"(2) n(1) by (auto simp: commands_ok_def gomap_simps)
  from "2.IH"[OF n rest this] show ?case by simp
qed simp

lemma collect_commands_loop_ok:
  "collect_commands_loop acc ms = Ok cs \<Longrightarrow> commands_ok bs acc \<Longrightarrow>
     cs = snd acc @ contributed mdCommands ms \<and> names_ok bs cs"
proof (induction acc ms rule: collect_commands_loop.induct)
  case (2 acc m ms)
  show ?case
  proof (cases "mdCommands m")
    case None
    then have "collect_commands_loop acc ms = Ok cs" using "2.prems"(1) by simp
    have eq: "contributed mdCommands (m # ms) = contributed mdCommands ms" using None by simp
    show ?thesis unfolding eq by (rule "2.IH"(1)[OF None \<open>collect_commands_loop acc ms = Ok cs\<close> "2.prems"(2)])
  next
    case (Some cmds)
    then obtain acc1 where a: "collect_module_commands (mdName m) acc cmds = Ok acc1" "collect_commands_loop acc1 ms = Ok cs"
      using "2.prems"(1) by (auto split: sum.splits)
    from collect_module_commands_ok[OF a(1) "2.prems"(2)] "2.IH"(2)[OF Some a(1) a(2)] Some show ?thesis by auto
  qed
qed (simp add: commands_ok_def names_ok_def)

lemma builtin_owners: "map_of (foldl (\<lambda>owner c. gm_set (cmName c) [] owner) acc bs) k =
    (if k \<in> cmName ` set bs then Some [] else map_of acc k)"
  by (induction bs arbitrary: acc) (auto simp: gomap_simps)

lemma collectCommands_ok:
  assumes "collectCommands bs reg = Ok cs" "distinct (map cmName bs)"
  shows "cs = contributed mdCommands (mrModules reg) \<and> names_ok bs cs"
proof -
  have "commands_ok bs (foldl (\<lambda>owner c. gm_set (cmName c) [] owner) [] bs, [])"
    using assms(2) by (auto simp: commands_ok_def dom_def builtin_owners)
  from collect_commands_loop_ok[OF assms(1)[unfolded collectCommands_def] this] show ?thesis by auto
qed

lemma distinct_builtins: "distinct (map cmName (app_builtins br))"
  by (simp add: app_builtins_def migrateCommand_def makemigrationsCommand_def)

text \<open>Migrations: once the first has a version, every one has its width.\<close>

definition migrations_ok :: "'u migration_acc \<Rightarrow> bool" where
  "migrations_ok acc \<longleftrightarrow> distinct (map mgVersion (maOut acc)) \<and> dom (map_of (maSeen acc)) = mgVersion ` set (maOut acc) \<and>
     (maOut acc = [] \<longrightarrow> maWidth acc = 0) \<and>
     (first_version (maOut acc) \<noteq> [] \<longrightarrow>
        maWidth acc = length (first_version (maOut acc)) \<and> (\<forall>g \<in> set (maOut acc). length (mgVersion g) = maWidth acc))"

lemma first_version_append: "first_version (xs @ [x]) = (if xs = [] then mgVersion x else first_version xs)"
  by (cases xs) (simp_all add: first_version_def)

lemma collect_module_migrations_ok:
  "collect_module_migrations name acc gs = Ok acc' \<Longrightarrow> migrations_ok acc \<Longrightarrow> migrations_ok acc' \<and> maOut acc' = maOut acc @ gs"
proof (induction name acc gs rule: collect_module_migrations.induct)
  case (2 name acc g gs)
  let ?acc = "\<lparr>maOut = maOut acc @ [g], maSeen = gm_set (mgVersion g) name (maSeen acc),
      maWidth = (if maWidth acc = 0 then length (mgVersion g) else maWidth acc),
      maWidthVersion = (if maWidth acc = 0 then mgVersion g else maWidthVersion acc)\<rparr>"
  have n: "map_of (maSeen acc) (mgVersion g) = None" "\<not> (maWidth acc \<noteq> 0 \<and> length (mgVersion g) \<noteq> maWidth acc)"
    and rest: "collect_module_migrations name ?acc gs = Ok acc'"
    using "2.prems"(1) by (auto split: option.splits if_splits)
  have "mgVersion g \<notin> dom (map_of (maSeen acc))" using n(1) by (simp add: domIff)
  then have "mgVersion g \<notin> mgVersion ` set (maOut acc)" using "2.prems"(2) unfolding migrations_ok_def by blast
  then have "migrations_ok ?acc"
    using "2.prems"(2) n(2) by (auto simp: migrations_ok_def gomap_simps first_version_append)
  from "2.IH"[OF n rest this] show ?case by simp
qed simp

lemma collect_migrations_loop_ok:
  "collect_migrations_loop acc ms = Ok acc' \<Longrightarrow> migrations_ok acc \<Longrightarrow>
     migrations_ok acc' \<and> maOut acc' = maOut acc @ contributed mdMigrations ms"
proof (induction acc ms rule: collect_migrations_loop.induct)
  case (2 acc m ms)
  show ?case
  proof (cases "mdMigrations m")
    case None
    then show ?thesis using 2 by simp
  next
    case (Some gs)
    then obtain acc1 where a: "collect_module_migrations (mdName m) acc gs = Ok acc1" "collect_migrations_loop acc1 ms = Ok acc'"
      using "2.prems"(1) by (auto split: sum.splits)
    from collect_module_migrations_ok[OF a(1) "2.prems"(2)] "2.IH"(2)[OF Some a(1) a(2)] Some show ?thesis by simp
  qed
qed simp

fun single_fault :: "migrate_err \<Rightarrow> bool" where
  "single_fault InvalidMigration_no_version = True"
| "single_fault (InvalidMigration_no_up _ _) = True"
| "single_fault (InvalidMigration_no_down _ _) = True"
| "single_fault _ = False"

lemma check_set_single:
  "check_set width first seen gs = Some e \<Longrightarrow> distinct (map mgVersion gs) \<Longrightarrow>
     mgVersion ` set gs \<inter> dom (map_of seen) = {} \<Longrightarrow> \<forall>g \<in> set gs. length (mgVersion g) = width \<Longrightarrow> single_fault e"
proof (induction width first seen gs rule: check_set.induct)
  case (2 width first seen g gs)
  have "map_of seen (mgVersion g) = None" using "2.prems"(3) by auto
  moreover have "mgVersion ` set gs \<inter> dom (map_of (gm_set (mgVersion g) g seen)) = {}"
    using "2.prems"(2,3) by (auto simp: gomap_simps)
  ultimately show ?case using 2 by (auto split: if_splits)
qed simp

lemma collectMigrations_ok:
  assumes "collectMigrations reg = Ok gs"
  shows "gs = contributed mdMigrations (mrModules reg) \<and>
     (\<forall>e. check_set (length (first_version gs)) (first_version gs) [] gs = Some e \<longrightarrow> single_fault e)"
proof -
  let ?acc = "\<lparr>maOut = [], maSeen = [], maWidth = 0, maWidthVersion = []\<rparr>"
  obtain acc where acc: "collect_migrations_loop ?acc (mrModules reg) = Ok acc" and gs: "gs = maOut acc"
    using assms by (auto simp: collectMigrations_def ok_iff)
  have "migrations_ok ?acc" by (simp add: migrations_ok_def first_version_def)
  from collect_migrations_loop_ok[OF acc this] have ok: "migrations_ok acc" and out: "gs = contributed mdMigrations (mrModules reg)"
    using gs by auto
  have "single_fault e" if e: "check_set (length (first_version gs)) (first_version gs) [] gs = Some e" for e
  proof (cases "first_version gs = []")
    case True
    then show ?thesis using e by (cases gs) (auto simp: first_version_def)
  next
    case False
    then show ?thesis using check_set_single[OF e] ok gs by (auto simp: migrations_ok_def)
  qed
  with out show ?thesis by blast
qed

lemma collect_models_loop_ok: "collect_models_loop tables ms = Ok tables' \<Longrightarrow> registry_ok tables \<Longrightarrow> registry_ok tables'"
  by (induction tables ms rule: collect_models_loop.induct)
    (auto split: option.splits prod.splits dest: Register_steps)

lemma NewRegistry_ok: "registry_ok NewRegistry"
  by code_simp

text \<open>C26: Wiring mistakes between modules surface at construction and nowhere else. In an app that \<open>New\<close>
  returns, no two commands share a name, so dispatch never reports a duplicate; the collected migrations
  are those of the mounted modules in registration order, and the engine can reject them only for a fault
  of a single migration, never for a version claimed twice or for mixed widths; and the collected models
  always form a snapshot, for any iteration order of the registry.\<close>

theorem New_settles_wiring:
  assumes "app_New quote gin newLogger br opt ms = Ok a"
  shows "checkDuplicates (app_commands br a) = None \<and>
     apModuleCommands a = contributed mdCommands (mrModules (apRegistry a)) \<and>
     apMigrations a = contributed mdMigrations (mrModules (apRegistry a)) \<and>
     (\<forall>e. check_set (length (first_version (apMigrations a))) (first_version (apMigrations a)) [] (apMigrations a) = Some e \<longrightarrow>
        single_fault e) \<and>
     (\<forall>it. any_order it \<longrightarrow> (\<exists>s. NewSnapshot (app_Models it a) = Ok s))"
proof -
  note new = app_New_Ok[OF assms]
  have cmds: "apModuleCommands a = contributed mdCommands (mrModules (apRegistry a))" "distinct (map cmName (app_builtins br @ apModuleCommands a))"
    using collectCommands_ok[OF _ distinct_builtins] new unfolding names_ok_def by blast+
  have "registry_ok (apModels a)"
    using new collect_models_loop_ok[of NewRegistry] NewRegistry_ok by (auto simp: collectModels_def)
  then have "\<exists>s. NewSnapshot (app_Models it a) = Ok s" if "any_order it" for it
    using that Models_wf[of "apModels a" it] Models_ascending[of "apModels a" it] strict_sorted_iff[of "map rTable (Models it (apModels a))"]
    by (simp add: NewSnapshot_Ok app_Models_def)
  moreover have "checkDuplicates (app_commands br a) = None"
    using cmds(2) by (simp add: checkDuplicates_def app_commands_def duplicates_loop_None)
  ultimately show ?thesis using cmds(1) new collectMigrations_ok by blast
qed

theorem New_settles_wiring_witness:
  "\<exists>a. app_New id ex_gin (\<lambda>_ _. 0) ex_runs zeroOptions
       [(ex_module ''a'')\<lparr>mdMigrations := Some [\<lparr>mgVersion = ''002'', mgName = ''x'', mgUp = None, mgDown = None\<rparr>]\<rparr>,
        (ex_module ''b'')\<lparr>mdMigrations := Some [\<lparr>mgVersion = ''001'', mgName = ''y'', mgUp = None, mgDown = None\<rparr>]\<rparr>] = Ok a \<and>
     checkDuplicates (app_commands ex_runs a) = None \<and> (\<exists>s. NewSnapshot (app_Models rev a) = Ok s)"
proof -
  let ?n = "app_New id ex_gin (\<lambda>_ _. 0) ex_runs zeroOptions
       [(ex_module ''a'')\<lparr>mdMigrations := Some [\<lparr>mgVersion = ''002'', mgName = ''x'', mgUp = None, mgDown = None\<rparr>]\<rparr>,
        (ex_module ''b'')\<lparr>mdMigrations := Some [\<lparr>mgVersion = ''001'', mgName = ''y'', mgUp = None, mgDown = None\<rparr>]\<rparr>]"
  have "case ?n of Inl _ \<Rightarrow> False | Inr _ \<Rightarrow> True" by code_simp
  then obtain a where a: "?n = Ok a" by (auto split: sum.splits)
  have "any_order rev" by (simp add: any_order_def)
  with New_settles_wiring[OF a] a show ?thesis by blast
qed

section \<open>Lifecycle\<close>

abbreviation starts :: "go_context \<Rightarrow> string list \<Rightarrow> run_call list" where
  "starts ctx names \<equiv> map (\<lambda>n. Module (Start n ctx)) names"

abbreviation stops :: "go_context \<Rightarrow> string list \<Rightarrow> run_call list" where
  "stops ctx names \<equiv> map (\<lambda>n. Module (Stop n ctx)) names"

lemma stop_each_calls: "stop_each ctx lcs w = (w', calls, errs) \<Longrightarrow> calls = map (\<lambda>(n, _). Stop n ctx) lcs"
  by (induction ctx lcs w arbitrary: w' calls errs rule: stop_each.induct) (auto split: prod.splits)

lemma stopAll_calls: "stopAll ctx lcs w = (w', calls, errs) \<Longrightarrow> calls = map (\<lambda>n. Stop n ctx) (rev (map fst lcs))"
  unfolding stopAll_def by (auto dest!: stop_each_calls simp: rev_map case_prod_beta)

lemma lifecycles_simps [simp]:
  "lifecycles [] = []"
  "lifecycles (m # ms) = (case mdLifecycle m of None \<Rightarrow> lifecycles ms | Some lc \<Rightarrow> (mdName m, lc) # lifecycles ms)"
  by (simp_all add: lifecycles_def List.map_filter_simps split: option.split)

text \<open>Either every start succeeds, or the starts up to the failing one are undone in reverse.\<close>

lemma start_loop_calls:
  "start_loop ctx started ms w = (w', calls, errs) \<Longrightarrow>
     (if errs = [] then calls = map (\<lambda>n. Start n ctx) (map fst (lifecycles ms))
      else \<exists>k < length (lifecycles ms). calls = map (\<lambda>n. Start n ctx) (take (Suc k) (map fst (lifecycles ms))) @
             map (\<lambda>n. Stop n ctx) (rev (map fst started @ take k (map fst (lifecycles ms)))))"
proof (induction ctx started ms w arbitrary: w' calls errs rule: start_loop.induct)
  case (2 ctx started m ms w)
  show ?case
  proof (cases "mdLifecycle m")
    case None
    then show ?thesis using "2.IH"(1)[OF None] "2.prems" by (auto split: if_splits)
  next
    case (Some lc)
    obtain w1 e where st: "lcStart lc ctx w = (w1, e)" by (cases "lcStart lc ctx w")
    show ?thesis
    proof (cases e)
      case (Some err)
      obtain w2 c2 e2 where "stopAll ctx started w1 = (w2, c2, e2)" by (cases "stopAll ctx started w1")
      then show ?thesis
        using "2.prems" st Some \<open>mdLifecycle m = Some lc\<close> by (auto dest: stopAll_calls intro!: exI[of _ 0])
    next
      case None
      obtain w2 c2 e2 where l: "start_loop ctx (started @ [(mdName m, lc)]) ms w1 = (w2, c2, e2)"
        by (cases "start_loop ctx (started @ [(mdName m, lc)]) ms w1")
      then have c: "calls = Start (mdName m) ctx # c2" "errs = e2"
        using "2.prems" st None Some by auto
      have ih: "if e2 = [] then c2 = map (\<lambda>n. Start n ctx) (map fst (lifecycles ms))
        else \<exists>k < length (lifecycles ms). c2 = map (\<lambda>n. Start n ctx) (take (Suc k) (map fst (lifecycles ms))) @
             map (\<lambda>n. Stop n ctx) (rev (map fst (started @ [(mdName m, lc)]) @ take k (map fst (lifecycles ms))))"
        using "2.IH"(2)[OF Some st[symmetric] None l] .
      show ?thesis
      proof (cases "e2 = []")
        case True
        then show ?thesis using ih c Some by simp
      next
        case False
        then obtain k where "k < length (lifecycles ms)" "c2 = map (\<lambda>n. Start n ctx) (take (Suc k) (map fst (lifecycles ms))) @
             map (\<lambda>n. Stop n ctx) (rev (map fst (started @ [(mdName m, lc)]) @ take k (map fst (lifecycles ms))))"
          using ih by auto
        then show ?thesis using False c Some by (auto intro!: exI[of _ "Suc k"])
      qed
    qed
  qed
qed simp

text \<open>A lifecycle whose methods never fail.\<close>

definition quiet :: "'w lifecycle \<Rightarrow> bool" where
  "quiet lc \<longleftrightarrow> (\<forall>ctx w. snd (lcStart lc ctx w) = None \<and> snd (lcStop lc ctx w) = None)"

lemma stop_each_quiet: "list_all (quiet \<circ> snd) lcs \<Longrightarrow> snd (snd (stop_each ctx lcs w)) = []"
proof (induction ctx lcs w rule: stop_each.induct)
  case (2 ctx name lc lcs w)
  then have "snd (lcStop lc ctx w) = None" by (simp add: quiet_def)
  then obtain w1 where w1: "lcStop lc ctx w = (w1, None)" by (cases "lcStop lc ctx w") auto
  then show ?case using "2.IH"[OF w1[symmetric]] "2.prems" by (auto split: prod.splits)
qed simp

lemma start_loop_quiet:
  "list_all (quiet \<circ> snd) (lifecycles ms) \<Longrightarrow> snd (snd (start_loop ctx started ms w)) = []"
proof (induction ctx started ms w rule: start_loop.induct)
  case (2 ctx started m ms w)
  show ?case
  proof (cases "mdLifecycle m")
    case (Some lc)
    then have "snd (lcStart lc ctx w) = None" using "2.prems" by (simp add: quiet_def)
    then obtain w1 where "lcStart lc ctx w = (w1, None)" by (cases "lcStart lc ctx w") auto
    then show ?thesis using "2.IH"(2)[OF Some] "2.prems" Some by (auto split: prod.splits)
  qed (use 2 in simp)
qed simp

definition owners :: "('w, 'u, 'r, 'g) app \<Rightarrow> string list" where
  "owners a = map fst (lifecycles (mrModules (apRegistry a)))"

lemma app_Start_calls:
  "app_Start ctx a w = (w', calls, errs) \<Longrightarrow>
     (if errs = [] then map Module calls = starts ctx (owners a)
      else \<exists>k < length (owners a). map Module calls = starts ctx (take (Suc k) (owners a)) @ stops ctx (rev (take k (owners a))))"
  unfolding app_Start_def registry_start_def
  by (drule start_loop_calls) (auto simp: owners_def comp_def split: if_splits)

lemma app_Stop_calls: "app_Stop ctx a w = (w', calls, errs) \<Longrightarrow> map Module calls = stops ctx (rev (owners a))"
  unfolding app_Stop_def registry_stop_def by (drule stopAll_calls) (simp add: owners_def comp_def)

lemma serve_until_done_calls:
  "serve_until_done ev a w = (w', calls, errs) \<Longrightarrow>
     (case ev of ServerDied _ \<Rightarrow> calls = stops Detached (rev (owners a))
      | ContextDone _ _ \<Rightarrow>
          calls = HttpShutdown (ShutdownCtx (oShutdownTimeout (apOpts a))) # stops (ShutdownCtx (oShutdownTimeout (apOpts a))) (rev (owners a)))"
  by (auto simp: serve_until_done_def Let_def dest!: app_Stop_calls split: serve_event.splits prod.splits)

text \<open>The shapes of a run: a start fails and is unwound, the address cannot be bound, the server dies, or the context ends.\<close>

definition run_shape :: "run_env \<Rightarrow> ('w, 'u, 'r, 'g) app \<Rightarrow> run_call list \<Rightarrow> bool" where
  "run_shape env a calls \<longleftrightarrow>
     (\<exists>k < length (owners a). calls = starts CallerCtx (take (Suc k) (owners a)) @ stops CallerCtx (rev (take k (owners a)))) \<or>
     (case reListen env of
        Err _ \<Rightarrow> calls = starts CallerCtx (owners a) @ [Listen (oAddr (apOpts a))] @ stops CallerCtx (rev (owners a))
      | Ok addr \<Rightarrow>
          (case reEvent env of
             ServerDied _ \<Rightarrow>
               calls = starts CallerCtx (owners a) @ [Listen (oAddr (apOpts a)), Serve addr] @ stops Detached (rev (owners a))
           | ContextDone _ _ \<Rightarrow>
               (let ctx = ShutdownCtx (oShutdownTimeout (apOpts a))
                in calls = starts CallerCtx (owners a) @ [Listen (oAddr (apOpts a)), Serve addr, HttpShutdown ctx] @ stops ctx (rev (owners a)))))"

lemma owners_running [simp]: "owners (a\<lparr>apRunning := b\<rparr>) = owners a" "owners (a\<lparr>apAddr := x\<rparr>) = owners a"
  by (simp_all add: owners_def)

lemma run_shape_running [simp]: "run_shape env (a\<lparr>apRunning := b\<rparr>) calls = run_shape env a calls"
  by (simp add: run_shape_def Let_def split: sum.split serve_event.split)

lemma run_app_shape:
  assumes "run_app env a w = (w', calls, errs)" shows "run_shape env a calls"
proof -
  obtain w1 c1 e1 where st: "app_Start CallerCtx a w = (w1, c1, e1)" by (cases "app_Start CallerCtx a w")
  note sc = app_Start_calls[OF st]
  show ?thesis
  proof (cases "e1 = []")
    case False
    then show ?thesis using assms st sc by (auto simp: run_app_def run_shape_def)
  next
    case True
    then have c1: "map Module c1 = starts CallerCtx (owners a)" using sc by simp
    show ?thesis
    proof (cases "reListen env")
      case (Inl e)
      obtain w2 c2 e2 where "app_Stop CallerCtx a w1 = (w2, c2, e2)" by (cases "app_Stop CallerCtx a w1")
      from app_Stop_calls[OF this] this show ?thesis
        using assms st True Inl c1 by (auto simp: run_app_def run_shape_def)
    next
      case (Inr addr)
      obtain w2 c2 e2 where s: "serve_until_done (reEvent env) (a\<lparr>apAddr := addr\<rparr>) w1 = (w2, c2, e2)"
        by (cases "serve_until_done (reEvent env) (a\<lparr>apAddr := addr\<rparr>) w1")
      from serve_until_done_calls[OF s] s show ?thesis
        using assms st True Inr c1 by (auto simp: run_app_def run_shape_def Let_def split: serve_event.splits)
    qed
  qed
qed

lemma run_app_quiet:
  assumes "list_all (quiet \<circ> snd) (lifecycles (mrModules (apRegistry a)))" "reListen env = Ok addr" "reEvent env = ContextDone None ServerClosed"
  shows "snd (snd (run_app env a w)) = []"
proof -
  have "snd (snd (app_Start CallerCtx a w)) = []"
    using assms(1) by (simp add: app_Start_def registry_start_def start_loop_quiet)
  moreover have "snd (snd (app_Stop ctx (a\<lparr>apAddr := addr\<rparr>) w)) = []" for ctx w
    using assms(1) by (simp add: app_Stop_def registry_stop_def stopAll_def stop_each_quiet list_all_rev)
  ultimately show ?thesis
    using assms(2,3) by (auto simp: run_app_def serve_until_done_def serve_errs_def Let_def split: prod.splits) (metis snd_conv)
qed


definition ex_app :: "(string list, nat, route_info list, route_info list) app" where
  "ex_app =
     \<lparr>apOpts = WithDefaults zeroOptions,
      apRegistry = \<lparr>mrModules = map ex_module [''a'', ''b''], mrCapabilities = [], mrSliced = False, mrCatalog = [''a'', ''b'']\<rparr>,
      apEngine = [], apRouteOwner = [], apModuleCommands = [], apModels = NewRegistry, apMigrations = [],
      apChecks = health_NewRegistry, apRunning = False, apAddr = []\<rparr>"


section \<open>Help\<close>

lemma HasPrefix_eq_sign: "CHR ''='' \<notin> set n \<Longrightarrow> CHR ''='' \<notin> set p \<Longrightarrow> HasPrefix (n @ CHR ''='' # v) (p @ ''='') \<longleftrightarrow> n = p"
  by (auto simp: HasPrefix_iff append_eq_append_conv2 Cons_eq_append_conv append_eq_Cons_conv)

lemma HasPrefix_no_sign: "CHR ''='' \<notin> set n \<Longrightarrow> \<not> HasPrefix n (p @ ''='')"
  by (auto simp: HasPrefix_iff)

lemma Cut_cases: "Cut c name = (n, v, f) \<Longrightarrow> c \<notin> set n \<and> name = n @ (if f then c # v else []) \<and> (f \<longleftrightarrow> c \<in> set name)"
  by (cases f) (auto dest: Cut_foundD Cut_not_found)

text \<open>An argument that the flag parser takes for a flag: its dashes and the rest.\<close>

definition flag_arg :: "string \<Rightarrow> string \<Rightarrow> string \<Rightarrow> bool" where
  "flag_arg s d name \<longleftrightarrow> s = d @ name \<and> (d = ''-'' \<or> d = ''--'') \<and> name \<noteq> [] \<and> hd name \<noteq> CHR ''-'' \<and> hd name \<noteq> CHR ''=''"

lemma help_arg_iff:
  assumes "flag_arg s d name" "Cut (CHR ''='') name = (n, v, f)" "\<not> (d = ''--'' \<and> n = ''h'')"
  shows "help_arg s \<longleftrightarrow> n = ''h'' \<or> n = ''help''"
proof -
  have c: "CHR ''='' \<notin> set n" "name = n @ (if f then CHR ''='' # v else [])" using Cut_cases[OF assms(2)] by blast+
  have d: "d = ''-'' \<or> d = ''--''" "s = d @ name" using assms(1) by (simp_all add: flag_arg_def)
  have n: "n \<noteq> []" "hd n \<noteq> CHR ''-''"
    using assms(1) c(2) by (cases n; simp add: flag_arg_def split: if_splits)+
  have dn: "CHR ''='' \<notin> set (d @ n)" using c(1) d(1) by auto
  have p: "HasPrefix s (p @ ''='') \<longleftrightarrow> f \<and> d @ n = p" if "CHR ''='' \<notin> set p" for p
    using HasPrefix_eq_sign[OF dn that, of v] HasPrefix_no_sign[OF dn, of p] c(2) d(2) by (cases f) simp_all
  have e: "s = p \<longleftrightarrow> \<not> f \<and> d @ n = p" if "CHR ''='' \<notin> set p" for p
    using that c(2) d(2) by (cases f) auto
  have "help_arg s \<longleftrightarrow> d @ n = ''-h'' \<or> d @ n = ''-help'' \<or> d @ n = ''--help''"
    using e[of "''-h''"] e[of "''-help''"] e[of "''--help''"] p[of "''-h''"] p[of "''-help''"] p[of "''--help''"]
    unfolding help_arg_def by simp metis
  also have "\<dots> \<longleftrightarrow> n = ''h'' \<or> n = ''help''" using d(1) n assms(3) by (elim disjE) auto
  finally show ?thesis .
qed

lemma leading_flag_arg:
  assumes "flag_arg s d name" "Cut (CHR ''='') name = (n, v, f)" "\<not> (d = ''--'' \<and> n = ''h'')"
  shows "leadingHelpRequest (s # rest) \<longleftrightarrow> n = ''h'' \<or> n = ''help'' \<or>
     leadingHelpRequest (if \<not> f \<and> n \<in> set valueFlags then tl rest else rest)"
proof -
  have c: "f \<longleftrightarrow> CHR ''='' \<in> set name" "name = n @ (if f then CHR ''='' # v else [])" using Cut_cases[OF assms(2)] by blast+
  have nf: "name = n" if "\<not> f" using c(2) that by simp
  have t: "dropWhile (\<lambda>x. x = CHR ''-'') s = name"
    using assms(1) unfolding flag_arg_def by (cases name) auto
  have s: "s \<noteq> ''--''" "s \<noteq> ''-''" "HasPrefix s ''-''"
    using assms(1) by (auto simp: flag_arg_def HasPrefix_def)
  have l: "leadingHelpRequest (s # rest) \<longleftrightarrow> help_arg s \<or>
      leadingHelpRequest (if CHR ''='' \<notin> set name \<and> name \<in> set valueFlags then tl rest else rest)"
    using s by (cases rest) (simp_all add: t Let_def)
  show ?thesis
    unfolding l help_arg_iff[OF assms] c(1)[symmetric] using nf by (cases f) simp_all
qed

lemma parseOne_not_flag:
  "length s < 2 \<or> hd s \<noteq> CHR ''-'' \<or> s = ''--'' \<Longrightarrow> \<not> leadingHelpRequest (s # rest) \<and> (\<exists>vals' args'. parseOne fs vals (s # rest) = Ok (vals', args', False))"
  by (cases s; cases "tl s") (auto simp: parseOne_def HasPrefix_def)

lemma parseOne_flag_arg:
  assumes "\<not> (length s < 2 \<or> hd s \<noteq> CHR ''-'' \<or> s = ''--'')"
  shows "parseOne fs vals (s # rest) = Err (BadSyntax s) \<or>
     (\<exists>d name n v f. flag_arg s d name \<and> Cut (CHR ''='') name = (n, v, f) \<and>
        parseOne fs vals (s # rest) = map_sum id (\<lambda>(vals, args). (vals, args, True)) (parse_named fs n (if f then Some v else None) vals rest))"
proof -
  obtain c r where s: "s = CHR ''-'' # c # r" using assms by (cases s; cases "tl s") auto
  let ?d = "if c = CHR ''-'' then ''--'' else ''-''" and ?name = "if c = CHR ''-'' then r else c # r"
  obtain n v f where cut: "Cut (CHR ''='') ?name = (n, v, f)" by (cases "Cut (CHR ''='') ?name")
  show ?thesis
  proof (cases "?name = [] \<or> hd ?name = CHR ''-'' \<or> hd ?name = CHR ''=''")
    case True
    then show ?thesis using assms s by (auto simp: parseOne_def split: if_splits)
  next
    case False
    then have "flag_arg s ?d ?name" using s by (auto simp: flag_arg_def)
    then show ?thesis using assms s False cut by (intro disjI2 exI conjI) (auto simp: parseOne_def split: if_splits)
  qed
qed

lemma find_config_flag:
  "find_flag config_flags n =
     (if n = ''debug'' then Some (config_flag (''debug'', KeyDebug))
      else if n \<in> set valueFlags then Some \<lparr>fgName = n, fgBool = False, fgSet = (\<lambda>v. None)\<rparr> else None)"
  by (auto simp: find_flag_def config_flags_def byFlag_def config_flag_def key_defs valueFlags_def)

lemma parse_named_config:
  "parse_named config_flags n vo vals rest = Err ErrHelp \<longleftrightarrow> n = ''h'' \<or> n = ''help''"
  "parse_named config_flags n vo vals rest = Ok (vals', args') \<Longrightarrow>
     n \<noteq> ''h'' \<and> n \<noteq> ''help'' \<and> args' = (if vo = None \<and> n \<in> set valueFlags then tl rest else rest)"
proof -
  have names: "''h'' \<notin> set valueFlags" "''help'' \<notin> set valueFlags" "''debug'' \<notin> set valueFlags" by (simp_all add: valueFlags_def)
  show "parse_named config_flags n vo vals rest = Err ErrHelp \<longleftrightarrow> n = ''h'' \<or> n = ''help''"
    using names
    by (cases "n = ''debug''"; cases "n \<in> set valueFlags")
      (auto simp: parse_named_def find_config_flag config_flag_def set_flag_def split: option.splits list.splits)
  show "n \<noteq> ''h'' \<and> n \<noteq> ''help'' \<and> args' = (if vo = None \<and> n \<in> set valueFlags then tl rest else rest)"
    if "parse_named config_flags n vo vals rest = Ok (vals', args')"
    using names that
    by (cases "n = ''debug''"; cases "n \<in> set valueFlags")
      (auto simp: parse_named_def find_config_flag config_flag_def set_flag_def split: option.splits list.splits if_splits)
qed

definition double_dash_h :: "string \<Rightarrow> bool" where
  "double_dash_h s \<longleftrightarrow> s = ''--h'' \<or> HasPrefix s ''--h=''"

lemma double_dash_h_arg: "flag_arg s ''--'' name \<Longrightarrow> Cut (CHR ''='') name = (''h'', v, f) \<Longrightarrow> double_dash_h s"
  using Cut_cases[of "CHR ''=''" name "''h''" v f] by (cases f) (simp_all add: flag_arg_def double_dash_h_def HasPrefix_def)

text \<open>The loop of the flag parser and the loop of \<open>leadingHelpRequest\<close> agree step by step.\<close>

lemma help_agrees:
  "fs = config_flags \<Longrightarrow> snd (ParseVisit fs vals args) = Err ErrHelp \<or> (\<exists>rest. snd (ParseVisit fs vals args) = Ok rest) \<Longrightarrow>
     list_all (\<lambda>s. \<not> double_dash_h s) args \<Longrightarrow>
     leadingHelpRequest args \<longleftrightarrow> snd (ParseVisit fs vals args) = Err ErrHelp"
proof (induction fs vals args rule: ParseVisit.induct)
  case (1 fs vals args)
  show ?case
  proof (cases args)
    case Nil
    then show ?thesis by (simp add: ParseVisit.simps parseOne_def)
  next
    case (Cons s rest)
    show ?thesis
    proof (cases "length s < 2 \<or> hd s \<noteq> CHR ''-'' \<or> s = ''--''")
      case True
      from parseOne_not_flag[OF this, of rest fs vals] Cons obtain vals' args' where
        no: "\<not> leadingHelpRequest args" and "parseOne fs vals args = Ok (vals', args', False)" by metis
      then have "ParseVisit fs vals args = (vals', Ok args')" by (simp add: ParseVisit.simps[of fs vals args])
      then show ?thesis using no by simp
    next
      case False
      have "parseOne fs vals args \<noteq> Err (BadSyntax s)"
        using "1.prems"(2) by (auto simp: ParseVisit.simps[of fs vals args])
      with parseOne_flag_arg[OF False, of fs vals rest] Cons obtain d name n v f where
        arg: "flag_arg s d name" and cut: "Cut (CHR ''='') name = (n, v, f)" and
        one: "parseOne fs vals args = map_sum id (\<lambda>(vals, args). (vals, args, True)) (parse_named fs n (if f then Some v else None) vals rest)"
        by auto
      have nh: "\<not> (d = ''--'' \<and> n = ''h'')" using double_dash_h_arg[of s name v f] arg cut "1.prems"(3) Cons by auto
      note lead = leading_flag_arg[OF arg cut nh, of rest]
      show ?thesis
      proof (cases "parse_named fs n (if f then Some v else None) vals rest")
        case (Inl e)
        then have stop: "ParseVisit fs vals args = (vals, Err e)" using one by (simp add: ParseVisit.simps[of fs vals args])
        then have e: "e = ErrHelp" using "1.prems"(2) by simp
        then have "n = ''h'' \<or> n = ''help''" using Inl "1.prems"(1) parse_named_config(1)[of n _ vals rest] by blast
        then have "leadingHelpRequest args" unfolding Cons lead by blast
        then show ?thesis using stop e by simp
      next
        case (Inr va)
        obtain vals' args' where va: "va = (vals', args')" by (cases va)
        have step: "parseOne fs vals args = Ok (vals', args', True)" using Inr va one by simp
        have eq: "ParseVisit fs vals args = ParseVisit fs vals' args'" using step by (simp add: ParseVisit.simps[of fs vals args])
        have "parse_named config_flags n (if f then Some v else None) vals rest = Ok (vals', args')" using Inr va "1.prems"(1) by simp
        from parse_named_config(2)[OF this]
        have n: "n \<noteq> ''h''" "n \<noteq> ''help''" and args': "args' = (if \<not> f \<and> n \<in> set valueFlags then tl rest else rest)"
          by (cases f; simp)+
        have "list_all (\<lambda>s. \<not> double_dash_h s) args'" using "1.prems"(3) Cons args' by (cases rest) auto
        from "1.IH"[OF step refl refl, simplified, OF "1.prems"(1)] this "1.prems"(1,2) eq
        have "leadingHelpRequest args' \<longleftrightarrow> snd (ParseVisit fs vals' args') = Err ErrHelp" by simp
        moreover have "leadingHelpRequest args \<longleftrightarrow> leadingHelpRequest args'" unfolding Cons lead args' using n by blast
        ultimately show ?thesis unfolding eq by blast
      qed
    qed
  qed
qed

text \<open>\<open>Execute\<close> shows help exactly when the settings layer met a help request. For every command line
  whose flags \<open>config.FromFlags\<close> accepts, and in which no argument is spelled \<open>--h\<close>, the hand-written scan
  of \<open>leadingHelpRequest\<close> agrees with the flag parser that has all the settings defined: it finds a help
  flag if and only if that parser stopped at one. Values of other flags are skipped, and nothing after the
  first positional argument counts.\<close>

theorem help_matches_settings:
  assumes "flag_settings args = Ok settings" "list_all (\<lambda>s. \<not> double_dash_h s) args"
  shows "leadingHelpRequest args \<longleftrightarrow> snd (ParseVisit config_flags [] args) = Err ErrHelp"
  using assms by (intro help_agrees[OF refl]) (auto simp: flag_settings_def split: prod.splits sum.splits if_splits)

theorem help_matches_settings_witness:
  "leadingHelpRequest [''-addr'', ''-h'', ''--debug=1'', ''-help=now'', ''x''] \<and>
   snd (ParseVisit config_flags [] [''-addr'', ''-h'', ''--debug=1'', ''-help=now'', ''x'']) = Err ErrHelp"
proof -
  let ?args = "[''-addr'', ''-h'', ''--debug=1'', ''-help=now'', ''x'']"
  have "case flag_settings ?args of Inl _ \<Rightarrow> False | Inr _ \<Rightarrow> True" by code_simp
  then obtain s where "flag_settings ?args = Ok s" by (auto split: sum.splits)
  moreover have "list_all (\<lambda>s. \<not> double_dash_h s) ?args" by code_simp
  moreover have "leadingHelpRequest ?args" by code_simp
  ultimately show ?thesis using help_matches_settings by blast
qed

text \<open>The spelling the scan misses: the settings layer takes it for a help request, and \<open>Execute\<close> serves.\<close>

lemma double_dash_h_serves:
  "snd (ParseVisit config_flags [] [''--h'']) = Err ErrHelp \<and> Execute quote printDefaults br a out [''--h''] = RunServer"
proof
  show "snd (ParseVisit config_flags [] [''--h'']) = Err ErrHelp" by code_simp
  have "\<not> leadingHelpRequest [''--h'']" by code_simp
  then show "Execute quote printDefaults br a out [''--h''] = RunServer" by (simp add: Execute_def HasPrefix_def)
qed

end
