(* ===== verification/Auth_Http.thy ===== *)
theory Auth_Http
  imports Auth_Service
begin

text \<open>
  The HTTP handlers of authentication (authhttp/native.go, authhttp/browser.go) and the identity a
  request context carries (auth/context.go).

  A request is the method, the headers, the cookies \<open>Request.Cookies\<close> reads from them, the body and
  the peer's address; a handler maps a request and the response under construction to the store and the
  response, and \<open>c.Next()\<close> is the handler that follows. One request makes several calls on the store,
  and other requests run between them: \<open>wdOther i\<close> is what they do to the store before the \<open>i\<close>-th call,
  any function. \<open>wdCalls i\<close> has the clock and the state of the contexts at that call, the other
  fields of \<open>world\<close> what \<open>crypto/rand\<close>, the sender and the clock of the response give. The JSON decoder,
  \<open>mime.ParseMediaType\<close>, \<open>url.Parse\<close> and \<open>net.ParseIP\<close> are parameters.
\<close>

section \<open>Requests and responses\<close>

record request =
  rqMethod :: string
  rqHeaders :: "(string, string list) gomap"
  rqCookies :: "(string \<times> string) list"
  rqBody :: string
  rqRemoteAddr :: string

datatype json_val = JString string | JTime gotime | JObject "(string \<times> json_val) list"

datatype same_site = SameSiteDefaultMode | SameSiteLaxMode | SameSiteStrictMode | SameSiteNoneMode

record cookie =
  ckName :: string
  ckValue :: string
  ckPath :: string
  ckExpires :: gotime
  ckMaxAge :: int
  ckSecure :: bool
  ckHttpOnly :: bool
  ckSameSite :: same_site

text \<open>
  \<open>gcIdentity\<close> is the identity in the context of the request, \<open>gcSent\<close> the messages handed to the
  sender on the way.
\<close>

record gctx =
  gcStatus :: nat
  gcHeaders :: "(string, string list) gomap"
  gcCookies :: "cookie list"
  gcBody :: "json_val option"
  gcAborted :: bool
  gcIdentity :: "identity option"
  gcSent :: "message list"

definition new_gctx :: gctx where
  "new_gctx = \<lparr>gcStatus = 200, gcHeaders = [], gcCookies = [], gcBody = None, gcAborted = False, gcIdentity = None, gcSent = []\<rparr>"

text \<open>The key a header is stored under: \<open>textproto.CanonicalMIMEHeaderKey\<close> of a token.\<close>

definition token_upper :: "char \<Rightarrow> char" where
  "token_upper c = (if is_lower c then char_of (of_char c - 32 :: nat) else c)"

fun canonical_key :: "bool \<Rightarrow> string \<Rightarrow> string" where
  "canonical_key up [] = []"
| "canonical_key up (c # cs) = (if up then token_upper c else ascii_lower c) # canonical_key (c = CHR ''-'') cs"

definition header_values :: "request \<Rightarrow> string \<Rightarrow> string list" where
  "header_values rq name = (case map_of (rqHeaders rq) (canonical_key True name) of None \<Rightarrow> [] | Some vs \<Rightarrow> vs)"

definition GetHeader :: "request \<Rightarrow> string \<Rightarrow> string" where
  "GetHeader rq name = (case header_values rq name of [] \<Rightarrow> [] | v # _ \<Rightarrow> v)"

definition set_header :: "string \<Rightarrow> string \<Rightarrow> gctx \<Rightarrow> gctx" where
  "set_header k v g = g\<lparr>gcHeaders := gm_set k [v] (gcHeaders g)\<rparr>"

definition add_header :: "string \<Rightarrow> string \<Rightarrow> gctx \<Rightarrow> gctx" where
  "add_header k v g =
     g\<lparr>gcHeaders := gm_set k ((case map_of (gcHeaders g) k of None \<Rightarrow> [] | Some vs \<Rightarrow> vs) @ [v]) (gcHeaders g)\<rparr>"

definition write_json :: "nat \<Rightarrow> (string \<times> json_val) list \<Rightarrow> gctx \<Rightarrow> gctx" where
  "write_json status kvs g = g\<lparr>gcStatus := status, gcBody := Some (JObject kvs)\<rparr>"

definition noStore :: "gctx \<Rightarrow> gctx" where
  "noStore g = set_header ''Pragma'' ''no-cache'' (set_header ''Cache-Control'' ''no-store'' g)"

definition writeError :: "nat \<Rightarrow> string \<Rightarrow> gctx \<Rightarrow> gctx" where
  "writeError status code g = (write_json status [(''error'', JString code)] g)\<lparr>gcAborted := True\<rparr>"

definition writeAuthError :: "auth_err \<Rightarrow> gctx \<Rightarrow> gctx" where
  "writeAuthError e g =
     (if e = ErrRateLimited then writeError 429 ''rate_limited'' g
      else if e = ErrUnavailable \<or> e = Canceled \<or> e = DeadlineExceeded then writeError 503 ''temporarily_unavailable'' g
      else writeError 401 ''authentication_failed'' g)"

definition identityJSON :: "identity \<Rightarrow> json_val" where
  "identityJSON i = JObject [(''id'', JString (idID i)), (''email'', JString (idEmail i)), (''created_at'', JTime (idCreatedAt i))]"

definition WithIdentity :: "identity \<Rightarrow> gctx \<Rightarrow> gctx" where
  "WithIdentity i g = g\<lparr>gcIdentity := Some i\<rparr>"

definition IdentityFromContext :: "gctx \<Rightarrow> identity option" where
  "IdentityFromContext g = gcIdentity g"

section \<open>Reading a request\<close>

definition maxJSONBody :: nat where "maxJSONBody = 4096"

definition json_space :: "char \<Rightarrow> bool" where
  "json_space c \<longleftrightarrow> c = CHR '' '' \<or> c = CHR 0x09 \<or> c = CHR 0x0A \<or> c = CHR 0x0D"

text \<open>
  \<open>decode\<close> reads the first JSON value of a stream into the target: the value and what follows it. The
  reader stops after \<open>maxJSONBody\<close> bytes, with an error that is not the end of the body when more were
  there; the second \<open>Decode\<close> meets the end exactly when only white space follows.
\<close>

definition decodeJSON :: "(string \<Rightarrow> string option) \<Rightarrow> (string \<Rightarrow> ('a \<times> string) option) \<Rightarrow> request \<Rightarrow> 'a option" where
  "decodeJSON ParseMediaType decode rq =
     (if ParseMediaType (GetHeader rq ''Content-Type'') \<noteq> Some ''application/json'' then None
      else case decode (take maxJSONBody (rqBody rq)) of
        None \<Rightarrow> None
      | Some (v, rest) \<Rightarrow>
          if list_all json_space rest \<and> length (rqBody rq) \<le> maxJSONBody then Some v else None)"

lemma decodeJSON_code [code]:
  "decodeJSON ParseMediaType decode rq =
     (if ParseMediaType (GetHeader rq ''Content-Type'') \<noteq> Some ''application/json'' \<or> int (length (rqBody rq)) > 4096 then None
      else case decode (rqBody rq) of
        None \<Rightarrow> None
      | Some (v, rest) \<Rightarrow> if list_all json_space rest then Some v else None)"
  by (auto simp: decodeJSON_def maxJSONBody_def split: option.split)

definition contains_any :: "string \<Rightarrow> string \<Rightarrow> bool" where
  "contains_any s cs \<longleftrightarrow> list_ex (\<lambda>c. c \<in> set cs) s"

definition header_space :: string where
  "header_space = [CHR '' '', CHR 0x09, CHR 0x0D, CHR 0x0A]"

definition bearerCredential :: "request \<Rightarrow> string option" where
  "bearerCredential rq =
     (case header_values rq ''Authorization'' of
        [v] \<Rightarrow>
          if \<not> HasPrefix v ''Bearer '' then None
          else let credential = TrimPrefix v ''Bearer ''
               in if credential \<noteq> [] \<and> length credential \<le> 256 \<and> \<not> contains_any credential header_space
                  then Some credential else None
      | _ \<Rightarrow> None)"

definition exactCookie :: "request \<Rightarrow> string \<Rightarrow> string option" where
  "exactCookie rq name =
     (case map snd (filter (\<lambda>c. fst c = name) (rqCookies rq)) of
        [value] \<Rightarrow> if value \<noteq> [] \<and> length value \<le> 256 then Some value else None
      | _ \<Rightarrow> None)"

definition exactHeader :: "request \<Rightarrow> string \<Rightarrow> string option" where
  "exactHeader rq name =
     (case header_values rq name of
        [v] \<Rightarrow> if v \<noteq> [] \<and> length v \<le> 256 \<and> \<not> contains_any v (header_space @ '','') then Some v else None
      | _ \<Rightarrow> None)"

text \<open>The host of \<open>net.SplitHostPort\<close>, or \<open>None\<close> for an error.\<close>

definition SplitHost :: "string \<Rightarrow> string option" where
  "SplitHost s =
     (case LastIndexByte s (CHR '':'') of
        None \<Rightarrow> None
      | Some i \<Rightarrow>
          if hd s = CHR ''['' then
            (let end = length (takeWhile (\<lambda>c. c \<noteq> CHR '']'') s)
             in if end = length s \<or> end + 1 \<noteq> i then None
                else if CHR ''['' \<in> set (drop 1 s) \<or> CHR '']'' \<in> set (drop (end + 1) s) then None
                else Some (drop 1 (take end s)))
          else if CHR '':'' \<in> set (take i s) then None
          else if CHR ''['' \<in> set s \<or> CHR '']'' \<in> set s then None
          else Some (take i s))"

definition directPeer :: "request \<Rightarrow> string" where
  "directPeer rq = (case SplitHost (rqRemoteAddr rq) of None \<Rightarrow> [] | Some host \<Rightarrow> host)"

definition neutralChallenge :: "string draw \<Rightarrow> gotime \<Rightarrow> (string, challenge_ref) result" where
  "neutralChallenge r now =
     (case r of Err e \<Rightarrow> Err e | Ok bytes \<Rightarrow> Ok \<lparr>crID = hex bytes, crExpiresAt = now + 5 * Minute\<rparr>)"

section \<open>The collaborators and the calls of one request\<close>

record verify_request =
  vrChallengeID :: string
  vrEmail :: string
  vrCode :: string

record 'st deps =
  dpHmac :: "string \<Rightarrow> string \<Rightarrow> digest"
  dpSha256 :: "string \<Rightarrow> digest"
  dpParseAddress :: "string \<Rightarrow> (string \<times> string) option"
  dpStore :: "'st store_ops"
  dpPreAuth :: "'st preauth_ops"
  dpParseMediaType :: "string \<Rightarrow> string option"
  dpEmailJSON :: "string \<Rightarrow> (string \<times> string) option"
  dpVerifyJSON :: "string \<Rightarrow> (verify_request \<times> string) option"

record call =
  clCtx :: ctx_err
  clStoreCtx :: ctx_err
  clCleanupCtx :: ctx_err
  clNow :: gotime

record 'st world =
  wdCalls :: "nat \<Rightarrow> call"
  wdOther :: "nat \<Rightarrow> 'st \<Rightarrow> 'st"
  wdSend :: "message \<Rightarrow> auth_err option"
  wdChallengeID :: "string draw"
  wdCode :: "nat draw"
  wdIdentityID :: "string draw"
  wdSession :: "string draw \<times> string draw \<times> string draw"
  wdBootstrap :: "string draw \<times> string draw \<times> string draw"
  wdNeutral :: "string draw"
  wdNow :: gotime

text \<open>A call of a manager as the \<open>i\<close>-th call of a request.\<close>

definition call_on :: "'st world \<Rightarrow> nat \<Rightarrow> (ctx_err \<Rightarrow> ctx_err \<Rightarrow> gotime \<Rightarrow> 'st \<Rightarrow> 'b) \<Rightarrow> 'st \<Rightarrow> 'b" where
  "call_on w i f st = (let c = wdCalls w i in f (clCtx c) (clStoreCtx c) (clNow c) (wdOther w i st))"

definition call_Current :: "'st deps \<Rightarrow> 'st world \<Rightarrow> nat \<Rightarrow> string \<Rightarrow> 'st \<Rightarrow> 'st \<times> (auth_err, identity) result" where
  "call_Current dp w i credential =
     call_on w i (\<lambda>ctx ctx' now. Current (dpSha256 dp) (dpStore dp) ctx ctx' now credential)"

definition call_Logout :: "'st deps \<Rightarrow> 'st world \<Rightarrow> nat \<Rightarrow> string \<Rightarrow> 'st \<Rightarrow> 'st \<times> auth_err option" where
  "call_Logout dp w i credential =
     call_on w i (\<lambda>ctx ctx' now. Logout (dpSha256 dp) (dpStore dp) ctx ctx' now credential)"

definition call_LogoutAll :: "'st deps \<Rightarrow> 'st world \<Rightarrow> nat \<Rightarrow> string \<Rightarrow> 'st \<Rightarrow> 'st \<times> auth_err option" where
  "call_LogoutAll dp w i credential =
     call_on w i (\<lambda>ctx ctx' now. LogoutAll (dpSha256 dp) (dpStore dp) ctx ctx' now credential)"

definition call_ValidateCSRF :: "'st deps \<Rightarrow> 'st world \<Rightarrow> nat \<Rightarrow> string \<Rightarrow> string \<Rightarrow> 'st \<Rightarrow> 'st \<times> auth_err option" where
  "call_ValidateCSRF dp w i credential csrf =
     call_on w i (\<lambda>ctx ctx' now. ValidateCSRF (dpSha256 dp) (dpStore dp) ctx ctx' now credential csrf)"

definition call_Authenticate :: "'st deps \<Rightarrow> 'st world \<Rightarrow> nat \<Rightarrow> string \<Rightarrow> string \<Rightarrow> 'st \<Rightarrow> 'st \<times> auth_err option" where
  "call_Authenticate dp w i credential csrf =
     call_on w i (\<lambda>ctx ctx' now. Authenticate (dpSha256 dp) (dpPreAuth dp) ctx ctx' now credential csrf)"

definition call_Consume :: "'st deps \<Rightarrow> 'st world \<Rightarrow> nat \<Rightarrow> string \<Rightarrow> string \<Rightarrow> 'st \<Rightarrow> 'st \<times> auth_err option" where
  "call_Consume dp w i credential csrf =
     call_on w i (\<lambda>ctx ctx' now. Consume (dpSha256 dp) (dpPreAuth dp) ctx ctx' now credential csrf)"

definition call_Bootstrap :: "'st deps \<Rightarrow> 'st world \<Rightarrow> nat \<Rightarrow> string \<Rightarrow> 'st \<Rightarrow> 'st \<times> (auth_err, preAuth) result" where
  "call_Bootstrap dp w i source =
     call_on w i (\<lambda>ctx ctx' now. Bootstrap (dpSha256 dp) (dpPreAuth dp) (fst (wdBootstrap w)) (fst (snd (wdBootstrap w)))
       (snd (snd (wdBootstrap w))) ctx ctx' now source)"

definition call_Request ::
    "'st deps \<Rightarrow> 'st world \<Rightarrow> service \<Rightarrow> nat \<Rightarrow> string \<Rightarrow> string \<Rightarrow> string \<Rightarrow> challengeOption option list \<Rightarrow> 'st \<Rightarrow>
     'st \<times> message list \<times> (auth_err, challenge_ref) result" where
  "call_Request dp w svc i email purpose source opts =
     call_on w i (\<lambda>ctx ctx' now. Service_Request (dpHmac dp) (dpSha256 dp) (dpParseAddress dp) (dpStore dp) (wdSend w)
       (wdChallengeID w) (wdCode w) svc ctx ctx' (clCleanupCtx (wdCalls w i)) now email purpose source opts)"

definition call_Verify ::
    "'st deps \<Rightarrow> 'st world \<Rightarrow> service \<Rightarrow> nat \<Rightarrow> verify_request \<Rightarrow> string \<Rightarrow> string \<Rightarrow> challengeOption option list \<Rightarrow> 'st \<Rightarrow>
     'st \<times> (auth_err, authentication) result" where
  "call_Verify dp w svc i v purpose source opts =
     call_on w i (\<lambda>ctx ctx' now. Service_Verify (dpHmac dp) (dpSha256 dp) (dpParseAddress dp) (dpStore dp)
       (wdIdentityID w) (wdSession w) svc ctx ctx' now (vrChallengeID v) (vrEmail v) (vrCode v) purpose source opts)"

type_synonym 'st handler = "gctx \<Rightarrow> 'st \<Rightarrow> 'st \<times> gctx"

section \<open>Native clients (native.go)\<close>

record native =
  ntService :: service
  ntSource :: "request \<Rightarrow> string"

datatype nativeOption = WithSource "(request \<Rightarrow> string) option"

fun native_settings :: "nat \<Rightarrow> nativeOption option list \<Rightarrow> (request \<Rightarrow> string) option \<Rightarrow>
    (string, (request \<Rightarrow> string) option) result" where
  "native_settings i [] source = Ok source"
| "native_settings i (None # opts) source = Err (''authhttp: option '' @ Itoa i @ '' is nil'')"
| "native_settings i (Some (WithSource f) # opts) source = native_settings (i + 1) opts f"

definition NewNative :: "service option \<Rightarrow> bool \<Rightarrow> nativeOption option list \<Rightarrow> (string, native) result" where
  "NewNative svc sessions opts =
     (case svc of
        None \<Rightarrow> Err ''authhttp: service and session manager are required''
      | Some svc \<Rightarrow>
          if \<not> sessions then Err ''authhttp: service and session manager are required''
          else case native_settings 0 opts (Some directPeer) of
            Err e \<Rightarrow> Err e
          | Ok None \<Rightarrow> Err ''authhttp: source function is required''
          | Ok (Some source) \<Rightarrow> Ok \<lparr>ntService = svc, ntSource = source\<rparr>)"

text \<open>The answer to a request for a code, the same in both handlers.\<close>

definition accepted :: "challenge_ref \<Rightarrow> gctx \<Rightarrow> gctx" where
  "accepted ch g = write_json 202 [(''challenge_id'', JString (crID ch)), (''expires_at'', JTime (crExpiresAt ch))] g"

definition answer_request :: "string draw \<Rightarrow> gotime \<Rightarrow> (auth_err, challenge_ref) result \<Rightarrow> gctx \<Rightarrow> gctx" where
  "answer_request neutral now r g =
     (case r of
        Ok ch \<Rightarrow> accepted ch g
      | Err e \<Rightarrow>
          if e = ErrAuthentication then writeError 400 ''invalid_request'' g
          else if e = ErrUnavailable then writeError 503 ''temporarily_unavailable'' g
          else if e = ErrDelivery \<or> e = ErrRateLimited then
            (case neutralChallenge neutral now of
               Err _ \<Rightarrow> writeError 503 ''temporarily_unavailable'' g
             | Ok ch \<Rightarrow> accepted ch g)
          else writeError 503 ''temporarily_unavailable'' g)"

definition native_RequestCode :: "'st deps \<Rightarrow> 'st world \<Rightarrow> native \<Rightarrow> request \<Rightarrow> 'st handler" where
  "native_RequestCode dp w n rq g st =
     (let g = noStore g
      in case decodeJSON (dpParseMediaType dp) (dpEmailJSON dp) rq of
           None \<Rightarrow> (st, writeError 400 ''invalid_request'' g)
         | Some email \<Rightarrow>
             (case call_Request dp w (ntService n) 0 email ''native'' (ntSource n rq) [] st of
                (st, msgs, r) \<Rightarrow> (st, answer_request (wdNeutral w) (wdNow w) r (g\<lparr>gcSent := gcSent g @ msgs\<rparr>))))"

definition native_VerifyCode :: "'st deps \<Rightarrow> 'st world \<Rightarrow> native \<Rightarrow> request \<Rightarrow> 'st handler" where
  "native_VerifyCode dp w n rq g st =
     (let g = noStore g
      in case decodeJSON (dpParseMediaType dp) (dpVerifyJSON dp) rq of
           None \<Rightarrow> (st, writeError 400 ''invalid_request'' g)
         | Some v \<Rightarrow>
             (case call_Verify dp w (ntService n) 0 v ''native'' (ntSource n rq) [] st of
                (st, Err e) \<Rightarrow> (st, writeAuthError e g)
              | (st, Ok au) \<Rightarrow>
                  (st, write_json 200 [(''identity'', identityJSON (auIdentity au)),
                                       (''token'', JString (snCredential (auSession au))),
                                       (''expires_at'', JTime (snExpiresAt (auSession au)))] g)))"

definition native_Current :: "'st deps \<Rightarrow> 'st world \<Rightarrow> request \<Rightarrow> 'st handler" where
  "native_Current dp w rq g st =
     (let g = noStore g
      in case bearerCredential rq of
           None \<Rightarrow> (st, writeError 401 ''authentication_failed'' g)
         | Some credential \<Rightarrow>
             (case call_Current dp w 0 credential st of
                (st, Err e) \<Rightarrow> (st, writeAuthError e g)
              | (st, Ok i) \<Rightarrow> (st, write_json 200 [(''identity'', identityJSON i)] g)))"

definition native_Logout :: "'st deps \<Rightarrow> 'st world \<Rightarrow> request \<Rightarrow> 'st handler" where
  "native_Logout dp w rq g st =
     (let g = noStore g
      in case bearerCredential rq of
           None \<Rightarrow> (st, writeError 401 ''authentication_failed'' g)
         | Some credential \<Rightarrow>
             (case call_Logout dp w 0 credential st of
                (st, Some e) \<Rightarrow> (st, writeAuthError e g)
              | (st, None) \<Rightarrow> (st, g\<lparr>gcStatus := 204\<rparr>)))"

definition native_LogoutAll :: "'st deps \<Rightarrow> 'st world \<Rightarrow> request \<Rightarrow> 'st handler" where
  "native_LogoutAll dp w rq g st =
     (let g = noStore g
      in case bearerCredential rq of
           None \<Rightarrow> (st, writeError 401 ''authentication_failed'' g)
         | Some credential \<Rightarrow>
             (case call_LogoutAll dp w 0 credential st of
                (st, Some e) \<Rightarrow> (st, writeAuthError e g)
              | (st, None) \<Rightarrow> (st, g\<lparr>gcStatus := 204\<rparr>)))"

definition native_RequireAuth :: "'st deps \<Rightarrow> 'st world \<Rightarrow> request \<Rightarrow> 'st handler \<Rightarrow> 'st handler" where
  "native_RequireAuth dp w rq nxt g st =
     (case bearerCredential rq of
        None \<Rightarrow> (st, writeError 401 ''authentication_failed'' (noStore g))
      | Some credential \<Rightarrow>
          (case call_Current dp w 0 credential st of
             (st, Err e) \<Rightarrow> (st, writeAuthError e (noStore g))
           | (st, Ok i) \<Rightarrow> nxt (WithIdentity i g) st))"

section \<open>Browsers (browser.go)\<close>

definition preAuthCookieName :: string where "preAuthCookieName = ''__Host-fabrin_preauth''"
definition sessionCookieName :: string where "sessionCookieName = ''__Host-fabrin_session''"
definition csrfHeaderName :: string where "csrfHeaderName = ''X-CSRF-Token''"

record browser =
  brService :: service
  brOrigins :: "string list"
  brSource :: "request \<Rightarrow> string"
  brSecure :: bool
  brPreAuthCookie :: string
  brSessionCookie :: string

datatype browserOption = WithBrowserSource "(request \<Rightarrow> string) option" | WithInsecureLoopback

record browserSettings =
  bsSource :: "(request \<Rightarrow> string) option"
  bsInsecureLoopback :: bool

fun browser_settings :: "nat \<Rightarrow> browserOption option list \<Rightarrow> browserSettings \<Rightarrow> (string, browserSettings) result" where
  "browser_settings i [] s = Ok s"
| "browser_settings i (None # opts) s = Err (''authhttp: browser option '' @ Itoa i @ '' is nil'')"
| "browser_settings i (Some (WithBrowserSource f) # opts) s = browser_settings (i + 1) opts (s\<lparr>bsSource := f\<rparr>)"
| "browser_settings i (Some WithInsecureLoopback # opts) s = browser_settings (i + 1) opts (s\<lparr>bsInsecureLoopback := True\<rparr>)"

text \<open>What \<open>url.Parse\<close> returns, as far as the code looks at it; \<open>upLoopback\<close> is
  \<open>net.ParseIP(Hostname()).IsLoopback()\<close>, false when the host is not an address.\<close>

record url_parts =
  upScheme :: string
  upHost :: string
  upUser :: bool
  upPath :: string
  upRawQuery :: string
  upFragment :: string
  upHostname :: string
  upLoopback :: bool

text \<open>
  \<open>strings.EqualFold\<close> with an ASCII text: simple folding maps the long s (U+017F) and the Kelvin sign
  (U+212A) to ASCII letters beside the letters' own cases.
\<close>

fun fold_ascii :: "string \<Rightarrow> string" where
  "fold_ascii (a # b # c # s) =
     (if a = CHR 0xC5 \<and> b = CHR 0xBF then CHR ''s'' # fold_ascii (c # s)
      else if a = CHR 0xE2 \<and> b = CHR 0x84 \<and> c = CHR 0xAA then CHR ''k'' # fold_ascii s
      else ascii_lower a # fold_ascii (b # c # s))"
| "fold_ascii [a, b] = (if a = CHR 0xC5 \<and> b = CHR 0xBF then ''s'' else [ascii_lower a, ascii_lower b])"
| "fold_ascii [a] = [ascii_lower a]"
| "fold_ascii [] = []"

definition EqualFold :: "string \<Rightarrow> string \<Rightarrow> bool" where
  "EqualFold s t \<longleftrightarrow> fold_ascii s = map ascii_lower t"

definition validOrigin :: "(string \<Rightarrow> url_parts option) \<Rightarrow> string \<Rightarrow> bool \<Rightarrow> bool" where
  "validOrigin ParseURL origin insecureLoopback =
     (case ParseURL origin of
        None \<Rightarrow> False
      | Some u \<Rightarrow>
          if upHost u = [] \<or> upUser u \<or> upPath u \<noteq> [] \<or> upRawQuery u \<noteq> [] \<or> upFragment u \<noteq> [] \<or>
             origin = ''null'' \<or> CHR ''*'' \<in> set origin then False
          else if \<not> insecureLoopback then upScheme u = ''https''
          else if upScheme u \<noteq> ''http'' then False
          else if EqualFold (upHostname u) ''localhost'' then True
          else upLoopback u)"

fun collect_origins :: "(string \<Rightarrow> url_parts option) \<Rightarrow> (string \<Rightarrow> string) \<Rightarrow> bool \<Rightarrow> string list \<Rightarrow> string list \<Rightarrow>
    (string, string list) result" where
  "collect_origins ParseURL quote insecure [] acc = Ok acc"
| "collect_origins ParseURL quote insecure (origin # origins) acc =
     (if \<not> validOrigin ParseURL origin insecure then Err (''authhttp: invalid browser origin '' @ quote origin)
      else collect_origins ParseURL quote insecure origins (List.insert origin acc))"

definition NewBrowser ::
    "(string \<Rightarrow> url_parts option) \<Rightarrow> (string \<Rightarrow> string) \<Rightarrow> service option \<Rightarrow> bool \<Rightarrow> bool \<Rightarrow> string list \<Rightarrow>
     browserOption option list \<Rightarrow> (string, browser) result" where
  "NewBrowser ParseURL quote svc sessions preAuth allowedOrigins opts =
     (case svc of
        None \<Rightarrow> Err ''authhttp: service, session manager and pre-auth manager are required''
      | Some svc \<Rightarrow>
          if \<not> sessions \<or> \<not> preAuth then Err ''authhttp: service, session manager and pre-auth manager are required''
          else case browser_settings 0 opts \<lparr>bsSource = Some directPeer, bsInsecureLoopback = False\<rparr> of
            Err e \<Rightarrow> Err e
          | Ok s \<Rightarrow>
              (case bsSource s of
                 None \<Rightarrow> Err ''authhttp: browser source function is required''
               | Some source \<Rightarrow>
                   (case collect_origins ParseURL quote (bsInsecureLoopback s) allowedOrigins [] of
                      Err e \<Rightarrow> Err e
                    | Ok origins \<Rightarrow>
                        if origins = [] then Err ''authhttp: at least one browser origin is required''
                        else Ok \<lparr>brService = svc, brOrigins = origins, brSource = source,
                          brSecure = (\<not> bsInsecureLoopback s),
                          brPreAuthCookie = (if bsInsecureLoopback s then ''fabrin_dev_preauth'' else preAuthCookieName),
                          brSessionCookie = (if bsInsecureLoopback s then ''fabrin_dev_session'' else sessionCookieName)\<rparr>)))"

definition allowedOrigin :: "browser \<Rightarrow> string \<Rightarrow> bool" where
  "allowedOrigin b origin \<longleftrightarrow> origin \<in> set (brOrigins b)"

text \<open>The origin checks: the response, aborted, when they refuse.\<close>

definition safeOrigin :: "browser \<Rightarrow> request \<Rightarrow> gctx \<Rightarrow> gctx option" where
  "safeOrigin b rq g =
     (let origin = GetHeader rq ''Origin''
      in if origin = [] \<or> allowedOrigin b origin then None else Some (writeError 403 ''origin_denied'' g))"

definition unsafeOrigin :: "browser \<Rightarrow> request \<Rightarrow> gctx \<Rightarrow> gctx option" where
  "unsafeOrigin b rq g =
     (if allowedOrigin b (GetHeader rq ''Origin'') then None else Some (writeError 403 ''origin_denied'' g))"

definition validPreflight :: "string \<Rightarrow> string \<Rightarrow> bool" where
  "validPreflight meth headers \<longleftrightarrow>
     (meth = ''GET'' \<or> meth = ''POST'') \<and>
     list_all (\<lambda>h. let header = TrimSpace h
                   in header = [] \<or> EqualFold header ''content-type'' \<or> EqualFold header csrfHeaderName)
       (Split (CHR '','') headers)"

definition CORS :: "browser \<Rightarrow> request \<Rightarrow> 'st handler \<Rightarrow> 'st handler" where
  "CORS b rq nxt g st =
     (let origin = GetHeader rq ''Origin''
      in if origin = [] then
           (if rqMethod rq = ''OPTIONS'' then (st, writeError 403 ''origin_denied'' (noStore g)) else nxt g st)
         else if \<not> allowedOrigin b origin then (st, writeError 403 ''origin_denied'' (noStore g))
         else
           (let g = add_header ''Vary'' ''Origin''
                      (set_header ''Access-Control-Allow-Credentials'' ''true''
                        (set_header ''Access-Control-Allow-Origin'' origin g))
            in if rqMethod rq \<noteq> ''OPTIONS'' then nxt g st
               else
                 (let g = noStore g
                  in if \<not> validPreflight (GetHeader rq ''Access-Control-Request-Method'')
                            (GetHeader rq ''Access-Control-Request-Headers'')
                     then (st, writeError 403 ''origin_denied'' g)
                     else (st, (add_header ''Vary'' ''Access-Control-Request-Headers''
                                 (add_header ''Vary'' ''Access-Control-Request-Method''
                                   (set_header ''Access-Control-Max-Age'' ''600''
                                     (set_header ''Access-Control-Allow-Headers'' ''Content-Type, X-CSRF-Token''
                                       (set_header ''Access-Control-Allow-Methods'' ''GET, POST'' g)))))
                               \<lparr>gcStatus := 204, gcAborted := True\<rparr>))))"

definition setBrowserCookie :: "gotime \<Rightarrow> string \<Rightarrow> string \<Rightarrow> gotime \<Rightarrow> bool \<Rightarrow> gctx \<Rightarrow> gctx" where
  "setBrowserCookie now name value expires secure g =
     (let maxAge = max 1 (time_sub expires now div Second)
      in g\<lparr>gcCookies := gcCookies g @ [\<lparr>ckName = name, ckValue = value, ckPath = ''/'', ckExpires = expires,
             ckMaxAge = maxAge, ckSecure = secure, ckHttpOnly = True, ckSameSite = SameSiteLaxMode\<rparr>]\<rparr>)"

text \<open>\<open>time.Unix(1, 0)\<close> in nanoseconds from Go's zero time, the first of January of the year 1.\<close>

definition unix_one :: gotime where "unix_one = 62135596801 * Second"

definition clearBrowserCookie :: "string \<Rightarrow> bool \<Rightarrow> gctx \<Rightarrow> gctx" where
  "clearBrowserCookie name secure g =
     g\<lparr>gcCookies := gcCookies g @ [\<lparr>ckName = name, ckValue = [], ckPath = ''/'', ckExpires = unix_one,
         ckMaxAge = -1, ckSecure = secure, ckHttpOnly = True, ckSameSite = SameSiteLaxMode\<rparr>]\<rparr>"

text \<open>The two proofs of an unsafe request: the proved credential, or the response that refuses it.\<close>

definition proof_error :: "auth_err \<Rightarrow> gctx \<Rightarrow> gctx" where
  "proof_error e g =
     (if e = ErrUnavailable \<or> e = Canceled \<or> e = DeadlineExceeded then writeError 503 ''temporarily_unavailable'' g
      else writeError 403 ''csrf_failed'' g)"

definition sessionCSRF ::
    "'st deps \<Rightarrow> 'st world \<Rightarrow> browser \<Rightarrow> request \<Rightarrow> gctx \<Rightarrow> 'st \<Rightarrow> 'st \<times> (gctx, string) result" where
  "sessionCSRF dp w b rq g st =
     (case unsafeOrigin b rq g of Some g \<Rightarrow> (st, Err g) | None \<Rightarrow>
      case exactCookie rq (brSessionCookie b) of
        None \<Rightarrow> (st, Err (writeError 401 ''authentication_failed'' g))
      | Some credential \<Rightarrow>
          (case exactHeader rq csrfHeaderName of
             None \<Rightarrow> (st, Err (writeError 403 ''csrf_failed'' g))
           | Some csrf \<Rightarrow>
               (case call_ValidateCSRF dp w 0 credential csrf st of
                  (st, Some e) \<Rightarrow> (st, Err (proof_error e g))
                | (st, None) \<Rightarrow> (st, Ok credential))))"

definition preAuthRequest ::
    "'st deps \<Rightarrow> 'st world \<Rightarrow> browser \<Rightarrow> request \<Rightarrow> gctx \<Rightarrow> 'st \<Rightarrow> 'st \<times> (gctx, string \<times> string) result" where
  "preAuthRequest dp w b rq g st =
     (case unsafeOrigin b rq g of Some g \<Rightarrow> (st, Err g) | None \<Rightarrow>
      case (exactCookie rq (brPreAuthCookie b), exactHeader rq csrfHeaderName) of
        (Some credential, Some csrf) \<Rightarrow>
          (case call_Authenticate dp w 0 credential csrf st of
             (st, Some e) \<Rightarrow> (st, Err (proof_error e g))
           | (st, None) \<Rightarrow> (st, Ok (credential, csrf)))
      | _ \<Rightarrow> (st, Err (writeError 403 ''csrf_failed'' g)))"

definition browser_Bootstrap :: "'st deps \<Rightarrow> 'st world \<Rightarrow> browser \<Rightarrow> request \<Rightarrow> 'st handler" where
  "browser_Bootstrap dp w b rq g st =
     (let g = noStore g
      in case safeOrigin b rq g of Some g \<Rightarrow> (st, g) | None \<Rightarrow>
         case call_Bootstrap dp w 0 (brSource b rq) st of
           (st, Err e) \<Rightarrow>
             (st, if e = ErrRateLimited then writeError 429 ''rate_limited'' g
                  else writeError 503 ''temporarily_unavailable'' g)
         | (st, Ok state) \<Rightarrow>
             (st, write_json 200 [(''csrf_token'', JString (paCSRFToken state)), (''expires_at'', JTime (paExpiresAt state))]
                    (setBrowserCookie (wdNow w) (brPreAuthCookie b) (paCredential state) (paExpiresAt state) (brSecure b) g)))"

definition browser_RequestCode :: "'st deps \<Rightarrow> 'st world \<Rightarrow> browser \<Rightarrow> request \<Rightarrow> 'st handler" where
  "browser_RequestCode dp w b rq g st =
     (let g = noStore g
      in case preAuthRequest dp w b rq g st of
           (st, Err g) \<Rightarrow> (st, g)
         | (st, Ok (credential, csrf)) \<Rightarrow>
             (case decodeJSON (dpParseMediaType dp) (dpEmailJSON dp) rq of
                None \<Rightarrow> (st, writeError 400 ''invalid_request'' g)
              | Some email \<Rightarrow>
                  (case call_Request dp w (brService b) 1 email ''browser'' (brSource b rq) [Some (WithBinding credential)] st of
                     (st, msgs, r) \<Rightarrow> (st, answer_request (wdNeutral w) (wdNow w) r (g\<lparr>gcSent := gcSent g @ msgs\<rparr>)))))"

definition browser_VerifyCode :: "'st deps \<Rightarrow> 'st world \<Rightarrow> browser \<Rightarrow> request \<Rightarrow> 'st handler" where
  "browser_VerifyCode dp w b rq g st =
     (let g = noStore g
      in case preAuthRequest dp w b rq g st of
           (st, Err g) \<Rightarrow> (st, g)
         | (st, Ok (credential, csrf)) \<Rightarrow>
             (case decodeJSON (dpParseMediaType dp) (dpVerifyJSON dp) rq of
                None \<Rightarrow> (st, writeError 400 ''invalid_request'' g)
              | Some v \<Rightarrow>
                  (case call_Verify dp w (brService b) 1 v ''browser'' (brSource b rq) [Some (WithBinding credential)] st of
                     (st, Err e) \<Rightarrow> (st, writeAuthError e g)
                   | (st, Ok au) \<Rightarrow>
                       (case call_Consume dp w 2 credential csrf st of
                          (st, Some e) \<Rightarrow>
                            (fst (call_Logout dp w 3 (snCredential (auSession au)) st),
                             if e = ErrPreAuth then writeError 401 ''authentication_failed'' g
                             else writeError 503 ''temporarily_unavailable'' g)
                        | (st, None) \<Rightarrow>
                            (st, write_json 200 [(''identity'', identityJSON (auIdentity au)),
                                   (''csrf_token'', JString (snCSRFToken (auSession au))),
                                   (''expires_at'', JTime (snExpiresAt (auSession au)))]
                                  (setBrowserCookie (wdNow w) (brSessionCookie b) (snCredential (auSession au))
                                    (snExpiresAt (auSession au)) (brSecure b)
                                    (clearBrowserCookie (brPreAuthCookie b) (brSecure b) g)))))))"

definition browser_Current :: "'st deps \<Rightarrow> 'st world \<Rightarrow> browser \<Rightarrow> request \<Rightarrow> 'st handler" where
  "browser_Current dp w b rq g st =
     (let g = noStore g
      in case exactCookie rq (brSessionCookie b) of
           None \<Rightarrow> (st, writeError 401 ''authentication_failed'' g)
         | Some credential \<Rightarrow>
             (case call_Current dp w 0 credential st of
                (st, Err e) \<Rightarrow> (st, writeAuthError e g)
              | (st, Ok i) \<Rightarrow> (st, write_json 200 [(''identity'', identityJSON i)] g)))"

definition browser_logout :: "'st deps \<Rightarrow> 'st world \<Rightarrow> browser \<Rightarrow> request \<Rightarrow> bool \<Rightarrow> 'st handler" where
  "browser_logout dp w b rq all g st =
     (let g = noStore g
      in case sessionCSRF dp w b rq g st of
           (st, Err g) \<Rightarrow> (st, g)
         | (st, Ok credential) \<Rightarrow>
             (case (if all then call_LogoutAll dp w 1 credential st else call_Logout dp w 1 credential st) of
                (st, r) \<Rightarrow>
                  let g = clearBrowserCookie (brSessionCookie b) (brSecure b) g
                  in (case r of Some e \<Rightarrow> (st, writeAuthError e g) | None \<Rightarrow> (st, g\<lparr>gcStatus := 204\<rparr>))))"

definition browser_Logout :: "'st deps \<Rightarrow> 'st world \<Rightarrow> browser \<Rightarrow> request \<Rightarrow> 'st handler" where
  "browser_Logout dp w b rq = browser_logout dp w b rq False"

definition browser_LogoutAll :: "'st deps \<Rightarrow> 'st world \<Rightarrow> browser \<Rightarrow> request \<Rightarrow> 'st handler" where
  "browser_LogoutAll dp w b rq = browser_logout dp w b rq True"

definition browser_RequireAuth :: "'st deps \<Rightarrow> 'st world \<Rightarrow> browser \<Rightarrow> request \<Rightarrow> 'st handler \<Rightarrow> 'st handler" where
  "browser_RequireAuth dp w b rq nxt g st =
     (case exactCookie rq (brSessionCookie b) of
        None \<Rightarrow> (st, writeError 401 ''authentication_failed'' (noStore g))
      | Some credential \<Rightarrow>
          (case call_Current dp w 0 credential st of
             (st, Err e) \<Rightarrow> (st, writeAuthError e (noStore g))
           | (st, Ok i) \<Rightarrow> nxt (WithIdentity i g) st))"

definition browser_RequireCSRF :: "'st deps \<Rightarrow> 'st world \<Rightarrow> browser \<Rightarrow> request \<Rightarrow> 'st handler \<Rightarrow> 'st handler" where
  "browser_RequireCSRF dp w b rq nxt g st =
     (case sessionCSRF dp w b rq g st of
        (st, Err g) \<Rightarrow> (st, g)
      | (st, Ok credential) \<Rightarrow> nxt g st)"

end
