(* ===== verification/Auth_Http_Correct.thy ===== *)
theory Auth_Http_Correct
  imports Auth_Http Auth_Service_Correct
begin

text \<open>
  Correctness of the HTTP handlers of authentication.

  \<open>proof_backend\<close> is what the handlers rely on in a backend: it accepts a proof only when the proof is
  valid, refuses without changing anything, and neither a consumed nor a revoked credential is valid
  again in the state the call leaves. The lemmas on the handlers are proved over it, with other requests
  free to do anything to the store between two calls; the in-memory store provides it.
\<close>

section \<open>Responses\<close>

lemma writeError_fields [simp]:
  "gcStatus (writeError s c g) = s" "gcAborted (writeError s c g) = True" "gcCookies (writeError s c g) = gcCookies g"
  "gcSent (writeError s c g) = gcSent g" "gcIdentity (writeError s c g) = gcIdentity g"
  "gcHeaders (writeError s c g) = gcHeaders g" "gcBody (writeError s c g) = Some (JObject [(''error'', JString c)])"
  by (simp_all add: writeError_def write_json_def)

lemma write_json_fields [simp]:
  "gcStatus (write_json s kvs g) = s" "gcAborted (write_json s kvs g) = gcAborted g" "gcCookies (write_json s kvs g) = gcCookies g"
  "gcSent (write_json s kvs g) = gcSent g" "gcIdentity (write_json s kvs g) = gcIdentity g"
  "gcHeaders (write_json s kvs g) = gcHeaders g" "gcBody (write_json s kvs g) = Some (JObject kvs)"
  by (simp_all add: write_json_def)

lemma noStore_fields [simp]:
  "gcStatus (noStore g) = gcStatus g" "gcAborted (noStore g) = gcAborted g" "gcCookies (noStore g) = gcCookies g"
  "gcSent (noStore g) = gcSent g" "gcIdentity (noStore g) = gcIdentity g" "gcBody (noStore g) = gcBody g"
  by (simp_all add: noStore_def set_header_def)

text \<open>A refusal: an error status, nothing set, nothing sent, nobody signed in.\<close>

definition refusal :: "nat set \<Rightarrow> gctx \<Rightarrow> gctx \<Rightarrow> bool" where
  "refusal statuses g g' \<longleftrightarrow> gcStatus g' \<in> statuses \<and> gcAborted g' \<and> gcCookies g' = gcCookies g \<and>
     gcSent g' = gcSent g \<and> gcIdentity g' = gcIdentity g"

lemma refusal_writeError [simp]: "refusal S g (writeError s c g') \<longleftrightarrow>
    s \<in> S \<and> gcCookies g' = gcCookies g \<and> gcSent g' = gcSent g \<and> gcIdentity g' = gcIdentity g"
  by (simp add: refusal_def)

lemma refusal_noStore [simp]: "refusal S (noStore g) g' \<longleftrightarrow> refusal S g g'"
  by (simp add: refusal_def)

lemma refusal_authError [simp]: "refusal {401, 429, 503} g (writeAuthError e g)"
  by (simp add: writeAuthError_def)

text \<open>A handler that refuses leaves the store to the other requests.\<close>

abbreviation refused :: "'st world \<Rightarrow> gctx \<Rightarrow> 'st \<Rightarrow> 'st \<times> gctx \<Rightarrow> bool" where
  "refused w g st res \<equiv> fst res \<in> {st, wdOther w 0 st} \<and> refusal {401, 403, 503} g (snd res)"

text \<open>
  What an unsafe browser request has to show: an allowed origin, exactly one credential cookie and one
  CSRF header, and a backend that holds the proof made of both as valid.
\<close>

definition preauth_proved ::
    "(preAuthProof \<Rightarrow> 'st \<Rightarrow> bool) \<Rightarrow> 'st deps \<Rightarrow> 'st world \<Rightarrow> browser \<Rightarrow> request \<Rightarrow> 'st \<Rightarrow> bool" where
  "preauth_proved valid dp w b rq st \<longleftrightarrow> allowedOrigin b (GetHeader rq ''Origin'') \<and>
     (\<exists>credential csrf p. exactCookie rq (brPreAuthCookie b) = Some credential \<and> exactHeader rq csrfHeaderName = Some csrf \<and>
        make_preAuthProof (dpSha256 dp) credential csrf (clNow (wdCalls w 0)) = Ok p \<and> valid p (wdOther w 0 st))"

definition session_proved ::
    "(sessionProof \<Rightarrow> 'st \<Rightarrow> bool) \<Rightarrow> 'st deps \<Rightarrow> 'st world \<Rightarrow> browser \<Rightarrow> request \<Rightarrow> 'st \<Rightarrow> bool" where
  "session_proved valid dp w b rq st \<longleftrightarrow> allowedOrigin b (GetHeader rq ''Origin'') \<and>
     (\<exists>credential csrf p. exactCookie rq (brSessionCookie b) = Some credential \<and> exactHeader rq csrfHeaderName = Some csrf \<and>
        sessionCSRFProof (dpSha256 dp) credential csrf (clNow (wdCalls w 0)) = Ok p \<and> valid p (wdOther w 0 st))"

text \<open>The credential alone decides which record a proof is about.\<close>

lemma proof_parts: "make_proof sha256 c now = Ok p \<Longrightarrow> make_proof sha256 c now' = Ok (p\<lparr>spNow := now'\<rparr>)"
  by (auto simp: make_proof_def Let_def split: if_splits option.splits prod.splits)

lemma proof_same:
  "make_proof sha256 c now = Ok p \<Longrightarrow> make_proof sha256 c now' = Ok p' \<Longrightarrow> spID p' = spID p \<and> spDigest p' = spDigest p"
  using proof_parts[of sha256 c now p now'] by auto

lemma preauth_proof_make:
  "make_preAuthProof sha256 c csrf now = Ok q \<Longrightarrow> \<exists>p. make_proof sha256 c now = Ok p \<and> ppID q = spID p"
  by (cases "make_proof sha256 c now") (auto simp: make_preAuthProof_def split: option.splits if_splits)

lemma preauth_proof_same:
  "make_preAuthProof sha256 c csrf now = Ok p \<Longrightarrow> make_preAuthProof sha256 c csrf' now' = Ok p' \<Longrightarrow> ppID p' = ppID p"
  using preauth_proof_make proof_same by metis

section \<open>The interface to a backend\<close>

locale proof_backend =
  fixes ops :: "'st store_ops" and pre :: "'st preauth_ops"
    and session_valid :: "sessionProof \<Rightarrow> 'st \<Rightarrow> bool"
    and preauth_valid :: "preAuthProof \<Rightarrow> 'st \<Rightarrow> bool"
  assumes session_accepts: "opAuthenticateSession ops ctx p st = (st', Ok i) \<Longrightarrow> session_valid p st"
    and session_refuses: "opAuthenticateSession ops ctx p st = (st', Err e) \<Longrightarrow> st' = st"
    and preauth_reads: "opAuthenticatePreAuth pre ctx q st = (st', r) \<Longrightarrow> st' = st \<and> (r = None \<longrightarrow> preauth_valid q st)"
    and preauth_consumed: "opConsumePreAuth pre ctx q st = (st', None) \<Longrightarrow> ppID q' = ppID q \<Longrightarrow> \<not> preauth_valid q' st'"
    and session_revoked: "opRevokeSession ops None p st = (st', r) \<Longrightarrow> r = None \<or> r = Some ErrSession \<Longrightarrow>
      spID p' = spID p \<Longrightarrow> spDigest p' = spDigest p \<Longrightarrow> \<not> session_valid p' st'"
begin

definition wired :: "'st deps \<Rightarrow> bool" where
  "wired dp \<longleftrightarrow> dpStore dp = ops \<and> dpPreAuth dp = pre"

lemma call_Authenticate_cases:
  assumes "wired dp" "call_Authenticate dp w i credential csrf st = (st', r)"
  shows "st' = wdOther w i st \<and> (r = None \<longrightarrow>
    (\<exists>p. make_preAuthProof (dpSha256 dp) credential csrf (clNow (wdCalls w i)) = Ok p \<and> preauth_valid p (wdOther w i st)))"
  using assms preauth_reads
  by (fastforce simp: wired_def call_Authenticate_def call_on_def Authenticate_def preAuthError_def Let_def
      split: option.splits sum.splits prod.splits if_splits)

lemma call_ValidateCSRF_cases:
  assumes "wired dp" "call_ValidateCSRF dp w i credential csrf st = (st', r)"
  shows "(r \<noteq> None \<longrightarrow> st' = wdOther w i st) \<and> (r = None \<longrightarrow>
    (\<exists>p. sessionCSRFProof (dpSha256 dp) credential csrf (clNow (wdCalls w i)) = Ok p \<and> session_valid p (wdOther w i st)))"
  using assms session_accepts session_refuses
  by (fastforce simp: wired_def call_ValidateCSRF_def call_on_def ValidateCSRF_def sessionStoreError_def Let_def
      split: option.splits sum.splits prod.splits if_splits)

lemma preAuthRequest_cases:
  assumes "wired dp"
  shows "case preAuthRequest dp w b rq g st of
      (st', Ok (credential, csrf)) \<Rightarrow> preauth_proved preauth_valid dp w b rq st \<and> st' = wdOther w 0 st \<and>
        exactCookie rq (brPreAuthCookie b) = Some credential \<and> exactHeader rq csrfHeaderName = Some csrf
    | (st', Err g') \<Rightarrow> st' \<in> {st, wdOther w 0 st} \<and> refusal {403, 503} g g'"
proof (cases "allowedOrigin b (GetHeader rq ''Origin'')")
  case False
  then show ?thesis by (simp add: preAuthRequest_def unsafeOrigin_def)
next
  case True
  note o = True
  show ?thesis
  proof (cases "\<exists>c h. exactCookie rq (brPreAuthCookie b) = Some c \<and> exactHeader rq csrfHeaderName = Some h")
    case False
    then show ?thesis using o by (auto simp: preAuthRequest_def unsafeOrigin_def split: option.splits)
  next
    case True
    then obtain c h where ch: "exactCookie rq (brPreAuthCookie b) = Some c" "exactHeader rq csrfHeaderName = Some h" by blast
    obtain st' r where A: "call_Authenticate dp w 0 c h st = (st', r)" by fastforce
    show ?thesis
      using call_Authenticate_cases[OF assms A] o ch A
      by (cases r) (auto simp: preAuthRequest_def unsafeOrigin_def preauth_proved_def proof_error_def)
  qed
qed

lemma sessionCSRF_cases:
  assumes "wired dp"
  shows "case sessionCSRF dp w b rq g st of
      (st', Ok credential) \<Rightarrow> session_proved session_valid dp w b rq st \<and> exactCookie rq (brSessionCookie b) = Some credential
    | (st', Err g') \<Rightarrow> st' \<in> {st, wdOther w 0 st} \<and> refusal {401, 403, 503} g g'"
proof (cases "allowedOrigin b (GetHeader rq ''Origin'')")
  case False
  then show ?thesis by (simp add: sessionCSRF_def unsafeOrigin_def)
next
  case True
  note o = True
  show ?thesis
  proof (cases "\<exists>c h. exactCookie rq (brSessionCookie b) = Some c \<and> exactHeader rq csrfHeaderName = Some h")
    case False
    then show ?thesis using o by (auto simp: sessionCSRF_def unsafeOrigin_def split: option.splits)
  next
    case True
    then obtain c h where ch: "exactCookie rq (brSessionCookie b) = Some c" "exactHeader rq csrfHeaderName = Some h" by blast
    obtain st' r where A: "call_ValidateCSRF dp w 0 c h st = (st', r)" by fastforce
    show ?thesis
      using call_ValidateCSRF_cases[OF assms A] o ch A
      by (cases r) (auto simp: sessionCSRF_def unsafeOrigin_def session_proved_def proof_error_def)
  qed
qed

text \<open>Without its proof, an unsafe request is refused before anything happens.\<close>

lemma unproved_preauth:
  assumes "wired dp" "\<not> preauth_proved preauth_valid dp w b rq st"
  shows "refused w g st (browser_RequestCode dp w b rq g st)" "refused w g st (browser_VerifyCode dp w b rq g st)"
proof -
  obtain st' r where R: "preAuthRequest dp w b rq (noStore g) st = (st', r)" by fastforce
  then obtain g' where "r = Err g'" "st' \<in> {st, wdOther w 0 st}" "refusal {403, 503} g g'"
    using preAuthRequest_cases[OF assms(1), where w = w and b = b and rq = rq and g = "noStore g" and st = st] assms(2)
    by (auto split: sum.splits prod.splits)
  then show "refused w g st (browser_RequestCode dp w b rq g st)" "refused w g st (browser_VerifyCode dp w b rq g st)"
    by (simp_all add: browser_RequestCode_def browser_VerifyCode_def R refusal_def)
qed

lemma unproved_session:
  assumes "wired dp" "\<not> session_proved session_valid dp w b rq st"
  shows "refused w g st (browser_logout dp w b rq all g st)" "refused w g st (browser_RequireCSRF dp w b rq nxt g st)"
proof -
  have "\<exists>st' g'. sessionCSRF dp w b rq h st = (st', Err g') \<and> st' \<in> {st, wdOther w 0 st} \<and> refusal {401, 403, 503} h g'" for h
    using sessionCSRF_cases[OF assms(1), where w = w and b = b and rq = rq and g = h and st = st] assms(2)
    by (cases "sessionCSRF dp w b rq h st") (auto split: sum.splits)
  from this[of g] this[of "noStore g"]
  show "refused w g st (browser_logout dp w b rq all g st)" "refused w g st (browser_RequireCSRF dp w b rq nxt g st)"
    by (auto simp: browser_logout_def browser_RequireCSRF_def)
qed

text \<open>A credential that was consumed or revoked is refused by its manager.\<close>

lemma consumed_refused:
  assumes w: "wired dp" and C: "call_Consume dp w i credential csrf st = (st', None)"
  shows "snd (Authenticate (dpSha256 dp) pre ctx ctx' now credential csrf' st') \<noteq> None"
proof -
  obtain p where p: "make_preAuthProof (dpSha256 dp) credential csrf (clNow (wdCalls w i)) = Ok p"
    and s': "opConsumePreAuth pre (clStoreCtx (wdCalls w i)) p (wdOther w i st) = (st', None)"
    using w C by (auto simp: wired_def call_Consume_def call_on_def Consume_def Let_def preAuthError_def
        split: option.splits sum.splits prod.splits if_splits)
  have id: "ppID p' = ppID p" if "make_preAuthProof (dpSha256 dp) credential csrf' now = Ok p'" for p'
    by (rule preauth_proof_same[OF p that])
  show ?thesis
  proof (cases "ctx = None \<and> is_ok (make_preAuthProof (dpSha256 dp) credential csrf' now)")
    case True
    then obtain p' where p': "make_preAuthProof (dpSha256 dp) credential csrf' now = Ok p'"
      by (cases "make_preAuthProof (dpSha256 dp) credential csrf' now") auto
    obtain x r where r: "opAuthenticatePreAuth pre ctx' p' st' = (x, r)" by fastforce
    have "r \<noteq> None" using preauth_consumed[OF s' id[OF p']] preauth_reads[OF r] by blast
    then show ?thesis using True by (auto simp: Authenticate_def p' r preAuthError_def)
  next
    case False
    then show ?thesis
      by (cases ctx; cases "make_preAuthProof (dpSha256 dp) credential csrf' now") (simp_all add: Authenticate_def)
  qed
qed

lemma revoked_refused:
  assumes w: "wired dp" and L: "call_Logout dp w i credential st = (st', r)" and r: "r = None \<or> r = Some ErrSession"
    and ctx: "clCtx (wdCalls w i) = None" "clStoreCtx (wdCalls w i) = None"
  shows "\<not> is_ok (snd (Current (dpSha256 dp) ops ctx ctx' now credential st'))"
proof (cases "make_proof (dpSha256 dp) credential (clNow (wdCalls w i))")
  case (Inl e)
  then have "\<not> is_ok (make_proof (dpSha256 dp) credential now)"
    using proof_parts[of "dpSha256 dp" credential now] by (cases "make_proof (dpSha256 dp) credential now") force+
  then show ?thesis by (auto simp: Current_def split: option.splits sum.splits)
next
  case (Inr p)
  then obtain r' where R: "opRevokeSession ops None p (wdOther w i st) = (st', r')" "sessionStoreError r' = r"
    using w L ctx by (auto simp: wired_def call_Logout_def call_on_def Logout_def Let_def split: prod.splits)
  have "r' = None \<or> r' = Some ErrSession"
    using R(2) r by (auto simp: sessionStoreError_def split: option.splits if_splits)
  note nv = session_revoked[OF R(1) this]
  have "opAuthenticateSession ops ctx' (p\<lparr>spNow := now\<rparr>) st' \<noteq> (x, Ok j)" for x j
    using nv[of "p\<lparr>spNow := now\<rparr>"] session_accepts by fastforce
  then show ?thesis
    by (auto simp: Current_def proof_parts[OF Inr] split: option.splits sum.splits prod.splits)
qed

text \<open>Signing in a browser either hands over the session or leaves none behind.\<close>

lemma sign_in_atomic:
  assumes w: "wired dp"
    and P: "preAuthRequest dp w b rq (noStore g) st = (st1, Ok (credential, csrf))"
    and D: "decodeJSON (dpParseMediaType dp) (dpVerifyJSON dp) rq = Some v"
    and V: "call_Verify dp w (brService b) 1 v ''browser'' (brSource b rq) [Some (WithBinding credential)] st1 = (st2, Ok au)"
    and H: "browser_VerifyCode dp w b rq g st = (st', g')"
    and L: "clCtx (wdCalls w 3) = None" "clStoreCtx (wdCalls w 3) = None" "snd (call_Logout dp w 3 (snCredential (auSession au)) (fst (call_Consume dp w 2 credential csrf st2))) \<in> {None, Some ErrSession}"
  shows "if gcStatus g' = 200
    then (\<exists>st3. call_Consume dp w 2 credential csrf st2 = (st3, None) \<and> st' = st3) \<and>
      map ckValue (gcCookies g') = map ckValue (gcCookies g) @ [[], snCredential (auSession au)] \<and>
      map ckName (gcCookies g') = map ckName (gcCookies g) @ [brPreAuthCookie b, brSessionCookie b] \<and>
      list_all (\<lambda>c. ckHttpOnly c \<and> ckSameSite c = SameSiteLaxMode \<and> ckSecure c = brSecure b \<and> ckPath c = ''/'')
        (drop (length (gcCookies g)) (gcCookies g')) \<and>
      (\<forall>ctx ctx' now csrf'. snd (Authenticate (dpSha256 dp) pre ctx ctx' now credential csrf' st') \<noteq> None)
    else gcCookies g' = gcCookies g \<and> gcStatus g' \<in> {401, 503} \<and>
      (\<forall>ctx ctx' now. \<not> is_ok (snd (Current (dpSha256 dp) ops ctx ctx' now (snCredential (auSession au)) st')))"
proof -
  obtain st3 r where C: "call_Consume dp w 2 credential csrf st2 = (st3, r)" by fastforce
  show ?thesis
  proof (cases r)
    case None
    then have "st' = st3" "g' = write_json 200 [(''identity'', identityJSON (auIdentity au)),
                                   (''csrf_token'', JString (snCSRFToken (auSession au))),
                                   (''expires_at'', JTime (snExpiresAt (auSession au)))]
                                  (setBrowserCookie (wdNow w) (brSessionCookie b) (snCredential (auSession au))
                                    (snExpiresAt (auSession au)) (brSecure b)
                                    (clearBrowserCookie (brPreAuthCookie b) (brSecure b) (noStore g)))"
      using H by (simp_all add: browser_VerifyCode_def Let_def P D V C del: One_nat_def)
    then show ?thesis
      using consumed_refused[OF w C[unfolded None]]
      by (simp add: C None setBrowserCookie_def clearBrowserCookie_def Let_def)
  next
    case (Some e)
    obtain st4 lr where lo: "call_Logout dp w 3 (snCredential (auSession au)) st3 = (st4, lr)" by fastforce
    have "st' = st4" "gcStatus g' \<in> {401, 503}" "gcCookies g' = gcCookies g"
      using H by (auto simp: browser_VerifyCode_def Let_def P D V C Some lo simp del: One_nat_def split: if_splits)
    then show ?thesis
      using revoked_refused[OF w lo _ L(1,2)] L(3) by (auto simp: lo C)
  qed
qed

end

section \<open>The in-memory backend\<close>

definition live_proof :: "sessionProof \<Rightarrow> memoryStore \<Rightarrow> bool" where
  "live_proof p s \<longleftrightarrow>
     (case map_of (msSessions s) (spID p) of
        None \<Rightarrow> False
      | Some x \<Rightarrow> live_session x (spNow p) \<and> srDigest (ssRecord x) = spDigest p \<and>
          (spCSRFDigest p = zeroDigest \<or> srCSRFDigest (ssRecord x) = spCSRFDigest p))"

definition live_preauth :: "preAuthProof \<Rightarrow> memoryStore \<Rightarrow> bool" where
  "live_preauth p s \<longleftrightarrow>
     (case map_of (msBrowserStates s) (ppID p) of
        None \<Rightarrow> False
      | Some r \<Rightarrow> prIssuedAt r \<le> ppNow p \<and> ppNow p < prExpiresAt r \<and> prDigest r = ppDigest p \<and>
          prCSRFDigest r = ppCSRFDigest p)"

interpretation http: proof_backend "memory_store itc its" "memory_preauth itb" live_proof live_preauth
proof
  show "live_proof p st" if "opAuthenticateSession (memory_store itc its) ctx p st = (st', Ok i)" for ctx p st st' i
    using that by (auto simp: memory_store_def AuthenticateSession_def live_proof_def split: option.splits if_splits)
  show "st' = st" if "opAuthenticateSession (memory_store itc its) ctx p st = (st', Err e)" for ctx p st st' e
    using that by (auto simp: memory_store_def AuthenticateSession_def split: option.splits if_splits)
  show "st' = st \<and> (r = None \<longrightarrow> live_preauth q st)" if "opAuthenticatePreAuth (memory_preauth itb) ctx q st = (st', r)" for ctx q st st' r
    using that by (auto simp: memory_preauth_def AuthenticatePreAuth_def authenticateBrowserState_def live_preauth_def
        split: option.splits if_splits)
  show "\<not> live_preauth q' st'" if "opConsumePreAuth (memory_preauth itb) ctx q st = (st', None)" "ppID q' = ppID q" for ctx q q' st st'
    using that by (auto simp: memory_preauth_def ConsumePreAuth_def live_preauth_def gm_delete_lookup split: option.splits)
  show "\<not> live_proof p' st'" if "opRevokeSession (memory_store itc its) None p st = (st', r)" "r = None \<or> r = Some ErrSession"
    "spID p' = spID p" "spDigest p' = spDigest p" for p p' st st' r
    using that by (auto simp: memory_store_def RevokeSession_def live_proof_def live_session_def gm_set_lookup
        split: option.splits if_splits)
qed

lemma memory_Logout_result:
  assumes "dpStore dp = memory_store itc its" "clCtx (wdCalls w i) = None" "clStoreCtx (wdCalls w i) = None"
  shows "snd (call_Logout dp w i credential st) \<in> {None, Some ErrSession}"
  using assms by (auto simp: call_Logout_def call_on_def Logout_def memory_store_def RevokeSession_def sessionStoreError_def
      Let_def split: sum.splits option.splits)

lemma Verify_Ok_live: "Verify it ctx a s = (s', Ok i) \<Longrightarrow> memory_live (vfSession a) i s'"
  by (elim Verify_Ok_cases complete_attempt_cases) (simp_all add: memory_live_def gm_set_lookup)

lemma Service_Verify_live:
  assumes "Service_Verify hmac sha256 ParseAddress (memory_store itc its) ridn (Ok sid, Ok secret, Ok csrf) svc ctx ctx' now
      i email code purpose source opts st = (st', Ok au)"
  shows "snCredential (auSession au) = EncodeToString sid @ ''.'' @ EncodeToString secret \<and>
    memory_live \<lparr>srID = EncodeToString sid, srIdentityID = [], srDigest = sha256 secret, srCSRFDigest = sha256 csrf,
      srCreatedAt = now, srLastSeenAt = now, srExpiresAt = now + sessionAbsoluteTTL\<rparr> (auIdentity au) st'"
  using assms
  by (auto simp: Service_Verify_def newSession_def Let_def memory_store_def dest!: Verify_Ok_live
      split: option.splits if_splits sum.splits prod.splits)

lemma live_Current:
  assumes "memory_live r i s" "r = \<lparr>srID = EncodeToString sid, srIdentityID = [], srDigest = sha256 secret, srCSRFDigest = d,
      srCreatedAt = now, srLastSeenAt = now, srExpiresAt = now + sessionAbsoluteTTL\<rparr>"
    and "length sid = 32" "length secret = 32" "now \<le> t" "t < now + sessionIdleTTL"
  shows "snd (Current sha256 (memory_store itc its) None None t (EncodeToString sid @ ''.'' @ EncodeToString secret) s) = Ok i"
proof -
  have "sessionIdleTTL \<le> sessionAbsoluteTTL" by (simp add: sessionIdleTTL_def sessionAbsoluteTTL_def)
  then have "snd (AuthenticateSession None \<lparr>spID = EncodeToString sid, spDigest = sha256 secret, spCSRFDigest = zeroDigest, spNow = t\<rparr> s) = Ok i"
    using assms by (intro live_session_authenticates) (auto simp: proves_def)
  then show ?thesis
    unfolding Current_def option.case make_proof_encoded[OF assms(3,4)] sum.case
    by (auto simp: memory_store_def split: prod.split sum.split)
qed

lemma Consume_sessions:
  assumes "dpPreAuth dp = memory_preauth itb" "call_Consume dp w i credential csrf st = (st', r)"
  shows "msSessions st' = msSessions (wdOther w i st)"
  using assms by (auto simp: call_Consume_def call_on_def Consume_def memory_preauth_def ConsumePreAuth_def Let_def
      split: option.splits sum.splits prod.splits)

section \<open>A sign-in through a browser\<close>

definition ex_deps :: "memoryStore deps" where
  "ex_deps = \<lparr>dpHmac = ex_hmac, dpSha256 = ex_sha, dpParseAddress = ex_parse, dpStore = ex_ops,
     dpPreAuth = memory_preauth (\<lambda>m. m), dpParseMediaType = Some,
     dpEmailJSON = (\<lambda>s. Some (s, [])),
     dpVerifyJSON = (\<lambda>s. Some (\<lparr>vrChallengeID = hex (ex_bytes (CHR ''i'')), vrEmail = ''ann@Example.com'', vrCode = s\<rparr>, []))\<rparr>"

definition ex_world :: "gotime \<Rightarrow> memoryStore world" where
  "ex_world t = \<lparr>wdCalls = (\<lambda>_. \<lparr>clCtx = None, clStoreCtx = None, clCleanupCtx = None, clNow = t\<rparr>), wdOther = (\<lambda>_ s. s),
     wdSend = (\<lambda>_. None), wdChallengeID = Ok (ex_bytes (CHR ''i'')), wdCode = Ok 42, wdIdentityID = Ok (ex_bytes (CHR ''u'')),
     wdSession = (Ok (ex_bytes (CHR ''a'')), Ok (ex_bytes (CHR ''b'')), Ok (ex_bytes (CHR ''c''))),
     wdBootstrap = (Ok (ex_bytes (CHR ''x'')), Ok (ex_bytes (CHR ''y'')), Ok (ex_bytes (CHR ''z''))),
     wdNeutral = Ok (ex_bytes (CHR ''n'')), wdNow = t\<rparr>"

definition ex_browser :: browser where
  "ex_browser = \<lparr>brService = ex_service, brOrigins = [''https://app.example''], brSource = (\<lambda>_. ''192.0.2.1''), brSecure = True,
     brPreAuthCookie = preAuthCookieName, brSessionCookie = sessionCookieName\<rparr>"

definition ex_post :: "(string \<times> string) list \<Rightarrow> string \<Rightarrow> string \<Rightarrow> request" where
  "ex_post cookies csrf body = \<lparr>rqMethod = ''POST'',
     rqHeaders = [(''Origin'', [''https://app.example'']), (''Content-Type'', [''application/json'']), (''X-Csrf-Token'', [csrf])],
     rqCookies = cookies, rqBody = body, rqRemoteAddr = ''192.0.2.1:4000''\<rparr>"

definition ex_preauth_cookie :: string where
  "ex_preauth_cookie = EncodeToString (ex_bytes (CHR ''x'')) @ ''.'' @ EncodeToString (ex_bytes (CHR ''y''))"

definition ex_answer :: request where
  "ex_answer = ex_post [(preAuthCookieName, ex_preauth_cookie)] (EncodeToString (ex_bytes (CHR ''z''))) ''00000042''"

text \<open>A store with the browser's pre-authentication state and an open challenge bound to it.\<close>

definition ex_waiting :: memoryStore where
  "ex_waiting = ex_new\<lparr>
     msBrowserStates := [(EncodeToString (ex_bytes (CHR ''x'')),
       \<lparr>prID = EncodeToString (ex_bytes (CHR ''x'')), prSource = ''192.0.2.1'', prDigest = ex_sha (ex_bytes (CHR ''y'')),
        prCSRFDigest = ex_sha (ex_bytes (CHR ''z'')), prIssuedAt = 2 * Hour, prExpiresAt = 2 * Hour + preAuthTTL\<rparr>)],
     msChallenges := [(hex (ex_bytes (CHR ''i'')),
       \<lparr>scReservation = \<lparr>rvID = hex (ex_bytes (CHR ''i'')), rvEmail = ''ann@example.com'', rvKeyID = ''k1'', rvPurpose = ''browser'',
          rvVerifier = verifier ex_hmac (svKey ex_service) [''browser'', hex (ex_bytes (CHR ''i'')), ''ann@example.com'', ''00000042''],
          rvBinding = ex_sha ex_preauth_cookie, rvIssuedAt = 2 * Hour, rvExpiresAt = 2 * Hour + 5 * Minute, rvSource = ''192.0.2.1''\<rparr>,
        scAttempts = 0, scActive = True\<rparr>)]\<rparr>"

definition ex_w :: "memoryStore world" where "ex_w = ex_world (2 * Hour + Minute)"

lemma ex_reads: "exactCookie ex_answer preAuthCookieName = Some ex_preauth_cookie"
    "exactHeader ex_answer csrfHeaderName = Some (EncodeToString (ex_bytes (CHR ''z'')))"
    "GetHeader ex_answer ''Origin'' = ''https://app.example''"
    "decodeJSON Some (dpVerifyJSON ex_deps) ex_answer =
      Some \<lparr>vrChallengeID = hex (ex_bytes (CHR ''i'')), vrEmail = ''ann@Example.com'', vrCode = ''00000042''\<rparr>"
  by code_simp+

lemma ex_len: "length (ex_bytes c) = 32" by (simp add: ex_bytes_def)

lemma ex_proof: "make_proof ex_sha ex_preauth_cookie now =
    Ok \<lparr>spID = EncodeToString (ex_bytes (CHR ''x'')), spDigest = ex_sha (ex_bytes (CHR ''y'')), spCSRFDigest = zeroDigest, spNow = now\<rparr>"
  unfolding ex_preauth_cookie_def by (rule make_proof_encoded[OF ex_len ex_len])

lemma ex_preauth_ok:
  "preAuthRequest ex_deps ex_w ex_browser ex_answer g ex_waiting = (ex_waiting, Ok (ex_preauth_cookie, EncodeToString (ex_bytes (CHR ''z''))))"
  by (simp add: preAuthRequest_def ex_reads ex_browser_def unsafeOrigin_def allowedOrigin_def call_Authenticate_def call_on_def
      Authenticate_def ex_deps_def ex_w_def ex_world_def make_preAuthProof_def ex_proof base64_round_trip ex_len length_encode
      memory_preauth_def AuthenticatePreAuth_def authenticateBrowserState_def ex_waiting_def preAuthTTL_def preAuthError_def)

lemma ex_verify_ok:
  "\<exists>st2 au. call_Verify ex_deps ex_w ex_service 1
       \<lparr>vrChallengeID = hex (ex_bytes (CHR ''i'')), vrEmail = ''ann@Example.com'', vrCode = ''00000042''\<rparr>
        ''browser'' ''192.0.2.1'' [Some (WithBinding ex_preauth_cookie)] ex_waiting = (st2, Ok au) \<and>
     msBrowserStates st2 = msBrowserStates ex_waiting"
proof -
  have em: "canonicalEmail ex_parse ''ann@Example.com'' = Ok ''ann@example.com''" by code_simp
  have ne: "EncodeToString (ex_bytes c) \<noteq> []" for c by (rule encode_nonempty[OF ex_len])
  have b: "challengeBinding ex_sha [Some (WithBinding ex_preauth_cookie)] = Ok (ex_sha ex_preauth_cookie)"
    by (simp add: challengeBinding_def apply_option_def ex_preauth_cookie_def length_encode ex_len)
  have n: "msSessions ex_new = []" "msIdentities ex_new = []" "msSourceVerifications ex_new = []" "msCapacity ex_new = 2"
     "msActive ex_new = []" by (code_simp)+
  show ?thesis
    by (simp add: call_Verify_def call_on_def ex_deps_def ex_w_def ex_world_def Service_Verify_def b em randomHex_def newSession_def
        memory_store_def Verify_def ex_waiting_def n prune_def prune_budget_def gm_mapv_def gm_filterv_def entries_def
        sourceVerifyLimit_def gm_set_lookup open_challenge_def challengeAttempts_def credentials_match_def ex_service_def
        complete_attempt_def ne make_room_def resolve_identity_def sessionAbsoluteTTL_def Let_def)
qed

lemma ex_sign_in_200: "gcStatus (snd (browser_VerifyCode ex_deps ex_w ex_browser ex_answer g ex_waiting)) = 200"
proof -
  obtain st2 au where V: "call_Verify ex_deps ex_w ex_service 1
       \<lparr>vrChallengeID = hex (ex_bytes (CHR ''i'')), vrEmail = ''ann@Example.com'', vrCode = ''00000042''\<rparr>
        ''browser'' ''192.0.2.1'' [Some (WithBinding ex_preauth_cookie)] ex_waiting = (st2, Ok au)"
    and m: "msBrowserStates st2 = msBrowserStates ex_waiting" using ex_verify_ok by blast
  have b: "brService ex_browser = ex_service" "brSource ex_browser ex_answer = ''192.0.2.1''" "dpParseMediaType ex_deps = Some"
    by (simp_all add: ex_browser_def ex_deps_def)
  have "snd (call_Consume ex_deps ex_w 2 ex_preauth_cookie (EncodeToString (ex_bytes (CHR ''z''))) st2) = None"
    by (simp add: call_Consume_def call_on_def Consume_def ex_deps_def ex_w_def ex_world_def make_preAuthProof_def ex_proof base64_round_trip
        ex_len length_encode memory_preauth_def ConsumePreAuth_def authenticateBrowserState_def m ex_waiting_def preAuthTTL_def
        preAuthError_def)
  then show ?thesis
    by (auto simp: browser_VerifyCode_def ex_preauth_ok b ex_reads V Let_def simp del: One_nat_def split: prod.split)
qed

section \<open>Claims\<close>



lemma foreign_origin:
  assumes "\<not> allowedOrigin b (GetHeader rq ''Origin'')"
  shows "browser_RequestCode dp w b rq g st = (st, writeError 403 ''origin_denied'' (noStore g))"
    "browser_VerifyCode dp w b rq g st = (st, writeError 403 ''origin_denied'' (noStore g))"
    "browser_logout dp w b rq all g st = (st, writeError 403 ''origin_denied'' (noStore g))"
  using assms
  by (simp_all add: browser_RequestCode_def browser_VerifyCode_def browser_logout_def preAuthRequest_def
      sessionCSRF_def unsafeOrigin_def)

text \<open>C29: Unsafe browser requests fail closed. Unless the origin is on the list and the request has
  exactly one credential cookie and one CSRF header that match a live record of the in-memory store,
  requesting a code, verifying one, logging out and the handler behind \<open>RequireCSRF\<close> do nothing: no
  call changes the store, no mail is sent, no cookie is set, nobody is signed in, and the answer is an
  aborted 401, 403 or 503. A request from another origin gets 403 and never reaches the store.\<close>

theorem unsafe_requests_fail_closed:
  assumes "dpStore dp = memory_store itc its" "dpPreAuth dp = memory_preauth itb"
  shows "(\<not> preauth_proved live_preauth dp w b rq st \<longrightarrow>
      refused w g st (browser_RequestCode dp w b rq g st) \<and> refused w g st (browser_VerifyCode dp w b rq g st)) \<and>
    (\<not> session_proved live_proof dp w b rq st \<longrightarrow>
      refused w g st (browser_Logout dp w b rq g st) \<and> refused w g st (browser_LogoutAll dp w b rq g st) \<and>
      (\<forall>nxt. refused w g st (browser_RequireCSRF dp w b rq nxt g st))) \<and>
    (\<not> allowedOrigin b (GetHeader rq ''Origin'') \<longrightarrow>
      browser_RequestCode dp w b rq g st = (st, writeError 403 ''origin_denied'' (noStore g)) \<and>
      browser_VerifyCode dp w b rq g st = (st, writeError 403 ''origin_denied'' (noStore g)) \<and>
      browser_Logout dp w b rq g st = (st, writeError 403 ''origin_denied'' (noStore g)) \<and>
      browser_LogoutAll dp w b rq g st = (st, writeError 403 ''origin_denied'' (noStore g)))"
proof -
  have w: "http.wired itc its itb dp" using assms by (simp add: http.wired_def)
  show ?thesis
    unfolding browser_Logout_def browser_LogoutAll_def
    by (intro conjI impI allI http.unproved_preauth[OF w, THEN conjunct1] http.unproved_preauth[OF w, THEN conjunct2]
        http.unproved_session[OF w, THEN conjunct1] http.unproved_session[OF w, THEN conjunct2] foreign_origin)
qed

definition ex_foreign :: request where
  "ex_foreign = ex_answer\<lparr>rqHeaders := [(''Origin'', [''https://evil.example''])]\<rparr>"

theorem unsafe_requests_fail_closed_witness:
  "browser_VerifyCode ex_deps ex_w ex_browser ex_foreign new_gctx ex_waiting =
     (ex_waiting, writeError 403 ''origin_denied'' (noStore new_gctx)) \<and>
   refused ex_w new_gctx ex_waiting (browser_LogoutAll ex_deps ex_w ex_browser ex_foreign new_gctx ex_waiting)"
proof -
  have d: "dpStore ex_deps = ex_ops" "dpPreAuth ex_deps = memory_preauth (\<lambda>m. m)" by (simp_all add: ex_deps_def)
  have o: "\<not> allowedOrigin ex_browser (GetHeader ex_foreign ''Origin'')" by code_simp
  then have "\<not> session_proved live_proof ex_deps ex_w ex_browser ex_foreign ex_waiting" by (simp add: session_proved_def)
  then show ?thesis
    using unsafe_requests_fail_closed[OF d, of ex_w ex_browser ex_foreign ex_waiting new_gctx] o by blast
qed

lemma Service_Request_Ok_ref:
  assumes "Service_Request hmac sha256 ParseAddress ops send (Ok bytes) rn svc ctx ctx' ctx'' now email purpose source opts st = (st', msgs, Ok ch)"
  shows "ch = \<lparr>crID = hex bytes, crExpiresAt = now + 5 * Minute\<rparr>"
  using assms
  by (auto simp: Service_Request_def newChallenge_def Let_def split: option.splits if_splits sum.splits prod.splits)

text \<open>The two references a client may be given: the challenge's own and the neutral one.\<close>

abbreviation reference :: "string \<Rightarrow> gotime \<Rightarrow> challenge_ref" where
  "reference bytes t \<equiv> \<lparr>crID = hex bytes, crExpiresAt = t + 5 * Minute\<rparr>"

lemma answer_request_neutral:
  assumes "r = Ok (reference bytes t) \<or> r = Err ErrDelivery \<or> r = Err ErrRateLimited"
  shows "\<exists>ch \<in> {reference bytes t, reference neutral t'}. answer_request (Ok neutral) t' r g = accepted ch g"
  using assms by (elim disjE) (simp_all add: answer_request_def neutralChallenge_def)

text \<open>A request for a code does not reveal whether mail was sent. When the service accepts the
  request, when it refuses because an address or source budget is exhausted, and when the mail cannot
  be delivered, native clients and browsers get the same answer: status 202, the same headers, no
  cookie, and an object with \<open>challenge_id\<close>, the 64 hexadecimal digits of 32 random bytes, and
  \<open>expires_at\<close>, five minutes after the moment of the request, whatever the store behind it.\<close>

theorem request_code_answers_alike:
  assumes draws: "wdChallengeID w = Ok bytes" "wdNeutral w = Ok neutral" "length bytes = 32" "length neutral = 32"
    and D: "decodeJSON (dpParseMediaType dp) (dpEmailJSON dp) rq = Some email"
  shows "(\<forall>ch \<in> {reference bytes t, reference neutral t'}. length (crID ch) = 64 \<and>
      (let g' = accepted ch (noStore g)
       in gcStatus g' = 202 \<and> gcCookies g' = gcCookies g \<and> gcHeaders g' = gcHeaders (noStore g) \<and>
          gcBody g' = Some (JObject [(''challenge_id'', JString (crID ch)), (''expires_at'', JTime (crExpiresAt ch))]))) \<and>
    (\<forall>st' msgs r. call_Request dp w (ntService n) 0 email ''native'' (ntSource n rq) [] st = (st', msgs, r) \<longrightarrow>
      is_ok r \<or> r = Err ErrDelivery \<or> r = Err ErrRateLimited \<longrightarrow>
      (\<exists>ch \<in> {reference bytes (clNow (wdCalls w 0)), reference neutral (wdNow w)}.
        native_RequestCode dp w n rq g st = (st', accepted ch ((noStore g)\<lparr>gcSent := gcSent g @ msgs\<rparr>)))) \<and>
    (\<forall>st1 credential csrf st' msgs r. preAuthRequest dp w b rq (noStore g) st = (st1, Ok (credential, csrf)) \<longrightarrow>
      call_Request dp w (brService b) 1 email ''browser'' (brSource b rq) [Some (WithBinding credential)] st1 = (st', msgs, r) \<longrightarrow>
      is_ok r \<or> r = Err ErrDelivery \<or> r = Err ErrRateLimited \<longrightarrow>
      (\<exists>ch \<in> {reference bytes (clNow (wdCalls w 1)), reference neutral (wdNow w)}.
        browser_RequestCode dp w b rq g st = (st', accepted ch ((noStore g)\<lparr>gcSent := gcSent g @ msgs\<rparr>))))"
proof -
  have len: "length (hex bytes) = 64" "length (hex neutral) = 64" using draws by simp_all
  have ref: "r = Ok (reference bytes (clNow (wdCalls w k))) \<or> r = Err ErrDelivery \<or> r = Err ErrRateLimited"
    if "call_Request dp w svc k email purpose source opts x = (st', msgs, r)" "is_ok r \<or> r = Err ErrDelivery \<or> r = Err ErrRateLimited"
    for svc k purpose source opts x st' msgs r
    using that Service_Request_Ok_ref[of "dpHmac dp" "dpSha256 dp" "dpParseAddress dp" "dpStore dp" "wdSend w" bytes]
    unfolding call_Request_def call_on_def Let_def draws(1) by (cases r) fastforce+
  show ?thesis
  proof (intro conjI allI impI, goal_cases)
    case 1
    then show ?case using len by (simp add: accepted_def)
  next
    case (2 st' msgs r)
    from answer_request_neutral[OF ref[OF this], where g = "(noStore g)\<lparr>gcSent := gcSent g @ msgs\<rparr>" and neutral = neutral and t' = "wdNow w"]
    show ?case using 2(1) by (auto simp: native_RequestCode_def Let_def D draws(2))
  next
    case (3 st1 credential csrf st' msgs r)
    from answer_request_neutral[OF ref[OF 3(2,3)], where g = "(noStore g)\<lparr>gcSent := gcSent g @ msgs\<rparr>" and neutral = neutral and t' = "wdNow w"]
    show ?case using 3(1,2) by (auto simp: browser_RequestCode_def Let_def D draws(2) simp del: One_nat_def)
  qed
qed

theorem request_code_answers_alike_witness:
  "\<exists>ch \<in> {reference (ex_bytes (CHR ''i'')) (2 * Hour + Minute), reference (ex_bytes (CHR ''n'')) (2 * Hour + Minute)}.
     native_RequestCode ex_deps ex_w \<lparr>ntService = ex_service, ntSource = (\<lambda>_. [])\<rparr> ex_answer new_gctx ex_waiting =
       (ex_waiting, accepted ch (noStore new_gctx))"
proof -
  let ?n = "\<lparr>ntService = ex_service, ntSource = (\<lambda>_. [])\<rparr>"
  have d: "wdChallengeID ex_w = Ok (ex_bytes (CHR ''i''))" "wdNeutral ex_w = Ok (ex_bytes (CHR ''n''))"
    and t: "clNow (wdCalls ex_w 0) = 2 * Hour + Minute" "wdNow ex_w = 2 * Hour + Minute" by (simp_all add: ex_w_def ex_world_def)
  have D: "decodeJSON (dpParseMediaType ex_deps) (dpEmailJSON ex_deps) ex_answer = Some ''00000042''" by code_simp
  have c: "call_Request ex_deps ex_w (ntService ?n) 0 ''00000042'' ''native'' (ntSource ?n ex_answer) [] ex_waiting =
      (ex_waiting, [], Err ErrRateLimited)"
    by (simp add: call_Request_def call_on_def ex_w_def ex_world_def Service_Request_def)
  have g: "(noStore new_gctx)\<lparr>gcSent := gcSent new_gctx @ []\<rparr> = noStore new_gctx" by (simp add: noStore_def set_header_def)
  show ?thesis
    using request_code_answers_alike[OF d ex_len ex_len D, of 0 0 new_gctx ?n ex_waiting ex_browser,
        THEN conjunct2, THEN conjunct1, rule_format, OF c disjI2[OF disjI2[OF refl]]]
    unfolding g t .
qed

text \<open>The middleware that authenticates, on both sides.\<close>

definition identity_of :: "memoryStore deps \<Rightarrow> memoryStore world \<Rightarrow> string option \<Rightarrow> memoryStore \<Rightarrow> identity option" where
  "identity_of dp w credential st =
     (case credential of None \<Rightarrow> None | Some c \<Rightarrow>
      case clCtx (wdCalls w 0) of Some _ \<Rightarrow> None | None \<Rightarrow>
      case clStoreCtx (wdCalls w 0) of Some _ \<Rightarrow> None | None \<Rightarrow>
      case make_proof (dpSha256 dp) c (clNow (wdCalls w 0)) of Err _ \<Rightarrow> None | Ok p \<Rightarrow>
      if live_proof p (wdOther w 0 st) then map_option ssIdentity (map_of (msSessions (wdOther w 0 st)) (spID p)) else None)"

lemma call_Current_identity:
  assumes "dpStore dp = memory_store itc its"
  shows "case call_Current dp w 0 c st of
      (st', Ok i) \<Rightarrow> identity_of dp w (Some c) st = Some i
    | (st', Err e) \<Rightarrow> identity_of dp w (Some c) st = None \<and> st' = wdOther w 0 st"
proof -
  have Z: "spCSRFDigest p = zeroDigest" if "make_proof sha c now = Ok p" for sha now p
    using that by (auto simp: make_proof_def Let_def split: if_splits option.splits prod.splits)
  show ?thesis
    using assms Z
    by (cases "make_proof (dpSha256 dp) c (clNow (wdCalls w 0))")
      (auto simp: call_Current_def call_on_def Current_def identity_of_def memory_store_def AuthenticateSession_def
        live_proof_def Let_def split: option.split)
qed

text \<open>C30: The handler behind either \<open>RequireAuth\<close> runs exactly for the requests of a live session, with
  that session's identity in its context; any other request is answered 401, 429 or 503 without
  running it and without changing the store.\<close>

theorem RequireAuth_admits_live_sessions:
  assumes "dpStore dp = memory_store itc its"
  shows "(case identity_of dp w (bearerCredential rq) st of
      Some i \<Rightarrow> \<exists>st'. \<forall>nxt. native_RequireAuth dp w rq nxt g st = nxt (WithIdentity i g) st'
    | None \<Rightarrow> \<exists>g'. refusal {401, 429, 503} g g' \<and>
        (\<exists>st' \<in> {st, wdOther w 0 st}. \<forall>nxt. native_RequireAuth dp w rq nxt g st = (st', g'))) \<and>
    (case identity_of dp w (exactCookie rq (brSessionCookie b)) st of
      Some i \<Rightarrow> \<exists>st'. \<forall>nxt. browser_RequireAuth dp w b rq nxt g st = nxt (WithIdentity i g) st'
    | None \<Rightarrow> \<exists>g'. refusal {401, 429, 503} g g' \<and>
        (\<exists>st' \<in> {st, wdOther w 0 st}. \<forall>nxt. browser_RequireAuth dp w b rq nxt g st = (st', g')))"
proof -
  have none: "identity_of dp w None st = None" by (simp add: identity_of_def)
  have some: "case identity_of dp w (Some c) st of
      Some i \<Rightarrow> \<exists>st'. call_Current dp w 0 c st = (st', Ok i)
    | None \<Rightarrow> \<exists>e. call_Current dp w 0 c st = (wdOther w 0 st, Err e)" for c
    using call_Current_identity[OF assms, of w c st] by (cases "call_Current dp w 0 c st") (auto split: sum.splits)
  have err: "refusal {401, 429, 503} g (writeAuthError e (noStore g))" for e
    using refusal_authError[of "noStore g" e] by simp
  have gate: "case identity_of dp w cred st of
      Some i \<Rightarrow> \<exists>st'. \<forall>nxt. mw nxt = nxt (WithIdentity i g) st'
    | None \<Rightarrow> \<exists>g'. refusal {401, 429, 503} g g' \<and> (\<exists>st' \<in> {st, wdOther w 0 st}. \<forall>nxt. mw nxt = (st', g'))"
    if mw: "\<And>nxt. mw nxt = (case cred of
        None \<Rightarrow> (st, writeError 401 ''authentication_failed'' (noStore g))
      | Some credential \<Rightarrow>
          (case call_Current dp w 0 credential st of
             (st, Err e) \<Rightarrow> (st, writeAuthError e (noStore g))
           | (st, Ok i) \<Rightarrow> nxt (WithIdentity i g) st))" for cred and mw :: "memoryStore handler \<Rightarrow> memoryStore \<times> gctx"
  proof (cases cred)
    case None
    then show ?thesis using mw none by simp
  next
    case (Some c)
    show ?thesis
    proof (cases "identity_of dp w (Some c) st")
      case None
      then obtain e where "call_Current dp w 0 c st = (wdOther w 0 st, Err e)" using some[of c] by auto
      then show ?thesis using mw err[of e] None Some by auto
    next
      fix i assume i: "identity_of dp w (Some c) st = Some i"
      then obtain st' where "call_Current dp w 0 c st = (st', Ok i)" using some[of c] by auto
      then have "\<forall>nxt. mw nxt = nxt (WithIdentity i g) st'" using mw Some by simp
      then show ?thesis using i Some by auto
    qed
  qed
  show ?thesis
    by (intro conjI gate) (simp_all add: native_RequireAuth_def browser_RequireAuth_def)
qed

definition ex_session_store :: memoryStore where
  "ex_session_store = ex_new\<lparr>msSessions := [(EncodeToString (ex_bytes (CHR ''x'')),
     \<lparr>ssRecord = \<lparr>srID = EncodeToString (ex_bytes (CHR ''x'')), srIdentityID = ''u1'', srDigest = ex_sha (ex_bytes (CHR ''y'')),
        srCSRFDigest = ex_sha (ex_bytes (CHR ''z'')), srCreatedAt = 2 * Hour, srLastSeenAt = 2 * Hour, srExpiresAt = 2 * Hour + sessionAbsoluteTTL\<rparr>,
      ssIdentity = \<lparr>idID = ''u1'', idEmail = ''ann@example.com'', idCreatedAt = Hour\<rparr>, ssActive = True\<rparr>)]\<rparr>"

definition ex_bearer :: request where
  "ex_bearer = ex_answer\<lparr>rqHeaders := [(''Authorization'', [''Bearer '' @ ex_preauth_cookie])]\<rparr>"

theorem RequireAuth_admits_live_sessions_witness:
  "\<exists>st'. \<forall>nxt. native_RequireAuth ex_deps ex_w ex_bearer nxt new_gctx ex_session_store =
     nxt (WithIdentity \<lparr>idID = ''u1'', idEmail = ''ann@example.com'', idCreatedAt = Hour\<rparr> new_gctx) st'"
proof -
  have d: "dpStore ex_deps = ex_ops" by (simp add: ex_deps_def)
  have "bearerCredential ex_bearer = Some ex_preauth_cookie" by code_simp
  then have "identity_of ex_deps ex_w (bearerCredential ex_bearer) ex_session_store =
      Some \<lparr>idID = ''u1'', idEmail = ''ann@example.com'', idCreatedAt = Hour\<rparr>"
    by (simp add: identity_of_def ex_w_def ex_world_def ex_deps_def ex_proof live_proof_def ex_session_store_def live_session_def
        sessionIdleTTL_def sessionAbsoluteTTL_def)
  then show ?thesis
    using RequireAuth_admits_live_sessions[OF d, where w = ex_w and rq = ex_bearer and st = ex_session_store and g = new_gctx, THEN conjunct1] by simp
qed

section \<open>Origins\<close>

lemma browser_settings_loopback:
  "browser_settings i opts s = Ok s' \<Longrightarrow> bsInsecureLoopback s' \<longleftrightarrow> bsInsecureLoopback s \<or> Some WithInsecureLoopback \<in> set opts"
  by (induction i opts s rule: browser_settings.induct) auto

lemma collect_origins_set:
  "collect_origins ParseURL quote ins os acc = Ok origins \<Longrightarrow>
     set origins = set acc \<union> set os \<and> (\<forall>origin \<in> set os. validOrigin ParseURL origin ins)"
  by (induction os arbitrary: acc) (auto split: if_splits)

lemma NewBrowser_cases:
  assumes "NewBrowser ParseURL quote svc sessions preAuth allowed opts = Ok b"
  shows "set (brOrigins b) = set allowed" "\<forall>origin \<in> set allowed. validOrigin ParseURL origin (\<not> brSecure b)"
    "brSecure b \<longleftrightarrow> Some WithInsecureLoopback \<notin> set opts"
    "brSecure b \<longrightarrow> brSessionCookie b = sessionCookieName \<and> brPreAuthCookie b = preAuthCookieName"
  using assms
  by (auto simp: NewBrowser_def dest!: browser_settings_loopback collect_origins_set
      split: option.splits if_splits sum.splits)

definition allow_origin :: "gctx \<Rightarrow> string list option" where
  "allow_origin g = map_of (gcHeaders g) ''Access-Control-Allow-Origin''"

lemma allow_origin_simps [simp]:
  "allow_origin (set_header k v g) = (if k = ''Access-Control-Allow-Origin'' then Some [v] else allow_origin g)"
  "k \<noteq> ''Access-Control-Allow-Origin'' \<Longrightarrow> allow_origin (add_header k v g) = allow_origin g"
  "allow_origin (writeError s c g) = allow_origin g"
  by (simp_all add: allow_origin_def set_header_def add_header_def gm_set_lookup)

lemma allow_origin_noStore [simp]: "allow_origin (noStore g) = allow_origin g"
  by (simp add: noStore_def)

lemma allow_origin_update [simp]: "allow_origin (g\<lparr>gcStatus := s, gcAborted := a\<rparr>) = allow_origin g"
  by (simp add: allow_origin_def)

text \<open>Credentialed cross-origin access is for the listed origins alone. \<open>NewBrowser\<close> accepts only
  origins that are exact, with scheme \<open>https\<close>, or, on explicit request and then without \<open>Secure\<close>
  cookies, \<open>http\<close> on loopback; with secure cookies their names carry the \<open>__Host-\<close> prefix. \<open>CORS\<close> names
  an origin in \<open>Access-Control-Allow-Origin\<close> only when the request came from it and it is listed; a
  request from an origin not listed, and a preflight without one, is answered 403 without running
  the handler.\<close>

theorem CORS_exact_origins:
  assumes N: "NewBrowser ParseURL quote svc sessions preAuth allowed opts = Ok b" and fresh: "allow_origin g = None"
  shows "(\<forall>origin \<in> set allowed. origin \<noteq> ''null'' \<and> CHR ''*'' \<notin> set origin \<and>
      (\<exists>u. ParseURL origin = Some u \<and> upHost u \<noteq> [] \<and> \<not> upUser u \<and> upPath u = [] \<and>
        (if Some WithInsecureLoopback \<in> set opts
         then upScheme u = ''http'' \<and> (EqualFold (upHostname u) ''localhost'' \<or> upLoopback u)
         else upScheme u = ''https'' \<and> brSecure b \<and> HasPrefix (brSessionCookie b) ''__Host-'' \<and>
              HasPrefix (brPreAuthCookie b) ''__Host-''))) \<and>
    (let origin = GetHeader rq ''Origin''
     in if origin = [] \<and> rqMethod rq \<noteq> ''OPTIONS'' then \<forall>nxt. CORS b rq nxt g st = nxt g st
        else if origin \<noteq> [] \<and> origin \<in> set allowed
        then \<exists>g'. allow_origin g' = Some [origin] \<and>
          (\<forall>nxt. CORS b rq nxt g st = (if rqMethod rq = ''OPTIONS'' then (st, g') else nxt g' st))
        else \<exists>g'. allow_origin g' = None \<and> refusal {403} g g' \<and> (\<forall>nxt. CORS b rq nxt g st = (st, g')))"
proof -
  note B = NewBrowser_cases[OF N]
  have pre: "HasPrefix sessionCookieName ''__Host-''" "HasPrefix preAuthCookieName ''__Host-''" by code_simp+
  have 1: "origin \<noteq> ''null'' \<and> CHR ''*'' \<notin> set origin \<and>
      (\<exists>u. ParseURL origin = Some u \<and> upHost u \<noteq> [] \<and> \<not> upUser u \<and> upPath u = [] \<and>
        (if Some WithInsecureLoopback \<in> set opts
         then upScheme u = ''http'' \<and> (EqualFold (upHostname u) ''localhost'' \<or> upLoopback u)
         else upScheme u = ''https'' \<and> brSecure b \<and> HasPrefix (brSessionCookie b) ''__Host-'' \<and>
              HasPrefix (brPreAuthCookie b) ''__Host-''))" if "origin \<in> set allowed" for origin
    using bspec[OF B(2) that] B(3,4) pre by (auto simp: validOrigin_def split: option.splits if_splits)
  have al: "allowedOrigin b origin \<longleftrightarrow> origin \<in> set allowed" for origin by (simp add: allowedOrigin_def B(1))
  have 2: "\<exists>g'. allow_origin g' = Some [origin] \<and>
      (\<forall>nxt. CORS b rq nxt g st = (if rqMethod rq = ''OPTIONS'' then (st, g') else nxt g' st))"
    if o: "GetHeader rq ''Origin'' = origin" "origin \<noteq> []" "origin \<in> set allowed" for origin
  proof (cases "rqMethod rq = ''OPTIONS''")
    case True
    then show ?thesis using o by (simp add: CORS_def Let_def al)
  next
    case False
    show ?thesis
      by (rule exI[of _ "add_header ''Vary'' ''Origin'' (set_header ''Access-Control-Allow-Credentials'' ''true''
        (set_header ''Access-Control-Allow-Origin'' origin g))"]) (use False o in \<open>simp add: CORS_def Let_def al\<close>)
  qed
  have 3: "\<exists>g'. allow_origin g' = None \<and> refusal {403} g g' \<and> (\<forall>nxt. CORS b rq nxt g st = (st, g'))"
    if "GetHeader rq ''Origin'' = origin" "if origin = [] then rqMethod rq = ''OPTIONS'' else origin \<notin> set allowed" for origin
    by (rule exI[of _ "writeError 403 ''origin_denied'' (noStore g)"])
      (use that fresh in \<open>auto simp: CORS_def Let_def al split: if_splits\<close>)
  have 4: "CORS b rq nxt g st = nxt g st" if "GetHeader rq ''Origin'' = []" "rqMethod rq \<noteq> ''OPTIONS''" for nxt
    using that by (simp add: CORS_def)
  show ?thesis
    unfolding Let_def by (intro conjI ballI 1) (use 2[OF refl] 3[OF refl] 4 in \<open>simp_all split: if_splits\<close>)
qed

definition ex_url :: "string \<Rightarrow> url_parts option" where
  "ex_url s = (if HasPrefix s ''https://'' then Some \<lparr>upScheme = ''https'', upHost = drop 8 s, upUser = False, upPath = [],
     upRawQuery = [], upFragment = [], upHostname = drop 8 s, upLoopback = False\<rparr> else None)"

theorem CORS_exact_origins_witness:
  "\<exists>b g'. NewBrowser ex_url id (Some ex_service) True True [''https://app.example''] [] = Ok b \<and> refusal {403} new_gctx g' \<and>
     (\<forall>nxt. CORS b ex_foreign nxt new_gctx ex_waiting = (ex_waiting, g'))"
proof -
  have N: "is_ok (NewBrowser ex_url id (Some ex_service) True True [''https://app.example''] [])" by code_simp
  then obtain b where b: "NewBrowser ex_url id (Some ex_service) True True [''https://app.example''] [] = Ok b"
    by (cases "NewBrowser ex_url id (Some ex_service) True True [''https://app.example''] []") auto
  have f: "allow_origin new_gctx = None" by code_simp
  have "GetHeader ex_foreign ''Origin'' = ''https://evil.example''" by code_simp
  then show ?thesis
    using CORS_exact_origins[OF b f, of ex_foreign ex_waiting, THEN conjunct2] b by (auto simp: Let_def)
qed

end
