(* ===== verification/Auth_Redis.thy ===== *)
theory Auth_Redis
  imports Auth_Service
begin

text \<open>
  The Redis authentication store (authredis/authredis.go): the Lua scripts and the Go methods that run
  them.

  A script runs atomically on the server and its clock stands still meanwhile, so each is a function of
  the server's time in milliseconds and of the database. The database is typed: one map per family of
  keys (the text after the configured prefix tells the families apart), each entry with the time at
  which it expires; an expired entry is absent. The fields of a hash that hold numbers are numbers
  here. A member \<open>ms:id\<close> of a sorted set is the pair of its score \<open>ms\<close> and \<open>id\<close>.

  A method may run several scripts, with scripts of other clients between them, and a call may fail
  before the server saw it or after: \<open>redis_net\<close> says for the \<open>k\<close>-th call what the others did before it,
  the server's time and what became of it. SHA-256 and the durable identity store are parameters.
\<close>

section \<open>The database\<close>

text \<open>A key of Redis, without the family it belongs to.\<close>

type_synonym redis_key = string

type_synonym 'v keys = "(string, 'v \<times> int) gomap"

record rchallenge =
  rcEmail :: string
  rcAddress :: string
  rcKeyID :: string
  rcPurpose :: string
  rcVerifier :: string
  rcBinding :: string
  rcAttempts :: int
  rcActive :: bool
  rcLease :: "(string \<times> int) option"

record rsession =
  rsDigest :: string
  rsCSRF :: string
  rsIdentityID :: string
  rsEmail :: string
  rsIdentityCreated :: int
  rsCreated :: int
  rsLastSeen :: int
  rsExpires :: int
  rsIndex :: string

record rbrowser =
  rbDigest :: string
  rbCSRF :: string

type_synonym zset = "(int \<times> string) list"

record rdb =
  rdBudgets :: "zset keys"
  rdActive :: "string keys"
  rdChallenges :: "rchallenge keys"
  rdComplete :: "string keys"
  rdSessions :: "rsession keys"
  rdIndex :: "string list keys"
  rdBrowser :: "rbrowser keys"

definition empty_rdb :: rdb where
  "empty_rdb = \<lparr>rdBudgets = [], rdActive = [], rdChallenges = [], rdComplete = [], rdSessions = [], rdIndex = [], rdBrowser = []\<rparr>"

definition redis_get :: "int \<Rightarrow> 'v keys \<Rightarrow> string \<Rightarrow> 'v option" where
  "redis_get ms m k = (case map_of m k of None \<Rightarrow> None | Some (v, d) \<Rightarrow> if ms < d then Some v else None)"

text \<open>Writing into an entry that exists keeps its expiry.\<close>

definition redis_upd :: "int \<Rightarrow> string \<Rightarrow> ('v \<Rightarrow> 'v) \<Rightarrow> 'v keys \<Rightarrow> 'v keys" where
  "redis_upd ms k f m =
     (case map_of m k of None \<Rightarrow> m | Some (v, d) \<Rightarrow> if ms < d then gm_set k (f v, d) m else m)"

definition redisWindow :: int where "redisWindow = 3600000"

definition zset_at :: "int \<Rightarrow> zset keys \<Rightarrow> string \<Rightarrow> zset" where
  "zset_at ms m k = (case redis_get ms m k of None \<Rightarrow> [] | Some z \<Rightarrow> z)"

text \<open>\<open>ZREMRANGEBYSCORE k -inf cutoff\<close>; a sorted set that becomes empty is removed.\<close>

definition zrem :: "int \<Rightarrow> string \<Rightarrow> int \<Rightarrow> zset keys \<Rightarrow> zset keys" where
  "zrem ms k cutoff m =
     (case map_of m k of None \<Rightarrow> m
      | Some (z, d) \<Rightarrow>
          if ms < d then
            (let z = filter (\<lambda>(score, _). \<not> score \<le> cutoff) z in if z = [] then gm_delete k m else gm_set k (z, d) m)
          else m)"

text \<open>\<open>ZADD k ms ms:id\<close> and \<open>PEXPIRE k (redisWindow + 60000)\<close>.\<close>

definition zadd :: "int \<Rightarrow> string \<Rightarrow> string \<Rightarrow> zset keys \<Rightarrow> zset keys" where
  "zadd ms k i m =
     (let z = zset_at ms m k
      in gm_set k (if (ms, i) \<in> set z then z else z @ [(ms, i)], ms + redisWindow + 60000) m)"

section \<open>The scripts\<close>

text \<open>The replies 0, 1 and 2 of the scripts are integers, as in the code.\<close>

definition reserveScript ::
    "int \<Rightarrow> redis_key \<Rightarrow> redis_key \<Rightarrow> redis_key \<Rightarrow> string \<Rightarrow> digest \<Rightarrow> digest \<Rightarrow> string \<Rightarrow> string \<Rightarrow> digest \<Rightarrow> digest \<Rightarrow> rdb \<Rightarrow> rdb \<times> int" where
  "reserveScript ms ka ks kactive i email address keyID purpose ver binding db =
     (let b = zrem ms ks (ms - redisWindow) (zrem ms ka (ms - redisWindow) (rdBudgets db));
          db = db\<lparr>rdBudgets := b\<rparr>
      in if length (zset_at ms b ka) \<ge> 5 \<or> length (zset_at ms b ks) \<ge> 20 then (db, 2)
         else if zset_at ms b ka \<noteq> [] \<and> ms - Max (set (map fst (zset_at ms b ka))) < 60000 then (db, 2)
         else
           (let challenges =
                  (case redis_get ms (rdActive db) kactive of
                     None \<Rightarrow> rdChallenges db
                   | Some previous \<Rightarrow> redis_upd ms previous (\<lambda>c. c\<lparr>rcActive := False\<rparr>) (rdChallenges db));
                lease = (case redis_get ms challenges i of None \<Rightarrow> None | Some c \<Rightarrow> rcLease c)
            in (db\<lparr>rdBudgets := zadd ms ks i (zadd ms ka i b),
                   rdActive := gm_set kactive (i, ms + 300000) (rdActive db),
                   rdChallenges := gm_set i
                     (\<lparr>rcEmail = email, rcAddress = address, rcKeyID = keyID, rcPurpose = purpose, rcVerifier = ver,
                       rcBinding = binding, rcAttempts = 0, rcActive = True, rcLease = lease\<rparr>, ms + 300000) challenges\<rparr>, 1)))"

definition createBrowserStateScript :: "int \<Rightarrow> string \<Rightarrow> string \<Rightarrow> string \<Rightarrow> string \<Rightarrow> rdb \<Rightarrow> rdb \<times> int" where
  "createBrowserStateScript ms i kb dig csrf db =
     (if redis_get ms (rdBrowser db) i \<noteq> None then (db, 0)
      else
        (let b = zrem ms kb (ms - redisWindow) (rdBudgets db);
             db = db\<lparr>rdBudgets := b\<rparr>
         in if length (zset_at ms b kb) \<ge> 20 then (db, 2)
            else (db\<lparr>rdBudgets := zadd ms kb i b,
                     rdBrowser := gm_set i (\<lparr>rbDigest = dig, rbCSRF = csrf\<rparr>, ms + 600000) (rdBrowser db)\<rparr>, 1)))"

definition authenticateBrowserStateScript :: "int \<Rightarrow> string \<Rightarrow> string \<Rightarrow> string \<Rightarrow> rdb \<Rightarrow> rdb \<times> int" where
  "authenticateBrowserStateScript ms i dig csrf db =
     (case redis_get ms (rdBrowser db) i of
        None \<Rightarrow> (db, 0)
      | Some v \<Rightarrow> (db, if rbDigest v = dig \<and> rbCSRF v = csrf then 1 else 0))"

definition consumeBrowserStateScript :: "int \<Rightarrow> string \<Rightarrow> string \<Rightarrow> string \<Rightarrow> rdb \<Rightarrow> rdb \<times> int" where
  "consumeBrowserStateScript ms i dig csrf db =
     (case redis_get ms (rdBrowser db) i of
        None \<Rightarrow> (db, 0)
      | Some v \<Rightarrow>
          if \<not> (rbDigest v = dig \<and> rbCSRF v = csrf) then (db, 0)
          else (db\<lparr>rdBrowser := gm_delete i (rdBrowser db)\<rparr>, 1))"

definition verifyScript ::
    "int \<Rightarrow> redis_key \<Rightarrow> string \<Rightarrow> redis_key \<Rightarrow> string \<Rightarrow> string \<Rightarrow> string \<Rightarrow> string \<Rightarrow> digest \<Rightarrow> digest \<Rightarrow> rdb \<Rightarrow> rdb \<times> int" where
  "verifyScript ms ks i failures lease email keyID purpose ver binding db =
     (let b = zrem ms ks (ms - redisWindow) (rdBudgets db)
      in if length (zset_at ms b ks) \<ge> 100 then (db\<lparr>rdBudgets := b\<rparr>, 2)
         else
           (let b = zadd ms ks lease b; db = db\<lparr>rdBudgets := b\<rparr>
            in case redis_get ms (rdChallenges db) i of
                 None \<Rightarrow> (db, 0)
               | Some c \<Rightarrow>
                   if \<not> rcActive c then (db, 0)
                   else if (case rcLease c of None \<Rightarrow> False | Some (_, until) \<Rightarrow> until > ms) then (db, 0)
                   else
                     (let db = db\<lparr>rdChallenges := redis_upd ms i (\<lambda>c. c\<lparr>rcLease := None\<rparr>) (rdChallenges db)\<rparr>
                      in if \<not> (rcEmail c = email \<and> rcKeyID c = keyID \<and> rcPurpose c = purpose \<and> rcVerifier c = ver \<and> rcBinding c = binding)
                         then
                           (let kf = failures @ rcAddress c;
                                b = zrem ms kf (ms - redisWindow) b;
                                db = db\<lparr>rdBudgets := b\<rparr>
                            in if length (zset_at ms b kf) \<ge> 20 then (db, 2)
                               else (db\<lparr>rdBudgets := zadd ms kf lease b,
                                        rdChallenges := redis_upd ms i
                                          (\<lambda>c. c\<lparr>rcAttempts := rcAttempts c + 1,
                                                 rcActive := (if rcAttempts c + 1 \<ge> 5 then False else rcActive c)\<rparr>)
                                          (rdChallenges db)\<rparr>, 0))
                         else (db\<lparr>rdChallenges := redis_upd ms i (\<lambda>c. c\<lparr>rcLease := Some (lease, ms + 30000)\<rparr>) (rdChallenges db)\<rparr>, 1))))"

definition holds_lease :: "int \<Rightarrow> string \<Rightarrow> string \<Rightarrow> rdb \<Rightarrow> bool" where
  "holds_lease ms i lease db \<longleftrightarrow>
     (case redis_get ms (rdChallenges db) i of None \<Rightarrow> False | Some c \<Rightarrow> map_option fst (rcLease c) = Some lease)"

definition releaseLeaseScript :: "int \<Rightarrow> string \<Rightarrow> string \<Rightarrow> rdb \<Rightarrow> rdb \<times> int" where
  "releaseLeaseScript ms i lease db =
     (if holds_lease ms i lease db
      then (db\<lparr>rdChallenges := redis_upd ms i (\<lambda>c. c\<lparr>rcLease := None\<rparr>) (rdChallenges db)\<rparr>, 1) else (db, 0))"

definition rejectLeaseScript :: "int \<Rightarrow> string \<Rightarrow> string \<Rightarrow> rdb \<Rightarrow> rdb \<times> int" where
  "rejectLeaseScript ms i lease db =
     (if holds_lease ms i lease db
      then (db\<lparr>rdChallenges := redis_upd ms i (\<lambda>c. c\<lparr>rcActive := False, rcLease := None\<rparr>) (rdChallenges db)\<rparr>, 1) else (db, 0))"

definition invalidateScript :: "int \<Rightarrow> string \<Rightarrow> rdb \<Rightarrow> rdb \<times> int" where
  "invalidateScript ms i db = (db\<lparr>rdChallenges := redis_upd ms i (\<lambda>c. c\<lparr>rcActive := False\<rparr>) (rdChallenges db)\<rparr>, 1)"

definition completeScript ::
    "int \<Rightarrow> string \<Rightarrow> string \<Rightarrow> string \<Rightarrow> redis_key \<Rightarrow> digest \<Rightarrow> digest \<Rightarrow> string \<Rightarrow> string \<Rightarrow> int \<Rightarrow> int \<Rightarrow> rdb \<Rightarrow> rdb \<times> int" where
  "completeScript ms i lease sid kindex dig csrf identityID email identityCreated duration db =
     (if redis_get ms (rdComplete db) lease = Some lease then (db, 1)
      else if \<not> holds_lease ms i lease db then (db, 0)
      else
        (let members = (case redis_get ms (rdIndex db) kindex of None \<Rightarrow> [] | Some xs \<Rightarrow> xs)
         in (db\<lparr>rdSessions := gm_set sid
                  (\<lparr>rsDigest = dig, rsCSRF = csrf, rsIdentityID = identityID, rsEmail = email, rsIdentityCreated = identityCreated,
                    rsCreated = ms, rsLastSeen = ms, rsExpires = ms + duration, rsIndex = kindex\<rparr>, ms + duration) (rdSessions db),
                rdIndex := gm_set kindex (List.insert sid members, ms + duration) (rdIndex db),
                rdComplete := gm_set lease (lease, ms + 300000) (rdComplete db),
                rdChallenges := gm_delete i (rdChallenges db)\<rparr>, 1)))"

definition session_over :: "int \<Rightarrow> rsession \<Rightarrow> bool" where
  "session_over ms v \<longleftrightarrow> ms \<ge> rsExpires v \<or> ms \<ge> rsLastSeen v + 86400000"

definition sessionScript :: "int \<Rightarrow> string \<Rightarrow> string \<Rightarrow> string \<Rightarrow> rdb \<Rightarrow> rdb \<times> (string \<times> string \<times> int) option" where
  "sessionScript ms sid dig csrf db =
     (case redis_get ms (rdSessions db) sid of
        None \<Rightarrow> (db, None)
      | Some v \<Rightarrow>
          if rsDigest v \<noteq> dig \<or> (csrf \<noteq> [] \<and> rsCSRF v \<noteq> csrf) then (db, None)
          else if session_over ms v then (db\<lparr>rdSessions := gm_delete sid (rdSessions db)\<rparr>, None)
          else (db\<lparr>rdSessions := gm_set sid (v\<lparr>rsLastSeen := ms\<rparr>, rsExpires v) (rdSessions db)\<rparr>,
                Some (rsIdentityID v, rsEmail v, rsIdentityCreated v)))"

text \<open>\<open>SREM\<close>: a set that becomes empty is removed.\<close>

definition srem :: "int \<Rightarrow> string \<Rightarrow> string \<Rightarrow> string list keys \<Rightarrow> string list keys" where
  "srem ms k x m =
     (case map_of m k of None \<Rightarrow> m
      | Some (xs, d) \<Rightarrow> if ms < d then (let xs = removeAll x xs in if xs = [] then gm_delete k m else gm_set k (xs, d) m) else m)"

definition revokeScript :: "int \<Rightarrow> string \<Rightarrow> string \<Rightarrow> rdb \<Rightarrow> rdb \<times> int" where
  "revokeScript ms sid dig db =
     (case redis_get ms (rdSessions db) sid of
        None \<Rightarrow> (db, 0)
      | Some v \<Rightarrow>
          if rsDigest v \<noteq> dig then (db, 0)
          else (db\<lparr>rdIndex := srem ms (rsIndex v) sid (rdIndex db), rdSessions := gm_delete sid (rdSessions db)\<rparr>, 1))"

text \<open>Deleting every session an index lists, and the index.\<close>

definition drop_index :: "int \<Rightarrow> string \<Rightarrow> rdb \<Rightarrow> rdb" where
  "drop_index ms k db =
     (let sessions = (case redis_get ms (rdIndex db) k of None \<Rightarrow> [] | Some xs \<Rightarrow> xs)
      in db\<lparr>rdSessions := fold gm_delete sessions (rdSessions db), rdIndex := gm_delete k (rdIndex db)\<rparr>)"

definition revokeAllScript :: "int \<Rightarrow> string \<Rightarrow> string \<Rightarrow> rdb \<Rightarrow> rdb \<times> int" where
  "revokeAllScript ms sid dig db =
     (case redis_get ms (rdSessions db) sid of
        None \<Rightarrow> (db, 0)
      | Some v \<Rightarrow>
          if rsDigest v \<noteq> dig then (db, 0)
          else if session_over ms v then (db\<lparr>rdSessions := gm_delete sid (rdSessions db)\<rparr>, 0)
          else (drop_index ms (rsIndex v) db, 1))"

definition revokeIdentityScript :: "int \<Rightarrow> string \<Rightarrow> rdb \<Rightarrow> rdb \<times> int" where
  "revokeIdentityScript ms k db = (drop_index ms k db, 1)"

section \<open>The methods\<close>

datatype fate = Replied | ReplyLost auth_err | NeverSent auth_err

record redis_net =
  rnOther :: "nat \<Rightarrow> rdb \<Rightarrow> rdb"
  rnTime :: "nat \<Rightarrow> int"
  rnFate :: "nat \<Rightarrow> fate"

definition run_script :: "redis_net \<Rightarrow> nat \<Rightarrow> (int \<Rightarrow> rdb \<Rightarrow> rdb \<times> 'r) \<Rightarrow> rdb \<Rightarrow> rdb \<times> (auth_err, 'r) result" where
  "run_script n k script db =
     (let db = rnOther n k db; res = script (rnTime n k) db
      in case rnFate n k of
           Replied \<Rightarrow> (fst res, Ok (snd res))
         | ReplyLost e \<Rightarrow> (fst res, Err e)
         | NeverSent e \<Rightarrow> (db, Err e))"

definition redis_digest :: "(string \<Rightarrow> digest) \<Rightarrow> string \<Rightarrow> string" where
  "redis_digest sha256 v = hex (sha256 v)"

definition identitySessionsKey :: "(string \<Rightarrow> digest) \<Rightarrow> string \<Rightarrow> string" where
  "identitySessionsKey sha256 i = ''identity-sessions:'' @ redis_digest sha256 i"

definition validPrefix :: "string \<Rightarrow> bool" where
  "validPrefix v \<longleftrightarrow> v \<noteq> [] \<and> length v \<le> 128 \<and>
     list_all (\<lambda>c. is_lower c \<or> is_upper c \<or> is_digit c \<or> c = CHR '':'' \<or> c = CHR ''_'' \<or> c = CHR ''-'' \<or> c = CHR ''.'') v"

definition validSession :: "sessionRecord \<Rightarrow> bool" where
  "validSession r \<longleftrightarrow> srID r \<noteq> [] \<and> srCreatedAt r \<noteq> 0 \<and> srLastSeenAt r = srCreatedAt r \<and> srExpiresAt r > srCreatedAt r"

definition validEncodedID :: "string \<Rightarrow> bool" where
  "validEncodedID v = (case DecodeString v of None \<Rightarrow> False | Some bytes \<Rightarrow> length v = 43 \<and> length bytes = 32)"

definition validBrowserStateRecord :: "preAuthRecord \<Rightarrow> bool" where
  "validBrowserStateRecord r \<longleftrightarrow> validEncodedID (prID r) \<and> prSource r \<noteq> [] \<and> length (prSource r) \<le> 256 \<and>
     prIssuedAt r \<noteq> 0 \<and> time_sub (prExpiresAt r) (prIssuedAt r) = 10 * Minute"

fun prefix_settings :: "nat \<Rightarrow> string option list \<Rightarrow> string \<Rightarrow> (string, string) result" where
  "prefix_settings i [] pfx = Ok pfx"
| "prefix_settings i (None # opts) pfx = Err (''authredis: option '' @ Itoa i @ '' is nil'')"
| "prefix_settings i (Some p # opts) pfx = prefix_settings (i + 1) opts p"

text \<open>\<open>New\<close> returns the key prefix the store uses. \<open>ParseURL\<close> gives scheme and host, \<open>client\<close> what the client
  library makes of the URL.\<close>

definition redis_New ::
    "(string \<Rightarrow> (string \<times> string) option) \<Rightarrow> (string \<Rightarrow> string option) \<Rightarrow> string \<Rightarrow> bool \<Rightarrow> string option list \<Rightarrow> (string, string) result" where
  "redis_New ParseURL client redisURL identities opts =
     (if \<not> identities then Err ''authredis: identity store is required''
      else case ParseURL redisURL of
        None \<Rightarrow> Err ''authredis: valid redis:// or rediss:// URL is required''
      | Some (scheme, host) \<Rightarrow>
          if (scheme \<noteq> ''redis'' \<and> scheme \<noteq> ''rediss'') \<or> host = [] then Err ''authredis: valid redis:// or rediss:// URL is required''
          else case prefix_settings 0 opts ''fabrin:auth:v1:'' of
            Err e \<Rightarrow> Err e
          | Ok pfx \<Rightarrow>
              if \<not> validPrefix pfx then Err ''authredis: prefix must contain 1-128 safe ASCII characters''
              else (case client redisURL of
                      Some e \<Rightarrow> Err (''authredis: parse URL: '' @ e)
                    | None \<Rightarrow> Ok (if HasSuffix pfx '':'' then pfx else pfx @ '':'')))"

definition redis_CreatePreAuth :: "(string \<Rightarrow> digest) \<Rightarrow> redis_net \<Rightarrow> preAuthRecord \<Rightarrow> rdb \<Rightarrow> rdb \<times> auth_err option" where
  "redis_CreatePreAuth sha256 n r db =
     (if \<not> validBrowserStateRecord r then (db, Some (OtherErr ''authredis: invalid browser state record''))
      else case run_script n 0 (\<lambda>ms. createBrowserStateScript ms (prID r) (''browser-bootstrap:'' @ redis_digest sha256 (prSource r))
                  (hex (prDigest r)) (hex (prCSRFDigest r))) db of
        (db, Err e) \<Rightarrow> (db, Some e)
      | (db, Ok result) \<Rightarrow>
          (db, if result = 2 then Some ErrRateLimited
               else if result \<noteq> 1 then Some (OtherErr ''authredis: browser state collision'') else None))"

definition redis_AuthenticatePreAuth :: "redis_net \<Rightarrow> preAuthProof \<Rightarrow> rdb \<Rightarrow> rdb \<times> auth_err option" where
  "redis_AuthenticatePreAuth n p db =
     (if \<not> validEncodedID (ppID p) then (db, Some ErrPreAuth)
      else case run_script n 0 (\<lambda>ms. authenticateBrowserStateScript ms (ppID p) (hex (ppDigest p)) (hex (ppCSRFDigest p))) db of
        (db, Err e) \<Rightarrow> (db, Some e)
      | (db, Ok result) \<Rightarrow> (db, if result \<noteq> 1 then Some ErrPreAuth else None))"

definition redis_ConsumePreAuth :: "redis_net \<Rightarrow> preAuthProof \<Rightarrow> rdb \<Rightarrow> rdb \<times> auth_err option" where
  "redis_ConsumePreAuth n p db =
     (if \<not> validEncodedID (ppID p) then (db, Some ErrPreAuth)
      else case run_script n 0 (\<lambda>ms. consumeBrowserStateScript ms (ppID p) (hex (ppDigest p)) (hex (ppCSRFDigest p))) db of
        (db, Err e) \<Rightarrow> (db, Some e)
      | (db, Ok result) \<Rightarrow> (db, if result \<noteq> 1 then Some ErrPreAuth else None))"

definition redis_Reserve :: "(string \<Rightarrow> digest) \<Rightarrow> redis_net \<Rightarrow> reservation \<Rightarrow> rdb \<Rightarrow> rdb \<times> auth_err option" where
  "redis_Reserve sha256 n r db =
     (let address = redis_digest sha256 (rvEmail r); source = redis_digest sha256 (rvSource r)
      in case run_script n 0 (\<lambda>ms. reserveScript ms (''send:address:'' @ address) (''send:source:'' @ source)
                (redis_digest sha256 (rvPurpose r @ [CHR 0x00] @ rvEmail r)) (rvID r) (rvEmail r) address (rvKeyID r) (rvPurpose r)
                (hex (rvVerifier r)) (hex (rvBinding r))) db of
           (db, Err e) \<Rightarrow> (db, Some e)
         | (db, Ok result) \<Rightarrow>
             (db, if result = 2 then Some ErrRateLimited
                  else if result \<noteq> 1 then Some (OtherErr ''authredis: invalid reserve result'') else None))"

text \<open>\<open>UnixNano\<close> counts nanoseconds from 1970 and wraps at 64 bits; \<open>Milliseconds\<close> rounds toward zero.\<close>

definition unix_zero :: gotime where "unix_zero = 62135596800 * Second"

definition UnixNano :: "gotime \<Rightarrow> int" where
  "UnixNano t = (t - unix_zero + 2 ^ 63) mod 2 ^ 64 - 2 ^ 63"

definition Milliseconds :: "duration \<Rightarrow> int" where
  "Milliseconds d = (if d < 0 then - (- d div 1000000) else d div 1000000)"

definition lease_of :: "(string \<Rightarrow> digest) \<Rightarrow> sessionRecord \<Rightarrow> string" where
  "lease_of sha256 s = redis_digest sha256 (srID s @ [CHR 0x00] @ hex (srDigest s))"

definition complete_call :: "(string \<Rightarrow> digest) \<Rightarrow> verification \<Rightarrow> identity \<Rightarrow> int \<Rightarrow> rdb \<Rightarrow> rdb \<times> int" where
  "complete_call sha256 a idn ms =
     completeScript ms (vfID a) (lease_of sha256 (vfSession a)) (srID (vfSession a)) (identitySessionsKey sha256 (idID idn))
       (hex (srDigest (vfSession a))) (hex (srCSRFDigest (vfSession a))) (idID idn) (idEmail idn) (UnixNano (idCreatedAt idn))
       (Milliseconds (time_sub (srExpiresAt (vfSession a)) (srCreatedAt (vfSession a))))"

definition verify_call :: "(string \<Rightarrow> digest) \<Rightarrow> verification \<Rightarrow> int \<Rightarrow> rdb \<Rightarrow> rdb \<times> int" where
  "verify_call sha256 a ms =
     verifyScript ms (''verify:source:'' @ redis_digest sha256 (vfSource a)) (vfID a) ''verify:address:'' (lease_of sha256 (vfSession a))
       (vfEmail a) (vfKeyID a) (vfPurpose a) (hex (vfVerifier a)) (hex (vfBinding a))"

text \<open>
  \<open>resolve\<close> is what \<open>ResolveVerified\<close> returns for this attempt. Call 0 leases the challenge, call 1
  releases, rejects or completes it, call 2 repeats a completion whose first reply was an error.
\<close>

definition redis_Verify ::
    "(string \<Rightarrow> digest) \<Rightarrow> redis_net \<Rightarrow> (verification \<Rightarrow> (auth_err, identity) result) \<Rightarrow> verification \<Rightarrow> rdb \<Rightarrow>
     rdb \<times> (auth_err, identity) result" where
  "redis_Verify sha256 n resolve a db =
     (let lease = lease_of sha256 (vfSession a)
      in case run_script n 0 (verify_call sha256 a) db of
           (db, Err e) \<Rightarrow> (db, Err e)
         | (db, Ok result) \<Rightarrow>
             if result = 2 then (db, Err ErrRateLimited)
             else if result = 0 then (db, Err ErrAuthentication)
             else if result \<noteq> 1 then (db, Err (OtherErr ''authredis: invalid verify result''))
             else case resolve a of
               Err e \<Rightarrow>
                 if e = ErrAuthentication then
                   (case run_script n 1 (\<lambda>ms. rejectLeaseScript ms (vfID a) lease) db of
                      (db, Err e) \<Rightarrow> (db, Err e)
                    | (db, Ok _) \<Rightarrow> (db, Err ErrAuthentication))
                 else (fst (run_script n 1 (\<lambda>ms. releaseLeaseScript ms (vfID a) lease) db), Err e)
             | Ok idn \<Rightarrow>
                 if \<not> validSession (vfSession a)
                 then (fst (run_script n 1 (\<lambda>ms. releaseLeaseScript ms (vfID a) lease) db),
                       Err (OtherErr ''authredis: invalid session record''))
                 else
                   (case (case run_script n 1 (complete_call sha256 a idn) db of
                            (db, Err _) \<Rightarrow> run_script n 2 (complete_call sha256 a idn) db
                          | (db, Ok complete) \<Rightarrow> (db, Ok complete)) of
                      (db, Err e) \<Rightarrow> (db, Err e)
                    | (db, Ok complete) \<Rightarrow> if complete \<noteq> 1 then (db, Err ErrAuthentication) else (db, Ok idn)))"

definition redis_Invalidate :: "redis_net \<Rightarrow> string \<Rightarrow> rdb \<Rightarrow> rdb \<times> auth_err option" where
  "redis_Invalidate n i db =
     (case run_script n 0 (\<lambda>ms. invalidateScript ms i) db of (db, Err e) \<Rightarrow> (db, Some e) | (db, Ok _) \<Rightarrow> (db, None))"

definition redis_AuthenticateSession :: "redis_net \<Rightarrow> sessionProof \<Rightarrow> rdb \<Rightarrow> rdb \<times> (auth_err, identity) result" where
  "redis_AuthenticateSession n p db =
     (case run_script n 0 (\<lambda>ms. sessionScript ms (spID p) (hex (spDigest p))
             (if spCSRFDigest p \<noteq> zeroDigest then hex (spCSRFDigest p) else [])) db of
        (db, Err e) \<Rightarrow> (db, Err e)
      | (db, Ok None) \<Rightarrow> (db, Err ErrSession)
      | (db, Ok (Some (i, email, created))) \<Rightarrow>
          if i = [] then (db, Err ErrSession) else (db, Ok \<lparr>idID = i, idEmail = email, idCreatedAt = unix_zero + created\<rparr>))"

definition redis_RevokeSession :: "redis_net \<Rightarrow> sessionProof \<Rightarrow> rdb \<Rightarrow> rdb \<times> auth_err option" where
  "redis_RevokeSession n p db =
     (case run_script n 0 (\<lambda>ms. revokeScript ms (spID p) (hex (spDigest p))) db of
        (db, Err e) \<Rightarrow> (db, Some e)
      | (db, Ok result) \<Rightarrow> (db, if result \<noteq> 1 then Some ErrSession else None))"

definition redis_RevokeAllSessions :: "redis_net \<Rightarrow> sessionProof \<Rightarrow> rdb \<Rightarrow> rdb \<times> auth_err option" where
  "redis_RevokeAllSessions n p db =
     (case run_script n 0 (\<lambda>ms. revokeAllScript ms (spID p) (hex (spDigest p))) db of
        (db, Err e) \<Rightarrow> (db, Some e)
      | (db, Ok result) \<Rightarrow> (db, if result \<noteq> 1 then Some ErrSession else None))"

definition redis_RevokeIdentitySessions :: "(string \<Rightarrow> digest) \<Rightarrow> redis_net \<Rightarrow> string \<Rightarrow> rdb \<Rightarrow> rdb \<times> auth_err option" where
  "redis_RevokeIdentitySessions sha256 n i db =
     (if i = [] \<or> length i > 128 then (db, Some (OtherErr ''authredis: invalid identity ID''))
      else case run_script n 0 (\<lambda>ms. revokeIdentityScript ms (identitySessionsKey sha256 i)) db of
        (db, Err e) \<Rightarrow> (db, Some e)
      | (db, Ok _) \<Rightarrow> (db, None))"

end
