(* ===== verification/Auth_Redis_Correct.thy ===== *)
theory Auth_Redis_Correct
  imports Auth_Redis
begin

text \<open>
  Correctness of the Redis store under any interleaving of clients.

  Every client's effect on the database is a sequence of scripts, so a history is a list of script calls
  with the server's time at each. Over histories: a reservation yields at most one session, and the
  budgets hold in every window of an hour. Over methods, with anything happening between the scripts of
  one call: a sign-in is granted only to a proof, and a reply lost on the way does not lose it.
\<close>

section \<open>Histories\<close>

datatype script_call =
    CReserve string string string string string string string string string string
  | CCreateBrowser string string string string
  | CAuthenticateBrowser string string string
  | CConsumeBrowser string string string
  | CVerify string string string string string string string string string
  | CRelease string string
  | CReject string string
  | CInvalidate string
  | CComplete string string string string string string string string int int
  | CSession string string string
  | CRevoke string string
  | CRevokeAll string string
  | CRevokeIdentity string

fun run_call :: "int \<Rightarrow> script_call \<Rightarrow> rdb \<Rightarrow> rdb" where
  "run_call ms (CReserve ka ks kactive i email address keyID purpose ver binding) db =
     fst (reserveScript ms ka ks kactive i email address keyID purpose ver binding db)"
| "run_call ms (CCreateBrowser i kb dig csrf) db = fst (createBrowserStateScript ms i kb dig csrf db)"
| "run_call ms (CAuthenticateBrowser i dig csrf) db = fst (authenticateBrowserStateScript ms i dig csrf db)"
| "run_call ms (CConsumeBrowser i dig csrf) db = fst (consumeBrowserStateScript ms i dig csrf db)"
| "run_call ms (CVerify ks i failures lease email keyID purpose ver binding) db =
     fst (verifyScript ms ks i failures lease email keyID purpose ver binding db)"
| "run_call ms (CRelease i lease) db = fst (releaseLeaseScript ms i lease db)"
| "run_call ms (CReject i lease) db = fst (rejectLeaseScript ms i lease db)"
| "run_call ms (CInvalidate i) db = fst (invalidateScript ms i db)"
| "run_call ms (CComplete i lease sid kindex dig csrf identityID email created duration) db =
     fst (completeScript ms i lease sid kindex dig csrf identityID email created duration db)"
| "run_call ms (CSession sid dig csrf) db = fst (sessionScript ms sid dig csrf db)"
| "run_call ms (CRevoke sid dig) db = fst (revokeScript ms sid dig db)"
| "run_call ms (CRevokeAll sid dig) db = fst (revokeAllScript ms sid dig db)"
| "run_call ms (CRevokeIdentity k) db = fst (revokeIdentityScript ms k db)"

section \<open>One session per challenge\<close>

text \<open>The completions of a history that create a session through a challenge.\<close>

fun creates :: "string \<Rightarrow> int \<Rightarrow> script_call \<Rightarrow> rdb \<Rightarrow> bool" where
  "creates i ms (CComplete j lease sid kindex dig csrf identityID email created duration) db \<longleftrightarrow>
     j = i \<and> redis_get ms (rdComplete db) lease \<noteq> Some lease \<and> holds_lease ms j lease db"
| "creates i ms _ db \<longleftrightarrow> False"

fun reserves :: "string \<Rightarrow> script_call \<Rightarrow> bool" where
  "reserves i (CReserve ka ks kactive j email address keyID purpose ver binding) \<longleftrightarrow> j = i"
| "reserves i _ \<longleftrightarrow> False"

fun creations :: "string \<Rightarrow> (int \<times> script_call) list \<Rightarrow> rdb \<Rightarrow> nat" where
  "creations i [] db = 0"
| "creations i ((ms, c) # cs) db = (if creates i ms c db then 1 else 0) + creations i cs (run_call ms c db)"

lemma redis_upd_lookup:
  "map_of (redis_upd ms k f m) k' = (case map_of m k' of None \<Rightarrow> None
     | Some (v, d) \<Rightarrow> if k' = k \<and> ms < d then Some (f v, d) else Some (v, d))"
  by (auto simp: redis_upd_def gm_set_lookup split: option.split)

lemma redis_upd_None [simp]: "map_of (redis_upd ms k f m) k' = None \<longleftrightarrow> map_of m k' = None"
  by (auto simp: redis_upd_lookup split: option.split)

text \<open>Only a reservation puts a challenge where there was none.\<close>

lemma gone_challenge_stays_gone:
  assumes "map_of (rdChallenges db) i = None" "\<not> reserves i c"
  shows "map_of (rdChallenges (run_call ms c db)) i = None"
  using assms
  by (cases c)
    (auto simp: reserveScript_def createBrowserStateScript_def authenticateBrowserStateScript_def consumeBrowserStateScript_def
      verifyScript_def releaseLeaseScript_def rejectLeaseScript_def invalidateScript_def completeScript_def sessionScript_def
      revokeScript_def revokeAllScript_def revokeIdentityScript_def drop_index_def Let_def gm_set_lookup gm_delete_lookup
      split: option.split)

lemma gone_challenge_creates_nothing:
  "map_of (rdChallenges db) i = None \<Longrightarrow> \<not> creates i ms c db"
  by (cases c) (auto simp: holds_lease_def redis_get_def)

lemma no_creations_when_gone:
  "map_of (rdChallenges db) i = None \<Longrightarrow> list_all (\<lambda>(ms, c). \<not> reserves i c) cs \<Longrightarrow> creations i cs db = 0"
  by (induction i cs db rule: creations.induct)
    (simp_all add: gone_challenge_stays_gone gone_challenge_creates_nothing del: creates.simps)

lemma creation_ends_challenge:
  "creates i ms c db \<Longrightarrow> map_of (rdChallenges (run_call ms c db)) i = None"
  by (cases c) (auto simp: completeScript_def Let_def gm_delete_lookup)

lemma creations_at_most_once: "list_all (\<lambda>(ms, c). \<not> reserves i c) cs \<Longrightarrow> creations i cs db \<le> 1"
proof (induction i cs db rule: creations.induct)
  case (2 i ms c cs db)
  then show ?case
    using no_creations_when_gone[OF creation_ends_challenge, of i ms c db cs] by (simp del: creates.simps)
qed simp

lemma completeScript_retry:
  assumes "completeScript ms i lease sid kindex dig csrf identityID email created duration db = (db', 1)"
    and "redis_get ms (rdComplete db) lease \<noteq> Some lease" and "ms \<le> ms'" "ms' < ms + 300000"
  shows "completeScript ms' i lease sid kindex dig csrf identityID email created duration db' = (db', 1)"
  using assms by (auto simp: completeScript_def Let_def redis_get_def gm_set_lookup split: if_splits)

lemma completeScript_creates:
  assumes "completeScript ms i lease sid kindex dig csrf identityID email created duration db = (db', 1)"
    and "redis_get ms (rdComplete db) lease \<noteq> Some lease"
  shows "map_of (rdChallenges db') i = None \<and> map_of (rdSessions db') sid =
      Some (\<lparr>rsDigest = dig, rsCSRF = csrf, rsIdentityID = identityID, rsEmail = email, rsIdentityCreated = created,
        rsCreated = ms, rsLastSeen = ms, rsExpires = ms + duration, rsIndex = kindex\<rparr>, ms + duration)"
  using assms by (auto simp: completeScript_def Let_def gm_set_lookup gm_delete_lookup split: if_splits)


definition ex_leased :: rdb where
  "ex_leased = empty_rdb\<lparr>rdChallenges := [(''i1'', (\<lparr>rcEmail = ''ann@example.com'', rcAddress = ''a'', rcKeyID = ''k1'',
     rcPurpose = ''native'', rcVerifier = ''v'', rcBinding = ''b'', rcAttempts = 0, rcActive = True,
     rcLease = Some (''l1'', 31000)\<rparr>, 300000))]\<rparr>"

definition ex_completions :: "(int \<times> script_call) list" where
  "ex_completions = [(1000, CVerify ''verify:source:s'' ''i1'' ''verify:address:'' ''l2'' ''ann@example.com'' ''k1'' ''native'' ''v'' ''b''),
     (2000, CComplete ''i1'' ''l1'' ''s1'' ''x'' ''d'' ''c'' ''u1'' ''ann@example.com'' 0 1000),
     (3000, CComplete ''i1'' ''l1'' ''s1'' ''x'' ''d'' ''c'' ''u1'' ''ann@example.com'' 0 1000),
     (4000, CComplete ''i1'' ''l2'' ''s2'' ''x'' ''d'' ''c'' ''u1'' ''ann@example.com'' 0 1000)]"


section \<open>Signing in\<close>

lemma run_script_Ok:
  "run_script n k f db = (db', Ok r) \<longleftrightarrow> rnFate n k = Replied \<and> f (rnTime n k) (rnOther n k db) = (db', r)"
  by (auto simp: run_script_def Let_def split: fate.split)

lemma verifyScript_1:
  assumes "verifyScript ms ks i failures lease email keyID purpose ver binding db = (db', 1)"
  shows "\<exists>c. redis_get ms (rdChallenges db) i = Some c \<and> rcActive c \<and>
    (\<forall>l until. rcLease c = Some (l, until) \<longrightarrow> until \<le> ms) \<and>
    rcEmail c = email \<and> rcKeyID c = keyID \<and> rcPurpose c = purpose \<and> rcVerifier c = ver \<and> rcBinding c = binding \<and>
    redis_get ms (rdChallenges db') i = Some (c\<lparr>rcLease := Some (lease, ms + 30000)\<rparr>)"
proof -
  obtain c where c: "redis_get ms (rdChallenges db) i = Some c"
    using assms by (cases "redis_get ms (rdChallenges db) i") (auto simp: verifyScript_def Let_def split: if_splits)
  then show ?thesis
    using assms
    by (auto simp: verifyScript_def Let_def redis_get_def redis_upd_lookup split: if_splits option.splits)
qed

lemma redis_Verify_Ok:
  assumes "redis_Verify sha256 n resolve a db = (db', Ok idn)"
  obtains db1 k dbk where "run_script n 0 (verify_call sha256 a) db = (db1, Ok 1)" "resolve a = Ok idn" "validSession (vfSession a)"
    "k \<in> {1, 2}" "run_script n k (complete_call sha256 a idn) dbk = (db', Ok 1)"
proof -
  obtain db1 r where V: "run_script n 0 (verify_call sha256 a) db = (db1, r)" by fastforce
  have r: "r = Ok 1"
    using assms by (auto simp: redis_Verify_def V Let_def split: sum.splits if_splits)
  note S = assms[unfolded redis_Verify_def V r Let_def]
  have R: "resolve a = Ok idn" "validSession (vfSession a)"
    using S by (auto split: sum.splits if_splits prod.splits)
  show thesis
  proof (cases "run_script n 1 (complete_call sha256 a idn) db1")
    case (Pair db2 r2)
    show thesis
    proof (cases r2)
      case (Inl e)
      obtain db3 r3 where C: "run_script n 2 (complete_call sha256 a idn) db2 = (db3, r3)" by fastforce
      show thesis using S R that[OF V[unfolded r] R, of 2 db2] by (auto simp: Pair Inl C simp del: One_nat_def split: sum.splits if_splits)
    next
      case (Inr x)
      show thesis using S R that[OF V[unfolded r] R, of 1 db1] by (auto simp: Pair Inr simp del: One_nat_def split: if_splits)
    qed
  qed
qed


definition ex_attempt :: verification where
  "ex_attempt = \<lparr>vfID = ''i1'', vfEmail = ''ann@example.com'', vfKeyID = ''k1'', vfPurpose = ''native'', vfVerifier = ''v'', vfBinding = ''b'',
     vfNow = 5, vfSource = ''s'', vfIdentityID = ''u1'',
     vfSession = \<lparr>srID = ''s1'', srIdentityID = [], srDigest = ''d'', srCSRFDigest = ''c'', srCreatedAt = 5, srLastSeenAt = 5,
       srExpiresAt = 5 + Hour\<rparr>\<rparr>"

definition ex_open :: rdb where
  "ex_open = empty_rdb\<lparr>rdChallenges := [(''i1'', (\<lparr>rcEmail = ''ann@example.com'', rcAddress = ''a'', rcKeyID = ''k1'',
     rcPurpose = ''native'', rcVerifier = hex ''v'', rcBinding = hex ''b'', rcAttempts = 0, rcActive = True, rcLease = None\<rparr>, 300000))]\<rparr>"

definition ex_lossy :: redis_net where
  "ex_lossy = \<lparr>rnOther = (\<lambda>_ db. db), rnTime = (\<lambda>k. if k = 0 then 1000 else if k = 1 then 2000 else 3000),
     rnFate = (\<lambda>k. if k = 1 then ReplyLost DeadlineExceeded else Replied)\<rparr>"

definition ex_ann :: identity where
  "ex_ann = \<lparr>idID = ''u1'', idEmail = ''ann@example.com'', idCreatedAt = unix_zero\<rparr>"


section \<open>Budgets\<close>

text \<open>The charges of a history, by key: the members added to the sorted sets.\<close>

type_synonym charge_log = "string \<Rightarrow> (int \<times> string) set"

definition in_window :: "int \<Rightarrow> (int \<times> string) set \<Rightarrow> (int \<times> string) set" where
  "in_window w xs = {x \<in> xs. w - redisWindow < fst x \<and> fst x \<le> w}"

text \<open>
  What the sorted sets know of the charges so far: they hold no other member, every charge of the last
  hour, and live long enough for it.
\<close>

definition tracks :: "(string \<Rightarrow> nat) \<Rightarrow> charge_log \<Rightarrow> int \<Rightarrow> zset keys \<Rightarrow> bool" where
  "tracks lim log now m \<longleftrightarrow>
     (\<forall>k. finite (log k) \<and> (\<forall>x \<in> log k. fst x \<le> now) \<and> (\<forall>w. card (in_window w (log k)) \<le> lim k)) \<and>
     (\<forall>k z d. map_of m k = Some (z, d) \<longrightarrow> distinct z \<and> set z \<subseteq> log k) \<and>
     (\<forall>k x. x \<in> log k \<longrightarrow> now - redisWindow < fst x \<longrightarrow>
        (\<exists>z d. map_of m k = Some (z, d) \<and> x \<in> set z \<and> fst x + redisWindow + 60000 \<le> d))"

lemma tracks_log: "tracks lim log now m \<Longrightarrow> finite (log k) \<and> (\<forall>x \<in> log k. fst x \<le> now) \<and> (\<forall>w. card (in_window w (log k)) \<le> lim k)"
  unfolding tracks_def by blast

lemma tracks_stored: "tracks lim log now m \<Longrightarrow> map_of m k = Some (z, d) \<Longrightarrow> distinct z \<and> set z \<subseteq> log k"
  unfolding tracks_def by blast

lemma tracks_kept: "tracks lim log now m \<Longrightarrow> x \<in> log k \<Longrightarrow> now - redisWindow < fst x \<Longrightarrow>
    \<exists>z d. map_of m k = Some (z, d) \<and> x \<in> set z \<and> fst x + redisWindow + 60000 \<le> d"
  unfolding tracks_def by blast

lemma tracksI:
  assumes "\<And>k. finite (log k) \<and> (\<forall>x \<in> log k. fst x \<le> now) \<and> (\<forall>w. card (in_window w (log k)) \<le> lim k)"
    and "\<And>k z d. map_of m k = Some (z, d) \<Longrightarrow> distinct z \<and> set z \<subseteq> log k"
    and "\<And>k x. x \<in> log k \<Longrightarrow> now - redisWindow < fst x \<Longrightarrow>
      \<exists>z d. map_of m k = Some (z, d) \<and> x \<in> set z \<and> fst x + redisWindow + 60000 \<le> d"
  shows "tracks lim log now m"
  using assms unfolding tracks_def by blast

lemma tracks_later:
  assumes t: "tracks lim log now m" and ms: "now \<le> ms"
  shows "tracks lim log ms m"
proof (rule tracksI)
  fix k show "finite (log k) \<and> (\<forall>x \<in> log k. fst x \<le> ms) \<and> (\<forall>w. card (in_window w (log k)) \<le> lim k)"
    using tracks_log[OF t, of k] ms by auto
qed (use tracks_stored[OF t] tracks_kept[OF t] ms in auto)

lemma zrem_lookup:
  "map_of (zrem ms k c m) k' =
     (case map_of m k' of None \<Rightarrow> None
      | Some (z, d) \<Rightarrow>
          if k' = k \<and> ms < d then (let z = filter (\<lambda>(score, _). \<not> score \<le> c) z in if z = [] then None else Some (z, d))
          else Some (z, d))"
  by (auto simp: zrem_def Let_def gm_set_lookup gm_delete_lookup split: option.split)

lemma tracks_zrem:
  assumes t: "tracks lim log now m" and ms: "now \<le> ms"
  shows "tracks lim log ms (zrem ms k (ms - redisWindow) m)"
proof (rule tracksI)
  fix k' show "finite (log k') \<and> (\<forall>x \<in> log k'. fst x \<le> ms) \<and> (\<forall>w. card (in_window w (log k')) \<le> lim k')"
    using tracks_log[OF t, of k'] ms by auto
next
  fix k' z d assume "map_of (zrem ms k (ms - redisWindow) m) k' = Some (z, d)"
  then obtain z' d' where "map_of m k' = Some (z', d')" "distinct z' \<longrightarrow> distinct z" "set z \<subseteq> set z'"
    by (auto simp: zrem_lookup Let_def split: option.splits if_splits)
  then show "distinct z \<and> set z \<subseteq> log k'" using tracks_stored[OF t] by blast
next
  fix k' x assume x: "x \<in> log k'" "ms - redisWindow < fst x"
  then obtain z d where "map_of m k' = Some (z, d)" "x \<in> set z" "fst x + redisWindow + 60000 \<le> d"
    using tracks_kept[OF t x(1)] ms by auto
  then show "\<exists>z d. map_of (zrem ms k (ms - redisWindow) m) k' = Some (z, d) \<and> x \<in> set z \<and> fst x + redisWindow + 60000 \<le> d"
    using x(2) by (cases x) (auto simp: zrem_lookup Let_def filter_empty_conv)
qed

text \<open>Nothing older than an hour is left under a key.\<close>

definition pruned :: "int \<Rightarrow> string \<Rightarrow> zset keys \<Rightarrow> bool" where
  "pruned ms k m \<longleftrightarrow> (\<forall>x \<in> set (zset_at ms m k). ms - redisWindow < fst x)"

lemma pruned_zrem: "pruned ms k (zrem ms k (ms - redisWindow) m)"
  by (auto simp: pruned_def zset_at_def redis_get_def zrem_lookup Let_def split: option.splits if_splits)

lemma pruned_other: "pruned ms k m \<Longrightarrow> pruned ms k (zrem ms k' (ms - redisWindow) m)"
  by (auto simp: pruned_def zset_at_def redis_get_def zrem_lookup Let_def split: option.splits if_splits)

lemma zadd_at_other: "k \<noteq> k' \<Longrightarrow> zset_at ms (zadd ms k' i m) k = zset_at ms m k"
  by (simp add: zset_at_def redis_get_def zadd_def Let_def gm_set_lookup)

text \<open>A sorted set that was pruned holds exactly the charges of the last hour.\<close>

lemma tracks_zset:
  assumes t: "tracks lim log ms m" and p: "pruned ms k m"
  shows "set (zset_at ms m k) = in_window ms (log k)" "distinct (zset_at ms m k)"
proof -
  show "distinct (zset_at ms m k)"
    using tracks_stored[OF t, of k] by (simp add: zset_at_def redis_get_def split: option.split)
  have "x \<in> in_window ms (log k)" if "x \<in> set (zset_at ms m k)" for x
  proof -
    have "\<exists>z d. map_of m k = Some (z, d) \<and> x \<in> set z"
      using that by (cases "map_of m k") (auto simp: zset_at_def redis_get_def split: if_splits)
    then have "x \<in> log k" using tracks_stored[OF t] by blast
    then show ?thesis using tracks_log[OF t, of k] p that by (simp add: in_window_def pruned_def)
  qed
  moreover have "x \<in> set (zset_at ms m k)" if x: "x \<in> in_window ms (log k)" for x
  proof -
    obtain z d where "map_of m k = Some (z, d)" "x \<in> set z" "fst x + redisWindow + 60000 \<le> d"
      using tracks_kept[OF t, of x k] x by (auto simp: in_window_def)
    then show ?thesis using x by (simp add: zset_at_def redis_get_def in_window_def)
  qed
  ultimately show "set (zset_at ms m k) = in_window ms (log k)" by blast
qed

text \<open>A charge below the limit keeps every window within it.\<close>

lemma charge_window:
  assumes "\<forall>x \<in> xs. fst x \<le> ms" "finite xs" "card (in_window ms xs) < n" "\<forall>w. card (in_window w xs) \<le> n"
  shows "card (in_window w (insert (ms, i) xs)) \<le> n"
proof (cases "ms \<le> w")
  case True
  have f: "finite (in_window ms xs)" using assms(2) by (simp add: in_window_def)
  have "in_window w (insert (ms, i) xs) \<subseteq> insert (ms, i) (in_window ms xs)"
    using True assms(1) by (fastforce simp: in_window_def)
  then have "card (in_window w (insert (ms, i) xs)) \<le> card (insert (ms, i) (in_window ms xs))" using f by (intro card_mono) auto
  also have "\<dots> \<le> Suc (card (in_window ms xs))" using f by (simp add: card_insert_if)
  finally show ?thesis using assms(3) by simp
next
  case False
  then have "in_window w (insert (ms, i) xs) = in_window w xs" by (auto simp: in_window_def)
  then show ?thesis using assms(4) by simp
qed

lemma zadd_lookup:
  "map_of (zadd ms k i m) k' =
      (if k' = k then Some (if (ms, i) \<in> set (zset_at ms m k) then zset_at ms m k else zset_at ms m k @ [(ms, i)], ms + redisWindow + 60000)
       else map_of m k')"
  by (simp add: zadd_def Let_def gm_set_lookup)

lemma tracks_zadd:
  assumes t: "tracks lim log ms m" and p: "pruned ms k m" and l: "length (zset_at ms m k) < lim k"
  shows "tracks lim (log(k := insert (ms, i) (log k))) ms (zadd ms k i m)"
proof (rule tracksI)
  note Z = tracks_zset[OF t p]
  have c: "card (in_window ms (log k)) < lim k" using l Z distinct_card by metis
  fix k'
  show "finite ((log(k := insert (ms, i) (log k))) k') \<and> (\<forall>x \<in> (log(k := insert (ms, i) (log k))) k'. fst x \<le> ms) \<and>
      (\<forall>w. card (in_window w ((log(k := insert (ms, i) (log k))) k')) \<le> lim k')"
  proof (cases "k' = k")
    case True
    have "\<forall>w. card (in_window w (insert (ms, i) (log k))) \<le> lim k"
      using tracks_log[OF t, of k] by (intro allI charge_window[OF _ _ c]) simp_all
    with True show ?thesis using tracks_log[OF t, of k] by simp
  qed (use tracks_log[OF t, of k'] in simp)
  show "distinct z \<and> set z \<subseteq> (log(k := insert (ms, i) (log k))) k'" if "map_of (zadd ms k i m) k' = Some (z, d)" for z d
  proof (cases "k' = k")
    case True
    have "set (zset_at ms m k) \<subseteq> log k" using Z(1) by (auto simp: in_window_def)
    then show ?thesis using that True Z(2) by (auto simp: zadd_lookup split: if_splits)
  next
    case False
    then show ?thesis using that tracks_stored[OF t, of k' z d] by (simp add: zadd_lookup)
  qed
  show "\<exists>z d. map_of (zadd ms k i m) k' = Some (z, d) \<and> x \<in> set z \<and> fst x + redisWindow + 60000 \<le> d"
    if "x \<in> (log(k := insert (ms, i) (log k))) k'" "ms - redisWindow < fst x" for x
  proof (cases "k' = k")
    case True
    have "x = (ms, i) \<or> x \<in> set (zset_at ms m k)" "fst x \<le> ms"
      using that True Z(1) tracks_log[OF t, of k] by (auto simp: in_window_def)
    then show ?thesis using True by (auto simp: zadd_lookup)
  next
    case False
    then show ?thesis using that tracks_kept[OF t, of x k'] by (simp add: zadd_lookup)
  qed
qed

text \<open>The charges of one call: a send to the address and to the source, a bootstrap to the source, a
  verification to the source and a failed one to the address.\<close>

fun charges :: "int \<Rightarrow> script_call \<Rightarrow> rdb \<Rightarrow> (string \<times> string) list" where
  "charges ms (CReserve ka ks kactive i email address keyID purpose ver binding) db =
     (if snd (reserveScript ms ka ks kactive i email address keyID purpose ver binding db) = 1 then [(ka, i), (ks, i)] else [])"
| "charges ms (CCreateBrowser i kb dig csrf) db =
     (if snd (createBrowserStateScript ms i kb dig csrf db) = 1 then [(kb, i)] else [])"
| "charges ms (CVerify ks i failures lease email keyID purpose ver binding) db =
     (if length (zset_at ms (zrem ms ks (ms - redisWindow) (rdBudgets db)) ks) \<ge> 100 then []
      else (ks, lease) #
        (case redis_get ms (rdChallenges db) i of None \<Rightarrow> [] | Some c \<Rightarrow>
           if map_option rcAttempts (redis_get ms (rdChallenges (run_call ms (CVerify ks i failures lease email keyID purpose ver binding) db)) i) =
              Some (rcAttempts c + 1) then [(failures @ rcAddress c, lease)] else []))"
| "charges ms _ db = []"

definition add_charges :: "int \<Rightarrow> (string \<times> string) list \<Rightarrow> charge_log \<Rightarrow> charge_log" where
  "add_charges ms cs log = fold (\<lambda>(k, i) log. log(k := insert (ms, i) (log k))) cs log"

fun charge_log :: "(int \<times> script_call) list \<Rightarrow> rdb \<Rightarrow> charge_log \<Rightarrow> charge_log" where
  "charge_log [] db log = log"
| "charge_log ((ms, c) # cs) db log = charge_log cs (run_call ms c db) (add_charges ms (charges ms c db) log)"

text \<open>The limits, by the family a key belongs to, and the keys the methods use.\<close>

definition limit_of :: "string \<Rightarrow> nat" where
  "limit_of k =
     (if HasPrefix k ''send:address:'' then 5
      else if HasPrefix k ''send:source:'' then 20
      else if HasPrefix k ''browser-bootstrap:'' then 20
      else if HasPrefix k ''verify:source:'' then 100
      else if HasPrefix k ''verify:address:'' then 20 else 0)"

fun keys_ok :: "script_call \<Rightarrow> bool" where
  "keys_ok (CReserve ka ks kactive i email address keyID purpose ver binding) \<longleftrightarrow>
     HasPrefix ka ''send:address:'' \<and> HasPrefix ks ''send:source:''"
| "keys_ok (CCreateBrowser i kb dig csrf) \<longleftrightarrow> HasPrefix kb ''browser-bootstrap:''"
| "keys_ok (CVerify ks i failures lease email keyID purpose ver binding) \<longleftrightarrow>
     HasPrefix ks ''verify:source:'' \<and> failures = ''verify:address:''"
| "keys_ok _ \<longleftrightarrow> True"

lemma limits:
  "HasPrefix k ''send:address:'' \<Longrightarrow> limit_of k = 5"
  "HasPrefix k ''send:source:'' \<Longrightarrow> limit_of k = 20"
  "HasPrefix k ''browser-bootstrap:'' \<Longrightarrow> limit_of k = 20"
  "HasPrefix k ''verify:source:'' \<Longrightarrow> limit_of k = 100"
  "limit_of (''verify:address:'' @ a) = 20"
  by (auto simp: limit_of_def HasPrefix_iff)

lemma charges_reserve:
  assumes t: "tracks limit_of log now (rdBudgets db)" and ms: "now \<le> ms"
    and k: "HasPrefix ka ''send:address:''" "HasPrefix ks ''send:source:''"
  shows "tracks limit_of (add_charges ms (charges ms (CReserve ka ks kactive i email address keyID purpose ver binding) db) log) ms
    (rdBudgets (fst (reserveScript ms ka ks kactive i email address keyID purpose ver binding db)))"
proof -
  let ?b = "zrem ms ks (ms - redisWindow) (zrem ms ka (ms - redisWindow) (rdBudgets db))"
  have b: "tracks limit_of log ms ?b" by (intro tracks_zrem[OF tracks_zrem[OF t ms]]) simp
  have p: "pruned ms ka ?b" "pruned ms ks ?b" by (simp_all add: pruned_zrem pruned_other)
  have ne: "ks \<noteq> ka" using k by (auto simp: HasPrefix_iff)
  show ?thesis
  proof (cases "snd (reserveScript ms ka ks kactive i email address keyID purpose ver binding db) = 1")
    case True
    then have l: "length (zset_at ms ?b ka) < limit_of ka" "length (zset_at ms ?b ks) < limit_of ks"
      and r: "rdBudgets (fst (reserveScript ms ka ks kactive i email address keyID purpose ver binding db)) = zadd ms ks i (zadd ms ka i ?b)"
      using k by (auto simp: reserveScript_def Let_def limits split: if_splits)
    have t1: "tracks limit_of (log(ka := insert (ms, i) (log ka))) ms (zadd ms ka i ?b)" by (rule tracks_zadd[OF b p(1) l(1)])
    have "pruned ms ks (zadd ms ka i ?b)" using p(2) ne by (simp add: pruned_def zadd_at_other)
    from tracks_zadd[OF t1 this, of i] l(2) ne show ?thesis
      using True by (simp add: r add_charges_def zadd_at_other)
  next
    case False
    then have "rdBudgets (fst (reserveScript ms ka ks kactive i email address keyID purpose ver binding db)) = ?b"
      by (auto simp: reserveScript_def Let_def split: if_splits)
    then show ?thesis using b False by (simp add: add_charges_def)
  qed
qed

lemma charges_browser:
  assumes t: "tracks limit_of log now (rdBudgets db)" and ms: "now \<le> ms" and k: "HasPrefix kb ''browser-bootstrap:''"
  shows "tracks limit_of (add_charges ms (charges ms (CCreateBrowser i kb dig csrf) db) log) ms
    (rdBudgets (fst (createBrowserStateScript ms i kb dig csrf db)))"
proof -
  let ?b = "zrem ms kb (ms - redisWindow) (rdBudgets db)"
  have b: "tracks limit_of log ms ?b" by (rule tracks_zrem[OF t ms])
  have t': "tracks limit_of log ms (rdBudgets db)" by (rule tracks_later[OF t ms])
  from tracks_zadd[OF b pruned_zrem, of i] show ?thesis
    using b t' k by (auto simp: createBrowserStateScript_def Let_def add_charges_def limits)
qed

lemma verify_budget_cases:
  fixes ms ks i failures lease email keyID purpose ver binding db
  defines "b \<equiv> zrem ms ks (ms - redisWindow) (rdBudgets db)" and "b1 \<equiv> zadd ms ks lease (zrem ms ks (ms - redisWindow) (rdBudgets db))"
    and "cs \<equiv> charges ms (CVerify ks i failures lease email keyID purpose ver binding) db"
    and "b' \<equiv> rdBudgets (fst (verifyScript ms ks i failures lease email keyID purpose ver binding db))"
  obtains (full) "cs = []" "b' = b"
  | (charged) "length (zset_at ms b ks) < 100" "cs = [(ks, lease)]" "b' = b1"
  | (limited) a where "length (zset_at ms b ks) < 100" "cs = [(ks, lease)]" "b' = zrem ms (failures @ a) (ms - redisWindow) b1"
  | (failed) a where "length (zset_at ms b ks) < 100" "cs = [(ks, lease), (failures @ a, lease)]"
      "length (zset_at ms (zrem ms (failures @ a) (ms - redisWindow) b1) (failures @ a)) < 20"
      "b' = zadd ms (failures @ a) lease (zrem ms (failures @ a) (ms - redisWindow) b1)"
proof (cases "length (zset_at ms b ks) \<ge> 100")
  case True
  then show thesis using full by (simp add: cs_def b'_def b_def verifyScript_def Let_def)
next
  case False
  note l = False
  show thesis
  proof (cases "redis_get ms (rdChallenges db) i")
    case None
    then show thesis using charged l by (simp add: cs_def b'_def b_def b1_def verifyScript_def Let_def)
  next
    case (Some c)
    then obtain d where d: "map_of (rdChallenges db) i = Some (c, d)" "ms < d"
      by (auto simp: redis_get_def split: option.splits if_splits)
    let ?open = "rcActive c \<and> \<not> (case rcLease c of None \<Rightarrow> False | Some (_, until) \<Rightarrow> until > ms)"
    let ?match = "rcEmail c = email \<and> rcKeyID c = keyID \<and> rcPurpose c = purpose \<and> rcVerifier c = ver \<and> rcBinding c = binding"
    let ?b2 = "zrem ms (failures @ rcAddress c) (ms - redisWindow) b1"
    consider "\<not> ?open" | "?open" "?match" | "?open" "\<not> ?match" "length (zset_at ms ?b2 (failures @ rcAddress c)) \<ge> 20"
      | "?open" "\<not> ?match" "length (zset_at ms ?b2 (failures @ rcAddress c)) < 20" by linarith
    then show thesis
    proof cases
      case 1
      then show thesis
        using charged l Some by (auto simp: cs_def b'_def b_def b1_def verifyScript_def Let_def)
    next
      case 2
      then show thesis
        using charged l Some d by (simp add: cs_def b'_def b_def b1_def verifyScript_def Let_def redis_get_def redis_upd_lookup)
    next
      case 3
      then show thesis
        using limited[of "rcAddress c"] l Some d
        by (simp add: cs_def b'_def b_def b1_def verifyScript_def Let_def redis_get_def redis_upd_lookup)
    next
      case 4
      then show thesis
        using failed[of "rcAddress c"] l Some d
        by (simp add: cs_def b'_def b_def b1_def verifyScript_def Let_def redis_get_def redis_upd_lookup)
    qed
  qed
qed

lemma charges_verify:
  assumes t: "tracks limit_of log now (rdBudgets db)" and ms: "now \<le> ms" and k: "HasPrefix ks ''verify:source:''"
    and f: "failures = ''verify:address:''"
  shows "tracks limit_of (add_charges ms (charges ms (CVerify ks i failures lease email keyID purpose ver binding) db) log) ms
    (rdBudgets (fst (verifyScript ms ks i failures lease email keyID purpose ver binding db)))"
proof -
  let ?b = "zrem ms ks (ms - redisWindow) (rdBudgets db)"
  have b: "tracks limit_of log ms ?b" by (rule tracks_zrem[OF t ms])
  let ?log = "log(ks := insert (ms, lease) (log ks))"
  have b1: "tracks limit_of ?log ms (zadd ms ks lease ?b)" if "length (zset_at ms ?b ks) < 100"
    using that k by (intro tracks_zadd[OF b pruned_zrem]) (simp add: limits)
  have b2: "tracks limit_of ?log ms (zrem ms (failures @ a) (ms - redisWindow) (zadd ms ks lease ?b))"
    if "length (zset_at ms ?b ks) < 100" for a by (intro tracks_zrem[OF b1[OF that]]) simp
  show ?thesis
  proof (cases rule: verify_budget_cases[of ms ks i failures lease email keyID purpose ver binding db])
    case full
    then show ?thesis using b by (simp only:) (simp add: add_charges_def)
  next
    case charged
    then show ?thesis using b1 by (simp only:) (simp add: add_charges_def)
  next
    case (limited a)
    then show ?thesis using b2[of a] by (simp only:) (simp add: add_charges_def)
  next
    case (failed a)
    have "length (zset_at ms (zrem ms (failures @ a) (ms - redisWindow) (zadd ms ks lease ?b)) (failures @ a)) < limit_of (failures @ a)"
      using failed(3) unfolding f limits .
    from tracks_zadd[OF b2[OF failed(1)] pruned_zrem this, of lease] show ?thesis
      unfolding failed(2,4) by (simp add: add_charges_def)
  qed
qed

lemma other_budgets:
  "charges ms c db = [] \<Longrightarrow> (\<forall>ka ks kactive i email address keyID purpose ver binding. c \<noteq> CReserve ka ks kactive i email address keyID purpose ver binding) \<Longrightarrow>
   (\<forall>i kb dig csrf. c \<noteq> CCreateBrowser i kb dig csrf) \<Longrightarrow>
   (\<forall>ks i failures lease email keyID purpose ver binding. c \<noteq> CVerify ks i failures lease email keyID purpose ver binding) \<Longrightarrow>
   rdBudgets (run_call ms c db) = rdBudgets db"
  by (cases c) (auto simp: authenticateBrowserStateScript_def consumeBrowserStateScript_def releaseLeaseScript_def
      rejectLeaseScript_def invalidateScript_def completeScript_def sessionScript_def revokeScript_def revokeAllScript_def
      revokeIdentityScript_def drop_index_def Let_def split: option.split)

lemma tracks_call:
  assumes t: "tracks limit_of log now (rdBudgets db)" and ms: "now \<le> ms" and k: "keys_ok c"
  shows "tracks limit_of (add_charges ms (charges ms c db) log) ms (rdBudgets (run_call ms c db))"
proof -
  consider (reserve) ka ks kactive i email address keyID purpose ver binding where "c = CReserve ka ks kactive i email address keyID purpose ver binding"
    | (browser) i kb dig csrf where "c = CCreateBrowser i kb dig csrf"
    | (verify) ks i failures lease email keyID purpose ver binding where "c = CVerify ks i failures lease email keyID purpose ver binding"
    | (other) "charges ms c db = []" "rdBudgets (run_call ms c db) = rdBudgets db"
    using other_budgets[of ms c db] by (cases c) auto
  then show ?thesis
  proof cases
    case reserve
    then show ?thesis using charges_reserve[OF t ms] k by (simp del: charges.simps)
  next
    case browser
    then show ?thesis using charges_browser[OF t ms] k by (simp del: charges.simps)
  next
    case verify
    then show ?thesis using charges_verify[OF t ms] k by (simp del: charges.simps)
  next
    case other
    then show ?thesis using tracks_later[OF t ms] by (simp add: add_charges_def)
  qed
qed

lemma tracks_history:
  assumes "tracks limit_of log now (rdBudgets db)" "sorted (now # map fst cs)" "list_all (\<lambda>(ms, c). keys_ok c) cs"
  shows "\<exists>now' m. tracks limit_of (charge_log cs db log) now' m"
  using assms
proof (induction cs db log arbitrary: now rule: charge_log.induct)
  case (2 ms c cs db log)
  have "tracks limit_of (add_charges ms (charges ms c db) log) ms (rdBudgets (run_call ms c db))"
    using 2(2-4) by (intro tracks_call[where now = now]) simp_all
  from 2(1)[OF this] show ?case using 2(3,4) by (simp del: run_call.simps charges.simps)
qed auto


definition ex_sends :: "(int \<times> script_call) list" where
  "ex_sends = map (\<lambda>(t, i). (t, CReserve ''send:address:a'' ''send:source:s'' ''x'' i ''ann@example.com'' ''a'' ''k1'' ''native'' ''v'' ''b''))
     [(0, ''1''), (60000, ''2''), (120000, ''3''), (180000, ''4''), (240000, ''5''), (300000, ''6''), (3600000, ''7'')]"


end
