(* ===== verification/Admin.thy ===== *)
theory Admin
  imports Orm Go_Utf8
begin

text \<open>
  The package \<open>admin\<close> (admin/admin.go): a resource binds the fields of registered metadata to a Go type
  and guards its persistence.

  The callbacks of a configuration are optional, \<open>None\<close> for nil. They act on a world of any type, and
  a write adapter may change the record it is given even when it returns an error. Each operation
  returns, with the world and its result, the sequence of callbacks it made, without the adapters and the
  constructor. The context is the same in all calls of an operation and is left to the callbacks.
\<close>

section \<open>Configuration\<close>

datatype action = ListAction | CreateAction | UpdateAction | DeleteAction

record target =
  tgModule :: string
  tgModel :: string
  tgKey :: string

record formField =
  ffName :: string
  ffValue :: string

record form =
  fmFields :: "formField list"
  fmErrors :: "(string, string) gomap"

definition form_valid :: "form \<Rightarrow> bool" where
  "form_valid f = (length (fmErrors f) = 0)"

record recordView =
  rvKey :: string
  rvFields :: "formField list"

record 't keyAdapter =
  kaName :: string
  kaRead :: "('t \<Rightarrow> string) option"

record 't fieldAdapter =
  faName :: string
  faRead :: "('t \<Rightarrow> string) option"
  faWrite :: "('t \<Rightarrow> string \<Rightarrow> 't \<times> string option) option"

type_synonym ('w, 'a) callback = "'w \<Rightarrow> 'w \<times> (string, 'a) result"

record ('t, 'w) persistence =
  psList :: "('w, 't list) callback option"
  psGet :: "(string \<Rightarrow> ('w, 't) callback) option"
  psCreate :: "('t \<Rightarrow> ('w, 't) callback) option"
  psUpdate :: "(string \<Rightarrow> 't \<Rightarrow> ('w, 't) callback) option"
  psDelete :: "(string \<Rightarrow> ('w, unit) callback) option"

record ('t, 'w) resourceConfig =
  rcModel :: registered
  rcNewRecord :: "('w \<Rightarrow> 'w \<times> 't) option"
  rcKey :: "'t keyAdapter"
  rcFields :: "'t fieldAdapter list"
  rcPersistence :: "('t, 'w) persistence"
  rcAuthorize :: "(action \<Rightarrow> target \<Rightarrow> ('w, unit) callback) option"
  rcCSRF :: "(string \<Rightarrow> ('w, unit) callback) option"

record 't fieldBinding =
  fbMetadata :: field
  fbRead :: "'t \<Rightarrow> string"
  fbWrite :: "'t \<Rightarrow> string \<Rightarrow> 't \<times> string option"

record ('t, 'w) resource =
  rsModel :: registered
  rsNewRecord :: "'w \<Rightarrow> 'w \<times> 't"
  rsKeyRead :: "'t \<Rightarrow> string"
  rsFields :: "'t fieldBinding list"
  rsList :: "('w, 't list) callback"
  rsGet :: "string \<Rightarrow> ('w, 't) callback"
  rsCreate :: "'t \<Rightarrow> ('w, 't) callback"
  rsUpdate :: "string \<Rightarrow> 't \<Rightarrow> ('w, 't) callback"
  rsDelete :: "string \<Rightarrow> ('w, unit) callback"
  rsAuthorize :: "action \<Rightarrow> target \<Rightarrow> ('w, unit) callback"
  rsCSRF :: "string \<Rightarrow> ('w, unit) callback"

datatype admin_err =
    NoOwningModule string
  | ResourceMetadata orm_err
  | NoConstructor string
  | NoKeyReader string
  | NoPersistence string string
  | NoAuthorizer string
  | NoCSRFValidator string
  | UnnamedAdapter string
  | HalfAdapter string string
  | TwoAdapters string string
  | NoAdapterFor string string
  | KeyMismatch string string string
  | ExtraAdapter string string
  | CSRFRejected action string
  | NotAuthorized action target string
  | PersistenceFailed action string string
  | LoadFailed string string

section \<open>Construction\<close>

definition validatePersistence :: "string \<Rightarrow> ('t, 'w) persistence \<Rightarrow> admin_err option" where
  "validatePersistence table p =
     (if psList p = None then Some (NoPersistence ''list'' table)
      else if psGet p = None then Some (NoPersistence ''get'' table)
      else if psCreate p = None then Some (NoPersistence ''create'' table)
      else if psUpdate p = None then Some (NoPersistence ''update'' table)
      else if psDelete p = None then Some (NoPersistence ''delete'' table)
      else None)"

fun collect_adapters ::
    "string \<Rightarrow> (string, 't fieldAdapter) gomap \<Rightarrow> 't fieldAdapter list \<Rightarrow>
     (admin_err, (string, 't fieldAdapter) gomap) result" where
  "collect_adapters table m [] = Ok m"
| "collect_adapters table m (a # as) =
     (if TrimSpace (faName a) = [] then Err (UnnamedAdapter table)
      else if faRead a = None \<or> faWrite a = None then Err (HalfAdapter (faName a) table)
      else if map_of m (faName a) \<noteq> None then Err (TwoAdapters table (faName a))
      else collect_adapters table (gm_set (faName a) a m) as)"

definition zero_field :: field where
  "zero_field = \<lparr>fName = [], fType = [], fMaxLen = 0, fNullable = False, fPrimaryKey = False,
     fUnique = False, fIndex = False\<rparr>"

text \<open>The loop over the metadata: bindings so far, the primary key and the adapters left over.\<close>

fun bind_fields ::
    "string \<Rightarrow> (string, 't fieldAdapter) gomap \<Rightarrow> 't fieldBinding list \<Rightarrow> field \<Rightarrow> field list \<Rightarrow>
     (admin_err, 't fieldBinding list \<times> field \<times> (string, 't fieldAdapter) gomap) result" where
  "bind_fields table m out primary [] = Ok (out, primary, m)"
| "bind_fields table m out primary (f # fs) =
     (if fPrimaryKey f then bind_fields table m out f fs
      else case map_of m (fName f) of
             None \<Rightarrow> Err (NoAdapterFor table (fName f))
           | Some a \<Rightarrow>
               bind_fields table (gm_delete (fName f) m)
                 (out @ [\<lparr>fbMetadata = f, fbRead = the (faRead a), fbWrite = the (faWrite a)\<rparr>]) primary fs)"

definition newResource ::
    "(string, registered) map_order \<Rightarrow> (string, 't fieldAdapter) map_order \<Rightarrow>
     ('t, 'w) resourceConfig \<Rightarrow> (admin_err, ('t, 'w) resource) result" where
  "newResource it ita cfg =
     (if TrimSpace (rModule (rcModel cfg)) = [] then Err (NoOwningModule (rTable (rcModel cfg)))
      else case Register NewRegistry (rModule (rcModel cfg)) [rModel (rcModel cfg)] of
        (_, Some e) \<Rightarrow> Err (ResourceMetadata e)
      | (registry, None) \<Rightarrow>
          (let reg = hd (Models it registry); table = rTable reg in
           case (rcNewRecord cfg, kaRead (rcKey cfg)) of
             (None, _) \<Rightarrow> Err (NoConstructor table)
           | (Some _, None) \<Rightarrow> Err (NoKeyReader table)
           | (Some newRecord, Some keyRead) \<Rightarrow>
               (case validatePersistence table (rcPersistence cfg) of
                  Some e \<Rightarrow> Err e
                | None \<Rightarrow>
                    (case (rcAuthorize cfg, rcCSRF cfg) of
                       (None, _) \<Rightarrow> Err (NoAuthorizer table)
                     | (Some _, None) \<Rightarrow> Err (NoCSRFValidator table)
                     | (Some authorize, Some csrf) \<Rightarrow>
                         (case collect_adapters table [] (rcFields cfg) of
                            Err e \<Rightarrow> Err e
                          | Ok adapters \<Rightarrow>
                              (case bind_fields table adapters [] zero_field (mFields (rModel reg)) of
                                 Err e \<Rightarrow> Err e
                               | Ok (bindings, primary, rest) \<Rightarrow>
                                   if kaName (rcKey cfg) \<noteq> fName primary
                                   then Err (KeyMismatch table (kaName (rcKey cfg)) (fName primary))
                                   else case ita rest of
                                          (extra, _) # _ \<Rightarrow> Err (ExtraAdapter table extra)
                                        | [] \<Rightarrow>
                                            Ok \<lparr>rsModel = reg, rsNewRecord = newRecord, rsKeyRead = keyRead,
                                              rsFields = bindings,
                                              rsList = the (psList (rcPersistence cfg)),
                                              rsGet = the (psGet (rcPersistence cfg)),
                                              rsCreate = the (psCreate (rcPersistence cfg)),
                                              rsUpdate = the (psUpdate (rcPersistence cfg)),
                                              rsDelete = the (psDelete (rcPersistence cfg)),
                                              rsAuthorize = authorize, rsCSRF = csrf\<rparr>))))))"

section \<open>Operations\<close>

datatype 't admin_call =
    CallCSRF string
  | CallAuthorize action target
  | CallList
  | CallGet string
  | CallCreate 't
  | CallUpdate string 't
  | CallDelete string

text \<open>\<open>url.Values.Get\<close>: the first value of the key.\<close>

definition values_get :: "(string, string list) gomap \<Rightarrow> string \<Rightarrow> string" where
  "values_get v k = (case map_of v k of Some (x # _) \<Rightarrow> x | _ \<Rightarrow> [])"

text \<open>The message on a value that is too long.\<close>

definition too_long :: "int \<Rightarrow> string" where
  "too_long n = ''must be at most '' @ Itoa (nat n) @ '' characters''"

fun bind_loop :: "'t fieldBinding list \<Rightarrow> (string, string list) gomap \<Rightarrow> 't \<times> form \<Rightarrow> 't \<times> form" where
  "bind_loop [] input acc = acc"
| "bind_loop (b # bs) input (value, bound) =
     (let name = fName (fbMetadata b);
          raw = values_get input name;
          bound = bound\<lparr>fmFields := fmFields bound @ [\<lparr>ffName = name, ffValue = raw\<rparr>]\<rparr>
      in if 0 < fMaxLen (fbMetadata b) \<and> fMaxLen (fbMetadata b) < int (RuneCountInString raw)
         then bind_loop bs input
                (value, bound\<lparr>fmErrors := gm_set name (too_long (fMaxLen (fbMetadata b))) (fmErrors bound)\<rparr>)
         else case fbWrite b value raw of
                (value, Some e) \<Rightarrow> bind_loop bs input (value, bound\<lparr>fmErrors := gm_set name e (fmErrors bound)\<rparr>)
              | (value, None) \<Rightarrow> bind_loop bs input (value, bound))"

definition bind :: "('t, 'w) resource \<Rightarrow> 't \<Rightarrow> (string, string list) gomap \<Rightarrow> 't \<times> form" where
  "bind r value input = bind_loop (rsFields r) input (value, \<lparr>fmFields = [], fmErrors = []\<rparr>)"

definition view :: "('t, 'w) resource \<Rightarrow> 't \<Rightarrow> recordView" where
  "view r value =
     \<lparr>rvKey = rsKeyRead r value,
      rvFields = map (\<lambda>b. \<lparr>ffName = fName (fbMetadata b), ffValue = fbRead b value\<rparr>) (rsFields r)\<rparr>"

definition target_of :: "('t, 'w) resource \<Rightarrow> string \<Rightarrow> target" where
  "target_of r key = \<lparr>tgModule = rModule (rsModel r), tgModel = rTable (rsModel r), tgKey = key\<rparr>"

definition authorizeAction ::
    "('t, 'w) resource \<Rightarrow> action \<Rightarrow> string \<Rightarrow> 'w \<Rightarrow> 'w \<times> 't admin_call list \<times> admin_err option" where
  "authorizeAction r act key w =
     (case rsAuthorize r act (target_of r key) w of
        (w, Err e) \<Rightarrow> (w, [CallAuthorize act (target_of r key)], Some (NotAuthorized act (target_of r key) e))
      | (w, Ok _) \<Rightarrow> (w, [CallAuthorize act (target_of r key)], None))"

definition guardWrite ::
    "('t, 'w) resource \<Rightarrow> action \<Rightarrow> string \<Rightarrow> string \<Rightarrow> 'w \<Rightarrow> 'w \<times> 't admin_call list \<times> admin_err option" where
  "guardWrite r act key token w =
     (case rsCSRF r token w of
        (w, Err e) \<Rightarrow> (w, [CallCSRF token], Some (CSRFRejected act e))
      | (w, Ok _) \<Rightarrow>
          (case authorizeAction r act key w of (w, calls, e) \<Rightarrow> (w, CallCSRF token # calls, e)))"

definition admin_list ::
    "('t, 'w) resource \<Rightarrow> 'w \<Rightarrow> 'w \<times> 't admin_call list \<times> (admin_err, recordView list) result" where
  "admin_list r w =
     (case authorizeAction r ListAction [] w of
        (w, calls, Some e) \<Rightarrow> (w, calls, Err e)
      | (w, calls, None) \<Rightarrow>
          (case rsList r w of
             (w, Err e) \<Rightarrow> (w, calls @ [CallList], Err (PersistenceFailed ListAction [] e))
           | (w, Ok records) \<Rightarrow> (w, calls @ [CallList], Ok (map (view r) records))))"

text \<open>
  The result of \<open>create\<close> and \<open>update\<close>: the view, the form and the error. A view or form that the code
  leaves zero is \<open>None\<close>.
\<close>

definition admin_create ::
    "('t, 'w) resource \<Rightarrow> string \<Rightarrow> (string, string list) gomap \<Rightarrow> 'w \<Rightarrow>
     'w \<times> 't admin_call list \<times> recordView option \<times> form option \<times> admin_err option" where
  "admin_create r token input w =
     (case guardWrite r CreateAction [] token w of
        (w, calls, Some e) \<Rightarrow> (w, calls, None, None, Some e)
      | (w, calls, None) \<Rightarrow>
          (case rsNewRecord r w of (w, new) \<Rightarrow>
           case bind r new input of (value, bound) \<Rightarrow>
             if \<not> form_valid bound then (w, calls, None, Some bound, None)
             else case rsCreate r value w of
                    (w, Err e) \<Rightarrow> (w, calls @ [CallCreate value], None, Some bound, Some (PersistenceFailed CreateAction [] e))
                  | (w, Ok created) \<Rightarrow> (w, calls @ [CallCreate value], Some (view r created), Some bound, None)))"

definition admin_update ::
    "('t, 'w) resource \<Rightarrow> string \<Rightarrow> string \<Rightarrow> (string, string list) gomap \<Rightarrow> 'w \<Rightarrow>
     'w \<times> 't admin_call list \<times> recordView option \<times> form option \<times> admin_err option" where
  "admin_update r key token input w =
     (case guardWrite r UpdateAction key token w of
        (w, calls, Some e) \<Rightarrow> (w, calls, None, None, Some e)
      | (w, calls, None) \<Rightarrow>
          (case rsGet r key w of
             (w, Err e) \<Rightarrow> (w, calls @ [CallGet key], None, None, Some (LoadFailed key e))
           | (w, Ok current) \<Rightarrow>
               (case bind r current input of (value, bound) \<Rightarrow>
                  if \<not> form_valid bound then (w, calls @ [CallGet key], None, Some bound, None)
                  else case rsUpdate r key value w of
                         (w, Err e) \<Rightarrow> (w, calls @ [CallGet key, CallUpdate key value], None, Some bound,
                                       Some (PersistenceFailed UpdateAction key e))
                       | (w, Ok updated) \<Rightarrow> (w, calls @ [CallGet key, CallUpdate key value], Some (view r updated),
                                           Some bound, None))))"

definition admin_delete ::
    "('t, 'w) resource \<Rightarrow> string \<Rightarrow> string \<Rightarrow> 'w \<Rightarrow> 'w \<times> 't admin_call list \<times> admin_err option" where
  "admin_delete r key token w =
     (case guardWrite r DeleteAction key token w of
        (w, calls, Some e) \<Rightarrow> (w, calls, Some e)
      | (w, calls, None) \<Rightarrow>
          (case rsDelete r key w of
             (w, Err e) \<Rightarrow> (w, calls @ [CallDelete key], Some (PersistenceFailed DeleteAction key e))
           | (w, Ok _) \<Rightarrow> (w, calls @ [CallDelete key], None)))"

end
