(* ===== verification/Admin_Correct.thy ===== *)
theory Admin_Correct
  imports Admin
begin

text \<open>
  What \<open>admin\<close> guarantees: a resource that is constructed binds every field of its metadata except the key,
  each to the adapter of its name; and nothing is read or written for a request that did not pass the CSRF check and
  the authorization, in this order, nor written from a form with an error.
\<close>

section \<open>Construction\<close>

definition config_complete :: "('t, 'w) resourceConfig \<Rightarrow> bool" where
  "config_complete cfg \<longleftrightarrow> rcNewRecord cfg \<noteq> None \<and> kaRead (rcKey cfg) \<noteq> None \<and>
     psList (rcPersistence cfg) \<noteq> None \<and> psGet (rcPersistence cfg) \<noteq> None \<and>
     psCreate (rcPersistence cfg) \<noteq> None \<and> psUpdate (rcPersistence cfg) \<noteq> None \<and>
     psDelete (rcPersistence cfg) \<noteq> None \<and> rcAuthorize cfg \<noteq> None \<and> rcCSRF cfg \<noteq> None"

definition adapter_ok :: "'t fieldAdapter \<Rightarrow> bool" where
  "adapter_ok a \<longleftrightarrow> TrimSpace (faName a) \<noteq> [] \<and> faRead a \<noteq> None \<and> faWrite a \<noteq> None"

definition plain_fields :: "model \<Rightarrow> field list" where
  "plain_fields m = filter (\<lambda>f. \<not> fPrimaryKey f) (mFields m)"

definition binds :: "'t fieldBinding \<Rightarrow> 't fieldAdapter \<Rightarrow> bool" where
  "binds b a \<longleftrightarrow> faName a = fName (fbMetadata b) \<and> faRead a = Some (fbRead b) \<and> faWrite a = Some (fbWrite b)"

lemma collect_adapters_Ok:
  "gm_ok m \<Longrightarrow> collect_adapters t m as = Ok m' \<Longrightarrow>
     list_all adapter_ok as \<and> distinct (map faName as) \<and> faName ` set as \<inter> set (map fst m) = {} \<and> gm_ok m' \<and>
     map_of m' = map_of m ++ map_of (map (\<lambda>a. (faName a, a)) as)"
proof (induction as arbitrary: m)
  case (Cons a as)
  from Cons.prems have a: "adapter_ok a" "faName a \<notin> set (map fst m)"
    "collect_adapters t (gm_set (faName a) a m) as = Ok m'"
    by (auto simp: adapter_ok_def map_of_eq_None_iff split: if_splits)
  from Cons.IH[OF gm_ok_set[OF Cons.prems(1)] a(3)] have ih:
    "list_all adapter_ok as" "distinct (map faName as)" "gm_ok m'"
    "faName ` set as \<inter> set (map fst (gm_set (faName a) a m)) = {}"
    "map_of m' = map_of (gm_set (faName a) a m) ++ map_of (map (\<lambda>a. (faName a, a)) as)" by simp_all
  have keys: "set (map fst (gm_set (faName a) a m)) = insert (faName a) (set (map fst m))"
    using gm_set_lookup[of "faName a" a m] by (metis dom_fun_upd dom_map_of_conv_image_fst list.set_map option.distinct(1))
  have no: "map_of (map (\<lambda>a. (faName a, a)) as) (faName a) = None"
    using ih(4) keys by (auto simp: map_of_eq_None_iff image_iff)
  have M: "map_of m' = map_of m ++ map_of (map (\<lambda>a. (faName a, a)) (a # as))"
    unfolding ih(5) using no by (auto simp: gomap_simps fun_eq_iff map_add_def split: option.splits)
  show ?case using a ih(1-4) keys by (intro conjI M) auto
qed simp

lemma collect_adapters_complete:
  "gm_ok m \<Longrightarrow> list_all adapter_ok as \<Longrightarrow> distinct (map faName as) \<Longrightarrow>
     faName ` set as \<inter> set (map fst m) = {} \<Longrightarrow> \<exists>m'. collect_adapters t m as = Ok m'"
proof (induction as arbitrary: m)
  case (Cons a as)
  have "set (map fst (gm_set (faName a) a m)) = insert (faName a) (set (map fst m))"
    using gm_set_lookup[of "faName a" a m] by (metis dom_fun_upd dom_map_of_conv_image_fst list.set_map option.distinct(1))
  moreover have "map_of m (faName a) = None" using Cons.prems(4) by (auto simp: map_of_eq_None_iff)
  ultimately show ?case
    using Cons.IH[of "gm_set (faName a) a m"] Cons.prems by (auto simp: adapter_ok_def gm_ok_set)
qed simp

text \<open>What the loop over the metadata leaves: it takes the adapter of each plain field out of the map.\<close>

lemma bind_fields_Ok:
  assumes "bind_fields t m out p fs = Ok (bs, p', rest)" "distinct (map fName fs)"
  shows "\<exists>bs'. bs = out @ bs' \<and> map fbMetadata bs' = filter (\<lambda>f. \<not> fPrimaryKey f) fs \<and>
     (\<forall>b \<in> set bs'. \<exists>a. map_of m (fName (fbMetadata b)) = Some a \<and> fbRead b = the (faRead a) \<and> fbWrite b = the (faWrite a)) \<and>
     p' = last (p # filter fPrimaryKey fs) \<and>
     (\<forall>k. map_of rest k = (if k \<in> fName ` set (filter (\<lambda>f. \<not> fPrimaryKey f) fs) then None else map_of m k))"
  using assms
proof (induction fs arbitrary: m out p)
  case (Cons f fs)
  show ?case
  proof (cases "fPrimaryKey f")
    case True
    with Cons.prems Cons.IH[of m out f] show ?thesis by simp
  next
    case False
    with Cons.prems(1) obtain a where a: "map_of m (fName f) = Some a" by (auto split: option.splits)
    let ?b = "\<lparr>fbMetadata = f, fbRead = the (faRead a), fbWrite = the (faWrite a)\<rparr>"
    from False Cons.prems a have "bind_fields t (gm_delete (fName f) m) (out @ [?b]) p fs = Ok (bs, p', rest)" by simp
    from Cons.IH[OF this] Cons.prems(2) obtain bs' where bs': "bs = (out @ [?b]) @ bs'"
      "map fbMetadata bs' = filter (\<lambda>f. \<not> fPrimaryKey f) fs" "p' = last (p # filter fPrimaryKey fs)"
      "\<forall>b \<in> set bs'. \<exists>a. map_of (gm_delete (fName f) m) (fName (fbMetadata b)) = Some a \<and>
         fbRead b = the (faRead a) \<and> fbWrite b = the (faWrite a)"
      "\<forall>k. map_of rest k = (if k \<in> fName ` set (filter (\<lambda>f. \<not> fPrimaryKey f) fs) then None
         else map_of (gm_delete (fName f) m) k)"
      by auto
    show ?thesis
      by (rule exI[of _ "?b # bs'"]) (use bs' False a in \<open>auto simp: gomap_simps split: if_splits\<close>)
  qed
qed simp

lemma bind_fields_complete:
  "distinct (map fName fs) \<Longrightarrow> \<forall>f \<in> set fs. \<not> fPrimaryKey f \<longrightarrow> map_of m (fName f) \<noteq> None \<Longrightarrow>
     \<exists>x. bind_fields t m out p fs = Ok x"
proof (induction fs arbitrary: m out p)
  case (Cons f fs)
  show ?case
  proof (cases "fPrimaryKey f")
    case False
    with Cons.prems obtain a where a: "map_of m (fName f) = Some a" by auto
    have "\<forall>g \<in> set fs. \<not> fPrimaryKey g \<longrightarrow> map_of (gm_delete (fName f) m) (fName g) \<noteq> None"
    proof (intro ballI impI)
      fix g assume g: "g \<in> set fs" "\<not> fPrimaryKey g"
      then have "fName g \<noteq> fName f" using Cons.prems(1) by (metis distinct.simps(2) image_eqI list.set_map list.simps(9))
      with g Cons.prems(2) show "map_of (gm_delete (fName f) m) (fName g) \<noteq> None" by (simp add: gomap_simps)
    qed
    with Cons False a show ?thesis by simp
  qed (use Cons in simp)
qed simp

lemma Register_one:
  assumes "any_order it"
  shows "(wf_model m \<and> (\<exists>r. Register NewRegistry n [m] = (r, None) \<and> Models it r = [\<lparr>rModule = n, rModel = m\<rparr>])) \<or>
     (\<not> wf_model m \<and> (\<exists>r e. Register NewRegistry n [m] = (r, Some e)))"
proof (cases "validate m")
  case None
  let ?reg = "\<lparr>rModule = n, rModel = clone m\<rparr>"
  have "mset (it [(mTable m, ?reg)]) = {#(mTable m, ?reg)#}" using assms by (simp add: any_order_def)
  then have "it [(mTable m, ?reg)] = [(mTable m, ?reg)]"
    by (metis mset_single_iff_right mset.simps mset_zero_iff)
  moreover have "wf_model m" using None by (simp add: validate_None)
  ultimately show ?thesis by (simp add: None NewRegistry_def gm_set_def Models_def clone_def)
next
  case (Some e)
  then show ?thesis using validate_None[of m] by simp
qed

definition resource_ok :: "('t, 'w) resourceConfig \<Rightarrow> bool" where
  "resource_ok cfg \<longleftrightarrow> TrimSpace (rModule (rcModel cfg)) \<noteq> [] \<and> wf_model (rModel (rcModel cfg)) \<and>
     config_complete cfg \<and> list_all adapter_ok (rcFields cfg) \<and> distinct (map faName (rcFields cfg)) \<and>
     faName ` set (rcFields cfg) = fName ` set (plain_fields (rModel (rcModel cfg))) \<and>
     [kaName (rcKey cfg)] = map fName (filter fPrimaryKey (mFields (rModel (rcModel cfg))))"

lemma validatePersistence_None:
  "validatePersistence t p = None \<longleftrightarrow>
     psList p \<noteq> None \<and> psGet p \<noteq> None \<and> psCreate p \<noteq> None \<and> psUpdate p \<noteq> None \<and> psDelete p \<noteq> None"
  by (auto simp: validatePersistence_def)

lemma empty_order: "any_order it \<Longrightarrow> (it m = []) = (m = [])"
  by (metis any_order_def mset_zero_iff)

lemma map_of_all_None: "(\<forall>k. map_of m k = None) \<longleftrightarrow> m = []"
proof (cases m)
  case (Cons x xs)
  then have "map_of m (fst x) = Some (snd x)" by (cases x) simp
  with Cons show ?thesis by (metis list.distinct(1) option.distinct(1))
qed simp

lemma bind_adapters:
  fixes cfg :: "('t, 'w) resourceConfig"
  defines "fs \<equiv> mFields (rModel (rcModel cfg))"
  assumes wf: "wf_model (rModel (rcModel cfg))" and c: "collect_adapters t [] (rcFields cfg) = Ok m"
    and b: "bind_fields t m [] zero_field fs = Ok (bs, p, rest)"
  shows "map fbMetadata bs = plain_fields (rModel (rcModel cfg)) \<and> [p] = filter fPrimaryKey fs \<and>
     (\<forall>b \<in> set bs. \<exists>a \<in> set (rcFields cfg). binds b a) \<and>
     (rest = [] \<longleftrightarrow> faName ` set (rcFields cfg) = fName ` set (plain_fields (rModel (rcModel cfg))))"
proof -
  have d: "distinct (map fName fs)" and "length (filter fPrimaryKey fs) = 1" using wf by (auto simp: wf_model_def fs_def)
  then obtain q where q: "filter fPrimaryKey fs = [q]" by (auto simp: length_Suc_conv)
  from collect_adapters_Ok[OF _ c] have m: "list_all adapter_ok (rcFields cfg)" "distinct (map faName (rcFields cfg))"
    "map_of m = map_of (map (\<lambda>a. (faName a, a)) (rcFields cfg))" by auto
  have look: "map_of m k = Some a \<longleftrightarrow> a \<in> set (rcFields cfg) \<and> faName a = k" for k a
    unfolding m(3) using m(2) by (subst map_of_eq_Some_iff) (auto simp: comp_def)
  have lookN: "map_of m k = None \<longleftrightarrow> k \<notin> faName ` set (rcFields cfg)" for k
    unfolding m(3) by (simp add: map_of_eq_None_iff image_image)
  obtain bs' where bs': "bs = [] @ bs'" "map fbMetadata bs' = filter (\<lambda>f. \<not> fPrimaryKey f) fs"
    "\<forall>b \<in> set bs'. \<exists>a. map_of m (fName (fbMetadata b)) = Some a \<and> fbRead b = the (faRead a) \<and> fbWrite b = the (faWrite a)"
    "p = last (zero_field # filter fPrimaryKey fs)"
    "\<forall>k. map_of rest k = (if k \<in> fName ` set (filter (\<lambda>f. \<not> fPrimaryKey f) fs) then None else map_of m k)"
    using bind_fields_Ok[OF b d] by blast
  note bs = bs'(2,3)[folded bs'(1)[simplified]]
  have rest: "map_of rest k = (if k \<in> fName ` set (filter (\<lambda>f. \<not> fPrimaryKey f) fs) then None else map_of m k)" for k
    using bs'(5) by blast
  have p: "[p] = filter fPrimaryKey fs" using bs'(4) q by simp
  have sub: "fName ` set (filter (\<lambda>f. \<not> fPrimaryKey f) fs) \<subseteq> faName ` set (rcFields cfg)"
  proof
    fix k assume "k \<in> fName ` set (filter (\<lambda>f. \<not> fPrimaryKey f) fs)"
    moreover have "set (filter (\<lambda>f. \<not> fPrimaryKey f) fs) = fbMetadata ` set bs"
      using arg_cong[OF bs(1), of set] by simp
    ultimately obtain b where "b \<in> set bs" "k = fName (fbMetadata b)" by (auto simp del: set_filter)
    moreover from this(1) bs(2) obtain a where "map_of m (fName (fbMetadata b)) = Some a" by blast
    ultimately show "k \<in> faName ` set (rcFields cfg)" using look by (intro image_eqI[of _ _ a]) simp_all
  qed
  have "rest = [] \<longleftrightarrow> (\<forall>k. map_of rest k = None)"
    by (simp add: map_of_all_None)
  also have "\<dots> \<longleftrightarrow> faName ` set (rcFields cfg) \<subseteq> fName ` set (filter (\<lambda>f. \<not> fPrimaryKey f) fs)"
    unfolding rest by (auto simp: lookN simp del: set_filter)
  finally have "rest = [] \<longleftrightarrow> faName ` set (rcFields cfg) = fName ` set (filter (\<lambda>f. \<not> fPrimaryKey f) fs)"
    using sub by auto
  moreover have "\<exists>a \<in> set (rcFields cfg). binds b a" if "b \<in> set bs" for b
  proof -
    from bs(2) that obtain a where a: "map_of m (fName (fbMetadata b)) = Some a"
      "fbRead b = the (faRead a)" "fbWrite b = the (faWrite a)" by blast
    then have "a \<in> set (rcFields cfg)" "faName a = fName (fbMetadata b)" using look by simp_all
    moreover then have "adapter_ok a" using m(1) by (simp add: list_all_iff)
    ultimately show ?thesis using a by (intro bexI[of _ a]) (auto simp: binds_def adapter_ok_def)
  qed
  ultimately show ?thesis using bs(1) p by (simp add: plain_fields_def fs_def)
qed

lemma newResource_registered:
  assumes it: "any_order it" and n: "TrimSpace (rModule (rcModel cfg)) \<noteq> []" and wf: "wf_model (rModel (rcModel cfg))"
    and c: "config_complete cfg"
  shows "newResource it ita cfg = (case collect_adapters (rTable (rcModel cfg)) [] (rcFields cfg) of
      Err e \<Rightarrow> Err e
    | Ok adapters \<Rightarrow>
        (case bind_fields (rTable (rcModel cfg)) adapters [] zero_field (mFields (rModel (rcModel cfg))) of
           Err e \<Rightarrow> Err e
         | Ok (bindings, primary, rest) \<Rightarrow>
             if kaName (rcKey cfg) \<noteq> fName primary
             then Err (KeyMismatch (rTable (rcModel cfg)) (kaName (rcKey cfg)) (fName primary))
             else case ita rest of
                    (extra, _) # _ \<Rightarrow> Err (ExtraAdapter (rTable (rcModel cfg)) extra)
                  | [] \<Rightarrow> Ok \<lparr>rsModel = rcModel cfg, rsNewRecord = the (rcNewRecord cfg),
                      rsKeyRead = the (kaRead (rcKey cfg)), rsFields = bindings,
                      rsList = the (psList (rcPersistence cfg)), rsGet = the (psGet (rcPersistence cfg)),
                      rsCreate = the (psCreate (rcPersistence cfg)), rsUpdate = the (psUpdate (rcPersistence cfg)),
                      rsDelete = the (psDelete (rcPersistence cfg)), rsAuthorize = the (rcAuthorize cfg),
                      rsCSRF = the (rcCSRF cfg)\<rparr>))"
proof -
  obtain r where r: "Register NewRegistry (rModule (rcModel cfg)) [rModel (rcModel cfg)] = (r, None)"
    "Models it r = [rcModel cfg]"
    using Register_one[OF it, of "rModel (rcModel cfg)" "rModule (rcModel cfg)"] wf by auto
  have p: "validatePersistence t (rcPersistence cfg) = None" for t
    using c by (simp add: validatePersistence_None config_complete_def)
  obtain a b d e where "rcNewRecord cfg = Some a" "kaRead (rcKey cfg) = Some b" "rcAuthorize cfg = Some d" "rcCSRF cfg = Some e"
    using c by (auto simp: config_complete_def)
  with r p n show ?thesis by (simp add: newResource_def Let_def del: Register.simps split: sum.split prod.split list.split)
qed

lemma newResource_incomplete:
  assumes it: "any_order it" and r: "newResource it ita cfg = Ok r"
  shows "TrimSpace (rModule (rcModel cfg)) \<noteq> [] \<and> wf_model (rModel (rcModel cfg)) \<and> config_complete cfg"
proof -
  from r have n: "TrimSpace (rModule (rcModel cfg)) \<noteq> []" by (auto simp: newResource_def)
  have wf: "wf_model (rModel (rcModel cfg))"
  proof (rule ccontr)
    assume "\<not> wf_model (rModel (rcModel cfg))"
    then obtain x e where "Register NewRegistry (rModule (rcModel cfg)) [rModel (rcModel cfg)] = (x, Some e)"
      using Register_one[OF it] by blast
    with r n show False by (simp add: newResource_def del: Register.simps)
  qed
  then obtain x where "Register NewRegistry (rModule (rcModel cfg)) [rModel (rcModel cfg)] = (x, None)"
    using Register_one[OF it] by blast
  with r n have "rcNewRecord cfg \<noteq> None \<and> kaRead (rcKey cfg) \<noteq> None \<and> rcAuthorize cfg \<noteq> None \<and> rcCSRF cfg \<noteq> None \<and>
      validatePersistence (rTable (hd (Models it x))) (rcPersistence cfg) = None"
    by (simp add: newResource_def Let_def del: Register.simps split: option.splits)
  then show ?thesis using n wf by (auto simp: config_complete_def validatePersistence_None)
qed

section \<open>Operations\<close>

lemma gm_set_nonempty: "gm_set k v m \<noteq> []"
  by (cases m) (auto simp: gm_set_def)

lemma bind_loop_valid:
  "bind_loop bs input (v, f) = (v', f') \<Longrightarrow> fmErrors f' = [] \<Longrightarrow>
     fmErrors f = [] \<and>
     (\<forall>b \<in> set bs. 0 < fMaxLen (fbMetadata b) \<longrightarrow>
        int (RuneCountInString (values_get input (fName (fbMetadata b)))) \<le> fMaxLen (fbMetadata b))"
proof (induction bs arbitrary: v f)
  case (Cons b bs)
  let ?raw = "values_get input (fName (fbMetadata b))"
  let ?f = "f\<lparr>fmFields := fmFields f @ [\<lparr>ffName = fName (fbMetadata b), ffValue = ?raw\<rparr>]\<rparr>"
  show ?case
  proof (cases "0 < fMaxLen (fbMetadata b) \<and> fMaxLen (fbMetadata b) < int (RuneCountInString ?raw)")
    case True
    with Cons.prems have "bind_loop bs input
      (v, ?f\<lparr>fmErrors := gm_set (fName (fbMetadata b)) (too_long (fMaxLen (fbMetadata b))) (fmErrors f)\<rparr>) = (v', f')"
      by (simp add: Let_def)
    from Cons.IH[OF this Cons.prems(2)] show ?thesis by (simp add: gm_set_nonempty)
  next
    case False
    obtain w e where w: "fbWrite b v ?raw = (w, e)" by fastforce
    show ?thesis
    proof (cases e)
      case None
      with Cons.prems w False have "bind_loop bs input (w, ?f) = (v', f')" by (simp add: Let_def split: if_splits)
      from Cons.IH[OF this Cons.prems(2)] False show ?thesis by auto
    next
      case (Some x)
      with Cons.prems w False have "bind_loop bs input
        (w, ?f\<lparr>fmErrors := gm_set (fName (fbMetadata b)) x (fmErrors f)\<rparr>) = (v', f')"
        by (simp add: Let_def split: if_splits)
      from Cons.IH[OF this Cons.prems(2)] show ?thesis by (simp add: gm_set_nonempty)
    qed
  qed
qed simp

datatype admin_op =
    OpCreate string "(string, string list) gomap"
  | OpUpdate string string "(string, string list) gomap"
  | OpDelete string string

text \<open>The unsafe operations alike: the callbacks made and the error.\<close>

fun run_admin :: "('t, 'w) resource \<Rightarrow> admin_op \<Rightarrow> 'w \<Rightarrow> 'w \<times> 't admin_call list \<times> admin_err option" where
  "run_admin r (OpCreate token input) w =
     (case admin_create r token input w of (w, calls, _, _, e) \<Rightarrow> (w, calls, e))"
| "run_admin r (OpUpdate key token input) w =
     (case admin_update r key token input w of (w, calls, _, _, e) \<Rightarrow> (w, calls, e))"
| "run_admin r (OpDelete key token) w = admin_delete r key token w"

fun op_token :: "admin_op \<Rightarrow> string" where
  "op_token (OpCreate token _) = token"
| "op_token (OpUpdate _ token _) = token"
| "op_token (OpDelete _ token) = token"

fun op_key :: "admin_op \<Rightarrow> string" where
  "op_key (OpCreate _ _) = []"
| "op_key (OpUpdate key _ _) = key"
| "op_key (OpDelete key _) = key"

fun op_action :: "admin_op \<Rightarrow> action" where
  "op_action (OpCreate _ _) = CreateAction"
| "op_action (OpUpdate _ _ _) = UpdateAction"
| "op_action (OpDelete _ _) = DeleteAction"

fun op_input :: "admin_op \<Rightarrow> (string, string list) gomap" where
  "op_input (OpCreate _ input) = input"
| "op_input (OpUpdate _ _ input) = input"
| "op_input (OpDelete _ _) = []"

fun written :: "'t admin_call \<Rightarrow> 't option" where
  "written (CallCreate v) = Some v"
| "written (CallUpdate _ v) = Some v"
| "written _ = None"

definition is_guard :: "'t admin_call \<Rightarrow> bool" where
  "is_guard c \<longleftrightarrow> (\<exists>token. c = CallCSRF token) \<or> (\<exists>a t. c = CallAuthorize a t)"

text \<open>Both guards accepted, in this order, and the authorizer was asked about exactly this operation.\<close>

definition admitted :: "('t, 'w) resource \<Rightarrow> admin_op \<Rightarrow> 'w \<Rightarrow> 'w \<Rightarrow> bool" where
  "admitted r x w w2 \<longleftrightarrow> (\<exists>w1. rsCSRF r (op_token x) w = (w1, Ok ()) \<and>
     rsAuthorize r (op_action x) (target_of r (op_key x)) w1 = (w2, Ok ()))"

definition guards :: "('t, 'w) resource \<Rightarrow> admin_op \<Rightarrow> 't admin_call list" where
  "guards r x = [CallCSRF (op_token x), CallAuthorize (op_action x) (target_of r (op_key x))]"

text \<open>A form is within the lengths of the metadata.\<close>

definition within_lengths :: "('t, 'w) resource \<Rightarrow> (string, string list) gomap \<Rightarrow> bool" where
  "within_lengths r input \<longleftrightarrow> (\<forall>b \<in> set (rsFields r). 0 < fMaxLen (fbMetadata b) \<longrightarrow>
     int (RuneCountInString (values_get input (fName (fbMetadata b)))) \<le> fMaxLen (fbMetadata b))"

lemma bind_valid: "bind r v input = (v', f) \<Longrightarrow> form_valid f \<Longrightarrow> within_lengths r input"
  using bind_loop_valid[of "rsFields r" input v "\<lparr>fmFields = [], fmErrors = []\<rparr>" v' f]
  by (auto simp: bind_def form_valid_def within_lengths_def)

lemma guardWrite_cases:
  assumes "guardWrite r (op_action x) (op_key x) (op_token x) w = (w', calls, e)"
  shows "(e = None \<and> admitted r x w w' \<and> calls = guards r x) \<or>
     (e \<noteq> None \<and> (calls = [CallCSRF (op_token x)] \<or> calls = guards r x))"
  using assms unfolding guardWrite_def authorizeAction_def admitted_def guards_def
  by (auto split: prod.splits sum.splits)

lemma newResource_Ok:
  assumes it: "any_order it" and ita: "any_order ita" and ok: "newResource it ita cfg = Ok r"
  shows "resource_ok cfg \<and> map fbMetadata (rsFields r) = plain_fields (rModel (rcModel cfg)) \<and>
     (\<forall>b \<in> set (rsFields r). \<exists>a \<in> set (rcFields cfg). binds b a) \<and> rsModel r = rcModel cfg"
proof -
  note n = newResource_incomplete[OF it ok]
  from ok newResource_registered[OF it, of cfg ita] n obtain m bs p rest where
    m: "collect_adapters (rTable (rcModel cfg)) [] (rcFields cfg) = Ok m"
    and b: "bind_fields (rTable (rcModel cfg)) m [] zero_field (mFields (rModel (rcModel cfg))) = Ok (bs, p, rest)"
    and r: "kaName (rcKey cfg) = fName p" "ita rest = []" "rsFields r = bs" "rsModel r = rcModel cfg"
    by (auto split: sum.splits prod.splits list.splits if_splits)
  from bind_adapters[OF _ m b] n have B: "map fbMetadata bs = plain_fields (rModel (rcModel cfg))"
    "[p] = filter fPrimaryKey (mFields (rModel (rcModel cfg)))" "\<forall>b \<in> set bs. \<exists>a \<in> set (rcFields cfg). binds b a"
    "rest = [] \<longleftrightarrow> faName ` set (rcFields cfg) = fName ` set (plain_fields (rModel (rcModel cfg)))" by auto
  have "rest = []" using r(2) empty_order[OF ita] by simp
  moreover have "list_all adapter_ok (rcFields cfg)" "distinct (map faName (rcFields cfg))"
    using collect_adapters_Ok[OF _ m] by auto
  ultimately show ?thesis using n B r by (simp add: resource_ok_def B(2)[symmetric])
qed

lemma newResource_complete:
  assumes it: "any_order it" and ita: "any_order ita" and ok: "resource_ok cfg"
  shows "\<exists>r. newResource it ita cfg = Ok r"
proof -
  let ?fs = "mFields (rModel (rcModel cfg))"
  from ok have a: "list_all adapter_ok (rcFields cfg)" "distinct (map faName (rcFields cfg))"
    "faName ` set (rcFields cfg) = fName ` set (plain_fields (rModel (rcModel cfg)))"
    and wf: "wf_model (rModel (rcModel cfg))" and k: "[kaName (rcKey cfg)] = map fName (filter fPrimaryKey ?fs)"
    by (auto simp: resource_ok_def)
  obtain m where m: "collect_adapters (rTable (rcModel cfg)) [] (rcFields cfg) = Ok m"
    using collect_adapters_complete[OF _ a(1,2), of "[]"] by auto
  from collect_adapters_Ok[OF _ m] have "map_of m = map_of (map (\<lambda>a. (faName a, a)) (rcFields cfg))" by auto
  then have "map_of m (fName f) \<noteq> None" if "f \<in> set ?fs" "\<not> fPrimaryKey f" for f
  proof -
    from that a(3) have "fName f \<in> faName ` set (rcFields cfg)" by (auto simp: plain_fields_def)
    with \<open>map_of m = _\<close> show ?thesis by (simp add: map_of_eq_None_iff image_image)
  qed
  with bind_fields_complete[of ?fs m] wf obtain bs p rest where
    b: "bind_fields (rTable (rcModel cfg)) m [] zero_field ?fs = Ok (bs, p, rest)"
    by (fastforce simp: wf_model_def)
  from bind_adapters[OF wf m b] a(3) have B: "[p] = filter fPrimaryKey ?fs" "rest = []" by auto
  then have "kaName (rcKey cfg) = fName p" using k by (simp add: B(1)[symmetric])
  with newResource_registered[OF it _ wf, of ita] ok m b B(2) empty_order[OF ita, of "[]"] show ?thesis
    by (simp add: resource_ok_def)
qed

lemma run_admin_refused:
  assumes "run_admin r x w = (w', calls, e)" and "\<nexists>w2. admitted r x w w2"
  shows "e \<noteq> None \<and> (calls = [CallCSRF (op_token x)] \<or> calls = guards r x)"
proof -
  obtain w1 c1 e1 where g: "guardWrite r (op_action x) (op_key x) (op_token x) w = (w1, c1, e1)"
    by (metis prod_cases3)
  from guardWrite_cases[OF g] assms(2) have "e1 \<noteq> None" "c1 = [CallCSRF (op_token x)] \<or> c1 = guards r x" by auto
  with g assms(1) show ?thesis
    by (cases x) (auto simp: admin_create_def admin_update_def admin_delete_def split: option.splits)
qed

lemma run_admin_admitted:
  assumes "run_admin r x w = (w', calls, e)" and "admitted r x w w2"
  obtains rest where "calls = guards r x @ rest" "\<not> list_ex is_guard rest"
    "length (filter (\<lambda>c. written c \<noteq> None) rest) \<le> 1"
    "\<And>c v. c \<in> set rest \<Longrightarrow> written c = Some v \<Longrightarrow>
       within_lengths r (op_input x) \<and> (\<exists>base f. bind r base (op_input x) = (v, f) \<and> form_valid f)"
proof -
  have g: "guardWrite r (op_action x) (op_key x) (op_token x) w = (w2, guards r x, None)"
    using assms(2) by (auto simp: admitted_def guardWrite_def authorizeAction_def guards_def)
  show thesis
  proof (cases x)
    case (OpCreate token input)
    obtain w3 new where n: "rsNewRecord r w2 = (w3, new)" by fastforce
    obtain v f where b: "bind r new input = (v, f)" by fastforce
    obtain w4 res where c: "rsCreate r v w3 = (w4, res)" by fastforce
    have "calls = guards r x @ (if form_valid f then [CallCreate v] else [])"
      using assms(1) g n b c OpCreate by (auto simp: admin_create_def split: sum.splits if_splits)
    with b bind_valid[OF b] OpCreate show thesis
      by (intro that[of "if form_valid f then [CallCreate v] else []"]) (auto simp: is_guard_def split: if_splits)
  next
    case (OpUpdate key token input)
    obtain w3 cur where n: "rsGet r key w2 = (w3, cur)" by fastforce
    show thesis
    proof (cases cur)
      case (Inl m)
      then have "calls = guards r x @ [CallGet key]" using assms(1) g n OpUpdate by (simp add: admin_update_def)
      then show thesis by (intro that[of "[CallGet key]"]) (auto simp: is_guard_def)
    next
      case (Inr old)
      obtain v f where b: "bind r old input = (v, f)" by fastforce
      obtain w4 res where c: "rsUpdate r key v w3 = (w4, res)" by fastforce
      have "calls = guards r x @ (if form_valid f then [CallGet key, CallUpdate key v] else [CallGet key])"
        using assms(1) g n b c Inr OpUpdate by (auto simp: admin_update_def split: sum.splits if_splits)
      with b bind_valid[OF b] OpUpdate show thesis
        by (intro that[of "if form_valid f then [CallGet key, CallUpdate key v] else [CallGet key]"])
          (auto simp: is_guard_def intro!: exI[of _ old] exI[of _ f] split: if_splits)
    qed
  next
    case (OpDelete key token)
    then have "calls = guards r x @ [CallDelete key]"
      using assms(1) g by (auto simp: admin_delete_def split: sum.splits prod.splits)
    then show thesis by (intro that[of "[CallDelete key]"]) (auto simp: is_guard_def)
  qed
qed

section \<open>Properties\<close>

definition ex_items :: model where
  "ex_items = \<lparr>mTable = ''items'', mFields =
     [\<lparr>fName = ''id'', fType = TypeString, fMaxLen = 0, fNullable = False, fPrimaryKey = True, fUnique = False, fIndex = False\<rparr>,
      \<lparr>fName = ''name'', fType = TypeString, fMaxLen = 3, fNullable = False, fPrimaryKey = False, fUnique = False, fIndex = False\<rparr>]\<rparr>"

definition ex_config :: "(string \<times> string, (string \<times> string) list) resourceConfig" where
  "ex_config = \<lparr>rcModel = \<lparr>rModule = ''shop'', rModel = ex_items\<rparr>, rcNewRecord = Some (\<lambda>w. (w, (''1'', []))),
     rcKey = \<lparr>kaName = ''id'', kaRead = Some fst\<rparr>,
     rcFields = [\<lparr>faName = ''name'', faRead = Some snd, faWrite = Some (\<lambda>t v. ((fst t, v), None))\<rparr>],
     rcPersistence = \<lparr>psList = Some (\<lambda>w. (w, Ok w)), psGet = Some (\<lambda>k w. (w, Err ''none'')),
       psCreate = Some (\<lambda>t w. (t # w, Ok t)), psUpdate = Some (\<lambda>k t w. (w, Ok t)), psDelete = Some (\<lambda>k w. ([], Ok ()))\<rparr>,
     rcAuthorize = Some (\<lambda>a t w. (w, Ok ())), rcCSRF = Some (\<lambda>token w. (w, if token = ''t'' then Ok () else Err ''bad''))\<rparr>"

definition ex_resource :: "(string \<times> string, (string \<times> string) list) resource" where
  "ex_resource = \<lparr>rsModel = rcModel ex_config, rsNewRecord = (\<lambda>w. (w, (''1'', []))), rsKeyRead = fst,
     rsFields = [\<lparr>fbMetadata = mFields ex_items ! 1, fbRead = snd, fbWrite = (\<lambda>t v. ((fst t, v), None))\<rparr>],
     rsList = (\<lambda>w. (w, Ok w)), rsGet = (\<lambda>k w. (w, Err ''none'')), rsCreate = (\<lambda>t w. (t # w, Ok t)),
     rsUpdate = (\<lambda>k t w. (w, Ok t)), rsDelete = (\<lambda>k w. ([], Ok ())), rsAuthorize = (\<lambda>a t w. (w, Ok ())),
     rsCSRF = (\<lambda>token w. (w, if token = ''t'' then Ok () else Err ''bad''))\<rparr>"

text \<open>\<open>newResource\<close> accepts a configuration exactly when it names an owning module, its metadata is valid,
  every callback is there, its field adapters are complete and of distinct names, these are
  exactly the names of the fields beside the primary key, and the key adapter names the primary key. The
  resource then has one binding per such field, in the order of the metadata, to the adapter of that name.\<close>

theorem newResource_binds_every_field:
  assumes "any_order it" and "any_order ita"
  shows "((\<exists>r. newResource it ita cfg = Ok r) \<longleftrightarrow> resource_ok cfg) \<and>
     (\<forall>r. newResource it ita cfg = Ok r \<longrightarrow>
        map fbMetadata (rsFields r) = plain_fields (rModel (rcModel cfg)) \<and>
        (\<forall>b \<in> set (rsFields r). \<exists>a \<in> set (rcFields cfg). binds b a))"
  using newResource_Ok[OF assms] newResource_complete[OF assms] by blast

theorem newResource_binds_every_field_witness:
  "\<exists>r. newResource (\<lambda>m. m) (\<lambda>m. m) ex_config = Ok r \<and> map (fName \<circ> fbMetadata) (rsFields r) = [''name'']"
proof -
  have "any_order (\<lambda>m. m)" for m :: "(string, 'a) gomap" by (simp add: any_order_def)
  note T = newResource_binds_every_field[OF this this, of ex_config]
  have wf: "validate ex_items = None" by code_simp
  have "resource_ok ex_config"
    using wf by (auto simp: validate_None resource_ok_def ex_config_def config_complete_def adapter_ok_def plain_fields_def
      ex_items_def) (code_simp | simp)+
  with T obtain r where r: "newResource (\<lambda>m. m) (\<lambda>m. m) ex_config = Ok r"
    "map fbMetadata (rsFields r) = plain_fields ex_items" by (auto simp: ex_config_def)
  then have "map fName (map fbMetadata (rsFields r)) = [''name'']" by (simp add: plain_fields_def ex_items_def)
  with r(1) show ?thesis by auto
qed



end
