(* ===== verification/Mail.thy ===== *)
theory Mail
  imports Go_Utf8
begin

text \<open>
  The package \<open>mail\<close> (mail/mail.go): validation of a message and the bounded inbox \<open>Capture\<close>.

  A method of \<open>Capture\<close> holds the mutex while it works, so each is one step. \<open>Send\<close> looks at its context
  before and after it takes the mutex; \<open>ctx\<close> arguments say what \<open>ctx.Err()\<close> is there. \<open>ParseAddress\<close>
  (net/mail) is a parameter that returns the display name and the address.

  Lemmas: along any sequence of calls the inbox is a queue: what was accepted comes out once, in order, never
  more than the capacity is held, and nothing accepted is dropped.
\<close>

record mailMessage =
  mmTo :: string
  mmSubject :: string
  mmText :: string

datatype mail_err =
    MailCtx string
  | InvalidRecipient
  | NotBareAddress
  | InvalidSubject
  | InvalidText
  | MailFull
  | BadCapacity

record capture =
  cpCapacity :: int
  cpMessages :: "mailMessage list"

definition NewCapture :: "int \<Rightarrow> (mail_err, capture) result" where
  "NewCapture n = (if n \<le> 0 then Err BadCapacity else Ok \<lparr>cpCapacity = n, cpMessages = []\<rparr>)"

definition mail_validate :: "(string \<Rightarrow> (string \<times> string) option) \<Rightarrow> mailMessage \<Rightarrow> mail_err option" where
  "mail_validate ParseAddress m =
     (if mmTo m = [] \<or> length (mmTo m) > 254 \<or> has_control (mmTo m) \<or> \<not> ValidString (mmTo m)
      then Some InvalidRecipient
      else if \<not> (case ParseAddress (mmTo m) of None \<Rightarrow> False | Some (name, address) \<Rightarrow> name = [] \<and> address = mmTo m)
      then Some NotBareAddress
      else if TrimSpace (mmSubject m) = [] \<or> length (mmSubject m) > 998 \<or> has_control (mmSubject m) \<or>
              \<not> ValidString (mmSubject m)
      then Some InvalidSubject
      else if mmText m = [] \<or> length (mmText m) > 2 ^ 20 \<or> \<not> ValidString (mmText m) \<or> CHR 0x00 \<in> set (mmText m)
      then Some InvalidText
      else None)"

definition Send ::
    "(string \<Rightarrow> (string \<times> string) option) \<Rightarrow> string option \<Rightarrow> string option \<Rightarrow> mailMessage \<Rightarrow> capture \<Rightarrow>
     capture \<times> mail_err option" where
  "Send ParseAddress ctx ctx' m c =
     (case ctx of
        Some e \<Rightarrow> (c, Some (MailCtx e))
      | None \<Rightarrow>
          (case mail_validate ParseAddress m of
             Some e \<Rightarrow> (c, Some e)
           | None \<Rightarrow>
               (case ctx' of
                  Some e \<Rightarrow> (c, Some (MailCtx e))
                | None \<Rightarrow>
                    if int (length (cpMessages c)) \<ge> cpCapacity c then (c, Some MailFull)
                    else (c\<lparr>cpMessages := cpMessages c @
                           [\<lparr>mmTo = mmTo m, mmSubject = mmSubject m, mmText = mmText m\<rparr>]\<rparr>, None))))"

definition Messages :: "capture \<Rightarrow> mailMessage list" where
  "Messages c = cpMessages c"

definition Drain :: "capture \<Rightarrow> capture \<times> mailMessage list" where
  "Drain c = (c\<lparr>cpMessages := []\<rparr>, cpMessages c)"

text \<open>A message within every limit.\<close>

definition well_formed_mail :: "(string \<Rightarrow> (string \<times> string) option) \<Rightarrow> mailMessage \<Rightarrow> bool" where
  "well_formed_mail ParseAddress m \<longleftrightarrow>
     (mmTo m \<noteq> [] \<and> length (mmTo m) \<le> 254 \<and> \<not> has_control (mmTo m) \<and> ValidString (mmTo m) \<and>
      ParseAddress (mmTo m) = Some ([], mmTo m)) \<and>
     (TrimSpace (mmSubject m) \<noteq> [] \<and> length (mmSubject m) \<le> 998 \<and> \<not> has_control (mmSubject m) \<and>
      ValidString (mmSubject m)) \<and>
     (mmText m \<noteq> [] \<and> length (mmText m) \<le> 2 ^ 20 \<and> ValidString (mmText m) \<and> CHR 0x00 \<notin> set (mmText m))"

lemma if_Some_None: "(if a then Some x else r) = None \<longleftrightarrow> \<not> a \<and> r = None"
  by simp

lemma mail_validate_None: "mail_validate P m = None \<longleftrightarrow> well_formed_mail P m"
proof -
  have "(case P (mmTo m) of None \<Rightarrow> False | Some (name, address) \<Rightarrow> name = [] \<and> address = mmTo m) \<longleftrightarrow>
      P (mmTo m) = Some ([], mmTo m)"
    by (auto split: option.splits)
  then show ?thesis by (simp add: mail_validate_def well_formed_mail_def if_Some_None not_less conj_ac)
qed

section \<open>Histories\<close>

datatype mail_op =
    DoSend "string option" "string option" mailMessage
  | DoDrain

text \<open>What a history accepted and what it gave out.\<close>

fun mail_run ::
    "(string \<Rightarrow> (string \<times> string) option) \<Rightarrow> mail_op list \<Rightarrow> capture \<Rightarrow> capture \<times> mailMessage list \<times> mailMessage list" where
  "mail_run ParseAddress [] c = (c, [], [])"
| "mail_run ParseAddress (DoSend ctx ctx' m # ops) c =
     (case Send ParseAddress ctx ctx' m c of (c', e) \<Rightarrow>
      case mail_run ParseAddress ops c' of (c'', acc, out) \<Rightarrow> (c'', (if e = None then m # acc else acc), out))"
| "mail_run ParseAddress (DoDrain # ops) c =
     (case Drain c of (c', ms) \<Rightarrow>
      case mail_run ParseAddress ops c' of (c'', acc, out) \<Rightarrow> (c'', acc, ms @ out))"

lemma Send_cases:
  "Send P ctx ctx' m c = (c', e) \<Longrightarrow>
     (e = None \<and> well_formed_mail P m \<and> cpMessages c' = cpMessages c @ [m] \<and> cpCapacity c' = cpCapacity c \<and>
        int (length (cpMessages c)) < cpCapacity c) \<or> (e \<noteq> None \<and> c' = c)"
  by (cases ctx; cases "mail_validate P m"; cases ctx') (auto simp: Send_def mail_validate_None[symmetric] dest: sym split: if_splits)

lemma mail_run_queue:
  "mail_run P ops c = (c', acc, out) \<Longrightarrow> int (length (cpMessages c)) \<le> cpCapacity c \<Longrightarrow>
     out @ cpMessages c' = cpMessages c @ acc \<and> cpCapacity c' = cpCapacity c \<and>
     int (length (cpMessages c')) \<le> cpCapacity c' \<and> list_all (well_formed_mail P) acc"
proof (induction P ops c arbitrary: acc out rule: mail_run.induct)
  case (2 P ctx ctx' m ops c)
  obtain c1 e where s: "Send P ctx ctx' m c = (c1, e)" by fastforce
  obtain acc1 where r: "mail_run P ops c1 = (c', acc1, out)" "acc = (if e = None then m # acc1 else acc1)"
    using 2(2) s by (auto split: prod.splits)
  from Send_cases[OF s] show ?case
  proof
    assume "e = None \<and> well_formed_mail P m \<and> cpMessages c1 = cpMessages c @ [m] \<and> cpCapacity c1 = cpCapacity c \<and>
      int (length (cpMessages c)) < cpCapacity c"
    with "2.IH"[OF s[symmetric] r(1)] r(2) show ?thesis by simp
  next
    assume "e \<noteq> None \<and> c1 = c"
    with "2.IH"[OF s[symmetric] r(1)] r(2) 2(3) show ?thesis by simp
  qed
next
  case (3 P ops c)
  obtain out1 where "mail_run P ops (c\<lparr>cpMessages := []\<rparr>) = (c', acc, out1)" "out = cpMessages c @ out1"
    using 3(2) by (auto simp: Drain_def split: prod.splits)
  with "3.IH"[of "c\<lparr>cpMessages := []\<rparr>" "cpMessages c" acc out1] 3(3) show ?case by (simp add: Drain_def)
qed auto

text \<open>The capture inbox is a bounded queue that loses nothing. Along any sequence of sends and drains on a
  new inbox, what the drains returned followed by what is still held is exactly what was accepted, in order; never more
  than the capacity is held; and every accepted message has a bare address, a subject and a text within
  the documented limits.\<close>

theorem capture_is_bounded_queue:
  assumes "NewCapture n = Ok c" and "mail_run ParseAddress ops c = (c', accepted, drained)"
  shows "drained @ Messages c' = accepted \<and> int (length (Messages c')) \<le> n \<and>
     list_all (well_formed_mail ParseAddress) accepted"
proof -
  from assms(1) have c: "c = \<lparr>cpCapacity = n, cpMessages = []\<rparr>" "0 < n" by (auto simp: NewCapture_def split: if_splits)
  from mail_run_queue[OF assms(2)] c show ?thesis by (simp add: Messages_def)
qed

definition ex_mail :: mailMessage where
  "ex_mail = \<lparr>mmTo = ''a@b.c'', mmSubject = ''Code'', mmText = ''123456''\<rparr>"

theorem capture_is_bounded_queue_witness:
  "\<exists>c' acc out. mail_run (\<lambda>s. Some ([], s)) [DoSend None None ex_mail, DoSend None None ex_mail, DoDrain, DoSend None None ex_mail]
       \<lparr>cpCapacity = 1, cpMessages = []\<rparr> = (c', acc, out) \<and> out @ Messages c' = acc \<and> length acc = 2"
proof -
  let ?P = "\<lambda>s. Some ([], s)" and ?c = "\<lparr>cpCapacity = 1, cpMessages = []\<rparr>"
  have "list_all (\<lambda>c. 0x20 \<le> byte c \<and> byte c < 0x7F) s" if "s \<in> {''a@b.c'', ''Code'', ''123456''}" for s
    using that by auto
  then have "\<not> has_control s \<and> ValidString s" if "s \<in> {''a@b.c'', ''Code'', ''123456''}" for s
    using has_control_ascii[of s] ValidString_ascii[of s] that by (fastforce simp: list_all_iff)
  moreover have "TrimSpace ''Code'' \<noteq> []" by code_simp
  ultimately have v: "mail_validate ?P ex_mail = None"
    by (simp add: mail_validate_None well_formed_mail_def ex_mail_def)
  have e: "\<lparr>mmTo = mmTo ex_mail, mmSubject = mmSubject ex_mail, mmText = mmText ex_mail\<rparr> = ex_mail" by simp
  have r: "mail_run ?P [DoSend None None ex_mail, DoSend None None ex_mail, DoDrain, DoSend None None ex_mail] ?c =
      (\<lparr>cpCapacity = 1, cpMessages = [ex_mail]\<rparr>, [ex_mail, ex_mail], [ex_mail])"
    by (simp add: Send_def Drain_def v)
  have "NewCapture 1 = Ok ?c" by (simp add: NewCapture_def)
  from capture_is_bounded_queue[OF this r] r show ?thesis by auto
qed

end
