(* ===== verification/Auth_Pg_Correct.thy ===== *)
theory Auth_Pg_Correct
  imports Auth_Pg
begin

text \<open>
  What the identity store guarantees along any history of its calls, interleaved with an operator who
  invites, disables and enables: keys stay unique, an email keeps its one identity, nobody gets
  in without an invitation where one is required, and an invitation is used for one identity.
\<close>

definition pg_ok :: "pg \<Rightarrow> bool" where
  "pg_ok d \<longleftrightarrow> distinct (map irID (pgIdentities d)) \<and> distinct (map irEmail (pgIdentities d)) \<and>
     distinct (map ivEmail (pgInvitations d))"

definition ids_of :: "pg \<Rightarrow> (string \<times> string) list" where
  "ids_of d = map (\<lambda>r. (irEmail r, irID r)) (pgIdentities d)"

definition used :: "pg \<Rightarrow> string set" where
  "used d = {ivEmail r | r. r \<in> set (pgInvitations d) \<and> ivConsumed r \<noteq> None}"

definition open_invitation :: "string \<Rightarrow> pg \<Rightarrow> bool" where
  "open_invitation email d \<longleftrightarrow> (\<exists>r \<in> set (pgInvitations d). ivEmail r = email \<and> ivConsumed r = None)"

text \<open>A new identity: a row for an email that had none, under an unused id.\<close>

definition admits :: "bool \<Rightarrow> identityResolution \<Rightarrow> pg \<Rightarrow> pg \<Rightarrow> bool" where
  "admits req x d d' \<longleftrightarrow> riEmail x \<notin> fst ` set (ids_of d) \<and> riProposedID x \<notin> snd ` set (ids_of d) \<and>
     ids_of d' = ids_of d @ [(riEmail x, riProposedID x)] \<and> map ivEmail (pgInvitations d') = map ivEmail (pgInvitations d) \<and>
     (if req then open_invitation (riEmail x) d \<and> used d' = insert (riEmail x) (used d) else used d' = used d)"

lemma find_identity_None: "find_identity e d = None \<longleftrightarrow> e \<notin> fst ` set (ids_of d)"
  by (auto simp: find_identity_def ids_of_def find_None_iff image_iff)

lemma insert_identity_Some:
  "insert_identity st i d = Some d' \<Longrightarrow> idID i \<notin> snd ` set (ids_of d) \<and> idEmail i \<notin> fst ` set (ids_of d) \<and>
     ids_of d' = ids_of d @ [(idEmail i, idID i)] \<and> pgInvitations d' = pgInvitations d \<and>
     (\<exists>r \<in> set (pgIdentities d'). irID r = idID i \<and> irEmail r = idEmail i \<and> \<not> irDisabled r)"
  by (auto simp: insert_identity_def ids_of_def list_ex_iff split: if_splits)

lemma consume_invitation_used:
  "open_invitation e d \<Longrightarrow> used (consume_invitation st e t d) = insert e (used d) \<and>
     ids_of (consume_invitation st e t d) = ids_of d \<and> pgIdentities (consume_invitation st e t d) = pgIdentities d \<and>
     map ivEmail (pgInvitations (consume_invitation st e t d)) = map ivEmail (pgInvitations d)"
proof -
  assume o: "open_invitation e d"
  have "used (consume_invitation st e t d) = insert e (used d)"
  proof
    show "used (consume_invitation st e t d) \<subseteq> insert e (used d)"
      by (auto simp: used_def consume_invitation_def)
    show "insert e (used d) \<subseteq> used (consume_invitation st e t d)"
    proof
      fix y assume y: "y \<in> insert e (used d)"
      then obtain r where r: "r \<in> set (pgInvitations d)" "ivEmail r = y" "y = e \<or> ivConsumed r \<noteq> None"
        using o by (auto simp: open_invitation_def used_def)
      let ?r = "if ivEmail r = e then r\<lparr>ivConsumed := Some (st t)\<rparr> else r"
      have "?r \<in> set (pgInvitations (consume_invitation st e t d))" using r(1) by (auto simp: consume_invitation_def)
      moreover have "ivEmail ?r = y" "ivConsumed ?r \<noteq> None" using r by auto
      ultimately show "y \<in> used (consume_invitation st e t d)" unfolding used_def by blast
    qed
  qed
  then show ?thesis by (simp add: consume_invitation_def ids_of_def comp_def if_distrib cong: if_cong)
qed

lemma invitation_refusal_None: "invitation_refusal fault e d = None \<Longrightarrow> open_invitation e d"
  by (auto simp: invitation_refusal_def find_invitation_def open_invitation_def find_Some_iff split: option.splits if_splits)

text \<open>A call changes nothing or admits a new identity; and it fails unless the row of its email lets the caller in.\<close>

lemma ResolveVerified_step:
  assumes "ResolveVerified st req fault fate x d = (d', res)"
  shows "(d' = d \<or> admits req x d d') \<and>
     (\<forall>e. res = Err e \<longrightarrow> d' = d \<or> (\<exists>m. fate = CommitReplyLost m)) \<and>
     (\<forall>i. res = Ok i \<longrightarrow> idEmail i = riEmail x \<and>
        (\<exists>r \<in> set (pgIdentities d'). irEmail r = riEmail x \<and> irID r = idID i \<and> \<not> irDisabled r))"
proof (cases "riEmail x = [] \<or> riProposedID x = [] \<or> riVerifiedAt x = 0 \<or> fault 0 \<noteq> None \<or> fault 1 \<noteq> None \<or> fault 2 \<noteq> None")
  case True
  have "\<exists>e. (d', res) = (d, Err e)"
  proof (cases "riEmail x = [] \<or> riProposedID x = [] \<or> riVerifiedAt x = 0")
    case True
    with assms show ?thesis by (auto simp: ResolveVerified_def)
  next
    case False
    with True assms show ?thesis
      by (cases "fault 0"; cases "fault 1"; cases "fault 2") (auto simp add: ResolveVerified_def simp del: One_nat_def)
  qed
  then show ?thesis by auto
next
  case False
  then have f: "fault 0 = None" "fault 1 = None" "fault 2 = None" by auto
  show ?thesis
  proof (cases "find_identity (riEmail x) d")
    case (Some r)
    then have r: "r \<in> set (pgIdentities d)" "irEmail r = riEmail x" by (auto simp: find_identity_def find_Some_iff)
    from Some False f assms r show ?thesis
      by (auto simp: ResolveVerified_def tx_commit_def simp del: One_nat_def split: if_splits commit_fate.splits)
  next
    case None
    let ?i = "\<lparr>idID = riProposedID x, idEmail = riEmail x, idCreatedAt = riVerifiedAt x\<rparr>"
    show ?thesis
    proof (cases "(req \<and> invitation_refusal fault (riEmail x) d \<noteq> None) \<or> fault 4 \<noteq> None \<or> (req \<and> fault 5 \<noteq> None) \<or>
        insert_identity st ?i d = None")
      case True
      with None False f assms have "d' = d" "\<exists>e. res = Err e"
        by (cases "fault 4"; cases "fault 5"; cases req; auto simp: ResolveVerified_def Let_def simp del: One_nat_def split: option.splits)+
      then show ?thesis by auto
    next
      case go: False
      then obtain d1 where d1: "insert_identity st ?i d = Some d1" by auto
      define d2 where "d2 = (if req then consume_invitation st (riEmail x) (riVerifiedAt x) d1 else d1)"
      have res: "(d', res) = tx_commit fate d d2 ?i"
        using None False f assms go d1 by (cases req) (auto simp: ResolveVerified_def Let_def d2_def simp del: One_nat_def)
      from insert_identity_Some[OF d1] have ins: "ids_of d1 = ids_of d @ [(riEmail x, riProposedID x)]"
        "pgInvitations d1 = pgInvitations d" "riProposedID x \<notin> snd ` set (ids_of d)" "riEmail x \<notin> fst ` set (ids_of d)"
        "\<exists>r \<in> set (pgIdentities d1). irID r = riProposedID x \<and> irEmail r = riEmail x \<and> \<not> irDisabled r" by auto
      have same: "used d1 = used d" "open_invitation e d1 = open_invitation e d" for e
        using ins(2) by (simp_all add: used_def open_invitation_def)
      have o: "req \<Longrightarrow> open_invitation (riEmail x) d" using go invitation_refusal_None by blast
      have "admits req x d d2 \<and> pgIdentities d2 = pgIdentities d1"
        using ins(1-4) o same consume_invitation_used[of "riEmail x" d1 st "riVerifiedAt x"]
        by (cases req) (simp_all add: admits_def d2_def)
      with res ins(5) show ?thesis by (auto simp: tx_commit_def split: commit_fate.splits)
    qed
  qed
qed

section \<open>Histories\<close>

text \<open>The operator's statements: an invitation for an email that has none, and the disabled flag.\<close>

datatype pg_step =
    PgResolve "nat \<Rightarrow> string option" commit_fate identityResolution
  | PgInvite string
  | PgDisable string bool

definition pg_invite :: "string \<Rightarrow> pg \<Rightarrow> pg" where
  "pg_invite e d = (if find_invitation e d \<noteq> None then d
     else d\<lparr>pgInvitations := pgInvitations d @ [\<lparr>ivEmail = e, ivConsumed = None\<rparr>]\<rparr>)"

definition pg_disable :: "string \<Rightarrow> bool \<Rightarrow> pg \<Rightarrow> pg" where
  "pg_disable e b d =
     d\<lparr>pgIdentities := map (\<lambda>r. if irEmail r = e then r\<lparr>irDisabled := b\<rparr> else r) (pgIdentities d)\<rparr>"

text \<open>The tables at the end and what each call that succeeded returned.\<close>

fun pg_run :: "(gotime \<Rightarrow> gotime) \<Rightarrow> bool \<Rightarrow> pg_step list \<Rightarrow> pg \<Rightarrow> pg \<times> (string \<times> identity) list" where
  "pg_run st req [] d = (d, [])"
| "pg_run st req (PgResolve fault fate x # ss) d =
     (case ResolveVerified st req fault fate x d of (d, res) \<Rightarrow>
      case pg_run st req ss d of (d, outs) \<Rightarrow>
        (d, (case res of Ok i \<Rightarrow> [(riEmail x, i)] | Err _ \<Rightarrow> []) @ outs))"
| "pg_run st req (PgInvite e # ss) d = pg_run st req ss (pg_invite e d)"
| "pg_run st req (PgDisable e b # ss) d = pg_run st req ss (pg_disable e b d)"

lemma pg_ok_ids: "pg_ok d \<longleftrightarrow> distinct (map snd (ids_of d)) \<and> distinct (map fst (ids_of d)) \<and>
    distinct (map ivEmail (pgInvitations d))"
  by (simp add: pg_ok_def ids_of_def comp_def)

text \<open>What one step keeps: the keys, the identities so far, and where invitations are required their use.\<close>

definition pg_grows :: "bool \<Rightarrow> pg \<Rightarrow> pg \<Rightarrow> bool" where
  "pg_grows req d d' \<longleftrightarrow> (pg_ok d \<longrightarrow> pg_ok d') \<and> set (ids_of d) \<subseteq> set (ids_of d') \<and> used d \<subseteq> used d' \<and>
     (req \<longrightarrow> fst ` set (ids_of d') - fst ` set (ids_of d) \<subseteq> used d' - used d)"

lemma pg_grows_refl [simp]: "pg_grows req d d"
  by (simp add: pg_grows_def)

lemma pg_grows_trans: "pg_grows req d d' \<Longrightarrow> pg_grows req d' d'' \<Longrightarrow> pg_grows req d d''"
  unfolding pg_grows_def by blast

lemma open_not_used: "pg_ok d \<Longrightarrow> open_invitation e d \<Longrightarrow> e \<notin> used d"
  by (auto simp: pg_ok_def open_invitation_def used_def distinct_map inj_on_def)

lemma admits_grows: "admits req x d d' \<Longrightarrow> pg_ok d \<Longrightarrow> pg_grows req d d'"
  using open_not_used[of d "riEmail x"]
  by (cases req) (auto simp: admits_def pg_grows_def pg_ok_ids)

lemma ids_disable [simp]: "ids_of (pg_disable e b d) = ids_of d"
  by (simp add: ids_of_def pg_disable_def comp_def if_distrib cong: if_cong)

lemma disable_grows [simp]: "pg_grows req d (pg_disable e b d)"
  by (auto simp: pg_grows_def pg_ok_ids) (simp_all add: pg_disable_def used_def)

lemma invite_grows [simp]: "pg_grows req d (pg_invite e d)"
  by (auto simp: pg_grows_def pg_ok_ids pg_invite_def used_def ids_of_def find_invitation_def find_None_iff image_iff)

lemma pg_run_grows:
  "pg_run st req ss d = (d', outs) \<Longrightarrow> pg_ok d \<Longrightarrow>
     pg_grows req d d' \<and> (\<forall>(e, i) \<in> set outs. idEmail i = e \<and> (e, idID i) \<in> set (ids_of d'))"
proof (induction st req ss d arbitrary: outs rule: pg_run.induct)
  case (2 st req fault fate x ss d)
  obtain d1 res where s: "ResolveVerified st req fault fate x d = (d1, res)" by fastforce
  obtain outs1 where r: "pg_run st req ss d1 = (d', outs1)"
    "outs = (case res of Ok i \<Rightarrow> [(riEmail x, i)] | Err _ \<Rightarrow> []) @ outs1"
    using 2(2) s by (auto split: prod.splits)
  note S = ResolveVerified_step[OF s]
  have g: "pg_grows req d d1" using S admits_grows 2(3) by (auto intro: admits_grows)
  then have "pg_ok d1" using 2(3) by (simp add: pg_grows_def)
  from "2.IH"[OF s[symmetric] r(1) this] have ih: "pg_grows req d1 d'"
    "\<forall>(e, i) \<in> set outs1. idEmail i = e \<and> (e, idID i) \<in> set (ids_of d')" by auto
  have "idEmail i = riEmail x \<and> (riEmail x, idID i) \<in> set (ids_of d')" if "res = Ok i" for i
  proof -
    have "idEmail i = riEmail x \<and> (\<exists>r \<in> set (pgIdentities d1). irEmail r = riEmail x \<and> irID r = idID i \<and> \<not> irDisabled r)"
      using S that by simp
    then obtain r where "idEmail i = riEmail x" "r \<in> set (pgIdentities d1)" "irEmail r = riEmail x" "irID r = idID i"
      by blast
    moreover then have "(riEmail x, idID i) \<in> set (ids_of d1)" by (auto simp: ids_of_def intro!: rev_image_eqI)
    ultimately show ?thesis using ih(1) by (auto simp: pg_grows_def)
  qed
  with ih(2) r(2) pg_grows_trans[OF g ih(1)] show ?case by (auto split: sum.splits)
next
  case (3 st req e ss d)
  then have "pg_ok (pg_invite e d)" using invite_grows[of req d e] by (simp add: pg_grows_def)
  with 3 pg_grows_trans[OF invite_grows[of req d e]] show ?case by auto
next
  case (4 st req e b ss d)
  then have "pg_ok (pg_disable e b d)" using disable_grows[of req d e b] by (simp add: pg_grows_def)
  with 4 pg_grows_trans[OF disable_grows[of req d e b]] show ?case by auto
qed auto

section \<open>Properties\<close>

text \<open>C38: An email has one identity and keeps it. Along any history of calls of \<open>ResolveVerified\<close>, with failing
  statements, refused commits and lost replies, interleaved with an operator who invites and disables, the
  keys of the tables stay unique; two calls that succeed return the same id exactly when they were for the same
  email, and it is the id of the row of that email. Where invitations are required, every identity
  that came into being has used up an invitation that was open before.\<close>

theorem identities_are_stable:
  assumes "pg_ok d" and "pg_run store_time req steps d = (d', outs)"
  shows "pg_ok d' \<and> set (ids_of d) \<subseteq> set (ids_of d') \<and>
     (\<forall>(e, i) \<in> set outs. idEmail i = e \<and> (e, idID i) \<in> set (ids_of d')) \<and>
     (\<forall>(e, i) \<in> set outs. \<forall>(f, j) \<in> set outs. e = f \<longleftrightarrow> idID i = idID j) \<and>
     (req \<longrightarrow> fst ` set (ids_of d') - fst ` set (ids_of d) \<subseteq> used d' - used d)"
proof -
  from pg_run_grows[OF assms(2,1)] assms(1) have g: "pg_ok d'" "set (ids_of d) \<subseteq> set (ids_of d')"
    "req \<longrightarrow> fst ` set (ids_of d') - fst ` set (ids_of d) \<subseteq> used d' - used d"
    and row: "\<forall>(e, i) \<in> set outs. idEmail i = e \<and> (e, idID i) \<in> set (ids_of d')"
    by (simp_all add: pg_grows_def)
  have inj: "inj_on fst (set (ids_of d'))" "inj_on snd (set (ids_of d'))"
    using g(1) by (simp_all add: pg_ok_ids distinct_map)
  have "fst p = fst q \<longleftrightarrow> idID (snd p) = idID (snd q)" if "p \<in> set outs" "q \<in> set outs" for p q
  proof -
    have m: "(fst p, idID (snd p)) \<in> set (ids_of d')" "(fst q, idID (snd q)) \<in> set (ids_of d')"
      using row that by (simp_all add: split_beta)
    show ?thesis
    proof
      assume "fst p = fst q"
      then have "fst (fst p, idID (snd p)) = fst (fst q, idID (snd q))" by (simp only: fst_conv)
      from inj_onD[OF inj(1) this m] show "idID (snd p) = idID (snd q)" by (rule Pair_inject)
    next
      assume "idID (snd p) = idID (snd q)"
      then have "snd (fst p, idID (snd p)) = snd (fst q, idID (snd q))" by (simp only: snd_conv)
      from inj_onD[OF inj(2) this m] show "fst p = fst q" by (rule Pair_inject)
    qed
  qed
  then have same: "\<forall>(e, i) \<in> set outs. \<forall>(f, j) \<in> set outs. e = f \<longleftrightarrow> idID i = idID j" by (simp add: split_beta)
  from g(1) g(2) row same g(3) show ?thesis by (simp only: simp_thms)
qed

definition ex_pg_steps :: "pg_step list" where
  "ex_pg_steps =
     [PgInvite ''a'', PgResolve (\<lambda>_. None) (CommitReplyLost ''eof'') \<lparr>riEmail = ''a'', riProposedID = ''1'', riVerifiedAt = 5\<rparr>,
      PgResolve (\<lambda>_. None) CommitOK \<lparr>riEmail = ''a'', riProposedID = ''2'', riVerifiedAt = 6\<rparr>,
      PgResolve (\<lambda>_. None) CommitOK \<lparr>riEmail = ''b'', riProposedID = ''3'', riVerifiedAt = 7\<rparr>]"

theorem identities_are_stable_witness:
  "\<exists>d'. pg_run (\<lambda>t. t) True ex_pg_steps \<lparr>pgIdentities = [], pgInvitations = []\<rparr> =
     (d', [(''a'', \<lparr>idID = ''1'', idEmail = ''a'', idCreatedAt = 5\<rparr>)]) \<and> used d' = {''a''} \<and> ids_of d' = [(''a'', ''1'')]"
proof -
  let ?d = "\<lparr>pgIdentities = [\<lparr>irID = ''1'', irEmail = ''a'', irCreated = 5, irDisabled = False\<rparr>],
    pgInvitations = [\<lparr>ivEmail = ''a'', ivConsumed = Some 5\<rparr>]\<rparr>"
  have r: "pg_run (\<lambda>t. t) True ex_pg_steps \<lparr>pgIdentities = [], pgInvitations = []\<rparr> =
      (?d, [(''a'', \<lparr>idID = ''1'', idEmail = ''a'', idCreatedAt = 5\<rparr>)])" by code_simp
  have "pg_ok \<lparr>pgIdentities = [], pgInvitations = []\<rparr>" by (simp add: pg_ok_def)
  from identities_are_stable[OF this r] have "pg_ok ?d" "used ?d \<noteq> {}" by (auto simp: ids_of_def)
  moreover have "used ?d = {''a''}" "ids_of ?d = [(''a'', ''1'')]" by (auto simp: used_def ids_of_def)
  ultimately show ?thesis using r by blast
qed

end
