(* ===== verification/Scaffold.thy ===== *)
theory Scaffold
  imports Go_Utf8
begin

text \<open>
  The package \<open>scaffold\<close> (internal/scaffold/scaffold.go, internal/scaffold/module.go): a new project, and a new
  module in an existing project, wired into its main.go.

  A path is its cleaned form, rooted or not, as a list of elements: \<open>filepath.Join\<close> and \<open>filepath.Dir\<close> clean
  what they return, and cleaning twice changes nothing (\<open>path_of_Clean\<close>). A disk maps paths to directories and
  files; the working directory, the root and what lies above them exist. Links are not modelled: one path
  names one file. Any call of the operating system may fail, and a failed write may leave the file in part.
  \<open>text/template\<close> on the embedded templates is a parameter, and so is the Go parser: what the code reads
  of a syntax tree is the record \<open>go_file\<close>, its nodes in the order of \<open>ast.Inspect\<close>.
\<close>

section \<open>Paths\<close>

type_synonym path = "bool \<times> string list"

definition path_of :: "string \<Rightarrow> path" where
  "path_of s = (HasPrefix s ''/'', clean_parts (HasPrefix s ''/'') [] (Split (CHR ''/'') s))"

definition path_parent :: "path \<Rightarrow> path" where
  "path_parent p = (fst p, butlast (snd p))"

text \<open>\<open>filepath.Dir\<close> and \<open>filepath.Base\<close> of a text.\<close>

definition filepath_Dir :: "string \<Rightarrow> string" where
  "filepath_Dir s = filepath_Clean (rev (dropWhile (\<lambda>c. c \<noteq> CHR ''/'') (rev s)))"

definition filepath_Base :: "string \<Rightarrow> string" where
  "filepath_Base s =
     (if s = [] then ''.''
      else let t = rev (dropWhile (\<lambda>c. c = CHR ''/'') (rev s));
               b = rev (takeWhile (\<lambda>c. c \<noteq> CHR ''/'') (rev t))
           in if b = [] then ''/'' else b)"

section \<open>The disk\<close>

datatype node = Directory | File string

type_synonym disk = "(path, node) gomap"

datatype os_call = StatCall | ReadDirCall | ReadFileCall | MkdirCall | WriteCall

record osenv =
  osFails :: "os_call \<Rightarrow> path \<Rightarrow> string option"
  osPartial :: "path \<Rightarrow> string option"

datatype 'a os_result = Found 'a | NotFound | OSError string

definition is_dir :: "disk \<Rightarrow> path \<Rightarrow> bool" where
  "is_dir d p = (snd p = [] \<or> last (snd p) = ''..'' \<or> map_of d p = Some Directory)"

definition ancestors :: "path \<Rightarrow> path list" where
  "ancestors p = map (\<lambda>k. (fst p, take k (snd p))) [0..<length (snd p)]"

definition through_file :: "disk \<Rightarrow> path \<Rightarrow> bool" where
  "through_file d p = list_ex (\<lambda>a. case map_of d a of Some (File _) \<Rightarrow> True | _ \<Rightarrow> False) (ancestors p)"

definition disk_Stat :: "osenv \<Rightarrow> disk \<Rightarrow> path \<Rightarrow> unit os_result" where
  "disk_Stat env d p =
     (case osFails env StatCall p of
        Some e \<Rightarrow> OSError e
      | None \<Rightarrow>
          if through_file d p then OSError ''not a directory''
          else if is_dir d p \<or> map_of d p \<noteq> None then Found () else NotFound)"

definition children :: "disk \<Rightarrow> path \<Rightarrow> string list" where
  "children d p = sort (map (last \<circ> snd) (filter (\<lambda>q. snd q \<noteq> [] \<and> path_parent q = p) (map fst d)))"

definition disk_ReadDir :: "osenv \<Rightarrow> disk \<Rightarrow> path \<Rightarrow> string list os_result" where
  "disk_ReadDir env d p =
     (case osFails env ReadDirCall p of
        Some e \<Rightarrow> OSError e
      | None \<Rightarrow>
          if through_file d p then OSError ''not a directory''
          else if is_dir d p then Found (children d p)
          else if map_of d p \<noteq> None then OSError ''not a directory''
          else NotFound)"

definition disk_ReadFile :: "osenv \<Rightarrow> disk \<Rightarrow> path \<Rightarrow> string option" where
  "disk_ReadFile env d p =
     (if osFails env ReadFileCall p \<noteq> None then None
      else case map_of d p of Some (File s) \<Rightarrow> Some s | _ \<Rightarrow> None)"

fun mkdir_chain :: "osenv \<Rightarrow> path list \<Rightarrow> disk \<Rightarrow> disk \<times> string option" where
  "mkdir_chain env [] d = (d, None)"
| "mkdir_chain env (p # ps) d =
     (if is_dir d p then mkdir_chain env ps d
      else if map_of d p \<noteq> None then (d, Some ''not a directory'')
      else case osFails env MkdirCall p of
             Some e \<Rightarrow> (d, Some e)
           | None \<Rightarrow> mkdir_chain env ps (gm_set p Directory d))"

definition disk_MkdirAll :: "osenv \<Rightarrow> path \<Rightarrow> disk \<Rightarrow> disk \<times> string option" where
  "disk_MkdirAll env p d = mkdir_chain env (ancestors p @ [p]) d"

definition disk_WriteFile :: "osenv \<Rightarrow> path \<Rightarrow> string \<Rightarrow> disk \<Rightarrow> disk \<times> string option" where
  "disk_WriteFile env p s d =
     (if is_dir d p then (d, Some ''is a directory'')
      else if \<not> is_dir d (path_parent p) then (d, Some ''no such file or directory'')
      else case osFails env WriteCall p of
             Some e \<Rightarrow> (case osPartial env p of None \<Rightarrow> d | Some t \<Rightarrow> gm_set p (File t) d, Some e)
           | None \<Rightarrow> (gm_set p (File s) d, None))"

section \<open>A new project\<close>

datatype scaffold_err =
    NameEmpty
  | NotAName string
  | NameSeparator string
  | NameSpace string
  | ModuleSpace string
  | ModuleSlash string
  | ModuleEmptyElement string
  | ParentMissing string
  | ParentError string string
  | DirUnreadable string string
  | DirNotEmpty string string
  | MkdirFailed path string
  | RenderError string string
  | WriteFailed path string
  | PackageEmpty
  | PackageKeyword string
  | PackageInvalid string
  | NotAProject string
  | NoModuleLine string
  | PackageExists path
  | PackageStat path string
  | MainUnreadable path
  | MainUnparseable path
  | NoNewCall path string
  | NoImportBlock
  | WireBroken string path
  | WireLostCall string path

type_synonym renderer = "string \<Rightarrow> (string, string) gomap \<Rightarrow> (string, string) result"

definition goDirective :: string where
  "goDirective = ''1.25''"

definition scaffold_files :: "(string \<times> string) list" where
  "scaffold_files =
     [(''go.mod.tmpl'', ''go.mod''), (''main.go.tmpl'', ''main.go''),
      (''module.go.tmpl'', filepath_Join [''home'', ''home.go'']),
      (''module_test.go.tmpl'', filepath_Join [''home'', ''home_test.go'']),
      (''justfile.tmpl'', ''justfile''), (''gitignore.tmpl'', ''.gitignore''), (''README.md.tmpl'', ''README.md'')]"

definition contains_any :: "string \<Rightarrow> string \<Rightarrow> bool" where
  "contains_any s chars = list_ex (\<lambda>c. c \<in> set chars) s"

definition validName :: "string \<Rightarrow> scaffold_err option" where
  "validName name =
     (if TrimSpace name = [] then Some NameEmpty
      else if name = ''.'' \<or> name = ''..'' then Some (NotAName name)
      else if contains_any name [CHR ''/'', CHR 0x5C] then Some (NameSeparator name)
      else if contains_any name [CHR '' '', CHR 0x09] then Some (NameSpace name)
      else None)"

definition validModule :: "string \<Rightarrow> scaffold_err option" where
  "validModule module =
     (if contains_any module [CHR '' '', CHR 0x09] then Some (ModuleSpace module)
      else if HasPrefix module ''/'' \<or> HasSuffix module ''/'' then Some (ModuleSlash module)
      else if Contains module ''//'' then Some (ModuleEmptyElement module)
      else None)"

definition emptyOrAbsent :: "osenv \<Rightarrow> disk \<Rightarrow> string \<Rightarrow> scaffold_err option" where
  "emptyOrAbsent env d dir =
     (case (if filepath_Dir dir \<noteq> dir
            then (case disk_Stat env d (path_of (filepath_Dir dir)) of
                    NotFound \<Rightarrow> Some (ParentMissing (filepath_Dir dir))
                  | OSError e \<Rightarrow> Some (ParentError (filepath_Dir dir) e)
                  | Found _ \<Rightarrow> None)
            else None) of
        Some e \<Rightarrow> Some e
      | None \<Rightarrow>
          (case disk_ReadDir env d (path_of dir) of
             NotFound \<Rightarrow> None
           | OSError e \<Rightarrow> Some (DirUnreadable dir e)
           | Found [] \<Rightarrow> None
           | Found (n # _) \<Rightarrow> Some (DirNotEmpty dir n)))"

text \<open>
  \<open>strings.ToUpper(pkg[:1]) + pkg[1:]\<close>: a byte that is no ASCII letter is no valid text of its own, and
  upper-casing it gives the encoding of U+FFFD.
\<close>

definition title :: "string \<Rightarrow> string" where
  "title pkg =
     (case pkg of
        [] \<Rightarrow> []
      | c # cs \<Rightarrow> (if byte c < 0x80 then [ascii_upper c] else [CHR 0xEF, CHR 0xBF, CHR 0xBD]) @ cs)"

definition moduleData :: "string \<Rightarrow> string \<Rightarrow> string \<Rightarrow> string \<Rightarrow> (string, string) gomap" where
  "moduleData pkg modulePath app route =
     [(''Package'', pkg), (''Module'', modulePath), (''App'', app), (''Route'', route), (''Title'', title pkg)]"

record project =
  pjName :: string
  pjModule :: string
  pjDir :: string

text \<open>The loop over the files: directory, rendering, writing, up to the first failure.\<close>

fun write_project ::
    "osenv \<Rightarrow> renderer \<Rightarrow> string \<Rightarrow> (string, string) gomap \<Rightarrow> (string \<times> string) list \<Rightarrow> disk \<Rightarrow> disk \<times> scaffold_err option" where
  "write_project env render dir data [] d = (d, None)"
| "write_project env render dir data ((tmpl, file) # fs) d =
     (let out = path_of (filepath_Join [dir, file]) in
      case disk_MkdirAll env (path_parent out) d of
        (d, Some e) \<Rightarrow> (d, Some (MkdirFailed (path_parent out) e))
      | (d, None) \<Rightarrow>
          (case render tmpl data of
             Err e \<Rightarrow> (d, Some (RenderError tmpl e))
           | Ok rendered \<Rightarrow>
               (case disk_WriteFile env out rendered d of
                  (d, Some e) \<Rightarrow> (d, Some (WriteFailed out e))
                | (d, None) \<Rightarrow> write_project env render dir data fs d)))"

definition project_module :: "project \<Rightarrow> string" where
  "project_module p = (if pjModule p = [] then pjName p else pjModule p)"

definition project_dir :: "project \<Rightarrow> string" where
  "project_dir p = (if pjDir p = [] then pjName p else pjDir p)"

definition project_data :: "project \<Rightarrow> (string, string) gomap" where
  "project_data p =
     gm_set ''Go'' goDirective (gm_set ''Name'' (pjName p)
       (moduleData ''home'' (project_module p) (pjName p) ''/''))"

definition Project_Generate :: "osenv \<Rightarrow> renderer \<Rightarrow> project \<Rightarrow> disk \<Rightarrow> disk \<times> scaffold_err option" where
  "Project_Generate env render p d =
     (case validName (pjName p) of Some e \<Rightarrow> (d, Some e) | None \<Rightarrow>
      case validModule (project_module p) of Some e \<Rightarrow> (d, Some e) | None \<Rightarrow>
      case emptyOrAbsent env d (project_dir p) of Some e \<Rightarrow> (d, Some e) | None \<Rightarrow>
        write_project env render (project_dir p) (project_data p) scaffold_files d)"

section \<open>What the code reads of a syntax tree\<close>

record position =
  posLine :: nat
  posOffset :: nat

datatype selector_x = IdentX string | OtherX

datatype call_fun = SelectorExpr selector_x string | OtherFun

record call_expr =
  ceFun :: call_fun
  ceLparen :: position
  ceRparen :: position

datatype ast_node = CallNode call_expr | OtherNode

text \<open>\<open>isPath\<close> is the literal with its quotes.\<close>

record import_spec =
  isPath :: string
  isPos :: position
  isEnd :: position

datatype decl =
    ImportDecl "import_spec option list" position
  | OtherDecl

record go_file =
  gfNodes :: "ast_node list"
  gfDecls :: "decl list"

datatype parse_mode = ParseComments | AllErrors

type_synonym go_parser = "parse_mode \<Rightarrow> string \<Rightarrow> go_file option"

section \<open>Wiring a module into main.go\<close>

record edit =
  edAt :: nat
  edText :: string

definition splice :: "string \<Rightarrow> edit \<Rightarrow> string" where
  "splice src e = take (edAt e) src @ edText e @ drop (edAt e) src"

definition is_new_call :: "call_expr \<Rightarrow> bool" where
  "is_new_call c =
     (case ceFun c of SelectorExpr (IdentX pkg) sel \<Rightarrow> sel = ''New'' \<and> pkg = ''fabrin'' | _ \<Rightarrow> False)"

fun find_new :: "ast_node list \<Rightarrow> call_expr option" where
  "find_new [] = None"
| "find_new (CallNode c # ns) = (if is_new_call c then Some c else find_new ns)"
| "find_new (OtherNode # ns) = find_new ns"

definition findNewCall :: "go_file \<Rightarrow> call_expr option" where
  "findNewCall f = find_new (gfNodes f)"

definition startOfLine :: "string \<Rightarrow> nat \<Rightarrow> nat" where
  "startOfLine src offset = length (dropWhile (\<lambda>c. c \<noteq> CHR 0x0A) (rev (take offset src)))"

definition endOfLine :: "string \<Rightarrow> nat \<Rightarrow> nat" where
  "endOfLine src offset =
     (if CHR 0x0A \<in> set (drop offset src)
      then offset + length (takeWhile (\<lambda>c. c \<noteq> CHR 0x0A) (drop offset src))
      else length src)"

definition lineIndent :: "string \<Rightarrow> nat \<Rightarrow> string" where
  "lineIndent src offset = takeWhile (\<lambda>c. c = CHR '' '' \<or> c = CHR 0x09) (drop (startOfLine src offset) src)"

definition insertArgument :: "string \<Rightarrow> call_expr \<Rightarrow> string \<Rightarrow> edit" where
  "insertArgument src c name =
     (if posLine (ceLparen c) = posLine (ceRparen c)
      then \<lparr>edAt = posOffset (ceRparen c), edText = '', '' @ name @ ''.New()''\<rparr>
      else \<lparr>edAt = startOfLine src (posOffset (ceRparen c)),
             edText = (lineIndent src (posOffset (ceRparen c)) @ [CHR 0x09]) @ name @ ''.New(),'' @ [CHR 0x0A]\<rparr>)"

text \<open>The last import of the project that sorts before the new one, and the first that does not.\<close>

fun sibling_imports ::
    "string \<Rightarrow> string \<Rightarrow> import_spec option list \<Rightarrow> import_spec option \<Rightarrow> import_spec option \<Rightarrow>
     import_spec option \<times> import_spec option" where
  "sibling_imports importPath pre [] before after = (before, after)"
| "sibling_imports importPath pre (None # ss) before after = sibling_imports importPath pre ss before after"
| "sibling_imports importPath pre (Some imp # ss) before after =
     (let p = Trim (CHR ''\"'') (isPath imp)
      in if \<not> HasPrefix p pre then sibling_imports importPath pre ss before after
         else if p < importPath then sibling_imports importPath pre ss (Some imp) after
         else sibling_imports importPath pre ss before (if after = None then Some imp else after))"

fun first_import :: "decl list \<Rightarrow> (import_spec option list \<times> position) option" where
  "first_import [] = None"
| "first_import (ImportDecl specs rparen # ds) = Some (specs, rparen)"
| "first_import (OtherDecl # ds) = first_import ds"

definition import_prefix :: "string \<Rightarrow> string" where
  "import_prefix importPath = rev (dropWhile (\<lambda>c. c \<noteq> CHR ''/'') (rev importPath))"

definition insertImport :: "string \<Rightarrow> go_file \<Rightarrow> string \<Rightarrow> (scaffold_err, edit) result" where
  "insertImport src f importPath =
     (case first_import (gfDecls f) of
        None \<Rightarrow> Err NoImportBlock
      | Some (specs, rparen) \<Rightarrow>
          (case sibling_imports importPath (import_prefix importPath) specs None None of
             (Some before, _) \<Rightarrow>
               Ok \<lparr>edAt = endOfLine src (posOffset (isEnd before)),
                   edText = [CHR 0x0A] @ lineIndent src (posOffset (isEnd before)) @ ''\"'' @ importPath @ ''\"''\<rparr>
           | (None, Some after) \<Rightarrow>
               Ok \<lparr>edAt = startOfLine src (posOffset (isPos after)),
                   edText = lineIndent src (posOffset (isPos after)) @ ''\"'' @ importPath @ ''\"'' @ [CHR 0x0A]\<rparr>
           | (None, None) \<Rightarrow>
               Ok \<lparr>edAt = startOfLine src (posOffset rparen),
                   edText = [CHR 0x0A, CHR 0x09] @ ''\"'' @ importPath @ ''\"'' @ [CHR 0x0A]\<rparr>))"

definition wire :: "osenv \<Rightarrow> go_parser \<Rightarrow> disk \<Rightarrow> path \<Rightarrow> string \<Rightarrow> string \<Rightarrow> (scaffold_err, string) result" where
  "wire env parse d mainPath modulePath name =
     (case disk_ReadFile env d mainPath of None \<Rightarrow> Err (MainUnreadable mainPath) | Some src \<Rightarrow>
      case parse ParseComments src of None \<Rightarrow> Err (MainUnparseable mainPath) | Some file \<Rightarrow>
      case findNewCall file of None \<Rightarrow> Err (NoNewCall mainPath name) | Some c \<Rightarrow>
        (let argEdit = insertArgument src c name in
         case insertImport src file (modulePath @ ''/'' @ name) of
           Err e \<Rightarrow> Err e
         | Ok impEdit \<Rightarrow>
             (let out = splice (splice src argEdit) impEdit in
              case parse AllErrors out of
                None \<Rightarrow> Err (WireBroken name mainPath)
              | Some edited \<Rightarrow>
                  (case findNewCall edited of None \<Rightarrow> Err (WireLostCall name mainPath) | Some _ \<Rightarrow> Ok out))))"

section \<open>A new module\<close>

fun package_runes :: "unicode_tables \<Rightarrow> bool \<Rightarrow> nat list \<Rightarrow> bool" where
  "package_runes u first [] = True"
| "package_runes u first (r # rs) =
     (if IsLetter u r \<or> r = 0x5F then package_runes u False rs
      else if IsDigit u r \<and> \<not> first then package_runes u False rs
      else False)"

definition validPackageName :: "unicode_tables \<Rightarrow> string \<Rightarrow> scaffold_err option" where
  "validPackageName u name =
     (if TrimSpace name = [] then Some PackageEmpty
      else if name \<in> set go_keywords then Some (PackageKeyword name)
      else if \<not> package_runes u True (runes name) then Some (PackageInvalid name)
      else None)"

text \<open>The first line \<open>module ...\<close> of go.mod; without one, the empty text.\<close>

fun module_line :: "string list \<Rightarrow> string" where
  "module_line [] = []"
| "module_line (l # ls) =
     (if HasPrefix (TrimSpace l) ''module '' then TrimSpace (drop 7 (TrimSpace l)) else module_line ls)"

definition projectModulePath :: "osenv \<Rightarrow> disk \<Rightarrow> string \<Rightarrow> (scaffold_err, string) result" where
  "projectModulePath env d dir =
     (case disk_ReadFile env d (path_of (filepath_Join [dir, ''go.mod''])) of
        None \<Rightarrow> Err (NotAProject (filepath_Join [dir, ''go.mod'']))
      | Some raw \<Rightarrow>
          (let modulePath = module_line (Split (CHR 0x0A) raw)
           in if modulePath = [] then Err (NoModuleLine (filepath_Join [dir, ''go.mod'']))
              else case disk_Stat env d (path_of (filepath_Join [dir, ''main.go''])) of
                     Found _ \<Rightarrow> Ok modulePath
                   | _ \<Rightarrow> Err (NotAProject (filepath_Join [dir, ''main.go'']))))"

record scaffold_module =
  mdName :: string
  mdDir :: string

definition moduleFiles :: "string \<Rightarrow> (string \<times> string) list" where
  "moduleFiles name = [(''module.go.tmpl'', name @ ''.go''), (''module_test.go.tmpl'', name @ ''_test.go'')]"

fun write_package_files ::
    "osenv \<Rightarrow> renderer \<Rightarrow> string \<Rightarrow> (string, string) gomap \<Rightarrow> (string \<times> string) list \<Rightarrow> disk \<Rightarrow> disk \<times> scaffold_err option" where
  "write_package_files env render pkgDir data [] d = (d, None)"
| "write_package_files env render pkgDir data ((tmpl, file) # fs) d =
     (case render tmpl data of
        Err e \<Rightarrow> (d, Some (RenderError tmpl e))
      | Ok rendered \<Rightarrow>
          (case disk_WriteFile env (path_of (filepath_Join [pkgDir, file])) rendered d of
             (d, Some e) \<Rightarrow> (d, Some (WriteFailed (path_of (filepath_Join [pkgDir, file])) e))
           | (d, None) \<Rightarrow> write_package_files env render pkgDir data fs d))"

definition module_data :: "string \<Rightarrow> string \<Rightarrow> (string, string) gomap" where
  "module_data name modulePath = moduleData name modulePath (filepath_Base modulePath) (''/'' @ name)"

definition writePackage ::
    "osenv \<Rightarrow> renderer \<Rightarrow> string \<Rightarrow> string \<Rightarrow> string \<Rightarrow> disk \<Rightarrow> disk \<times> scaffold_err option" where
  "writePackage env render name pkgDir modulePath d =
     (case disk_MkdirAll env (path_of pkgDir) d of
        (d, Some e) \<Rightarrow> (d, Some (MkdirFailed (path_of pkgDir) e))
      | (d, None) \<Rightarrow> write_package_files env render pkgDir (module_data name modulePath) (moduleFiles name) d)"

definition module_dir :: "scaffold_module \<Rightarrow> string" where
  "module_dir m = (if mdDir m = [] then ''.'' else mdDir m)"

definition Module_Generate ::
    "osenv \<Rightarrow> unicode_tables \<Rightarrow> renderer \<Rightarrow> go_parser \<Rightarrow> scaffold_module \<Rightarrow> disk \<Rightarrow> disk \<times> scaffold_err option" where
  "Module_Generate env u render parse m d =
     (case validPackageName u (mdName m) of Some e \<Rightarrow> (d, Some e) | None \<Rightarrow>
      case projectModulePath env d (module_dir m) of Err e \<Rightarrow> (d, Some e) | Ok modulePath \<Rightarrow>
        (let mainPath = path_of (filepath_Join [module_dir m, ''main.go'']);
             pkgDir = filepath_Join [module_dir m, mdName m] in
         case disk_Stat env d (path_of pkgDir) of
           Found _ \<Rightarrow> (d, Some (PackageExists (path_of pkgDir)))
         | OSError e \<Rightarrow> (d, Some (PackageStat (path_of pkgDir) e))
         | NotFound \<Rightarrow>
             (case wire env parse d mainPath modulePath (mdName m) of
                Err e \<Rightarrow> (d, Some e)
              | Ok wired \<Rightarrow>
                  (case writePackage env render (mdName m) pkgDir modulePath d of
                     (d, Some e) \<Rightarrow> (d, Some e)
                   | (d, None) \<Rightarrow>
                       (case disk_WriteFile env mainPath wired d of
                          (d, Some e) \<Rightarrow> (d, Some (WriteFailed mainPath e))
                        | (d, None) \<Rightarrow> (d, None))))))"

end
