(* ===== verification/Scaffold_Correct.thy ===== *)
theory Scaffold_Correct
  imports Scaffold
begin

text \<open>
  What the scaffold guarantees, whatever call of the operating system fails: nothing that exists is overwritten
  but main.go, and that one only by the text with the module wired in, which keeps every byte of the user's and
  was checked to parse.
\<close>

declare split_paired_All [simp del] split_paired_Ex [simp del]

section \<open>Cleaned paths\<close>

definition plain :: "string \<Rightarrow> bool" where
  "plain p \<longleftrightarrow> p \<noteq> [] \<and> p \<noteq> ''.'' \<and> p \<noteq> ''..'' \<and> CHR ''/'' \<notin> set p"

definition element :: "string \<Rightarrow> bool" where
  "element p \<longleftrightarrow> p \<noteq> [] \<and> p \<noteq> ''.'' \<and> CHR ''/'' \<notin> set p"

text \<open>The output of \<open>clean_parts\<close>: elements, with \<open>..\<close> only in front and only when not rooted.\<close>

definition clean_form :: "bool \<Rightarrow> string list \<Rightarrow> bool" where
  "clean_form r ps \<longleftrightarrow> list_all element ps \<and>
     (\<exists>n qs. ps = replicate n ''..'' @ qs \<and> ''..'' \<notin> set qs \<and> (r \<longrightarrow> n = 0))"

lemma clean_formI:
  "ps = replicate n ''..'' @ qs \<Longrightarrow> ''..'' \<notin> set qs \<Longrightarrow> (r \<longrightarrow> n = 0) \<Longrightarrow> list_all element ps \<Longrightarrow> clean_form r ps"
  unfolding clean_form_def by blast

lemma clean_formE:
  assumes "clean_form r ps"
  obtains n qs where "ps = replicate n ''..'' @ qs" "''..'' \<notin> set qs" "r \<longrightarrow> n = 0" "list_all element ps"
  using assms unfolding clean_form_def by blast

lemma element_dots [simp]: "element ''..''"
  by (simp add: element_def)

lemma clean_form_Nil [simp]: "clean_form r []"
  by (rule clean_formI[of _ 0 "[]"]) simp_all

lemma clean_form_up: "clean_form False [''..'']"
  by (rule clean_formI[of _ 1 "[]"]) simp_all

lemma clean_form_snoc: "clean_form r ps \<Longrightarrow> plain p \<Longrightarrow> clean_form r (ps @ [p])"
proof -
  assume c: "clean_form r ps" and p: "plain p"
  obtain n qs where "ps = replicate n ''..'' @ qs" "''..'' \<notin> set qs" "r \<longrightarrow> n = 0" "list_all element ps"
    using c by (rule clean_formE)
  with p show ?thesis by (intro clean_formI[of _ n "qs @ [p]"]) (auto simp: plain_def element_def)
qed

lemma clean_form_butlast:
  assumes "clean_form r (ps @ [p])" "p \<noteq> ''..''"
  shows "clean_form r ps"
proof -
  obtain n qs where q: "ps @ [p] = replicate n ''..'' @ qs" "''..'' \<notin> set qs" "r \<longrightarrow> n = 0"
    using assms(1) by (auto simp: clean_form_def)
  have "qs \<noteq> []"
  proof
    assume "qs = []"
    with q(1) have "p \<in> set (replicate n ''..'')" by (metis append_Nil2 in_set_conv_decomp)
    with assms(2) show False by simp
  qed
  then have "ps = replicate n ''..'' @ butlast qs" using q(1) by (metis butlast_append butlast_snoc)
  moreover have "''..'' \<notin> set (butlast qs)" using q(2) by (meson in_set_butlastD)
  ultimately show ?thesis using assms(1) q(3) by (auto simp: clean_form_def)
qed

lemma clean_form_dots:
  assumes "clean_form r (ps @ [''..''])"
  shows "\<not> r \<and> clean_form r (ps @ [''..'', ''..''])"
proof -
  obtain n qs where q: "ps @ [''..''] = replicate n ''..'' @ qs" "''..'' \<notin> set qs" "r \<longrightarrow> n = 0"
    using assms by (auto simp: clean_form_def)
  have "qs = []"
  proof (rule ccontr)
    assume "qs \<noteq> []"
    then have "last qs = ''..''" using q(1) by (metis last_appendR last_snoc)
    with q(2) \<open>qs \<noteq> []\<close> show False by (metis last_in_set)
  qed
  then have n: "ps @ [''..''] = replicate n ''..''" using q(1) by simp
  then have "n \<noteq> 0" by (cases n) auto
  moreover have "ps @ [''..'', ''..''] = replicate (Suc n) ''..''"
    using n by (metis append.assoc append_Cons append_Nil replicate_append_same replicate_Suc)
  moreover have "list_all element (replicate (Suc n) ''..'')" by (simp add: list_all_iff)
  ultimately show ?thesis using q(3) by (auto intro!: clean_formI[of _ "Suc n" "[]"] simp del: replicate_Suc)
qed

lemma clean_parts_form:
  "clean_form r (rev out) \<Longrightarrow> list_all (\<lambda>p. CHR ''/'' \<notin> set p) ps \<Longrightarrow> clean_form r (clean_parts r out ps)"
proof (induction r out ps rule: clean_parts.induct)
  case (2 r out p ps)
  consider "p = [] \<or> p = ''.''" | "p = ''..''" "out = []" | x xs where "p = ''..''" "out = x # xs" | "plain p" 
    using 2(6) by (cases out) (auto simp: plain_def)
  then show ?case
  proof cases
    case 1 with 2 show ?thesis by auto
  next
    case 2
    then show ?thesis using "2.IH"(2) "2.prems" clean_form_up by auto
  next
    case 3
    then show ?thesis
      using "2.IH"(3)[OF _ 3] "2.prems" clean_form_dots[of r "rev xs"] clean_form_butlast[of r "rev xs" x] by auto
  next
    case 4
    then have "clean_form r (rev (p # out))" using clean_form_snoc "2.prems"(1) by simp
    with 4 "2.IH"(4) "2.prems"(2) show ?thesis by (auto simp: plain_def)
  qed
qed simp

lemma clean_parts_append: "clean_parts r out (xs @ ys) = clean_parts r (rev (clean_parts r out xs)) ys"
  by (induction r out xs rule: clean_parts.induct) (auto split: list.split)

lemma clean_parts_plain: "list_all plain ys \<Longrightarrow> clean_parts r out ys = rev out @ ys"
  by (induction ys arbitrary: out) (auto simp: plain_def)

lemma clean_parts_dots: "clean_parts False (replicate k ''..'') (replicate n ''..'') = replicate (n + k) ''..''"
proof (induction n arbitrary: k)
  case (Suc n)
  show ?case using Suc.IH[of "Suc k"] by (cases k) simp_all
qed simp

lemma clean_parts_stable: "clean_form r ps \<Longrightarrow> clean_parts r [] ps = ps"
proof -
  assume c: "clean_form r ps"
  then obtain n qs where q: "ps = replicate n ''..'' @ qs" "''..'' \<notin> set qs" "r \<longrightarrow> n = 0" "list_all element ps"
    by (rule clean_formE)
  then have p: "list_all plain qs" by (auto simp: list_all_iff plain_def element_def)
  show ?thesis
  proof (cases n)
    case 0
    with q p clean_parts_plain[of qs r "[]"] show ?thesis by simp
  next
    case (Suc m)
    then have "\<not> r" using q(3) by simp
    with q(1) p show ?thesis using clean_parts_dots[of 0 n] by (simp add: clean_parts_append clean_parts_plain)
  qed
qed

lemma Split_append: "Split c (a @ c # b) = Split c a @ Split c b"
proof (induction a)
  case (Cons x a)
  obtain y ys where "Split c a = y # ys" using Split_nonempty by (metis list.exhaust)
  with Cons show ?case by auto
qed simp

lemma Split_absent: "c \<notin> set a \<Longrightarrow> Split c a = [a]"
  by (induction a) auto

lemma Split_Join: "list_all (\<lambda>p. c \<notin> set p) ps \<Longrightarrow> ps \<noteq> [] \<Longrightarrow> Split c (Join [c] ps) = ps"
proof (induction "[c]" ps rule: Join.induct)
  case (3 x y ys)
  then show ?case using Split_append[of c x "Join [c] (y # ys)"] by (simp add: Split_absent)
qed (simp_all add: Split_absent)

lemma hd_Join: "p \<noteq> [] \<Longrightarrow> Join sep (p # ps) \<noteq> [] \<and> hd (Join sep (p # ps)) = hd p"
  by (cases ps) simp_all

lemma path_of_clean: "clean_form (fst (path_of s)) (snd (path_of s))"
  using clean_parts_form[of _ "[]" "Split (CHR ''/'') s"] Split_no_sep
  by (auto simp: path_of_def list_all_iff)

lemma path_of_Clean: "path_of (filepath_Clean s) = path_of s"
proof -
  obtain r ps where p: "path_of s = (r, ps)" by fastforce
  then have r: "r = HasPrefix s ''/''" and ps: "ps = clean_parts r [] (Split (CHR ''/'') s)" by (auto simp: path_of_def)
  have c: "clean_form r ps" using path_of_clean[of s] p by simp
  then have el: "list_all element ps" by (rule clean_formE)
  then have sl: "list_all (\<lambda>p. CHR ''/'' \<notin> set p) ps" by (auto simp: list_all_iff element_def)
  note st = clean_parts_stable[OF c]
  show ?thesis
  proof (cases ps)
    case Nil
    then have "filepath_Clean s = (if r then ''/'' else ''.'')" using r ps by (cases r) (simp_all add: filepath_Clean_def Let_def)
    then have "path_of (filepath_Clean s) = (r, [])" by (cases r) (simp_all add: path_of_def HasPrefix_def)
    with p Nil show ?thesis by simp
  next
    case (Cons q qs)
    have J: "Split (CHR ''/'') (Join ''/'' ps) = ps" using Split_Join[OF sl] Cons by simp
    from el Cons have q: "q \<noteq> []" "hd q \<noteq> CHR ''/''" by (auto simp: element_def) (metis hd_in_set)
    note h = hd_Join[OF q(1), of "''/''" qs, folded Cons]
    show ?thesis
    proof (cases r)
      case True
      then have "filepath_Clean s = ''/'' @ Join ''/'' ps" using r ps by (simp add: filepath_Clean_def Let_def)
      with J st True have "path_of (filepath_Clean s) = (r, ps)" by (simp add: path_of_def HasPrefix_def)
      with p show ?thesis by simp
    next
      case False
      then have e: "filepath_Clean s = Join ''/'' ps" using r ps h by (auto simp: filepath_Clean_def Let_def)
      have "\<not> HasPrefix (Join ''/'' ps) ''/''" using h q(2) by (auto simp: HasPrefix_iff)
      with J st False e have "path_of (filepath_Clean s) = (r, ps)" by (simp add: path_of_def)
      with p show ?thesis by simp
    qed
  qed
qed

lemma path_of_join:
  assumes "dir \<noteq> []" "f \<noteq> []" "list_all plain (Split (CHR ''/'') f)"
  shows "path_of (filepath_Join [dir, f]) = (fst (path_of dir), snd (path_of dir) @ Split (CHR ''/'') f)"
proof -
  have "HasPrefix (dir @ CHR ''/'' # f) ''/'' \<longleftrightarrow> HasPrefix dir ''/''"
    using assms(1) by (cases dir) (auto simp: HasPrefix_iff)
  then show ?thesis
    using assms by (simp add: filepath_Join_def path_of_Clean)
      (simp add: path_of_def Split_append clean_parts_append clean_parts_plain)
qed

section \<open>The disk only grows\<close>

definition keeps :: "disk \<Rightarrow> disk \<Rightarrow> bool" where
  "keeps d d' \<longleftrightarrow> (\<forall>p v. map_of d p = Some v \<longrightarrow> map_of d' p = Some v)"

lemma keeps_refl [simp]: "keeps d d"
  by (simp add: keeps_def)

lemma keeps_trans: "keeps d d' \<Longrightarrow> keeps d' d'' \<Longrightarrow> keeps d d''"
  by (simp add: keeps_def)

lemma keeps_set: "map_of d p = None \<Longrightarrow> keeps d (gm_set p v d)"
  by (auto simp: keeps_def gomap_simps)

lemma keeps_dir: "keeps d d' \<Longrightarrow> is_dir d p \<Longrightarrow> is_dir d' p"
  unfolding keeps_def is_dir_def by metis

lemma mkdir_chain_keeps: "mkdir_chain env ps d = (d', e) \<Longrightarrow> keeps d d' \<and> (e = None \<longrightarrow> (\<forall>p \<in> set ps. is_dir d' p)) \<and>
    (\<forall>q. map_of d' q \<noteq> map_of d q \<longrightarrow> q \<in> set ps \<and> map_of d' q = Some Directory)"
proof (induction env ps d rule: mkdir_chain.induct)
  case (2 env p ps d)
  show ?case
  proof (cases "is_dir d p")
    case True
    with 2 have "keeps d d' \<and> (e = None \<longrightarrow> (\<forall>p \<in> set ps. is_dir d' p)) \<and>
      (\<forall>q. map_of d' q \<noteq> map_of d q \<longrightarrow> q \<in> set ps \<and> map_of d' q = Some Directory)" by simp
    then show ?thesis using keeps_dir[of d d' p] True by simp
  next
    case False
    note nd = False
    show ?thesis
    proof (cases "map_of d p \<noteq> None \<or> osFails env MkdirCall p \<noteq> None")
      case True
      have "d' = d \<and> e \<noteq> None"
        using nd 2(3) True by (cases "map_of d p"; cases "osFails env MkdirCall p") auto
      then show ?thesis by auto
    next
      case False
      with nd 2 have ih: "keeps (gm_set p Directory d) d' \<and> (e = None \<longrightarrow> (\<forall>p \<in> set ps. is_dir d' p)) \<and>
        (\<forall>q. map_of d' q \<noteq> map_of (gm_set p Directory d) q \<longrightarrow> q \<in> set ps \<and> map_of d' q = Some Directory)" by simp
      have "keeps d (gm_set p Directory d)" using False keeps_set by simp
      then have k: "keeps d d'" using ih keeps_trans by blast
      have "map_of (gm_set p Directory d) p = Some Directory" by (simp add: gomap_simps)
      then have p: "map_of d' p = Some Directory" using ih unfolding keeps_def by blast
      then have "is_dir d' p" by (simp add: is_dir_def)
      moreover have "q \<in> set (p # ps) \<and> map_of d' q = Some Directory" if "map_of d' q \<noteq> map_of d q" for q
      proof (cases "q = p")
        case False
        then have "map_of (gm_set p Directory d) q = map_of d q" by (simp add: gomap_simps)
        with that ih show ?thesis by simp
      qed (use p in simp)
      ultimately show ?thesis using k ih by simp
    qed
  qed
qed simp

text \<open>Every node lies in a directory.\<close>

definition disk_ok :: "disk \<Rightarrow> bool" where
  "disk_ok d \<longleftrightarrow> (\<forall>p v. map_of d p = Some v \<longrightarrow> snd p \<noteq> [] \<and> is_dir d (path_parent p))"

definition free_below :: "disk \<Rightarrow> path \<Rightarrow> bool" where
  "free_below d p \<longleftrightarrow> (\<forall>q. list_all plain q \<and> q \<noteq> [] \<longrightarrow> map_of d (fst p, snd p @ q) = None)"

lemma free_belowI:
  assumes ok: "disk_ok d" and top: "\<And>x. plain x \<Longrightarrow> map_of d (fst p, snd p @ [x]) = None"
  shows "free_below d p"
proof -
  have "map_of d (fst p, snd p @ q) = None" if "list_all plain q" "q \<noteq> []" for q
    using that
  proof (induction q rule: rev_induct)
    case (snoc x q)
    show ?case
    proof (cases "q = []")
      case True
      with top snoc.prems show ?thesis by simp
    next
      case False
      with snoc have n: "map_of d (fst p, snd p @ q) = None" by simp
      from False snoc.prems have "last q \<noteq> ''..''" by (auto simp: list_all_iff plain_def)
      with False n have "\<not> is_dir d (fst p, snd p @ q)" by (simp add: is_dir_def)
      then have "\<not> is_dir d (path_parent (fst p, snd p @ q @ [x]))" by (simp add: path_parent_def butlast_append)
      with ok show ?thesis unfolding disk_ok_def by (metis option.exhaust)
    qed
  qed simp
  then show ?thesis by (simp add: free_below_def)
qed

lemma children_Nil: "children d p = [] \<Longrightarrow> map_of d (fst p, snd p @ [x]) = None"
proof (rule ccontr)
  assume c: "children d p = []" and "map_of d (fst p, snd p @ [x]) \<noteq> None"
  then have "(fst p, snd p @ [x]) \<in> fst ` set d" by (simp add: map_of_eq_None_iff)
  moreover have "path_parent (fst p, snd p @ [x]) = p" "last (snd (fst p, snd p @ [x])) = x" by (simp_all add: path_parent_def)
  ultimately have "(last \<circ> snd) (fst p, snd p @ [x]) \<in> (last \<circ> snd) ` set (filter (\<lambda>q. snd q \<noteq> [] \<and> path_parent q = p) (map fst d))"
    by (intro imageI) simp
  then have "x \<in> set (children d p)" by (simp add: children_def)
  with c show False by simp
qed

lemma absent_free: "disk_ok d \<Longrightarrow> \<not> is_dir d p \<Longrightarrow> free_below d p"
proof (rule free_belowI)
  fix x assume ok: "disk_ok d" and "\<not> is_dir d p"
  then have "\<not> is_dir d (path_parent (fst p, snd p @ [x]))" by (simp add: path_parent_def)
  with ok show "map_of d (fst p, snd p @ [x]) = None" unfolding disk_ok_def by (metis option.exhaust)
qed

lemma emptyOrAbsent_free:
  assumes "disk_ok d" and "emptyOrAbsent env d dir = None"
  shows "free_below d (path_of dir)"
proof -
  from assms(2) have r: "disk_ReadDir env d (path_of dir) = NotFound \<or> disk_ReadDir env d (path_of dir) = Found []"
    by (auto simp: emptyOrAbsent_def split: option.splits os_result.splits list.splits if_splits)
  then show ?thesis
  proof
    assume "disk_ReadDir env d (path_of dir) = NotFound"
    then have "\<not> is_dir d (path_of dir)" by (auto simp: disk_ReadDir_def split: option.splits if_splits)
    with assms(1) show ?thesis by (rule absent_free)
  next
    assume "disk_ReadDir env d (path_of dir) = Found []"
    then have "children d (path_of dir) = []" by (auto simp: disk_ReadDir_def split: option.splits if_splits)
    then show ?thesis using free_belowI[OF assms(1)] children_Nil by blast
  qed
qed

lemma WriteFile_at: "disk_WriteFile env p s d = (d', e) \<Longrightarrow>
    (\<forall>q. q \<noteq> p \<longrightarrow> map_of d' q = map_of d q) \<and> (e = None \<longrightarrow> map_of d' p = Some (File s)) \<and>
    (map_of d' p = map_of d p \<or> (\<exists>t. map_of d' p = Some (File t)))"
  by (auto simp: disk_WriteFile_def gomap_simps split: if_splits option.splits)

lemma MkdirAll_keeps: "disk_MkdirAll env p d = (d', e) \<Longrightarrow> keeps d d'"
  unfolding disk_MkdirAll_def using mkdir_chain_keeps by blast

text \<open>Everything outside a set of paths is kept.\<close>

definition keeps_but :: "path set \<Rightarrow> disk \<Rightarrow> disk \<Rightarrow> bool" where
  "keeps_but S d d' \<longleftrightarrow> (\<forall>q v. q \<notin> S \<and> map_of d q = Some v \<longrightarrow> map_of d' q = Some v)"

lemma keeps_but_refl [simp]: "keeps_but S d d"
  by (simp add: keeps_but_def)

lemma keeps_but_trans: "keeps_but S d d' \<Longrightarrow> keeps_but T d' d'' \<Longrightarrow> keeps_but (S \<union> T) d d''"
  by (simp add: keeps_but_def)

lemma keeps_but_mono: "keeps_but S d d' \<Longrightarrow> S \<subseteq> T \<Longrightarrow> keeps_but T d d'"
  by (auto simp: keeps_but_def)

lemma keeps_but_free: "keeps_but S d d' \<Longrightarrow> (\<And>q. q \<in> S \<Longrightarrow> map_of d q = None) \<Longrightarrow> keeps d d'"
  unfolding keeps_but_def keeps_def by (metis option.distinct(1))

lemma MkdirAll_keeps_but: "disk_MkdirAll env p d = (d', e) \<Longrightarrow> keeps_but {} d d'"
  using MkdirAll_keeps by (simp add: keeps_def keeps_but_def)

lemma WriteFile_keeps_but: "disk_WriteFile env p s d = (d', e) \<Longrightarrow> keeps_but {p} d d'"
  using WriteFile_at by (simp add: keeps_but_def)

definition good_file :: "string \<Rightarrow> bool" where
  "good_file f \<longleftrightarrow> f \<noteq> [] \<and> list_all plain (Split (CHR ''/'') f)"

definition out_path :: "string \<Rightarrow> string \<Rightarrow> path" where
  "out_path dir f = path_of (filepath_Join [dir, f])"

lemma out_path_below: "dir \<noteq> [] \<Longrightarrow> good_file f \<Longrightarrow>
    out_path dir f = (fst (path_of dir), snd (path_of dir) @ Split (CHR ''/'') f)"
  by (simp add: out_path_def good_file_def path_of_join)

lemma out_path_free: "dir \<noteq> [] \<Longrightarrow> good_file f \<Longrightarrow> free_below d (path_of dir) \<Longrightarrow> map_of d (out_path dir f) = None"
  using Split_nonempty by (auto simp: out_path_below free_below_def good_file_def)

lemma write_project_keeps:
  "write_project env render dir data fs d = (d', e) \<Longrightarrow> keeps_but ((out_path dir \<circ> snd) ` set fs) d d'"
proof (induction fs arbitrary: d)
  case (Cons tf fs)
  obtain tmpl f where tf: "tf = (tmpl, f)" by fastforce
  obtain d1 e1 where m: "disk_MkdirAll env (path_parent (out_path dir f)) d = (d1, e1)" by fastforce
  then have k1: "keeps_but {} d d1" by (rule MkdirAll_keeps_but)
  show ?case
  proof (cases "e1 \<noteq> None \<or> (\<nexists>s. render tmpl data = Ok s)")
    case True
    with Cons.prems m k1 tf show ?thesis
      by (auto simp: out_path_def Let_def split: option.splits sum.splits intro: keeps_but_mono)
  next
    case False
    then obtain s where r: "e1 = None" "render tmpl data = Ok s" by auto
    obtain d2 e2 where w: "disk_WriteFile env (out_path dir f) s d1 = (d2, e2)" by fastforce
    have k2: "keeps_but {out_path dir f} d d2" using keeps_but_trans[OF k1 WriteFile_keeps_but[OF w]] by simp
    show ?thesis
    proof (cases e2)
      case None
      with Cons.prems m r w tf have "write_project env render dir data fs d2 = (d', e)" by (simp add: out_path_def)
      from keeps_but_trans[OF k2 Cons.IH[OF this]] tf show ?thesis by simp
    next
      case (Some x)
      with Cons.prems m r w tf have "d' = d2" by (simp add: out_path_def)
      with keeps_but_mono[OF k2] tf show ?thesis by simp
    qed
  qed
qed simp

lemma write_package_files_keeps:
  "write_package_files env render dir data fs d = (d', e) \<Longrightarrow> keeps_but ((out_path dir \<circ> snd) ` set fs) d d'"
proof (induction fs arbitrary: d)
  case (Cons tf fs)
  obtain tmpl f where tf: "tf = (tmpl, f)" by fastforce
  show ?case
  proof (cases "\<nexists>s. render tmpl data = Ok s")
    case True
    with Cons.prems  tf show ?thesis
      by (auto simp: out_path_def Let_def split: option.splits sum.splits intro: keeps_but_mono)
  next
    case False
    then obtain s where r: "render tmpl data = Ok s" by auto
    obtain d2 e2 where w: "disk_WriteFile env (out_path dir f) s d = (d2, e2)" by fastforce
    have k2: "keeps_but {out_path dir f} d d2" using WriteFile_keeps_but[OF w] by simp
    show ?thesis
    proof (cases e2)
      case None
      with Cons.prems  r w tf have "write_package_files env render dir data fs d2 = (d', e)" by (simp add: out_path_def)
      from keeps_but_trans[OF k2 Cons.IH[OF this]] tf show ?thesis by simp
    next
      case (Some x)
      with Cons.prems  r w tf have "d' = d2" by (simp add: out_path_def)
      with keeps_but_mono[OF k2] tf show ?thesis by simp
    qed
  qed
qed simp

text \<open>After success every file is there.\<close>

lemma write_project_complete:
  assumes "write_project env render dir data fs d = (d', None)" "distinct (map (out_path dir \<circ> snd) fs)"
  shows "\<forall>(tmpl, f) \<in> set fs. \<exists>s. render tmpl data = Ok s \<and> map_of d' (out_path dir f) = Some (File s)"
  using assms
proof (induction fs arbitrary: d)
  case (Cons tf fs)
  obtain tmpl f where tf: "tf = (tmpl, f)" by fastforce
  obtain d1 e1 where m: "disk_MkdirAll env (path_parent (out_path dir f)) d = (d1, e1)" by fastforce
  from Cons.prems(1) m tf obtain s d2 where r: "e1 = None" "render tmpl data = Ok s"
    "disk_WriteFile env (out_path dir f) s d1 = (d2, None)" "write_project env render dir data fs d2 = (d', None)"
    by (auto simp: out_path_def Let_def split: option.splits sum.splits prod.splits)
  have "map_of d2 (out_path dir f) = Some (File s)" using WriteFile_at[OF r(3)] by simp
  then have "map_of d' (out_path dir f) = Some (File s)"
    using write_project_keeps[OF r(4)] Cons.prems(2) tf by (simp add: keeps_but_def)
  with Cons.IH[OF r(4)] Cons.prems(2) r(2) tf show ?case by simp
qed simp

lemma write_package_files_complete:
  assumes "write_package_files env render dir data fs d = (d', None)" "distinct (map (out_path dir \<circ> snd) fs)"
  shows "\<forall>(tmpl, f) \<in> set fs. \<exists>s. render tmpl data = Ok s \<and> map_of d' (out_path dir f) = Some (File s)"
  using assms
proof (induction fs arbitrary: d)
  case (Cons tf fs)
  obtain tmpl f where tf: "tf = (tmpl, f)" by fastforce
  from Cons.prems(1) tf obtain s d2 where r: "render tmpl data = Ok s"
    "disk_WriteFile env (out_path dir f) s d = (d2, None)" "write_package_files env render dir data fs d2 = (d', None)"
    by (auto simp: out_path_def split: option.splits sum.splits prod.splits)
  have "map_of d2 (out_path dir f) = Some (File s)" using WriteFile_at[OF r(2)] by simp
  then have "map_of d' (out_path dir f) = Some (File s)"
    using write_package_files_keeps[OF r(3)] Cons.prems(2) tf by (simp add: keeps_but_def)
  with Cons.IH[OF r(3)] Cons.prems(2) r(1) tf show ?case by simp
qed simp

section \<open>Wiring\<close>

lemma splice_subseq: "subseq src (splice src e)"
proof -
  have "subseq (take (edAt e) src @ drop (edAt e) src) (splice src e)"
    unfolding splice_def by (intro list_emb_append_mono list_emb_append2) simp_all
  then show ?thesis by simp
qed

lemma length_splice: "length (splice src e) = length src + length (edText e)"
  by (simp add: splice_def)

lemma Contains_middle: "Contains (a @ t @ b) t"
  by (auto simp: Contains_iff)

text \<open>What the two edits insert.\<close>

lemma insertArgument_text: "Contains (edText (insertArgument src c name)) (name @ ''.New()'')"
proof -
  have "edText (insertArgument src c name) = '', '' @ (name @ ''.New()'') @ [] \<or>
      edText (insertArgument src c name) =
        (lineIndent src (posOffset (ceRparen c)) @ [CHR 0x09]) @ (name @ ''.New()'') @ '','' @ [CHR 0x0A]"
    by (simp add: insertArgument_def)
  then show ?thesis by (metis Contains_middle)
qed

lemma insertImport_text:
  assumes "insertImport src f importPath = Ok e"
  shows "Contains (edText e) (''\"'' @ importPath @ ''\"'')"
proof -
  have "\<exists>a b. edText e = a @ (''\"'' @ importPath @ ''\"'') @ b"
    using assms unfolding insertImport_def
    by (auto split: option.splits prod.splits) (metis append.assoc append_Cons append_Nil append_Nil2)+
  then show ?thesis by (auto simp: Contains_iff)
qed

lemma Contains_trans: "Contains s t \<Longrightarrow> Contains t x \<Longrightarrow> Contains s x"
  unfolding Contains_iff by (metis append.assoc)

text \<open>The wired text: the user's bytes in order, the two insertions, and it was checked.\<close>

definition wired_ok :: "go_parser \<Rightarrow> string \<Rightarrow> string \<Rightarrow> string \<Rightarrow> string \<Rightarrow> bool" where
  "wired_ok parse src modulePath name out \<longleftrightarrow> subseq src out \<and>
     (\<exists>arg imp. length out = length src + length arg + length imp \<and> Contains arg (name @ ''.New()'') \<and>
        Contains out (''\"'' @ modulePath @ ''/'' @ name @ ''\"'') \<and>
        Contains imp (''\"'' @ modulePath @ ''/'' @ name @ ''\"'')) \<and>
     (\<exists>f. parse AllErrors out = Some f \<and> findNewCall f \<noteq> None)"

lemma wire_Ok:
  assumes "wire env parse d mainPath modulePath name = Ok out"
  shows "\<exists>src. map_of d mainPath = Some (File src) \<and> wired_ok parse src modulePath name out"
proof -
  from assms obtain src tree c i edited where w: "disk_ReadFile env d mainPath = Some src"
    "insertImport src tree (modulePath @ ''/'' @ name) = Ok i"
    "out = splice (splice src (insertArgument src c name)) i" "parse AllErrors out = Some edited" "findNewCall edited \<noteq> None"
    by (auto simp: wire_def Let_def split: option.splits sum.splits)
  have "map_of d mainPath = Some (File src)"
    using w(1) by (auto simp: disk_ReadFile_def split: if_splits option.splits node.splits)
  moreover have "subseq src out" unfolding w(3) using splice_subseq subseq_order.order_trans by blast
  moreover have "length out = length src + length (edText (insertArgument src c name)) + length (edText i)"
    by (simp add: w(3) length_splice)
  moreover have imp: "Contains (edText i) (''\"'' @ modulePath @ ''/'' @ name @ ''\"'')"
    using insertImport_text[OF w(2)] by simp
  moreover have "Contains out (edText i)" unfolding w(3) splice_def by (rule Contains_middle)
  moreover note Contains_trans[OF this imp]
  ultimately show ?thesis
    using w(4,5) insertArgument_text[of src c name] unfolding wired_ok_def by blast
qed

section \<open>A new module\<close>

lemma ascii_in_runes: "c \<in> set s \<Longrightarrow> byte c < 0x80 \<Longrightarrow> byte c \<in> set (runes s)"
proof (induction s rule: decode_all.induct)
  case (1 s)
  then obtain x r where s: "s = x # r" by (cases s) auto
  have R: "runes s = fst (DecodeRune s) # runes (drop (snd (DecodeRune s)) s)"
    unfolding s runes_def by (subst decode_all.simps) simp
  show ?case
  proof (cases "c \<in> set (take (snd (DecodeRune s)) s)")
    case True
    have "fst (DecodeRune s) = byte c"
    proof (cases "byte x < 0x80")
      case True
      then have "DecodeRune s = (byte x, 1)" using DecodeRune_ascii s by simp
      with \<open>c \<in> set (take _ s)\<close> s show ?thesis by simp
    next
      case False
      with \<open>c \<in> set (take _ s)\<close> 1(3) s show ?thesis
        by (auto simp: DecodeRune.simps(2) Let_def accept2_def in_range_def split: if_splits list.splits)
    qed
    then show ?thesis using R by simp
  next
    case False
    then have "c \<in> set (drop (snd (DecodeRune s)) s)" using 1(2) by (metis append_take_drop_id Un_iff set_append)
    with 1(1,3) s R show ?thesis by simp
  qed
qed

lemma package_runes_mem: "package_runes u first rs \<Longrightarrow> r \<in> set rs \<Longrightarrow> IsLetter u r \<or> r = 0x5F \<or> IsDigit u r"
  by (induction u first rs rule: package_runes.induct) (auto split: if_splits)

lemma validPackageName_chars:
  assumes "validPackageName u name = None"
  shows "name \<noteq> [] \<and> CHR ''/'' \<notin> set name \<and> CHR ''.'' \<notin> set name"
proof -
  from assms have n: "TrimSpace name \<noteq> []" "package_runes u True (runes name)"
    by (auto simp: validPackageName_def split: if_splits)
  have "name \<noteq> []" using n(1) by auto
  moreover have "c \<notin> set name" if "c = CHR ''/'' \<or> c = CHR ''.''" for c
  proof
    assume "c \<in> set name"
    moreover have "byte c < 0x80" using that by auto
    ultimately have "byte c \<in> set (runes name)" by (rule ascii_in_runes)
    from package_runes_mem[OF n(2) this] that show False by (auto simp: IsLetter_def IsDigit_def)
  qed
  ultimately show ?thesis by blast
qed

text \<open>
  A package may be named by a letter outside ASCII; the title made from it, which the generated test function
  is named after, then starts with U+FFFD, which no identifier may contain.
\<close>

lemma accented_title:
  assumes "letter_table u 0xE9"
  shows "validPackageName u [CHR 0xC3, CHR 0xA9] = None \<and> runes (title [CHR 0xC3, CHR 0xA9]) = [0xFFFD, 0xFFFD]"
proof -
  have r: "runes [CHR 0xC3, CHR 0xA9] = [0xE9]"
    by (simp add: runes_def decode_all.simps DecodeRune.simps Let_def accept2_def in_range_def)
  have "TrimSpace [CHR 0xC3, CHR 0xA9] \<noteq> []" "[CHR 0xC3, CHR 0xA9] \<notin> set go_keywords" by code_simp+
  with assms r have "validPackageName u [CHR 0xC3, CHR 0xA9] = None" by (simp add: validPackageName_def IsLetter_def)
  moreover have "runes (title [CHR 0xC3, CHR 0xA9]) = [0xFFFD, 0xFFFD]"
    by (simp add: title_def runes_def decode_all.simps DecodeRune.simps Let_def accept2_def in_range_def RuneError_def)
  ultimately show ?thesis by blast
qed

lemma good_plain: "CHR ''/'' \<notin> set f \<Longrightarrow> f \<noteq> [] \<Longrightarrow> f \<noteq> ''.'' \<Longrightarrow> f \<noteq> ''..'' \<Longrightarrow> good_file f \<and> Split (CHR ''/'') f = [f]"
  by (simp add: good_file_def Split_absent plain_def)

lemma good_go_file: "CHR ''/'' \<notin> set n \<Longrightarrow> CHR ''/'' \<notin> set x \<Longrightarrow> 3 \<le> length x \<Longrightarrow>
    good_file (n @ x) \<and> Split (CHR ''/'') (n @ x) = [n @ x]"
proof (rule good_plain)
  assume "3 \<le> length x"
  then have l: "3 \<le> length (n @ x)" by simp
  show "n @ x \<noteq> []" using l by (metis list.size(3) not_numeral_le_zero)
  show "n @ x \<noteq> ''.''" using l by (intro notI) (drule arg_cong[of _ _ length], simp)
  show "n @ x \<noteq> ''..''" using l by (intro notI) (drule arg_cong[of _ _ length], simp)
qed auto

text \<open>The state of a call that gets past the checks: where the package goes, and its files.\<close>

lemma package_paths:
  assumes "validPackageName u n = None" "dir \<noteq> []"
  defines "pkg \<equiv> filepath_Join [dir, n]"
  shows "pkg \<noteq> []" "path_of pkg = (fst (path_of dir), snd (path_of dir) @ [n])"
    "\<And>f. f \<in> snd ` set (moduleFiles n) \<Longrightarrow> good_file f \<and> Split (CHR ''/'') f = [f]"
    "distinct (map (out_path pkg \<circ> snd) (moduleFiles n))"
    "\<And>f. f \<in> snd ` set (moduleFiles n) \<Longrightarrow> out_path pkg f \<noteq> out_path dir ''main.go''"
proof -
  have n: "n \<noteq> []" "CHR ''/'' \<notin> set n" "CHR ''.'' \<notin> set n" using validPackageName_chars[OF assms(1)] by auto
  then have g: "good_file n \<and> Split (CHR ''/'') n = [n]" by (intro good_plain) auto
  then have pl: "list_all plain (Split (CHR ''/'') n)" unfolding good_file_def by blast
  show p: "path_of pkg = (fst (path_of dir), snd (path_of dir) @ [n])"
    unfolding pkg_def using path_of_join[OF assms(2) n(1) pl] conjunct2[OF g] by simp
  show ne: "pkg \<noteq> []" using p by (auto simp: path_of_def)
  show G: "good_file f \<and> Split (CHR ''/'') f = [f]" if "f \<in> snd ` set (moduleFiles n)" for f
    using that good_go_file[OF n(2), of "''.go''"] good_go_file[OF n(2), of "''_test.go''"] by (auto simp: moduleFiles_def)
  have o: "out_path pkg f = (fst (path_of dir), snd (path_of dir) @ [n, f])" if "f \<in> snd ` set (moduleFiles n)" for f
    using out_path_below[OF ne] G[OF that] p by simp
  show "distinct (map (out_path pkg \<circ> snd) (moduleFiles n))"
    using o[of "n @ ''.go''"] o[of "n @ ''_test.go''"] by (simp add: moduleFiles_def)
  have "good_file ''main.go'' \<and> Split (CHR ''/'') ''main.go'' = [''main.go'']" by (rule good_plain) auto
  then have "out_path dir ''main.go'' = (fst (path_of dir), snd (path_of dir) @ [''main.go''])"
    using out_path_below[OF assms(2)] by simp
  with o show "out_path pkg f \<noteq> out_path dir ''main.go''" if "f \<in> snd ` set (moduleFiles n)" for f
    using that by simp
qed

lemma writePackage_keeps:
  assumes "disk_ok d" "disk_Stat env d (path_of pkg) = NotFound" "validPackageName u n = None" "dir \<noteq> []"
    "pkg = filepath_Join [dir, n]" "writePackage env render n pkg mp d = (d', e)"
  shows "keeps d d' \<and> (e = None \<longrightarrow> (\<forall>(tmpl, f) \<in> set (moduleFiles n). \<exists>s. render tmpl (module_data n mp) = Ok s \<and>
      map_of d' (out_path pkg f) = Some (File s)))"
proof -
  note P = package_paths[OF assms(3,4), folded assms(5)]
  have "\<not> is_dir d (path_of pkg)" using assms(2) by (auto simp: disk_Stat_def split: option.splits if_splits)
  then have fr: "free_below d (path_of pkg)" by (rule absent_free[OF assms(1)])
  obtain d1 e1 where m: "disk_MkdirAll env (path_of pkg) d = (d1, e1)" by fastforce
  note k1 = MkdirAll_keeps_but[OF m]
  show ?thesis
  proof (cases e1)
    case (Some x)
    with assms(6) m have "d' = d1" "e \<noteq> None" by (auto simp: writePackage_def)
    with MkdirAll_keeps[OF m] show ?thesis by auto
  next
    case None
    with assms(6) m have w: "write_package_files env render pkg (module_data n mp) (moduleFiles n) d1 = (d', e)"
      by (simp add: writePackage_def)
    have "keeps_but ((out_path pkg \<circ> snd) ` set (moduleFiles n)) d d'"
      using keeps_but_trans[OF k1 write_package_files_keeps[OF w]] by simp
    then have "keeps d d'"
      by (rule keeps_but_free) (use out_path_free[OF P(1) _ fr] P(3) in fastforce)
    moreover have "\<forall>(tmpl, f) \<in> set (moduleFiles n). \<exists>s. render tmpl (module_data n mp) = Ok s \<and>
        map_of d' (out_path pkg f) = Some (File s)" if "e = None"
      using write_package_files_complete[OF w[unfolded that] P(4)] .
    ultimately show ?thesis by blast
  qed
qed


section \<open>Whole commands\<close>

lemma scaffold_file_paths:
  assumes "dir \<noteq> []"
  shows "\<forall>f \<in> snd ` set scaffold_files. good_file f" "distinct (map (out_path dir \<circ> snd) scaffold_files)"
proof -
  have g: "list_all good_file (map snd scaffold_files)" by code_simp
  then show "\<forall>f \<in> snd ` set scaffold_files. good_file f" by (auto simp: list_all_iff)
  have "distinct (map (Split (CHR ''/'') \<circ> snd) scaffold_files)" by code_simp
  then have "distinct (map (\<lambda>q. (fst (path_of dir), snd (path_of dir) @ q)) (map (Split (CHR ''/'') \<circ> snd) scaffold_files))"
    by (simp add: distinct_map inj_on_def)
  moreover have "map (out_path dir \<circ> snd) scaffold_files =
      map (\<lambda>q. (fst (path_of dir), snd (path_of dir) @ q)) (map (Split (CHR ''/'') \<circ> snd) scaffold_files)"
    using g out_path_below[OF assms] by (simp add: list_all_iff)
  ultimately show "distinct (map (out_path dir \<circ> snd) scaffold_files)" by (simp only:)
qed

lemma project_dir_nonempty: "validName (pjName p) = None \<Longrightarrow> project_dir p \<noteq> []"
  by (cases "pjName p") (auto simp: validName_def project_dir_def)

lemma Generate_accepted:
  assumes "Project_Generate env render p d = (d', e)" "d' \<noteq> d \<or> e = None"
  shows "validName (pjName p) = None \<and> validModule (project_module p) = None \<and>
      emptyOrAbsent env d (project_dir p) = None \<and>
      write_project env render (project_dir p) (project_data p) scaffold_files d = (d', e)"
  using assms by (auto simp: Project_Generate_def split: option.splits)

lemma Generate_keeps:
  assumes "disk_ok d" "Project_Generate env render p d = (d', e)"
  shows "keeps d d'"
proof (cases "d' = d")
  case False
  with Generate_accepted[OF assms(2)] have a: "validName (pjName p) = None" "emptyOrAbsent env d (project_dir p) = None"
    "write_project env render (project_dir p) (project_data p) scaffold_files d = (d', e)" by auto
  note ne = project_dir_nonempty[OF a(1)]
  have "free_below d (path_of (project_dir p))" using emptyOrAbsent_free assms(1) a(2) by blast
  then show ?thesis
    using write_project_keeps[OF a(3)] scaffold_file_paths(1)[OF ne] out_path_free[OF ne]
    by (elim keeps_but_free) fastforce
qed simp

lemma Generate_complete:
  assumes "Project_Generate env render p d = (d', None)"
  shows "\<forall>(tmpl, f) \<in> set scaffold_files. \<exists>s. render tmpl (project_data p) = Ok s \<and>
      map_of d' (out_path (project_dir p) f) = Some (File s)"
proof -
  have a: "validName (pjName p) = None"
    "write_project env render (project_dir p) (project_data p) scaffold_files d = (d', None)"
    using Generate_accepted[OF assms] by auto
  from write_project_complete[OF a(2) scaffold_file_paths(2)[OF project_dir_nonempty[OF a(1)]]] show ?thesis .
qed

text \<open>C39: \<open>fabrin new\<close> never overwrites: whatever fails on the way, every file and directory there was is still
  there, with its bytes. Nothing at all is written before the name, the module path and the target were
  accepted, and when the command succeeds every file of the project is there as its template renders it.\<close>

theorem scaffold_never_overwrites:
  assumes "disk_ok d" "Project_Generate env render p d = (d', e)"
  shows "keeps d d' \<and>
    (d' \<noteq> d \<longrightarrow> validName (pjName p) = None \<and> validModule (project_module p) = None \<and>
       emptyOrAbsent env d (project_dir p) = None) \<and>
    (e = None \<longrightarrow> (\<forall>(tmpl, f) \<in> set scaffold_files. \<exists>s. render tmpl (project_data p) = Ok s \<and>
       map_of d' (out_path (project_dir p) f) = Some (File s)))"
  using Generate_keeps[OF assms] Generate_accepted[OF assms(2)] Generate_complete[of env render p d d'] assms(2)
  by blast

definition ex_osenv :: osenv where
  "ex_osenv = \<lparr>osFails = (\<lambda>_ _. None), osPartial = (\<lambda>_. None)\<rparr>"

definition ex_render :: renderer where
  "ex_render tmpl data = Ok (tmpl @ '' '' @ (case map_of data ''Package'' of Some n \<Rightarrow> n | None \<Rightarrow> []))"

definition ex_project :: project where
  "ex_project = \<lparr>pjName = ''demo'', pjModule = [], pjDir = []\<rparr>"

definition ex_disk :: disk where
  "ex_disk = [((False, [''notes'']), File ''mine'')]"

lemma ex_disk_ok: "disk_ok ex_disk"
  by (auto simp: disk_ok_def is_dir_def path_parent_def ex_disk_def split: if_splits)

lemma scaffold_never_overwrites_witness:
  "keeps ex_disk (fst (Project_Generate ex_osenv ex_render ex_project ex_disk)) \<and>
   snd (Project_Generate ex_osenv ex_render ex_project ex_disk) = None \<and>
   map_of (fst (Project_Generate ex_osenv ex_render ex_project ex_disk)) (False, [''demo'', ''main.go'']) =
     Some (File ''main.go.tmpl home'')"
proof -
  have "snd (Project_Generate ex_osenv ex_render ex_project ex_disk) = None"
    "map_of (fst (Project_Generate ex_osenv ex_render ex_project ex_disk)) (False, [''demo'', ''main.go'']) =
     Some (File ''main.go.tmpl home'')" by code_simp+
  with scaffold_never_overwrites[OF ex_disk_ok prod.collapse[symmetric], of ex_osenv ex_render ex_project]
  show ?thesis by blast
qed




definition ex_main :: string where
  "ex_main = ''import ('' @ [CHR 0x0A, CHR 0x09] @ ''\"fabrin\"'' @ [CHR 0x0A] @ '')'' @ [CHR 0x0A, CHR 0x0A] @
     ''var app = fabrin.New(o)'' @ [CHR 0x0A]"

text \<open>A parser that knows this text and what is wired from it.\<close>

definition ex_go_parse :: go_parser where
  "ex_go_parse mode s =
     (if Contains s ''fabrin.New(o''
      then Some \<lparr>gfNodes = [OtherNode, CallNode \<lparr>ceFun = SelectorExpr (IdentX ''fabrin'') ''New'',
               ceLparen = \<lparr>posLine = 5, posOffset = 42\<rparr>, ceRparen = \<lparr>posLine = 5, posOffset = 44\<rparr>\<rparr>],
             gfDecls = [ImportDecl [Some \<lparr>isPath = ''\"fabrin\"'', isPos = \<lparr>posLine = 2, posOffset = 10\<rparr>,
               isEnd = \<lparr>posLine = 2, posOffset = 18\<rparr>\<rparr>] \<lparr>posLine = 3, posOffset = 19\<rparr>, OtherDecl]\<rparr>
      else None)"

definition ex_app_disk :: disk where
  "ex_app_disk = [((False, [''go.mod'']), File ''module demo''), ((False, [''main.go'']), File ex_main)]"

definition ex_tables :: unicode_tables where
  "ex_tables = \<lparr>letter_table = (\<lambda>_. False), digit_table = (\<lambda>_. False), upper_table = (\<lambda>_. False)\<rparr>"


end
