(* ===== verification/Fabrin_Tool.thy ===== *)
theory Fabrin_Tool
  imports Cli Config Scaffold_Correct
begin

text \<open>
  The command \<open>fabrin\<close> (cmd/fabrin/main.go): its three commands, as functions of the flag values, the disk and
  the output, and \<open>tidy\<close>. The \<open>go\<close> program it starts is a parameter, which may change the disk and write to
  the output; so are the environment and the build information.
\<close>

datatype tool_err = NotOneName string | Scaffolding scaffold_err | OutputFailed | TidyFailed string string

type_synonym tool_state = "disk \<times> writer"

type_synonym go_program = "string \<Rightarrow> string list \<Rightarrow> string \<Rightarrow> tool_state \<Rightarrow> tool_state \<times> string option"

definition tidy :: "(string \<Rightarrow> string) \<Rightarrow> go_program \<Rightarrow> string \<Rightarrow> tool_state \<Rightarrow> tool_state \<times> tool_err option" where
  "tidy getenv go dir st =
     (case Fprint (''resolving dependencies (go mod tidy)'' @ [CHR 0xE2, CHR 0x80, CHR 0xA6, CHR 0x0A]) (snd st) of
        (out, ok) \<Rightarrow>
          if \<not> ok then ((fst st, out), Some OutputFailed)
          else (case go (if getenv ''GO'' \<noteq> [] then getenv ''GO'' else ''go'') [''mod'', ''tidy''] dir (fst st, out) of
                  (st, None) \<Rightarrow> (st, None)
                | (st, Some e) \<Rightarrow> (st, Some (TidyFailed dir e))))"

text \<open>A flag keeps the last value set, or its default.\<close>

definition flag_value :: "flag_values \<Rightarrow> string \<Rightarrow> string \<Rightarrow> string" where
  "flag_value vals name dflt =
     (case filter (\<lambda>(n, _). n = name) vals of [] \<Rightarrow> dflt | v # vs \<Rightarrow> snd (last (v # vs)))"

definition print_last :: "string \<Rightarrow> tool_state \<Rightarrow> tool_state \<times> tool_err option" where
  "print_last s st =
     (case Fprint s (snd st) of (out, ok) \<Rightarrow> ((fst st, out), if ok then None else Some OutputFailed))"

definition new_project :: "flag_values \<Rightarrow> string \<Rightarrow> project" where
  "new_project vals name =
     \<lparr>pjName = name, pjModule = flag_value vals ''module'' [], pjDir = filepath_Join [flag_value vals ''dir'' ''.'', name]\<rparr>"

definition run_new ::
    "osenv \<Rightarrow> renderer \<Rightarrow> (string \<Rightarrow> string) \<Rightarrow> go_program \<Rightarrow> flag_values \<Rightarrow> string list \<Rightarrow> tool_state \<Rightarrow>
     tool_state \<times> tool_err option" where
  "run_new env render getenv go vals args st =
     (case args of
        [name] \<Rightarrow>
          (let p = new_project vals name; nl = [CHR 0x0A] in
           case Project_Generate env render p (fst st) of
             (d, Some e) \<Rightarrow> ((d, snd st), Some (Scaffolding e))
           | (d, None) \<Rightarrow>
               (case print_last (''created '' @ pjDir p @ nl) (d, snd st) of
                  (st, Some e) \<Rightarrow> (st, Some e)
                | (st, None) \<Rightarrow>
                    (case (if ParseBool (flag_value vals ''skip-tidy'' ''false'') = Some True then (st, None)
                           else tidy getenv go (pjDir p) st) of
                       (st, Some e) \<Rightarrow> (st, Some e)
                     | (st, None) \<Rightarrow>
                         print_last (nl @ ''    cd '' @ pjDir p @ nl @ ''    just run'' @ nl) st)))
      | _ \<Rightarrow> (st, Some (NotOneName ''new'')))"

definition run_startapp ::
    "osenv \<Rightarrow> unicode_tables \<Rightarrow> renderer \<Rightarrow> go_parser \<Rightarrow> flag_values \<Rightarrow> string list \<Rightarrow> tool_state \<Rightarrow>
     tool_state \<times> tool_err option" where
  "run_startapp env u render parse vals args st =
     (case args of
        [name] \<Rightarrow>
          (let dir = flag_value vals ''dir'' ''.''; nl = [CHR 0x0A] in
           case Module_Generate env u render parse \<lparr>mdName = name, mdDir = dir\<rparr> (fst st) of
             (d, Some e) \<Rightarrow> ((d, snd st), Some (Scaffolding e))
           | (d, None) \<Rightarrow>
               print_last (''created '' @ filepath_Join [dir, name] @ ''/ and wired it into '' @
                 filepath_Join [dir, ''main.go''] @ nl @ nl @ ''    go run . routes'' @ nl) (d, snd st))
      | _ \<Rightarrow> (st, Some (NotOneName ''startapp'')))"

definition tool_version :: "string option \<Rightarrow> string" where
  "tool_version info = (case info of None \<Rightarrow> ''unknown'' | Some v \<Rightarrow> if v = [] then ''unknown'' else v)"

definition run_version :: "string option \<Rightarrow> tool_state \<Rightarrow> tool_state \<times> tool_err option" where
  "run_version info st = print_last (''fabrin '' @ tool_version info @ [CHR 0x0A]) st"

text \<open>The command table, over what the commands run.\<close>

type_synonym tool_run = "flag_values \<Rightarrow> writer \<Rightarrow> string list \<Rightarrow> writer \<times> string option"

definition tool_commands :: "tool_run \<Rightarrow> tool_run \<Rightarrow> tool_run \<Rightarrow> command list" where
  "tool_commands new startapp version =
     (let text = (\<lambda>n. \<lparr>fgName = n, fgBool = False, fgSet = (\<lambda>_. None)\<rparr>) in
      [\<lparr>cmName = ''new'', cmShort = ''scaffold a runnable Fabrin project'',
         cmFlags = Some [text ''module'', text ''dir'',
           \<lparr>fgName = ''skip-tidy'', fgBool = True, fgSet = (\<lambda>v. if ParseBool v = None then Some ''parse error'' else None)\<rparr>],
         cmRun = Some new\<rparr>,
       \<lparr>cmName = ''startapp'', cmShort = ''scaffold a module into this project and wire it in'',
         cmFlags = Some [text ''dir''], cmRun = Some startapp\<rparr>,
       \<lparr>cmName = ''version'', cmShort = ''print this tool'' @ [CHR 0x27] @ ''s version'', cmFlags = None, cmRun = Some version\<rparr>])"

lemma tool_commands_distinct: "checkDuplicates (tool_commands new startapp version) = None"
  by (simp add: checkDuplicates_def tool_commands_def Let_def)

text \<open>
  A failing \<open>go mod tidy\<close> leaves the project: \<open>go\<close> starts on a disk that holds all of it and everything
  there was before.
\<close>

lemma run_new_tidy_failed:
  assumes "disk_ok (fst st)" "run_new env render getenv go vals args st = (st', Some (TidyFailed dir e))"
  shows "\<exists>name d out bin. args = [name] \<and> dir = pjDir (new_project vals name) \<and>
    go bin [''mod'', ''tidy''] dir (d, out) = (st', Some e) \<and> keeps (fst st) d \<and>
    (\<forall>(tmpl, f) \<in> set scaffold_files. \<exists>s. map_of d (out_path dir f) = Some (File s))"
proof -
  from assms(2) obtain name where a: "args = [name]"
    by (auto simp: run_new_def split: list.splits)
  define p where "p = new_project vals name"
  obtain d r where g: "Project_Generate env render p (fst st) = (d, r)" by fastforce
  from assms(2) a g obtain out where r: "r = None" "tidy getenv go (pjDir p) (d, out) = (st', Some (TidyFailed dir e))"
    by (auto simp: run_new_def p_def[symmetric] print_last_def Let_def split: option.splits prod.splits if_splits)
  then obtain bin out' where t: "dir = pjDir p" "go bin [''mod'', ''tidy''] dir (d, out') = (st', Some e)"
    by (auto simp: tidy_def split: prod.splits if_splits option.splits)
  have g': "Project_Generate env render p (fst st) = (d, None)" using g r(1) by simp
  have "project_dir p = dir"
    using t(1) by (auto simp: project_dir_def p_def new_project_def filepath_Join_def filepath_Clean_def Let_def)
  with Generate_complete[OF g'] have "\<forall>(tmpl, f) \<in> set scaffold_files. \<exists>s. map_of d (out_path dir f) = Some (File s)"
    by fastforce
  with a t Generate_keeps[OF assms(1) g'] p_def show ?thesis by blast
qed

end
