(* ===== verification/Spec2Isabelle.thy ===== *)
theory Spec2Isabelle
  imports Schema_Correct Orm Migratediff_Correct Dialects_Correct Makemigrations_Correct Migrate_Correct Auth_Store_History Auth_Store_Budgets Auth_Service_Correct Cli_Correct Config_Correct Health_Correct App_Correct Auth_Http_Correct Auth_Redis_Correct Admin_Correct Mail Logging Auth_Pg_Correct Fabrin_Tool
begin

text \<open>
  A verification development of Fabrin, a web framework in Go for applications made of modules.

  \<^bold>\<open>The program.\<close> An application mounts \<^emph>\<open>modules\<close> (module.go) that declare database models, routes,
  checks, commands, migrations and a lifecycle. \<open>App\<close> (app.go) validates the set, owns the router and
  runs the server; \<open>Execute\<close> (execute.go) is its command line, over the dispatcher of \<open>cli\<close> and the
  settings of \<open>config\<close>. The models of the modules make up a \<^emph>\<open>registry\<close> (orm/orm.go).
  \<open>makemigrations\<close> compares the registry with the state recorded at the last migration (orm/state.go)
  by \<open>Diff\<close> (migratediff/migratediff.go), renders the difference as SQL (the two dialects) and
  writes migrations; the migration engine (migrate/migrate.go) applies them and takes them back.
  Signing in by a mailed code is the service of \<open>auth\<close> over a store, which is the in-memory one
  (auth/memory.go) or the one in Redis (authredis); \<open>authpg\<close> keeps the identities and \<open>authhttp\<close> has
  the handlers. \<open>health\<close> probes readiness, \<open>admin\<close> lists and edits resources, \<open>schema\<close> generates
  typed records, \<open>mail\<close> captures messages, \<open>logging\<close> writes the access log and the scaffold creates projects.

  \<^bold>\<open>The theories.\<close> A component is a theory with its state, operations and first lemmas, mostly with a
  second one, \<open>..._Correct\<close>, that proves what it promises. Definitions keep the names of the code;
  where a name clashes, the package or the type is put before it.

  \<^item> \<open>Go_Prelude\<close>: what the sources use of Go's strings, \<open>strconv\<close>, maps, times, readers and writers.
    A Go map is an association list with distinct keys; where the code ranges over a map, the order
    is an argument, and the theorems hold for every order. \<open>result\<close> is \<open>(T, error)\<close>.
    \<open>Go_Utf8\<close>: runes, validity and identifiers. \<open>Go_Encoding\<close>: hex and base64, with their round trips.
  \<^item> \<open>Orm\<close>: orm/orm.go (\<open>Model\<close>, \<open>validate\<close>, \<open>Registry.Register\<close>) and orm/state.go (\<open>Snapshot\<close>, the
    state codec, \<open>ReplayState\<close>). The locale \<open>schema_source\<close> is the interface of everything that holds a
    schema; registry and snapshot provide it.
  \<^item> \<open>Migratediff\<close>: the operations and \<open>Diff\<close>. \<open>Migratediff_Correct\<close> gives the operations a meaning on
    abstract tables and proves that a difference leads from one schema to the other, and its inverse back.
  \<^item> \<open>Dialects\<close>: dialect_postgres.go, dialect_sqlite.go, the shared naming and quoting, \<open>Apply\<close>.
    \<open>Dialects_Correct\<close>: quoting cannot be escaped, and \<open>Apply\<close> renders everything before it executes
    anything (locale \<open>dialect\<close>, provided by both dialects).
  \<^item> \<open>Makemigrations\<close>: makemigrations.go with its files, prompts and versions, over \<open>Migratediff\<close>.
    \<open>Makemigrations_Correct\<close>: rollbacks undo, the recorded state follows the live schema.
  \<^item> \<open>Migrate\<close>: migrate/migrate.go and migrate_cmd.go, a database whose every call may fail.
    \<open>Migrate_Correct\<close>: \<open>Run\<close> and \<open>Rollback\<close> are exact under every sequence of failures; the locale
    \<open>atomic_step\<close> is the step both loops repeat.
  \<^item> \<open>Auth_Store\<close>: auth/memory.go. \<open>Auth_Store_Correct\<close>: its invariant under every call;
    \<open>Auth_Store_History\<close>: histories of calls (single use, supersession, revocation);
    \<open>Auth_Store_Budgets\<close>: the rolling limits, once over the locale \<open>rolling_budget\<close>.
  \<^item> \<open>Auth_Service\<close>: auth/auth.go, challenge.go, session.go and browser.go over a record of store
    methods. \<open>Auth_Service_Correct\<close>: the chain from a request to a session over the locale
    \<open>sign_in_store\<close>, and the refinement of auth/challenge.go by the store.
  \<^item> \<open>Auth_Redis\<close>: authredis/authredis.go, each Lua script a function of the server's clock and a typed
    database. \<open>Auth_Redis_Correct\<close>: exactly-once completion and budgets for any interleaving of clients.
  \<^item> \<open>Auth_Http\<close>: authhttp/native.go and browser.go, auth/context.go. \<open>Auth_Http_Correct\<close>: the handlers
    over the locale \<open>proof_backend\<close>, with other requests between any two calls on the store.
  \<^item> \<open>Cli\<close>: cli/cli.go; \<open>Config\<close>: config/*.go; \<open>Health\<close>: health/health.go as transitions over events;
    \<open>Modules\<close> and \<open>App\<close>: module.go, app.go and execute.go; each with its \<open>_Correct\<close> theory.
  \<^item> \<open>Schema\<close>: schema/schema.go with the generated text. \<open>Schema_Correct\<close>: what it accepts is what
    \<open>Orm\<close> accepts, and generation fails exactly for the reasons the package names.
  \<^item> \<open>Admin\<close>: admin/admin.go over the persistence functions of a resource. \<open>Admin_Correct\<close>: the order
    of the guards of each operation, and the binding of a form to the declared fields.
  \<^item> \<open>Mail\<close>: mail/mail.go, the bounded inbox;
    \<open>Logging\<close>: logging/logging.go, request ids and the access log.
  \<^item> \<open>Auth_Pg\<close>: authpg/authpg.go, a transaction whose every statement may fail. \<open>Auth_Pg_Correct\<close>:
    one identity for an email, along any history of calls.
  \<^item> \<open>Scaffold\<close>: internal/scaffold/*.go over a disk whose every call may fail. \<open>Scaffold_Correct\<close>:
    cleaned paths, what is kept, what is complete, and the edit of main.go. \<open>Fabrin_Tool\<close>: cmd/fabrin/main.go.

  \<^bold>\<open>How the program is rendered.\<close> Code that keeps state is a function from the state to the new state
  and the result. A method that holds a mutex throughout, or a Lua script, is one step; where several
  steps run with others between them, what the others do is an argument (\<open>wdOther\<close> of the handlers,
  \<open>rnOther\<close> of the Redis methods) or the schedule is a list of events (\<open>Health\<close>). Errors are values
  of a datatype per package; what the code wraps into a message keeps the values, not the prose.
  Integers of the sources count small things and are \<open>nat\<close> or \<open>int\<close>; durations, whose subtraction
  saturates in Go, saturate here, and versions that run out are treated as the code treats them. No definition
  uses fuel: every loop is structural or has a measure, given with it.

  \<^bold>\<open>Parameters.\<close> SHA-256 and HMAC, the JSON encoder and decoder, \<open>strconv.Quote\<close>, \<open>gofmt\<close>,
  \<open>net/mail.ParseAddress\<close>, the parsers of URLs, media types, addresses and durations, the tables of
  Unicode, \<open>text/template\<close>, the Go parser, the \<open>go\<close> program, Gin's engine, \<open>log/slog\<close>, and what the caller passes in: stores,
  senders, persistence functions, modules and their effects. Random draws, clocks, contexts, failures of the
  network and of the database, and the order of map iteration are arguments. A theorem that needs a
  law of a parameter has it as a named hypothesis, with a witness that satisfies it.

  \<^bold>\<open>Not modelled.\<close> doc.go has no code and router.go only an interface and aliases of Gin's types. The packages under tools/ check the repository itself
  (its documents, its API listing and its skill files) and are no part of the program; examples/ are demonstrations.
  Within the modelled packages: \<open>Ping\<close> and \<open>Close\<close> of the Redis store, which only
  call the client library, \<open>main\<close> of cmd/fabrin, which prints an error and exits, and the texts of error messages.
\<close>

end
